(* ===== verification/Prelude.thy ===== *)
theory Prelude
  imports Main "HOL-Library.Word" "HOL-Library.Monad_Syntax"
begin

text \<open>
  Shared vocabulary of the development: the Go value types the gateway computes with
  (bytes, byte strings, 64-bit signed integers), the slice expression \<open>xs[lo:hi]\<close> with its
  run-time panic, and the generic lemmas and rule collections the component theories build on.

  Conventions used throughout:
  \<^item> an \<open>option\<close> result of an operation means that \<open>None\<close> is a Go run-time panic (slice bounds
    out of range); ordinary Go errors are values of sum or option types of their own;
  \<^item> Go's \<open>int\<close> is \<^typ>\<open>int\<close>, reduced by \<open>i64\<close> after every operation whose operands can come
    from a client or from the configuration, so that wrap-around is visible;
  \<^item> references (\<open>ItemRef\<close>, \<open>ResponseRef\<close>, \<open>Generation\<close>) are \<^typ>\<open>nat\<close>, zero meaning none.
\<close>

section \<open>Rule collections\<close>

named_theorems go_arith \<open>removal of wrap-around for values in range\<close>
named_theorems inv_intros \<open>introduction rules for component invariants\<close>
named_theorems step_defs \<open>definitions of the operations a step unfolds\<close>

section \<open>Go values\<close>

type_synonym pcm = "8 word list"

text \<open>Two's complement 64-bit reduction: the value of a Go \<open>int\<close> expression.\<close>

definition i64 :: "int \<Rightarrow> int" where
  "i64 x = (x + 2 ^ 63) mod 2 ^ 64 - 2 ^ 63"

definition in_i64 :: "int \<Rightarrow> bool" where
  "in_i64 x \<longleftrightarrow> - (2 ^ 63) \<le> x \<and> x < 2 ^ 63"

lemma i64_id [go_arith]: "in_i64 x \<Longrightarrow> i64 x = x"
  by (simp add: i64_def in_i64_def mod_pos_pos_trivial)

lemma i64_in: "in_i64 (i64 x)"
proof -
  have "0 \<le> (x + 2 ^ 63) mod 2 ^ 64" and "(x + 2 ^ 63) mod 2 ^ 64 < (2 ^ 64 :: int)"
    by simp_all
  then show ?thesis by (simp add: i64_def in_i64_def)
qed

lemma i64_nonneg_small: "0 \<le> x \<Longrightarrow> x < 2 ^ 63 \<Longrightarrow> i64 x = x"
  by (rule i64_id) (simp add: in_i64_def)

text \<open>Go's integer division and remainder truncate towards zero.\<close>

definition go_div :: "int \<Rightarrow> int \<Rightarrow> int" where
  "go_div a b = sgn a * sgn b * (\<bar>a\<bar> div \<bar>b\<bar>)"

definition go_rem :: "int \<Rightarrow> int \<Rightarrow> int" where
  "go_rem a b = a - b * go_div a b"

lemma go_div_nonneg [simp]: "0 \<le> a \<Longrightarrow> 0 < b \<Longrightarrow> go_div a b = a div b"
  by (cases "a = 0") (simp_all add: go_div_def)

lemma go_rem_nonneg [simp]: "0 \<le> a \<Longrightarrow> 0 < b \<Longrightarrow> go_rem a b = a mod b"
  by (simp add: go_rem_def minus_mult_div_eq_mod)

section \<open>Slices\<close>

text \<open>\<open>xs[lo:hi]\<close>: a run-time panic (\<^term>\<open>None\<close>) unless \<open>0 \<le> lo \<le> hi \<le> len(xs)\<close>.\<close>

definition go_slice :: "int \<Rightarrow> int \<Rightarrow> 'a list \<Rightarrow> 'a list option" where
  "go_slice lo hi xs =
     (if 0 \<le> lo \<and> lo \<le> hi \<and> hi \<le> int (length xs)
      then Some (take (nat hi - nat lo) (drop (nat lo) xs)) else None)"

lemma go_slice_length:
  "go_slice lo hi xs = Some ys \<Longrightarrow> int (length ys) = hi - lo"
  by (auto simp: go_slice_def split: if_splits)

lemma go_slice_Some:
  "0 \<le> lo \<Longrightarrow> lo \<le> hi \<Longrightarrow> hi \<le> int (length xs) \<Longrightarrow>
   go_slice lo hi xs = Some (take (nat hi - nat lo) (drop (nat lo) xs))"
  by (simp add: go_slice_def)

lemma go_slice_None_iff:
  "go_slice lo hi xs = None \<longleftrightarrow> \<not> (0 \<le> lo \<and> lo \<le> hi \<and> hi \<le> int (length xs))"
  by (simp add: go_slice_def)

lemma go_slice_tail:
  "0 \<le> lo \<Longrightarrow> lo \<le> int (length xs) \<Longrightarrow> go_slice lo (int (length xs)) xs = Some (drop (nat lo) xs)"
  by (simp add: go_slice_def nat_diff_distrib)

section \<open>Lists\<close>

text \<open>Insertion at a position, as \<open>append\<close>, \<open>copy\<close> and an assignment do it in place.\<close>

definition insert_at :: "nat \<Rightarrow> 'a \<Rightarrow> 'a list \<Rightarrow> 'a list" where
  "insert_at n x xs = take n xs @ x # drop n xs"

lemma set_insert_at [simp]: "set (insert_at n x xs) = insert x (set xs)"
proof -
  have "set (take n xs @ drop n xs) = set xs" by simp
  then show ?thesis by (auto simp: insert_at_def simp del: append_take_drop_id)
qed

lemma length_insert_at [simp]: "length (insert_at n x xs) = Suc (length xs)"
  by (simp add: insert_at_def)

lemma distinct_insert_at: "x \<notin> set xs \<Longrightarrow> distinct xs \<Longrightarrow> distinct (insert_at n x xs)"
  by (auto simp: insert_at_def set_take_disj_set_drop_if_distinct dest: in_set_takeD in_set_dropD)

lemma insert_at_end [simp]: "insert_at (length xs) x xs = xs @ [x]"
  by (simp add: insert_at_def)

lemma map_insert_at: "map f (insert_at n x xs) = insert_at n (f x) (map f xs)"
  by (simp add: insert_at_def take_map drop_map)

lemma remove1_distinct_filter: "distinct xs \<Longrightarrow> remove1 x xs = filter (\<lambda>y. y \<noteq> x) xs"
  by (auto simp: distinct_remove1_removeAll removeAll_filter_not_eq intro!: filter_cong)

text \<open>The index of the first occurrence, \<open>-1\<close> when absent, as the source's search loops compute it.\<close>

fun index_from :: "int \<Rightarrow> 'a \<Rightarrow> 'a list \<Rightarrow> int" where
  "index_from i x [] = -1"
| "index_from i x (y # ys) = (if y = x then i else index_from (i + 1) x ys)"

lemma index_from_absent: "x \<notin> set xs \<Longrightarrow> index_from i x xs = -1"
  by (induction xs arbitrary: i) auto

lemma index_from_split: "x \<notin> set ys \<Longrightarrow> index_from i x (ys @ x # zs) = i + int (length ys)"
  by (induction ys arbitrary: i) auto

section \<open>Decimal numerals\<close>

text \<open>\<open>%d\<close> on a non-negative number.\<close>

fun nat_str :: "nat \<Rightarrow> string" where
  "nat_str n = (if n < 10 then [char_of (48 + n)] else nat_str (n div 10) @ [char_of (48 + n mod 10)])"

declare nat_str.simps [simp del]

section \<open>Machines\<close>

text \<open>
  A deterministic machine with an invariant: every component whose operations share one state
  and one invariant instantiates it, and gets the invariant for all runs.
\<close>

fun run_machine :: "('s \<Rightarrow> 'e \<Rightarrow> 's) \<Rightarrow> 's \<Rightarrow> 'e list \<Rightarrow> 's" where
  "run_machine f s [] = s"
| "run_machine f s (e # es) = run_machine f (f s e) es"

lemma run_machine_append:
  "run_machine f s (xs @ ys) = run_machine f (run_machine f s xs) ys"
  by (induction xs arbitrary: s) auto

locale machine =
  fixes step :: "'s \<Rightarrow> 'e \<Rightarrow> 's"
    and inv :: "'s \<Rightarrow> bool"
  assumes step_inv: "inv s \<Longrightarrow> inv (step s e)"
begin

lemma run_inv: "inv s \<Longrightarrow> inv (run_machine step s es)"
  by (induction es arbitrary: s) (auto intro: step_inv)

end

end
