(* ===== verification/Float64.thy ===== *)
theory Float64
  imports Prelude Complex_Main "HOL-Library.Log_Nat"
begin

text \<open>
  Go's \<open>float64\<close> on the finite values the gateway computes: a double is the rational it denotes,
  and every operation is the exact result rounded to 53 significant bits, ties to even (the
  IEEE 754 default). Overflow and subnormal results do not occur in the modelled code (levels,
  thresholds and text fractions lie between \<open>2^-60\<close> and \<open>2^60\<close> or are zero). The two laws a
  client needs of rounding, monotonicity and exactness on integers up to \<open>2^53\<close>, are the locale
  \<open>rounding\<close>, interpreted by \<open>f64_round\<close>.
\<close>

type_synonym f64 = rat

section \<open>Rounding\<close>

definition rne :: "rat \<Rightarrow> int" where
  "rne x = (let f = \<lfloor>x\<rfloor>; d = x - of_int f in
     if d < 1 / 2 then f else if 1 / 2 < d then f + 1 else if even f then f else f + 1)"

definition bitlen :: "int \<Rightarrow> int" where
  "bitlen n = int (floorlog 2 (nat n))"

text \<open>The binary exponent: \<open>2^(ilog2 q) \<le> q < 2^(ilog2 q + 1)\<close> for positive \<open>q\<close>.\<close>

definition ilog2 :: "rat \<Rightarrow> int" where
  "ilog2 q = (case quotient_of q of (a, b) \<Rightarrow>
     let k = bitlen a - bitlen b in if q < 2 powi k then k - 1 else k)"

definition f64_round :: "rat \<Rightarrow> f64" where
  "f64_round q = (if q = 0 then 0
     else let e = ilog2 \<bar>q\<bar> - 52 in sgn q * (of_int (rne (\<bar>q\<bar> / 2 powi e)) * 2 powi e))"

definition fadd :: "f64 \<Rightarrow> f64 \<Rightarrow> f64" where "fadd x y = f64_round (x + y)"
definition fmul :: "f64 \<Rightarrow> f64 \<Rightarrow> f64" where "fmul x y = f64_round (x * y)"
definition fdiv :: "f64 \<Rightarrow> f64 \<Rightarrow> f64" where "fdiv x y = f64_round (x / y)"

text \<open>\<open>float64(n)\<close> and \<open>int(f)\<close> (truncation towards zero).\<close>

definition f64_of_int :: "int \<Rightarrow> f64" where "f64_of_int n = f64_round (of_int n)"

definition f64_to_int :: "f64 \<Rightarrow> int" where
  "f64_to_int f = (if 0 \<le> f then \<lfloor>f\<rfloor> else \<lceil>f\<rceil>)"

text \<open>\<open>math.Sqrt\<close>, correctly rounded, through an integer square root.\<close>

function isqrt :: "nat \<Rightarrow> nat" where
  "isqrt n = (if n = 0 then 0
     else let r = 2 * isqrt (n div 4) in if (r + 1) * (r + 1) \<le> n then r + 1 else r)"
  by pat_completeness auto
termination by (relation "measure id") auto

declare isqrt.simps [simp del]

definition fsqrt :: "f64 \<Rightarrow> f64" where
  "fsqrt q = (if q \<le> 0 then 0
     else let e = ilog2 q div 2 - 52;
              m = int (isqrt (nat \<lfloor>q / 4 powi e\<rfloor>));
              h = (of_int m + 1 / 2) * (2 powi e :: rat)
          in if q < h * h then of_int m * 2 powi e
             else if h * h < q then of_int (m + 1) * 2 powi e
             else if even m then of_int m * 2 powi e else of_int (m + 1) * 2 powi e)"

lemma isqrt_correct: "isqrt n * isqrt n \<le> n \<and> n < (isqrt n + 1) * (isqrt n + 1)"
proof (induction n rule: isqrt.induct)
  case (1 n)
  show ?case
  proof (cases "n = 0")
    case True
    then show ?thesis by (simp add: isqrt.simps)
  next
    case False
    define r where "r = isqrt (n div 4)"
    have "r * r \<le> n div 4" "n div 4 < (r + 1) * (r + 1)" using 1 False by (simp_all add: r_def)
    then have "4 * (r * r) \<le> n" "n < 4 * ((r + 1) * (r + 1))" by linarith+
    with False show ?thesis
      by (subst (1 2 3 4) isqrt.simps) (auto simp: Let_def r_def [symmetric] algebra_simps)
  qed
qed

section \<open>Laws of rounding\<close>

lemma rne_mono: "x \<le> y \<Longrightarrow> rne x \<le> rne y"
proof -
  assume xy: "x \<le> y"
  then have f: "\<lfloor>x\<rfloor> \<le> \<lfloor>y\<rfloor>" by (rule floor_mono)
  have up: "rne z \<le> \<lfloor>z\<rfloor> + 1" "\<lfloor>z\<rfloor> \<le> rne z" for z by (simp_all add: rne_def Let_def)
  show "rne x \<le> rne y"
  proof (cases "\<lfloor>x\<rfloor> = \<lfloor>y\<rfloor>")
    case True
    then show ?thesis using xy by (auto simp: rne_def Let_def)
  next
    case False
    with f have "\<lfloor>x\<rfloor> + 1 \<le> \<lfloor>y\<rfloor>" by simp
    then show ?thesis using up[of x] up[of y] by linarith
  qed
qed

lemma rne_of_int [simp]: "rne (of_int n) = n"
  by (simp add: rne_def)

lemma rne_numeral [simp]: "rne (numeral k) = numeral k"
  using rne_of_int[of "numeral k"] by simp

lemma bitlen_bounds:
  assumes "0 < n"
  shows "(2 powi (bitlen n - 1) :: rat) \<le> of_int n" "of_int n < (2 powi bitlen n :: rat)"
proof -
  define k where "k = floorlog 2 (nat n)"
  have pos: "0 < k" using assms floorlog_eq_zero_iff[of 2 "nat n"] by (cases k) (simp_all add: k_def)
  have "2 ^ (k - 1) \<le> nat n" "nat n < 2 ^ k"
    using floorlog_bounds[of "nat n" 2] assms by (simp_all add: k_def)
  then have "2 ^ (k - 1) \<le> n" "n < 2 ^ k"
    using assms by (simp_all add: nat_le_iff le_nat_iff nat_less_iff)
  moreover have "bitlen n = int k" "bitlen n - 1 = int (k - 1)"
    using pos by (simp_all add: bitlen_def k_def of_nat_diff)
  ultimately show "(2 powi (bitlen n - 1) :: rat) \<le> of_int n" "of_int n < (2 powi bitlen n :: rat)"
    by (simp_all only: power_int_of_nat) simp_all
qed

lemma ilog2_bounds:
  assumes "0 < q"
  shows "2 powi (ilog2 q) \<le> q" "q < 2 powi (ilog2 q + 1)"
proof -
  obtain a b where ab: "quotient_of q = (a, b)" by force
  have b: "0 < b" using ab quotient_of_denom_pos by blast
  have q: "q = of_int a / of_int b" using ab by (rule quotient_of_div)
  have a: "0 < a" using assms q b by (simp add: zero_less_divide_iff)
  define k where "k = bitlen a - bitlen b"
  note A = bitlen_bounds[OF a] and B = bitlen_bounds[OF b]
  have "2 powi (k - 1) \<le> q"
  proof -
    have "(2 powi (k - 1) :: rat) = 2 powi (bitlen a - 1) / 2 powi bitlen b"
      by (simp add: k_def power_int_diff [symmetric] algebra_simps)
    also have "\<dots> \<le> of_int a / of_int b" using A B a b by (intro frac_le) simp_all
    finally show ?thesis using q by simp
  qed
  moreover have "q < 2 powi (k + 1)"
  proof -
    have "of_int a / of_int b < 2 powi bitlen a / (2 powi (bitlen b - 1) :: rat)"
      using A B a b by (intro frac_less) simp_all
    also have "\<dots> = 2 powi (k + 1)"
      by (simp add: k_def power_int_diff [symmetric] algebra_simps)
    finally show ?thesis using q by simp
  qed
  ultimately show "2 powi (ilog2 q) \<le> q" "q < 2 powi (ilog2 q + 1)"
    by (auto simp: ilog2_def ab Let_def k_def [symmetric])
qed


lemma ilog2_mono: "0 < x \<Longrightarrow> x \<le> y \<Longrightarrow> ilog2 x \<le> ilog2 y"
proof (rule ccontr)
  assume x: "0 < x" and xy: "x \<le> y" and "\<not> ilog2 x \<le> ilog2 y"
  then have "ilog2 y + 1 \<le> ilog2 x" by simp
  then have "(2 powi (ilog2 y + 1) :: rat) \<le> 2 powi (ilog2 x)"
    by (intro power_int_increasing) simp_all
  also have "\<dots> \<le> x" using x by (rule ilog2_bounds)
  also have "\<dots> \<le> y" by (rule xy)
  also have "\<dots> < 2 powi (ilog2 y + 1)" using x xy by (intro ilog2_bounds) simp
  finally show False by simp
qed

lemma f64_round_pos:
  "0 < q \<Longrightarrow> f64_round q = of_int (rne (q / 2 powi (ilog2 q - 52))) * 2 powi (ilog2 q - 52)"
  by (simp add: f64_round_def Let_def)

lemma scaled_bounds:
  assumes "0 < q"
  shows "2 ^ 52 \<le> q / 2 powi (ilog2 q - 52)" "q / 2 powi (ilog2 q - 52) < 2 ^ 53"
proof -
  have p: "(0::rat) < 2 powi (ilog2 q - 52)" by simp
  have e: "(2 powi (ilog2 q) :: rat) = 2 ^ 52 * 2 powi (ilog2 q - 52)"
    by (simp add: power_int_diff)
  have e': "(2 powi (ilog2 q + 1) :: rat) = 2 ^ 53 * 2 powi (ilog2 q - 52)"
    by (simp add: power_int_diff power_int_add)
  show "2 ^ 52 \<le> q / 2 powi (ilog2 q - 52)"
    using ilog2_bounds(1)[OF assms] p by (simp only: e pos_le_divide_eq)
  show "q / 2 powi (ilog2 q - 52) < 2 ^ 53"
    using ilog2_bounds(2)[OF assms] p by (simp only: e' pos_divide_less_eq)
qed

lemma rne_range: "of_int a \<le> x \<Longrightarrow> x \<le> of_int b \<Longrightarrow> a \<le> rne x \<and> rne x \<le> b"
  using rne_mono[of "of_int a" x] rne_mono[of x "of_int b"] by simp

lemma f64_round_between:
  assumes "0 < q"
  shows "2 powi (ilog2 q) \<le> f64_round q" "f64_round q \<le> 2 powi (ilog2 q + 1)"
proof -
  let ?e = "2 powi (ilog2 q - 52) :: rat"
  have p: "0 \<le> ?e" by simp
  have "of_int (2 ^ 52) \<le> q / ?e" "q / ?e \<le> of_int (2 ^ 53)"
    using scaled_bounds[OF assms] by simp_all
  then have "2 ^ 52 \<le> rne (q / ?e) \<and> rne (q / ?e) \<le> 2 ^ 53" by (rule rne_range)
  then have "(2 ^ 52 :: rat) \<le> of_int (rne (q / ?e))" "of_int (rne (q / ?e)) \<le> (2 ^ 53 :: rat)"
    by simp_all
  then have "2 ^ 52 * ?e \<le> f64_round q" "f64_round q \<le> 2 ^ 53 * ?e"
    using p by (simp_all add: f64_round_pos[OF assms] mult_right_mono)
  then show "2 powi (ilog2 q) \<le> f64_round q" "f64_round q \<le> 2 powi (ilog2 q + 1)"
    by (simp_all add: power_int_diff power_int_add)
qed

lemma f64_round_mono:
  assumes "0 \<le> x" "x \<le> y"
  shows "f64_round x \<le> f64_round y"
proof (cases "x = 0")
  case True
  show ?thesis
  proof (cases "y = 0")
    case False
    then have "0 < y" using assms by simp
    then have "(0::rat) < 2 powi (ilog2 y)" "2 powi (ilog2 y) \<le> f64_round y"
      by (simp_all add: f64_round_between)
    then have "0 \<le> f64_round y" by linarith
    moreover have "f64_round x = 0" using True by (simp add: f64_round_def)
    ultimately show ?thesis by simp
  qed (simp add: True)
next
  case False
  then have x: "0 < x" and y: "0 < y" using assms by auto
  show ?thesis
  proof (cases "ilog2 x = ilog2 y")
    case True
    have "x / 2 powi (ilog2 y - 52) \<le> y / 2 powi (ilog2 y - 52)"
      using assms by (simp add: divide_right_mono)
    then have "rne (x / 2 powi (ilog2 y - 52)) \<le> rne (y / 2 powi (ilog2 y - 52))" by (rule rne_mono)
    then show ?thesis
      by (simp add: f64_round_pos[OF x] f64_round_pos[OF y] True mult_right_mono)
  next
    case False
    then have "ilog2 x + 1 \<le> ilog2 y" using ilog2_mono[OF x assms(2)] by simp
    then have "(2 powi (ilog2 x + 1) :: rat) \<le> 2 powi (ilog2 y)"
      by (intro power_int_increasing) simp_all
    then show ?thesis using f64_round_between(2)[OF x] f64_round_between(1)[OF y] by linarith
  qed
qed

lemma f64_round_nonneg: "0 \<le> x \<Longrightarrow> 0 \<le> f64_round x"
  using f64_round_mono[of 0 x] by (simp add: f64_round_def)

lemma f64_round_int:
  assumes "0 \<le> n" "n \<le> 2 ^ 53"
  shows "f64_round (of_int n) = of_int n"
proof (cases "n = 0")
  case True
  then show ?thesis by (simp add: f64_round_def)
next
  case False
  define q :: rat where "q = of_int n"
  have q: "0 < q" using assms False by (simp add: q_def)
  show ?thesis
  proof (cases "ilog2 q \<le> 52")
    case True
    define m where "m = nat (52 - ilog2 q)"
    have e: "(2 powi (ilog2 q - 52) :: rat) = 1 / 2 ^ m"
    proof -
      have "ilog2 q - 52 = - int m" using True by (simp add: m_def)
      then show ?thesis by (simp add: power_int_minus divide_inverse)
    qed
    have "q / (1 / 2 ^ m) = of_int (n * 2 ^ m)" by (simp add: q_def)
    then have "f64_round q = of_int (n * 2 ^ m) * (1 / 2 ^ m)"
      by (simp only: f64_round_pos[OF q] e rne_of_int)
    then show ?thesis by (simp add: q_def)
  next
    case False
    then have "(2 powi 53 :: rat) \<le> 2 powi (ilog2 q)" by (intro power_int_increasing) simp_all
    also have "\<dots> \<le> q" using q by (rule ilog2_bounds)
    finally have "(2 ^ 53 :: rat) \<le> of_int n" by (simp add: q_def)
    then have "2 ^ 53 \<le> n" by simp
    then have n: "n = 2 ^ 53" using assms by simp
    have "ilog2 q = 53"
    proof (rule ccontr)
      assume "ilog2 q \<noteq> 53"
      with False have "(2 powi 54 :: rat) \<le> 2 powi (ilog2 q)" by (intro power_int_increasing) simp_all
      also have "\<dots> \<le> q" using q by (rule ilog2_bounds)
      finally show False by (simp add: q_def n)
    qed
    moreover have "q / 2 = of_int (2 ^ 52)" by (simp add: q_def n)
    ultimately have "f64_round q = of_int (2 ^ 52) * 2"
      by (simp only: f64_round_pos[OF q]) (simp del: of_int_power)
    then show ?thesis by (simp add: q_def n)
  qed
qed

section \<open>The interface clients rely on\<close>

locale rounding =
  fixes rnd :: "rat \<Rightarrow> rat"
  assumes rnd_mono: "0 \<le> x \<Longrightarrow> x \<le> y \<Longrightarrow> rnd x \<le> rnd y"
    and rnd_int: "0 \<le> n \<Longrightarrow> n \<le> 2 ^ 53 \<Longrightarrow> rnd (of_int n) = of_int n"
begin

lemma rnd_zero: "rnd 0 = 0"
  using rnd_int[of 0] by simp

lemma rnd_nonneg: "0 \<le> x \<Longrightarrow> 0 \<le> rnd x"
  using rnd_mono[of 0 x] rnd_zero by simp

lemma rnd_le_int: "0 \<le> x \<Longrightarrow> x \<le> of_int n \<Longrightarrow> n \<le> 2 ^ 53 \<Longrightarrow> rnd x \<le> of_int n"
proof -
  assume a: "0 \<le> x" "x \<le> of_int n" "n \<le> 2 ^ 53"
  then have "0 \<le> (of_int n :: rat)" by linarith
  then show "rnd x \<le> of_int n" using rnd_mono[of x "of_int n"] rnd_int[of n] a by simp
qed

text \<open>A proportion of \<open>n\<close> computed in floating point never exceeds \<open>n\<close>.\<close>

lemma proportion_bound:
  assumes "0 \<le> n" "n \<le> 2 ^ 53" "0 \<le> a" "a \<le> b" "0 < b"
  shows "0 \<le> rnd (of_int n * rnd (a / b)) \<and> rnd (of_int n * rnd (a / b)) \<le> of_int n"
proof -
  have ab: "0 \<le> a / b" "a / b \<le> of_int 1" using assms by simp_all
  have f: "0 \<le> rnd (a / b)" "rnd (a / b) \<le> 1"
    using rnd_nonneg[OF ab(1)] rnd_le_int[OF ab] by simp_all
  then have "0 \<le> of_int n * rnd (a / b)" "of_int n * rnd (a / b) \<le> of_int n"
    using assms(1) mult_left_mono[OF f(2), of "of_int n"] by simp_all
  then show ?thesis using rnd_nonneg rnd_le_int assms(2) by blast
qed

lemma proportion_mono:
  assumes "0 \<le> n" "0 \<le> a" "a \<le> a'" "0 < b"
  shows "rnd (of_int n * rnd (a / b)) \<le> rnd (of_int n * rnd (a' / b))"
proof -
  have "rnd (a / b) \<le> rnd (a' / b)" using assms by (intro rnd_mono) (simp_all add: divide_right_mono)
  moreover have "0 \<le> rnd (a / b)" using assms by (intro rnd_nonneg) simp
  ultimately show ?thesis using assms by (intro rnd_mono) (simp_all add: mult_left_mono)
qed

end

interpretation f64r: rounding f64_round
  by unfold_locales (auto intro: f64_round_mono f64_round_int)

end
