(* ===== verification/Utf8.thy ===== *)
theory Utf8
  imports Prelude
begin

text \<open>
  The part of Go's \<open>unicode/utf8\<close>, \<open>unicode\<close> and \<open>strings\<close> the gateway uses on transcripts and
  generated text. A Go string is a byte sequence, here a \<^typ>\<open>string\<close> whose characters are the
  bytes. Decoding follows the standard library's tables: an invalid or truncated sequence yields
  \<open>RuneError\<close> of width one.
\<close>

type_synonym rune = nat

definition RuneError :: rune where "RuneError = 0xFFFD"

abbreviation byte :: "char \<Rightarrow> nat" where "byte c \<equiv> of_char c"

text \<open>Size and second-byte range announced by a lead byte; \<^term>\<open>None\<close> for an invalid lead byte.\<close>

definition lead_info :: "nat \<Rightarrow> (nat \<times> nat \<times> nat) option" where
  "lead_info b =
     (if b < 0xC2 then None
      else if b \<le> 0xDF then Some (2, 0x80, 0xBF)
      else if b = 0xE0 then Some (3, 0xA0, 0xBF)
      else if b = 0xED then Some (3, 0x80, 0x9F)
      else if b \<le> 0xEF then Some (3, 0x80, 0xBF)
      else if b = 0xF0 then Some (4, 0x90, 0xBF)
      else if b \<le> 0xF3 then Some (4, 0x80, 0xBF)
      else if b = 0xF4 then Some (4, 0x80, 0x8F)
      else None)"

definition cont_byte :: "nat \<Rightarrow> bool" where
  "cont_byte b \<longleftrightarrow> 0x80 \<le> b \<and> b \<le> 0xBF"

text \<open>\<open>utf8.DecodeRune\<close>.\<close>

definition decode_rune :: "string \<Rightarrow> rune \<times> nat" where
  "decode_rune s =
     (case s of
        [] \<Rightarrow> (RuneError, 0)
      | c # cs \<Rightarrow>
          if byte c < 0x80 then (byte c, 1)
          else (case lead_info (byte c) of
              None \<Rightarrow> (RuneError, 1)
            | Some (sz, lo, hi) \<Rightarrow>
                if length s < sz then (RuneError, 1)
                else if byte (s ! 1) < lo \<or> hi < byte (s ! 1) then (RuneError, 1)
                else if sz \<le> 2 then ((byte c mod 32) * 64 + byte (s ! 1) mod 64, 2)
                else if \<not> cont_byte (byte (s ! 2)) then (RuneError, 1)
                else if sz \<le> 3 then
                  ((byte c mod 16) * 4096 + (byte (s ! 1) mod 64) * 64 + byte (s ! 2) mod 64, 3)
                else if \<not> cont_byte (byte (s ! 3)) then (RuneError, 1)
                else ((byte c mod 8) * 262144 + (byte (s ! 1) mod 64) * 4096
                      + (byte (s ! 2) mod 64) * 64 + byte (s ! 3) mod 64, 4)))"

text \<open>\<open>utf8.FullRune\<close>: false only when the bytes could still become a valid rune.\<close>

definition full_rune :: "string \<Rightarrow> bool" where
  "full_rune s =
     (case s of
        [] \<Rightarrow> False
      | c # cs \<Rightarrow>
          if byte c < 0x80 then True
          else (case lead_info (byte c) of
              None \<Rightarrow> True
            | Some (sz, lo, hi) \<Rightarrow>
                if sz \<le> length s then True
                else if 1 < length s \<and> (byte (s ! 1) < lo \<or> hi < byte (s ! 1)) then True
                else if 2 < length s \<and> \<not> cont_byte (byte (s ! 2)) then True
                else False))"

definition rune_start :: "nat \<Rightarrow> bool" where
  "rune_start b \<longleftrightarrow> \<not> cont_byte b"

text \<open>\<open>utf8.DecodeLastRune\<close>: search back over at most three continuation bytes.\<close>

fun last_start :: "string \<Rightarrow> nat \<Rightarrow> nat \<Rightarrow> nat" where
  "last_start s lim 0 = 0"
| "last_start s lim (Suc k) =
     (if k < lim then k
      else if rune_start (byte (s ! k)) then k
      else last_start s lim k)"

definition decode_last_rune :: "string \<Rightarrow> rune \<times> nat" where
  "decode_last_rune s =
     (if s = [] then (RuneError, 0)
      else if byte (last s) < 0x80 then (byte (last s), 1)
      else (let e = length s; start = last_start s (e - 4) (e - 1);
                (r, size) = decode_rune (drop start s)
            in if start + size = e then (r, size) else (RuneError, 1)))"

lemma decode_rune_Nil [simp]: "decode_rune [] = (RuneError, 0)"
  by (simp add: decode_rune_def)

lemma lead_info_size: "lead_info b = Some (sz, lo, hi) \<Longrightarrow> 2 \<le> sz \<and> sz \<le> 4"
  by (auto simp: lead_info_def split: if_splits)

lemma decode_rune_size:
  assumes "s \<noteq> []"
  shows "1 \<le> snd (decode_rune s) \<and> snd (decode_rune s) \<le> length s"
proof -
  obtain c cs where s: "s = c # cs" using assms by (cases s) auto
  show ?thesis
  proof (cases "lead_info (byte c)")
    case None
    then show ?thesis by (simp add: s decode_rune_def)
  next
    case (Some p)
    obtain sz lo hi where p: "p = (sz, lo, hi)" by (cases p) auto
    with Some have "2 \<le> sz" "sz \<le> 4" using lead_info_size by blast+
    with Some p show ?thesis by (auto simp: s decode_rune_def Suc_le_eq)
  qed
qed

lemma decode_last_rune_size:
  assumes "s \<noteq> []"
  shows "1 \<le> snd (decode_last_rune s) \<and> snd (decode_last_rune s) \<le> length s"
proof (cases "byte (last s) < 0x80")
  case True
  then show ?thesis using assms by (simp add: decode_last_rune_def Suc_le_eq)
next
  case False
  let ?st = "last_start s (length s - 4) (length s - 1)"
  have bound: "last_start s l k \<le> k" for l k
    by (induction k) (auto simp: le_SucI)
  have "?st < length s"
    using bound[of "length s - 4" "length s - 1"] assms by (simp add: Suc_le_eq order_le_less_trans)
  then have "drop ?st s \<noteq> []" by simp
  then have "1 \<le> snd (decode_rune (drop ?st s)) \<and> snd (decode_rune (drop ?st s)) \<le> length s - ?st"
    using decode_rune_size[of "drop ?st s"] by simp
  with False assms show ?thesis
    by (auto simp: decode_last_rune_def Let_def Suc_le_eq split: prod.split)
qed

text \<open>\<open>[]rune(s)\<close> and \<open>utf8.RuneCount\<close>.\<close>

function runes :: "string \<Rightarrow> rune list" where
  "runes s = (if s = [] then [] else fst (decode_rune s) # runes (drop (snd (decode_rune s)) s))"
  by pat_completeness auto
termination
proof (relation "measure length", simp)
  fix s :: string
  assume "s \<noteq> []"
  then have "0 < snd (decode_rune s)" and "0 < length s"
    using decode_rune_size[of s] by auto
  then show "(drop (snd (decode_rune s)) s, s) \<in> measure length" by simp
qed

declare runes.simps [simp del]

definition rune_count :: "string \<Rightarrow> nat" where
  "rune_count s = length (runes s)"

text \<open>\<open>string(rs)\<close>: invalid code points are written as \<open>RuneError\<close>.\<close>

definition valid_rune :: "rune \<Rightarrow> bool" where
  "valid_rune r \<longleftrightarrow> r < 0xD800 \<or> (0xDFFF < r \<and> r \<le> 0x10FFFF)"

definition encode3 :: "rune \<Rightarrow> string" where
  "encode3 r = [char_of (0xE0 + r div 4096), char_of (0x80 + r div 64 mod 64), char_of (0x80 + r mod 64)]"

definition encode_rune :: "rune \<Rightarrow> string" where
  "encode_rune r =
     (if r \<le> 0x7F then [char_of r]
      else if r \<le> 0x7FF then [char_of (0xC0 + r div 64), char_of (0x80 + r mod 64)]
      else if \<not> valid_rune r then encode3 RuneError
      else if r \<le> 0xFFFF then encode3 r
      else [char_of (0xF0 + r div 262144), char_of (0x80 + r div 4096 mod 64),
            char_of (0x80 + r div 64 mod 64), char_of (0x80 + r mod 64)])"

definition string_of_runes :: "rune list \<Rightarrow> string" where
  "string_of_runes rs = concat (map encode_rune rs)"

definition valid_utf8 :: "string \<Rightarrow> bool" where
  "valid_utf8 s \<longleftrightarrow> string_of_runes (runes s) = s \<and> list_all valid_rune (runes s)"

section \<open>Round trip\<close>

lemma byte_char_of [simp]: "n < 256 \<Longrightarrow> byte (char_of n) = n"
  by (simp add: of_char_of)

lemma valid_rune_bound: "valid_rune r \<Longrightarrow> r < 0x110000"
  by (auto simp: valid_rune_def)

lemma RuneError_valid [simp]: "valid_rune RuneError"
  by (simp add: valid_rune_def RuneError_def)

text \<open>The three multi-byte shapes, over the payload bits of each byte.\<close>

lemma decode_two:
  assumes "2 \<le> a" "a < 32" "b < 64"
  shows "decode_rune (char_of (0xC0 + a) # char_of (0x80 + b) # t) = (a * 64 + b, 2)"
proof -
  have "lead_info (0xC0 + a) = Some (2, 0x80, 0xBF)" using assms by (simp add: lead_info_def)
  moreover have "(0xC0 + a) mod 32 = a" "(0x80 + b) mod 64 = b"
    using assms by (simp_all add: mod_add_eq [symmetric])
  ultimately show ?thesis using assms by (simp add: decode_rune_def)
qed

lemma decode_three:
  assumes "a < 16" "b < 64" "c < 64" "a = 0 \<Longrightarrow> 32 \<le> b" "a = 13 \<Longrightarrow> b < 32"
  shows "decode_rune (char_of (0xE0 + a) # char_of (0x80 + b) # char_of (0x80 + c) # t)
         = (a * 4096 + b * 64 + c, 3)"
proof -
  have "\<exists>lo hi. lead_info (0xE0 + a) = Some (3, lo, hi) \<and> lo \<le> 0x80 + b \<and> 0x80 + b \<le> hi"
    using assms by (auto simp: lead_info_def)
  moreover have "(0xE0 + a) mod 16 = a" "(0x80 + b) mod 64 = b" "(0x80 + c) mod 64 = c"
    using assms by (simp_all add: mod_add_eq [symmetric])
  ultimately show ?thesis using assms by (auto simp: decode_rune_def cont_byte_def)
qed

lemma decode_four:
  assumes "a < 5" "b < 64" "c < 64" "d < 64" "a = 0 \<Longrightarrow> 16 \<le> b" "a = 4 \<Longrightarrow> b < 16"
  shows "decode_rune (char_of (0xF0 + a) # char_of (0x80 + b) # char_of (0x80 + c) # char_of (0x80 + d) # t)
         = (a * 262144 + b * 4096 + c * 64 + d, 4)"
proof -
  have "\<exists>lo hi. lead_info (0xF0 + a) = Some (4, lo, hi) \<and> lo \<le> 0x80 + b \<and> 0x80 + b \<le> hi"
    using assms by (auto simp: lead_info_def)
  moreover have "(0xF0 + a) mod 8 = a" "(0x80 + b) mod 64 = b" "(0x80 + c) mod 64 = c"
    "(0x80 + d) mod 64 = d"
    using assms by (simp_all add: mod_add_eq [symmetric])
  ultimately show ?thesis using assms by (auto simp: decode_rune_def cont_byte_def)
qed

lemma split64: "r = r div 4096 * 4096 + r div 64 mod 64 * 64 + r mod (64::nat)"
proof -
  have "r div 64 div 64 = r div 4096" by (simp add: div_mult2_eq [symmetric])
  then have "r div 4096 * 64 + r div 64 mod 64 = r div 64"
    using div_mult_mod_eq[of "r div 64" 64] by simp
  then show ?thesis using div_mult_mod_eq[of r 64] by linarith
qed

lemma split_high: "r div 4096 = r div 262144 * 64 + r div 4096 mod (64::nat)"
proof -
  have "r div 4096 div 64 = r div 262144" by (simp add: div_mult2_eq [symmetric])
  then show ?thesis using div_mult_mod_eq[of "r div 4096" 64] by simp
qed

lemma decode_encode3:
  assumes "valid_rune r" "0x7FF < r" "r \<le> 0xFFFF"
  shows "decode_rune (encode3 r @ t) = (r, 3)"
proof -
  define a b c where abc: "a = r div 4096" "b = r div 64 mod 64" "c = r mod 64"
  have r: "r = a * 4096 + b * 64 + c" unfolding abc by (rule split64)
  have bc: "b < 64" "c < 64" by (simp_all add: abc)
  have "a < 16" using assms(3) by (simp add: abc)
  moreover have "32 \<le> b" if "a = 0" using that r bc assms(2) by simp
  moreover have "b < 32" if "a = 13" using that r bc assms(1) by (auto simp: valid_rune_def)
  ultimately have "decode_rune (char_of (0xE0 + a) # char_of (0x80 + b) # char_of (0x80 + c) # t)
      = (a * 4096 + b * 64 + c, 3)"
    using bc by (intro decode_three)
  moreover have "encode3 r = [char_of (0xE0 + a), char_of (0x80 + b), char_of (0x80 + c)]"
    by (simp add: encode3_def abc)
  ultimately show ?thesis by (simp only: append_Cons append_Nil r [symmetric])
qed

lemma decode_encode:
  assumes "valid_rune r"
  shows "decode_rune (encode_rune r @ t) = (r, length (encode_rune r))"
proof -
  consider "r \<le> 0x7F" | "0x7F < r" "r \<le> 0x7FF" | "0x7FF < r" "r \<le> 0xFFFF" | "0xFFFF < r"
    by linarith
  then show ?thesis
  proof cases
    case 1
    then show ?thesis by (simp add: encode_rune_def decode_rune_def)
  next
    case 2
    then have "2 \<le> r div 64" "r div 64 < 32" by simp_all
    with 2 show ?thesis using decode_two[of "r div 64" "r mod 64" t]
      by (simp add: encode_rune_def)
  next
    case 3
    with assms show ?thesis using decode_encode3[of r t]
      by (simp add: encode_rune_def) (simp add: encode3_def)
  next
    case 4
    define a b c d where abc: "a = r div 262144" "b = r div 4096 mod 64" "c = r div 64 mod 64" "d = r mod 64"
    have r: "r = a * 262144 + b * 4096 + c * 64 + d"
      using split64[of r] split_high[of r] unfolding abc by simp
    have m: "b < 64" "c < 64" "d < 64" by (simp_all add: abc)
    have top: "r < 0x110000" using assms by (rule valid_rune_bound)
    have "a < 5" using top by (simp add: abc)
    moreover have "16 \<le> b" if "a = 0" using that r m 4 by simp
    moreover have "b < 16" if "a = 4" using that r m top by simp
    ultimately have "decode_rune (char_of (0xF0 + a) # char_of (0x80 + b) # char_of (0x80 + c)
        # char_of (0x80 + d) # t) = (a * 262144 + b * 4096 + c * 64 + d, 4)"
      using m by (intro decode_four)
    moreover have "encode_rune r = [char_of (0xF0 + a), char_of (0x80 + b), char_of (0x80 + c),
        char_of (0x80 + d)]"
      using 4 assms by (simp add: encode_rune_def abc)
    ultimately show ?thesis
      by (simp only: append_Cons append_Nil r [symmetric] list.size One_nat_def) simp
  qed
qed

lemma encode_rune_nonempty [simp]: "encode_rune r \<noteq> []"
  by (simp add: encode_rune_def encode3_def)

lemma runes_encode:
  assumes "list_all valid_rune rs"
  shows "runes (string_of_runes rs) = rs"
  using assms
proof (induction rs)
  case Nil
  then show ?case by (simp add: string_of_runes_def runes.simps)
next
  case (Cons r rs)
  then have "decode_rune (encode_rune r @ string_of_runes rs) = (r, length (encode_rune r))"
    by (simp add: decode_encode)
  with Cons show ?case
    by (subst runes.simps) (simp add: string_of_runes_def)
qed

lemma valid_utf8_iff: "valid_utf8 s \<longleftrightarrow> (\<exists>rs. list_all valid_rune rs \<and> s = string_of_runes rs)"
  unfolding valid_utf8_def using runes_encode by metis

lemma string_of_runes_append [simp]:
  "string_of_runes (xs @ ys) = string_of_runes xs @ string_of_runes ys"
  by (simp add: string_of_runes_def)

lemma string_of_runes_take:
  "string_of_runes rs = string_of_runes (take k rs) @ string_of_runes (drop k rs)"
  by (metis append_take_drop_id string_of_runes_append)

text \<open>On valid text, re-encoding the first \<open>k\<close> runes gives a prefix of the text.\<close>

lemma runes_take_prefix:
  assumes "valid_utf8 s"
  shows "take (length (string_of_runes (take k (runes s)))) s = string_of_runes (take k (runes s))"
proof -
  have "s = string_of_runes (take k (runes s)) @ string_of_runes (drop k (runes s))"
    using assms string_of_runes_take[of "runes s" k] by (simp add: valid_utf8_def)
  then show ?thesis by (metis append_eq_conv_conj)
qed

lemma runes_take_length:
  "valid_utf8 s \<Longrightarrow> length (string_of_runes (take k (runes s))) \<le> length s"
  by (metis runes_take_prefix length_take min.cobounded2 min.absorb_iff2 nat_le_linear take_all)

lemma string_of_runes_take_mono:
  "k \<le> m \<Longrightarrow> length (string_of_runes (take k rs)) \<le> length (string_of_runes (take m rs))"
  using string_of_runes_take[of "take m rs" k] by (simp add: min_absorb1)

section \<open>Character classes and trimming\<close>

text \<open>\<open>unicode.IsSpace\<close>: the White\_Space property.\<close>

definition is_space :: "rune \<Rightarrow> bool" where
  "is_space r \<longleftrightarrow> (9 \<le> r \<and> r \<le> 13) \<or> r = 32 \<or> r = 0x85 \<or> r = 0xA0 \<or> r = 0x1680
     \<or> (0x2000 \<le> r \<and> r \<le> 0x200A) \<or> r = 0x2028 \<or> r = 0x2029 \<or> r = 0x202F \<or> r = 0x205F \<or> r = 0x3000"

text \<open>
  \<open>unicode.IsLetter\<close>: the ASCII letters here; outside ASCII the Unicode tables, which are data of
  the Go distribution, are the parameter \<open>ul\<close>.
\<close>

definition is_letter :: "(rune \<Rightarrow> bool) \<Rightarrow> rune \<Rightarrow> bool" where
  "is_letter ul r \<longleftrightarrow>
     (if r < 0x80 then (65 \<le> r \<and> r \<le> 90) \<or> (97 \<le> r \<and> r \<le> 122) else ul r)"

text \<open>\<open>strings.TrimRightFunc\<close> and \<open>strings.TrimSpace\<close>.\<close>

function trim_right :: "(rune \<Rightarrow> bool) \<Rightarrow> string \<Rightarrow> string" where
  "trim_right f s =
     (if s = [] then []
      else if f (fst (decode_last_rune s)) then trim_right f (take (length s - snd (decode_last_rune s)) s)
      else s)"
  by pat_completeness auto
termination
proof (relation "measure (length \<circ> snd)", simp)
  fix f :: "rune \<Rightarrow> bool" and s :: string
  assume "s \<noteq> []"
  then have "0 < snd (decode_last_rune s)" "0 < length s"
    using decode_last_rune_size[of s] by auto
  then show "((f, take (length s - snd (decode_last_rune s)) s), (f, s)) \<in> measure (length \<circ> snd)"
    by simp
qed

function trim_left :: "(rune \<Rightarrow> bool) \<Rightarrow> string \<Rightarrow> string" where
  "trim_left f s =
     (if s = [] then []
      else if f (fst (decode_rune s)) then trim_left f (drop (snd (decode_rune s)) s)
      else s)"
  by pat_completeness auto
termination
proof (relation "measure (length \<circ> snd)", simp)
  fix f :: "rune \<Rightarrow> bool" and s :: string
  assume "s \<noteq> []"
  then have "0 < snd (decode_rune s)" "0 < length s" using decode_rune_size[of s] by auto
  then show "((f, drop (snd (decode_rune s)) s), (f, s)) \<in> measure (length \<circ> snd)" by simp
qed

declare trim_right.simps [simp del] trim_left.simps [simp del]

definition trim_space :: "string \<Rightarrow> string" where
  "trim_space s = trim_right is_space (trim_left is_space s)"

lemma trim_left_Nil [simp]: "trim_left f [] = []"
  by (simp add: trim_left.simps)

lemma trim_right_Nil [simp]: "trim_right f [] = []"
  by (simp add: trim_right.simps)

lemma trim_space_Nil [simp]: "trim_space [] = []"
  by (simp add: trim_space_def)

end
