(* ===== verification/Config.thy ===== *)
theory Config
  imports Prelude Float64 Utf8
begin

text \<open>
  \<^verbatim>\<open>internal/config\<close>: the GA-shaped session object (\<^verbatim>\<open>config.go\<close>), its value types
  (\<^verbatim>\<open>types.go\<close>) and its validation (\<^verbatim>\<open>validate.go\<close>). A Go pointer field is an \<open>option\<close>; the
  deep copies the source takes with \<open>Clone\<close> are value copies here. A validation returns
  \<^term>\<open>None\<close> for \<open>nil\<close> and otherwise the first problem, with the dotted field path the source
  reports and a constructor naming the failed check (the message texts are not modelled).
  The declarative predicates at the end say what each validation accepts.
\<close>

section \<open>JSON values\<close>

text \<open>A decoded JSON value; a number keeps its literal, as \<open>json.Number\<close> does.\<close>

datatype json = JNull | JBool bool | JNum string | JStr string | JArr "json list"
  | JObj "(string \<times> json) list"

text \<open>How \<^verbatim>\<open>encoding/json\<close> matches an object key with a struct field: up to case, where besides the
  ASCII letters only the Kelvin sign and the long s fold to an ASCII letter. The field names are ASCII.\<close>

definition fold_rune :: "rune \<Rightarrow> rune" where
  "fold_rune r = (if 97 \<le> r \<and> r \<le> 122 then r - 32 else if r = 0x212A then 75 else if r = 0x17F then 83 else r)"

definition same_field :: "string \<Rightarrow> string \<Rightarrow> bool" where
  "same_field f k \<longleftrightarrow> map fold_rune (runes f) = map fold_rune (runes k)"

section \<open>types.go\<close>

record MaxOutputTokens =
  motInf :: bool
  motN :: int

datatype field_msg = MustNotBeEmpty | MustDiffer | NotOneOf | NotSupported | Duplicate string
  | NotAnObject | OutOfRange | OnlyFor string | UnknownProfile string | UnknownInstance string
  | WrongKind string string | NameMismatch string string | UnknownType string
  | NotConfigurableHere | NoSuchTool string | Undecodable string | InvalidJSON | TrailingData | MustBeObject
  | UnsetVariable string | NothingToKeep string | BuildFailed string

datatype field_error = FieldError (feField: string) (feMsg: field_msg)

section \<open>config.go\<close>

abbreviation AudioFormatPCM :: string where "AudioFormatPCM \<equiv> ''audio/pcm''"
abbreviation AudioSampleRate :: int where "AudioSampleRate \<equiv> 24000"
abbreviation TurnDetectionServerVAD :: string where "TurnDetectionServerVAD \<equiv> ''server_vad''"
abbreviation TurnDetectionSemanticVAD :: string where "TurnDetectionSemanticVAD \<equiv> ''semantic_vad''"
abbreviation ModalityAudio :: string where "ModalityAudio \<equiv> ''audio''"
abbreviation ModalityText :: string where "ModalityText \<equiv> ''text''"
abbreviation ToolTypeFunction :: string where "ToolTypeFunction \<equiv> ''function''"
abbreviation ToolChoiceAuto :: string where "ToolChoiceAuto \<equiv> ''auto''"
abbreviation ToolChoiceNone :: string where "ToolChoiceNone \<equiv> ''none''"
abbreviation ToolChoiceRequired :: string where "ToolChoiceRequired \<equiv> ''required''"
abbreviation ToolChoiceFunction :: string where "ToolChoiceFunction \<equiv> ''function''"

text \<open>The constants 0.25, 1.5 and 0.5 are exact doubles.\<close>

definition SpeedMin :: f64 where "SpeedMin = 1 / 4"
definition SpeedMax :: f64 where "SpeedMax = 3 / 2"
definition MaxOutputTokensLimit :: int where "MaxOutputTokensLimit = 4096"
definition DefaultVADThreshold :: f64 where "DefaultVADThreshold = 1 / 2"
definition DefaultVADPrefixPaddingMs :: int where "DefaultVADPrefixPaddingMs = 300"
definition DefaultVADSilenceDurationMs :: int where "DefaultVADSilenceDurationMs = 500"

record Tool =
  toolType :: string
  toolName :: string
  toolDescription :: string
  toolParameters :: "json option"

record ToolChoice =
  tcMode :: string
  tcName :: string

record AudioFormat =
  afType :: string
  afRate :: int

record Transcription =
  trModel :: string
  trLanguage :: string
  trPrompt :: string

record TurnDetection =
  tdType :: string
  tdThreshold :: "f64 option"
  tdPrefixPaddingMs :: "int option"
  tdSilenceDurationMs :: "int option"
  tdEagerness :: "string option"
  tdCreateResponse :: bool
  tdInterruptResponse :: bool

record AudioInput =
  aiFormat :: AudioFormat
  aiTranscription :: "Transcription option"
  aiTurnDetection :: "TurnDetection option"

record AudioOutput =
  aoFormat :: AudioFormat
  aoVoice :: string
  aoSpeed :: f64

record SessionDefaults =
  sdInstructions :: string
  sdOutputModalities :: "string list"
  sdAudioInput :: AudioInput
  sdAudioOutput :: AudioOutput
  sdMaxOutputTokens :: MaxOutputTokens
  sdTools :: "Tool list"
  sdToolChoice :: ToolChoice

record Limits =
  limMaxSessions :: int
  limSessionTimeout :: int
  limInputAudioQueueFrames :: int
  limInputAudioBufferMaxMs :: int
  limASRFinalTimeout :: int
  limOutputEventQueue :: int
  limClientWriteTimeout :: int
  limClientMaxMessageBytes :: int

definition or_default :: "'a option \<Rightarrow> 'a \<Rightarrow> 'a option" where
  "or_default p v = (case p of None \<Rightarrow> Some v | Some x \<Rightarrow> Some x)"

definition ApplyDefaults :: "TurnDetection \<Rightarrow> TurnDetection" where
  "ApplyDefaults td =
     (if tdType td = TurnDetectionServerVAD then
        td\<lparr>tdThreshold := or_default (tdThreshold td) DefaultVADThreshold,
           tdPrefixPaddingMs := or_default (tdPrefixPaddingMs td) DefaultVADPrefixPaddingMs,
           tdSilenceDurationMs := or_default (tdSilenceDurationMs td) DefaultVADSilenceDurationMs\<rparr>
      else if tdType td = TurnDetectionSemanticVAD then
        td\<lparr>tdEagerness := or_default (tdEagerness td) ''auto''\<rparr>
      else td)"

text \<open>\<open>MarshalJSON\<close> and \<open>UnmarshalJSON\<close> of the \<open>tool_choice\<close> union. Decoding JSON null into a
  Go string leaves it as it was; decoding an object ignores keys other than the two fields, and a key
  repeated in the object takes its last value other than null.\<close>

definition ToolChoice_Marshal :: "ToolChoice \<Rightarrow> json" where
  "ToolChoice_Marshal tc =
     (if tcMode tc = ToolChoiceFunction
      then JObj [(''type'', JStr ToolChoiceFunction), (''name'', JStr (tcName tc))]
      else JStr (if tcMode tc = [] then ToolChoiceAuto else tcMode tc))"

definition string_field :: "string \<Rightarrow> (string \<times> json) list \<Rightarrow> string option" where
  "string_field k kvs =
     foldl (\<lambda>acc (k', j). if \<not> same_field k k' then acc
              else (case j of JNull \<Rightarrow> acc | JStr s \<Rightarrow> map_option (\<lambda>_. s) acc | _ \<Rightarrow> None)) (Some []) kvs"

definition ToolChoice_Unmarshal :: "json \<Rightarrow> ToolChoice option" where
  "ToolChoice_Unmarshal j = (case j of
     JStr m \<Rightarrow> Some \<lparr>tcMode = m, tcName = []\<rparr>
   | JNull \<Rightarrow> Some \<lparr>tcMode = [], tcName = []\<rparr>
   | JObj kvs \<Rightarrow> (case (string_field ''type'' kvs, string_field ''name'' kvs) of
        (Some t, Some n) \<Rightarrow> Some \<lparr>tcMode = t, tcName = n\<rparr> | _ \<Rightarrow> None)
   | _ \<Rightarrow> None)"

section \<open>validate.go: the session object\<close>

definition eagernessValues :: "string list" where
  "eagernessValues = [''low'', ''medium'', ''high'', ''auto'']"

text \<open>Sequencing of checks: the first error wins.\<close>

definition err_or :: "field_error option \<Rightarrow> field_error option \<Rightarrow> field_error option" where
  "err_or a b = (case a of Some e \<Rightarrow> Some e | None \<Rightarrow> b)"

definition validateModalities :: "string \<Rightarrow> string list \<Rightarrow> field_error option" where
  "validateModalities field mods =
     (if mods = [ModalityAudio] \<or> mods = [ModalityText] then None
      else Some (FieldError field NotOneOf))"

definition validateSpeed :: "string \<Rightarrow> f64 \<Rightarrow> field_error option" where
  "validateSpeed field speed =
     (if speed < SpeedMin \<or> SpeedMax < speed then Some (FieldError field OutOfRange) else None)"

definition validateMaxOutputTokens :: "string \<Rightarrow> MaxOutputTokens \<Rightarrow> field_error option" where
  "validateMaxOutputTokens field m =
     (if \<not> motInf m \<and> (motN m < 1 \<or> MaxOutputTokensLimit < motN m)
      then Some (FieldError field OutOfRange) else None)"

definition AudioFormat_validate :: "string \<Rightarrow> AudioFormat \<Rightarrow> field_error option" where
  "AudioFormat_validate prefix f =
     (if afType f \<noteq> AudioFormatPCM then Some (FieldError (prefix @ ''.type'') NotSupported)
      else if afRate f \<noteq> AudioSampleRate then Some (FieldError (prefix @ ''.rate'') NotSupported)
      else None)"

definition TurnDetection_validate :: "string \<Rightarrow> TurnDetection \<Rightarrow> field_error option" where
  "TurnDetection_validate prefix td =
     (if tdType td = TurnDetectionServerVAD then
        (if tdEagerness td \<noteq> None then
           Some (FieldError (prefix @ ''.eagerness'') (OnlyFor TurnDetectionSemanticVAD))
         else if (case tdThreshold td of None \<Rightarrow> True | Some t \<Rightarrow> t < 0 \<or> 1 < t) then
           Some (FieldError (prefix @ ''.threshold'') OutOfRange)
         else if (case tdPrefixPaddingMs td of None \<Rightarrow> True | Some v \<Rightarrow> v < 0) then
           Some (FieldError (prefix @ ''.prefix_padding_ms'') OutOfRange)
         else if (case tdSilenceDurationMs td of None \<Rightarrow> True | Some v \<Rightarrow> v \<le> 0) then
           Some (FieldError (prefix @ ''.silence_duration_ms'') OutOfRange)
         else None)
      else if tdType td = TurnDetectionSemanticVAD then
        (if tdThreshold td \<noteq> None then
           Some (FieldError (prefix @ ''.threshold'') (OnlyFor TurnDetectionServerVAD))
         else if tdPrefixPaddingMs td \<noteq> None then
           Some (FieldError (prefix @ ''.prefix_padding_ms'') (OnlyFor TurnDetectionServerVAD))
         else if tdSilenceDurationMs td \<noteq> None then
           Some (FieldError (prefix @ ''.silence_duration_ms'') (OnlyFor TurnDetectionServerVAD))
         else if (case tdEagerness td of None \<Rightarrow> True | Some v \<Rightarrow> v \<notin> set eagernessValues) then
           Some (FieldError (prefix @ ''.eagerness'') NotOneOf)
         else None)
      else Some (FieldError (prefix @ ''.type'') NotOneOf))"

definition isJSONObject :: "json \<Rightarrow> bool" where
  "isJSONObject j = (case j of JObj _ \<Rightarrow> True | _ \<Rightarrow> False)"

text \<open>The loop over the tools, with the index and the names seen so far.\<close>

fun validateTools_from :: "string \<Rightarrow> nat \<Rightarrow> string list \<Rightarrow> Tool list \<Rightarrow> field_error option" where
  "validateTools_from field i seen [] = None"
| "validateTools_from field i seen (t # ts) =
     (let here = field @ ''['' @ nat_str i @ '']'' in
      if toolType t \<noteq> ToolTypeFunction then Some (FieldError (here @ ''.type'') NotSupported)
      else if toolName t = [] then Some (FieldError (here @ ''.name'') MustNotBeEmpty)
      else if toolName t \<in> set seen then Some (FieldError (here @ ''.name'') (Duplicate (toolName t)))
      else if (case toolParameters t of None \<Rightarrow> False | Some p \<Rightarrow> \<not> isJSONObject p)
        then Some (FieldError (here @ ''.parameters'') NotAnObject)
      else validateTools_from field (Suc i) (toolName t # seen) ts)"

definition validateTools :: "string \<Rightarrow> Tool list \<Rightarrow> field_error option" where
  "validateTools field tools = validateTools_from field 0 [] tools"

definition validateToolChoice :: "string \<Rightarrow> ToolChoice \<Rightarrow> Tool list \<Rightarrow> field_error option" where
  "validateToolChoice field tc tools =
     (if tcMode tc \<in> {ToolChoiceAuto, ToolChoiceNone, ToolChoiceRequired, []} then None
      else if tcMode tc = ToolChoiceFunction then
        (if \<not> list_ex (\<lambda>t. toolName t = tcName tc) tools
         then Some (FieldError (field @ ''.name'') (NoSuchTool (tcName tc))) else None)
      else Some (FieldError field NotOneOf))"

definition SessionDefaults_Validate :: "string \<Rightarrow> SessionDefaults \<Rightarrow> field_error option" where
  "SessionDefaults_Validate prefix s =
     err_or (validateModalities (prefix @ ''.output_modalities'') (sdOutputModalities s))
    (err_or (AudioFormat_validate (prefix @ ''.audio.input.format'') (aiFormat (sdAudioInput s)))
    (err_or (AudioFormat_validate (prefix @ ''.audio.output.format'') (aoFormat (sdAudioOutput s)))
    (err_or (case aiTurnDetection (sdAudioInput s) of None \<Rightarrow> None
             | Some td \<Rightarrow> TurnDetection_validate (prefix @ ''.audio.input.turn_detection'') td)
    (err_or (validateSpeed (prefix @ ''.audio.output.speed'') (aoSpeed (sdAudioOutput s)))
    (err_or (validateTools (prefix @ ''.tools'') (sdTools s))
    (err_or (validateToolChoice (prefix @ ''.tool_choice'') (sdToolChoice s) (sdTools s))
            (validateMaxOutputTokens (prefix @ ''.max_output_tokens'') (sdMaxOutputTokens s))))))))"

text \<open>The table loop of \<open>Limits.validate\<close>: every listed value must be positive, in order.\<close>

fun validate_positive :: "string \<Rightarrow> (string \<times> int) list \<Rightarrow> field_error option" where
  "validate_positive prefix [] = None"
| "validate_positive prefix ((name, v) # rest) =
     (if v \<le> 0 then Some (FieldError (prefix @ ''.'' @ name) OutOfRange)
      else validate_positive prefix rest)"

definition Limits_validate :: "string \<Rightarrow> Limits \<Rightarrow> field_error option" where
  "Limits_validate prefix l =
     err_or (validate_positive prefix
        [(''max_sessions'', limMaxSessions l),
         (''input_audio_queue_frames'', limInputAudioQueueFrames l),
         (''input_audio_buffer_max_ms'', limInputAudioBufferMaxMs l),
         (''output_event_queue'', limOutputEventQueue l),
         (''client_max_message_bytes'', limClientMaxMessageBytes l)])
       (validate_positive prefix
        [(''session_timeout'', limSessionTimeout l),
         (''asr_final_timeout'', limASRFinalTimeout l),
         (''client_write_timeout'', limClientWriteTimeout l)])"

section \<open>What validation accepts\<close>

definition modalities_ok :: "string list \<Rightarrow> bool" where
  "modalities_ok mods \<longleftrightarrow> mods = [ModalityAudio] \<or> mods = [ModalityText]"

definition tokens_ok :: "MaxOutputTokens \<Rightarrow> bool" where
  "tokens_ok m \<longleftrightarrow> motInf m \<or> (1 \<le> motN m \<and> motN m \<le> 4096)"

definition turn_detection_ok :: "TurnDetection \<Rightarrow> bool" where
  "turn_detection_ok td \<longleftrightarrow>
     (tdType td = ''server_vad'' \<and> tdEagerness td = None
        \<and> (case tdThreshold td of None \<Rightarrow> False | Some t \<Rightarrow> 0 \<le> t \<and> t \<le> 1)
        \<and> (case tdPrefixPaddingMs td of None \<Rightarrow> False | Some p \<Rightarrow> 0 \<le> p)
        \<and> (case tdSilenceDurationMs td of None \<Rightarrow> False | Some d \<Rightarrow> 0 < d))
   \<or> (tdType td = ''semantic_vad'' \<and> tdThreshold td = None \<and> tdPrefixPaddingMs td = None
        \<and> tdSilenceDurationMs td = None
        \<and> (case tdEagerness td of None \<Rightarrow> False
            | Some e \<Rightarrow> e \<in> {''low'', ''medium'', ''high'', ''auto''}))"

definition tool_ok :: "Tool \<Rightarrow> bool" where
  "tool_ok t \<longleftrightarrow> toolType t = ''function'' \<and> toolName t \<noteq> []
     \<and> (case toolParameters t of None \<Rightarrow> True | Some p \<Rightarrow> isJSONObject p)"

definition tool_choice_ok :: "ToolChoice \<Rightarrow> Tool list \<Rightarrow> bool" where
  "tool_choice_ok tc tools \<longleftrightarrow> tcMode tc \<in> {''auto'', ''none'', ''required'', []}
     \<or> (tcMode tc = ''function'' \<and> tcName tc \<in> toolName ` set tools)"

definition pcm24k :: AudioFormat where "pcm24k = \<lparr>afType = ''audio/pcm'', afRate = 24000\<rparr>"

definition session_ok :: "SessionDefaults \<Rightarrow> bool" where
  "session_ok s \<longleftrightarrow> modalities_ok (sdOutputModalities s)
     \<and> aiFormat (sdAudioInput s) = pcm24k \<and> aoFormat (sdAudioOutput s) = pcm24k
     \<and> (case aiTurnDetection (sdAudioInput s) of None \<Rightarrow> True | Some td \<Rightarrow> turn_detection_ok td)
     \<and> 1 / 4 \<le> aoSpeed (sdAudioOutput s) \<and> aoSpeed (sdAudioOutput s) \<le> 3 / 2
     \<and> list_all tool_ok (sdTools s) \<and> distinct (map toolName (sdTools s))
     \<and> tool_choice_ok (sdToolChoice s) (sdTools s) \<and> tokens_ok (sdMaxOutputTokens s)"

lemma err_or_None [simp]: "err_or a b = None \<longleftrightarrow> a = None \<and> b = None"
  by (simp add: err_or_def split: option.split)

lemma validateModalities_None [simp]: "validateModalities f m = None \<longleftrightarrow> modalities_ok m"
  by (simp add: validateModalities_def modalities_ok_def)

lemma validateSpeed_None [simp]: "validateSpeed f v = None \<longleftrightarrow> 1 / 4 \<le> v \<and> v \<le> 3 / 2"
  by (auto simp: validateSpeed_def SpeedMin_def SpeedMax_def)

lemma validateMaxOutputTokens_None [simp]: "validateMaxOutputTokens f m = None \<longleftrightarrow> tokens_ok m"
  by (auto simp: validateMaxOutputTokens_def MaxOutputTokensLimit_def tokens_ok_def)

lemma AudioFormat_validate_None [simp]: "AudioFormat_validate p f = None \<longleftrightarrow> f = pcm24k"
  by (cases f) (auto simp: AudioFormat_validate_def pcm24k_def)

lemma TurnDetection_validate_None [simp]:
  "TurnDetection_validate p td = None \<longleftrightarrow> turn_detection_ok td"
  by (auto simp: TurnDetection_validate_def turn_detection_ok_def eagernessValues_def
      split: option.splits if_splits)

lemma validateTools_from_None:
  "validateTools_from f i seen ts = None \<longleftrightarrow>
     list_all tool_ok ts \<and> distinct (map toolName ts) \<and> set seen \<inter> toolName ` set ts = {}"
proof (induction ts arbitrary: i seen)
  case Nil
  then show ?case by simp
next
  case (Cons t ts)
  show ?case
    by (auto simp: Cons.IH tool_ok_def Let_def split: option.splits if_splits)
qed

lemma validateTools_None [simp]:
  "validateTools f ts = None \<longleftrightarrow> list_all tool_ok ts \<and> distinct (map toolName ts)"
  by (simp add: validateTools_def validateTools_from_None)

lemma validateToolChoice_None [simp]:
  "validateToolChoice f tc ts = None \<longleftrightarrow> tool_choice_ok tc ts"
proof -
  have "list_ex (\<lambda>t. toolName t = tcName tc) ts \<longleftrightarrow> tcName tc \<in> toolName ` set ts"
    by (auto simp: list_ex_iff intro: rev_image_eqI)
  then show ?thesis by (auto simp: validateToolChoice_def tool_choice_ok_def)
qed

lemma validate_positive_None [simp]:
  "validate_positive p xs = None \<longleftrightarrow> list_all (\<lambda>(_, v). 0 < v) xs"
  by (induction p xs rule: validate_positive.induct) auto

section \<open>Properties\<close>

text \<open>\<open>SessionDefaults.Validate\<close> accepts exactly the well-formed session objects: one
  modality, 24 kHz PCM both ways, a turn detection whose fields belong to its type and lie in
  range, a speed within [0.25, 1.5], named and pairwise distinct function tools with object
  parameters, a tool choice that names a declared tool when it forces one, and a token limit in
  [1, 4096] or infinite.\<close>

theorem session_validate_iff: "SessionDefaults_Validate prefix s = None \<longleftrightarrow> session_ok s"
  by (auto simp: SessionDefaults_Validate_def session_ok_def split: option.split)

text \<open>\<open>Limits.validate\<close> succeeds exactly when every queue size, cap and timeout is
  positive.\<close>

theorem limits_validate_iff:
  "Limits_validate prefix l = None \<longleftrightarrow>
     0 < limMaxSessions l \<and> 0 < limInputAudioQueueFrames l \<and> 0 < limInputAudioBufferMaxMs l
   \<and> 0 < limOutputEventQueue l \<and> 0 < limClientMaxMessageBytes l \<and> 0 < limSessionTimeout l
   \<and> 0 < limASRFinalTimeout l \<and> 0 < limClientWriteTimeout l"
  by (auto simp: Limits_validate_def)

text \<open>Filling the mode-specific defaults is idempotent, keeps the type and the two
  switches, and turns a bare \<open>server_vad\<close> or \<open>semantic_vad\<close> block into one validation accepts.\<close>

theorem apply_defaults_ok:
  "ApplyDefaults (ApplyDefaults td) = ApplyDefaults td
   \<and> tdType (ApplyDefaults td) = tdType td
   \<and> tdCreateResponse (ApplyDefaults td) = tdCreateResponse td
   \<and> tdInterruptResponse (ApplyDefaults td) = tdInterruptResponse td
   \<and> (t \<in> {TurnDetectionServerVAD, TurnDetectionSemanticVAD} \<longrightarrow>
       TurnDetection_validate prefix (ApplyDefaults
         \<lparr>tdType = t, tdThreshold = None, tdPrefixPaddingMs = None, tdSilenceDurationMs = None,
          tdEagerness = None, tdCreateResponse = c, tdInterruptResponse = i\<rparr>) = None)"
  by (auto simp: ApplyDefaults_def or_default_def turn_detection_ok_def DefaultVADThreshold_def
      DefaultVADPrefixPaddingMs_def DefaultVADSilenceDurationMs_def split: option.split)

theorem apply_defaults_ok_witness:
  "TurnDetection_validate ''p'' (ApplyDefaults
     \<lparr>tdType = ''server_vad'', tdThreshold = None, tdPrefixPaddingMs = None,
      tdSilenceDurationMs = None, tdEagerness = None, tdCreateResponse = True,
      tdInterruptResponse = True\<rparr>) = None"
  using apply_defaults_ok[where t = "''server_vad''" and prefix = "''p''" and c = True and i = True]
  by simp

text \<open>The \<open>tool_choice\<close> union round-trips through its JSON form: a forced function comes
  back with its name, a mode string comes back as itself, and the empty mode as \<open>auto\<close>.\<close>

theorem tool_choice_roundtrip:
  "ToolChoice_Unmarshal (ToolChoice_Marshal tc) =
     Some (if tcMode tc = ToolChoiceFunction then \<lparr>tcMode = ToolChoiceFunction, tcName = tcName tc\<rparr>
           else \<lparr>tcMode = (if tcMode tc = [] then ToolChoiceAuto else tcMode tc), tcName = []\<rparr>)"
proof -
  have "same_field ''type'' ''type''" "\<not> same_field ''type'' ''name''" "same_field ''name'' ''name''" "\<not> same_field ''name'' ''type''"
    by code_simp+
  then show ?thesis by (simp add: ToolChoice_Unmarshal_def ToolChoice_Marshal_def string_field_def)
qed

end
