(* ===== verification/Types.thy ===== *)
theory Types
  imports Config
begin

text \<open>
  The value types that cross the session's boundaries: the provider types of
  \<^verbatim>\<open>internal/provider/provider.go\<close>, and the items, commands and events of
  \<^verbatim>\<open>internal/session/types.go\<close>. Go's sealed interfaces are datatypes; string-typed enumerations
  whose values only the session produces are datatypes too, while roles and codes that arrive from
  outside stay strings. Human-readable messages are kept where the source builds them from
  constants, and \<open>error\<close> values are their text.
\<close>

type_synonym ItemRef = nat
type_synonym ResponseRef = nat
type_synonym Generation = nat

section \<open>provider.go\<close>

abbreviation RoleSystem :: string where "RoleSystem \<equiv> ''system''"
abbreviation RoleUser :: string where "RoleUser \<equiv> ''user''"
abbreviation RoleAssistant :: string where "RoleAssistant \<equiv> ''assistant''"
abbreviation RoleTool :: string where "RoleTool \<equiv> ''tool''"

record ASRConfig =
  acSampleRate :: int
  acLanguage :: string
  acPrompt :: string
  acModel :: string

datatype ASREvent = ASRPartial string | ASRFinal string | ASREndOfTurn | ASRError string

record ToolDef =
  tdefName :: string
  tdefDescription :: string
  tdefParameters :: "json option"

record ToolCall =
  callID :: string
  callName :: string
  callArguments :: string

record Message =
  msgRole :: string
  msgContent :: string
  msgToolCalls :: "ToolCall list"
  msgToolCallID :: string

record ChatRequest =
  crInstructions :: string
  crMessages :: "Message list"
  crMaxOutputTokens :: int
  crTemperature :: "f64 option"
  crTools :: "ToolDef list"
  crToolChoice :: ToolChoice

datatype FinishReason = FinishStop | FinishLength | FinishContentFilter

record Usage =
  InputTokens :: int
  OutputTokens :: int

record TTSConfig =
  tcVoice :: string
  tcSpeed :: f64
  tcSampleRate :: int

record CharTiming =
  CharIndex :: int
  StartMs :: int

section \<open>types.go\<close>

datatype CloseReason = CloseClient | CloseInputOverflow | CloseBufferOverflow | CloseProviderError
  | CloseSessionTimeout | CloseContextCancelled

text \<open>\<open>ContentUnset\<close> is the zero value of \<open>ContentKind\<close>, which an \<open>ItemSpec\<close> may carry.\<close>

datatype ContentKind = ContentUnset | ContentText | ContentAudio | ContentToolCall | ContentToolOutput

datatype ItemStatus = ItemInProgress | ItemCompleted | ItemIncomplete

record Item =
  itRef :: ItemRef
  itClientID :: string
  itRole :: string
  itContent :: ContentKind
  itStatus :: ItemStatus
  itText :: string
  itAudioMs :: int
  itTranscriptDone :: bool
  itName :: string
  itCallID :: string

record ItemSpec =
  spRole :: string
  spContent :: ContentKind
  spText :: string
  spClientID :: string
  spCallItem :: ItemRef

datatype ResponseStatus = ResponseInProgress | ResponseCompleted | ResponseCancelled
  | ResponseIncomplete | ResponseFailed

datatype StatusReason = ReasonNone | ReasonTurnDetected | ReasonClientCancelled
  | ReasonMaxOutputTokens | ReasonContentFilter

record 'a Nullable =
  nSet :: bool
  nValue :: "'a option"

record SessionPatch =
  pInstructions :: "string option"
  pOutputModalities :: "string list option"
  pVoice :: "string option"
  pSpeed :: "f64 option"
  pMaxOutputTokens :: "MaxOutputTokens option"
  pTranscription :: "Transcription Nullable"
  pTurnDetection :: "TurnDetection Nullable"
  pTools :: "Tool list option"
  pToolChoice :: "ToolChoice option"

record ResponseOverrides =
  ovInstructions :: "string option"
  ovOutputModalities :: "string list option"
  ovMaxOutputTokens :: "MaxOutputTokens option"
  ovVoice :: "string option"
  ovMetadata :: "(string \<times> string) list"

definition no_overrides :: ResponseOverrides where
  "no_overrides = \<lparr>ovInstructions = None, ovOutputModalities = None, ovMaxOutputTokens = None,
     ovVoice = None, ovMetadata = []\<rparr>"

text \<open>The nine commands; the first argument of each is the tag of the embedded \<open>Meta\<close>.\<close>

datatype Command =
    CmdUpdateSession string SessionPatch
  | CmdCommitAudio string
  | CmdClearAudio string
  | CmdCreateItem string ItemSpec ItemRef bool
  | CmdDeleteItem string ItemRef
  | CmdTruncateItem string ItemRef int int
  | CmdCreateResponse string ResponseOverrides
  | CmdCancelResponse string ResponseRef
  | CmdClose string CloseReason

fun CommandTag :: "Command \<Rightarrow> string" where
  "CommandTag (CmdUpdateSession t _) = t"
| "CommandTag (CmdCommitAudio t) = t"
| "CommandTag (CmdClearAudio t) = t"
| "CommandTag (CmdCreateItem t _ _ _) = t"
| "CommandTag (CmdDeleteItem t _) = t"
| "CommandTag (CmdTruncateItem t _ _ _) = t"
| "CommandTag (CmdCreateResponse t _) = t"
| "CommandTag (CmdCancelResponse t _) = t"
| "CommandTag (CmdClose t _) = t"

datatype ErrCode = ErrCodeInvalidSession | ErrCodeBufferEmpty | ErrCodeBufferOverflow
  | ErrCodeInputQueueOverflow | ErrCodeItemNotFound | ErrCodeItemNotTruncatable | ErrCodeInvalidItem
  | ErrCodeResponseInProgress | ErrCodeResponseFailed | ErrCodeProviderError | ErrCodeInvalidOverrides
  | ErrCodeTranscriptTimeout | ErrCodeResponseCancelNotActive | ErrCodeTruncateOutOfRange
  | ErrCodeVoiceLocked

text \<open>The outbound facts. \<open>EvError\<close> carries tag, code, parameter path and the fatal flag;
  \<open>EvResponseDone\<close> carries the response, status, reason, failure code (if any), error text,
  usage and output items.\<close>

datatype Event =
    EvSessionUpdated SessionDefaults
  | EvError string ErrCode string bool
  | EvAudioBufferCommitted ItemRef ItemRef
  | EvAudioBufferCleared
  | EvSpeechStarted int ItemRef
  | EvSpeechStopped int ItemRef
  | EvItemAdded Item ItemRef
  | EvItemDone Item
  | EvItemDeleted ItemRef
  | EvItemTruncated ItemRef int int
  | EvInputTranscriptDelta ItemRef string
  | EvInputTranscriptDone ItemRef string
  | EvResponseCreated ResponseRef "string list" string MaxOutputTokens "(string \<times> string) list"
  | EvOutputItemAdded ResponseRef Item ItemRef
  | EvOutputTextDelta ResponseRef ItemRef string
  | EvOutputAudioTranscriptDelta ResponseRef ItemRef string
  | EvOutputAudioDelta ResponseRef ItemRef pcm
  | EvToolCallArguments ResponseRef ItemRef string
  | EvOutputTextDone ResponseRef ItemRef string
  | EvOutputAudioTranscriptDone ResponseRef ItemRef string
  | EvOutputAudioDone ResponseRef ItemRef
  | EvOutputItemDone ResponseRef Item
  | EvResponseDone ResponseRef ResponseStatus StatusReason "ErrCode option" "string option" Usage "Item list"
  | EvSessionClosed CloseReason

text \<open>The response an outbound event belongs to, if it belongs to one.\<close>

fun event_resp :: "Event \<Rightarrow> ResponseRef option" where
  "event_resp (EvResponseCreated r _ _ _ _) = Some r"
| "event_resp (EvOutputItemAdded r _ _) = Some r"
| "event_resp (EvOutputTextDelta r _ _) = Some r"
| "event_resp (EvOutputAudioTranscriptDelta r _ _) = Some r"
| "event_resp (EvOutputAudioDelta r _ _) = Some r"
| "event_resp (EvToolCallArguments r _ _) = Some r"
| "event_resp (EvOutputTextDone r _ _) = Some r"
| "event_resp (EvOutputAudioTranscriptDone r _ _) = Some r"
| "event_resp (EvOutputAudioDone r _) = Some r"
| "event_resp (EvOutputItemDone r _) = Some r"
| "event_resp (EvResponseDone r _ _ _ _ _ _) = Some r"
| "event_resp _ = None"

section \<open>Conversation items\<close>

text \<open>\<^verbatim>\<open>truncate.go\<close>'s \<open>audioSegment\<close> and \<^verbatim>\<open>conversation.go\<close>'s actor-private \<open>item\<close>, which embeds
  the public one.\<close>

record audioSegment =
  textStart :: int
  textEnd :: int
  audioStart :: int
  audioEnd :: int

record item = Item +
  itSegments :: "audioSegment list"
  itAlignment :: "CharTiming list"
  itAudioB :: int

definition snapshot :: "item \<Rightarrow> Item" where
  "snapshot it = Item.truncate it"

definition blank_item :: item where
  "blank_item = \<lparr>itRef = 0, itClientID = [], itRole = [], itContent = ContentUnset,
     itStatus = ItemInProgress, itText = [], itAudioMs = 0, itTranscriptDone = False, itName = [],
     itCallID = [], itSegments = [], itAlignment = [], itAudioB = 0\<rparr>"

lemma snapshot_sel [simp]:
  "itRef (snapshot it) = itRef it" "itContent (snapshot it) = itContent it"
  "itStatus (snapshot it) = itStatus it" "itText (snapshot it) = itText it"
  "itRole (snapshot it) = itRole it" "itAudioMs (snapshot it) = itAudioMs it"
  "itCallID (snapshot it) = itCallID it"
  by (simp_all add: snapshot_def Item.truncate_def)

end
