(* ===== verification/Conversation.thy ===== *)
theory Conversation
  imports Types
begin

text \<open>
  \<^verbatim>\<open>internal/session/conversation.go\<close>: the ordered list of items with lookup by reference, and its
  projection to chat messages.

  The source keeps a slice of item pointers and a map from references to the same pointers. Here a
  pointer is the reference stored in the item it points to: \<open>cItems\<close> is the order, \<open>cIndex\<close> the map
  and the heap cells at once. The invariant \<open>conv_inv\<close> is what makes the two agree, and every
  operation keeps it; \<open>conv_view\<close> is the list of items a reader sees.
\<close>

section \<open>State and operations\<close>

record conversation =
  cItems :: "ItemRef list"
  cIndex :: "ItemRef \<rightharpoonup> item"
  cNext :: nat

definition newConversation :: conversation where
  "newConversation = \<lparr>cItems = [], cIndex = Map.empty, cNext = 0\<rparr>"

definition newRef :: "conversation \<Rightarrow> conversation \<times> ItemRef" where
  "newRef c = (c\<lparr>cNext := cNext c + 1\<rparr>, cNext c + 1)"

definition conv_position :: "conversation \<Rightarrow> ItemRef \<Rightarrow> int" where
  "conv_position c r = index_from 0 r (cItems c)"

definition insert_pos :: "conversation \<Rightarrow> ItemRef \<Rightarrow> bool \<Rightarrow> nat option" where
  "insert_pos c previous atRoot =
     (if atRoot then Some 0
      else if previous \<noteq> 0 then
        (case cIndex c previous of None \<Rightarrow> None
         | Some _ \<Rightarrow> Some (nat (conv_position c previous + 1)))
      else Some (length (cItems c)))"

text \<open>The result is the conversation, the item with its reference filled in, and the reference of
  the item it follows; \<^term>\<open>None\<close> for the \<open>false\<close> the source returns.\<close>

definition conv_insert ::
    "conversation \<Rightarrow> item \<Rightarrow> ItemRef \<Rightarrow> bool \<Rightarrow> conversation \<times> item \<times> ItemRef option" where
  "conv_insert c0 it0 previous atRoot =
     (let (c, it) = (if itRef it0 = 0 then let (c1, r) = newRef c0 in (c1, it0\<lparr>itRef := r\<rparr>)
                     else (c0, it0))
      in case insert_pos c previous atRoot of
           None \<Rightarrow> (c, it, None)
         | Some pos \<Rightarrow>
             let items = insert_at pos (itRef it) (cItems c);
                 c' = c\<lparr>cItems := items, cIndex := (cIndex c)(itRef it \<mapsto> it)\<rparr>
             in (c', it, Some (if pos = 0 then 0 else items ! (pos - 1))))"

definition conv_append :: "conversation \<Rightarrow> item \<Rightarrow> conversation \<times> item \<times> ItemRef" where
  "conv_append c it =
     (let (c', it', prev) = conv_insert c it 0 False
      in (c', it', case prev of None \<Rightarrow> 0 | Some p \<Rightarrow> p))"

definition conv_get :: "conversation \<Rightarrow> ItemRef \<Rightarrow> item option" where
  "conv_get c r = cIndex c r"

text \<open>A write through an item pointer, \<open>it.f = v\<close>.\<close>

definition conv_update :: "conversation \<Rightarrow> ItemRef \<Rightarrow> (item \<Rightarrow> item) \<Rightarrow> conversation" where
  "conv_update c r f = c\<lparr>cIndex := (cIndex c)(r := map_option f (cIndex c r))\<rparr>"

text \<open>\<^term>\<open>None\<close> is the slice panic \<open>c.items[:-1]\<close> of an indexed item missing from the order.\<close>

definition conv_remove :: "conversation \<Rightarrow> ItemRef \<Rightarrow> (conversation \<times> bool) option" where
  "conv_remove c r =
     (case cIndex c r of None \<Rightarrow> Some (c, False)
      | Some _ \<Rightarrow>
          (let pos = conv_position c r
           in if pos < 0 then None
              else Some (c\<lparr>cItems := take (nat pos) (cItems c) @ drop (nat pos + 1) (cItems c),
                           cIndex := (cIndex c)(r := None)\<rparr>, True)))"

definition conv_view :: "conversation \<Rightarrow> item list" where
  "conv_view c = map (\<lambda>r. the (cIndex c r)) (cItems c)"

definition conv_last :: "conversation \<Rightarrow> string \<Rightarrow> item option" where
  "conv_last c role = find (\<lambda>it. itRole it = role) (rev (conv_view c))"

definition conv_count :: "conversation \<Rightarrow> nat" where
  "conv_count c = length (cItems c)"

definition tool_call_of :: "item \<Rightarrow> ToolCall" where
  "tool_call_of it = \<lparr>callID = itCallID it, callName = itName it, callArguments = itText it\<rparr>"

definition add_message :: "Message list \<Rightarrow> item \<Rightarrow> Message list" where
  "add_message out it =
     (case itContent it of
        ContentToolCall \<Rightarrow>
          (if out \<noteq> [] \<and> msgRole (last out) = RoleAssistant \<and> msgToolCalls (last out) = []
           then butlast out @ [(last out)\<lparr>msgToolCalls := [tool_call_of it]\<rparr>]
           else out @ [\<lparr>msgRole = RoleAssistant, msgContent = [], msgToolCalls = [tool_call_of it],
                        msgToolCallID = []\<rparr>])
      | ContentToolOutput \<Rightarrow>
          out @ [\<lparr>msgRole = RoleTool, msgContent = itText it, msgToolCalls = [],
                  msgToolCallID = itCallID it\<rparr>]
      | _ \<Rightarrow>
          (if itText it = [] then out
           else out @ [\<lparr>msgRole = itRole it, msgContent = itText it, msgToolCalls = [],
                        msgToolCallID = []\<rparr>]))"

definition messages :: "conversation \<Rightarrow> Message list" where
  "messages c = foldl add_message [] (conv_view c)"

definition answered :: "conversation \<Rightarrow> string \<Rightarrow> bool" where
  "answered c cid \<longleftrightarrow> (\<exists>it \<in> set (conv_view c). itContent it = ContentToolOutput \<and> itCallID it = cid)"

section \<open>Invariant\<close>

definition conv_inv :: "conversation \<Rightarrow> bool" where
  "conv_inv c \<longleftrightarrow>
     distinct (cItems c) \<and> set (cItems c) = dom (cIndex c) \<and>
     (\<forall>r it. cIndex c r = Some it \<longrightarrow> itRef it = r \<and> 0 < r \<and> r \<le> cNext c)"

lemma conv_inv_dom: "conv_inv c \<Longrightarrow> cIndex c r = Some it \<Longrightarrow> itRef it = r \<and> 0 < r \<and> r \<le> cNext c"
  by (simp add: conv_inv_def)

lemma conv_inv_zero [simp]: "conv_inv c \<Longrightarrow> cIndex c 0 = None"
  by (cases "cIndex c 0") (auto dest: conv_inv_dom)

lemma conv_inv_fresh: "conv_inv c \<Longrightarrow> cNext c < r \<Longrightarrow> cIndex c r = None"
  by (cases "cIndex c r") (auto dest: conv_inv_dom)

lemma conv_inv_mem: "conv_inv c \<Longrightarrow> r \<in> set (cItems c) \<longleftrightarrow> (\<exists>it. cIndex c r = Some it)"
  by (auto simp: conv_inv_def)

lemma newConversation_inv [inv_intros]: "conv_inv newConversation"
  by (simp add: conv_inv_def newConversation_def)

lemma newRef_inv [inv_intros]: "conv_inv c \<Longrightarrow> conv_inv (fst (newRef c))"
  by (fastforce simp: conv_inv_def newRef_def)

lemma newRef_simps [simp]:
  "cIndex (fst (newRef c)) = cIndex c" "cItems (fst (newRef c)) = cItems c"
  "cNext (fst (newRef c)) = cNext c + 1" "snd (newRef c) = cNext c + 1"
  by (simp_all add: newRef_def)

text \<open>A reference may be given to an item when it was handed out and is not in use.\<close>

definition ref_free :: "conversation \<Rightarrow> ItemRef \<Rightarrow> bool" where
  "ref_free c r \<longleftrightarrow> r = 0 \<or> (r \<le> cNext c \<and> cIndex c r = None)"

lemma place_inv:
  assumes "conv_inv c" "0 < itRef it" "itRef it \<le> cNext c" "cIndex c (itRef it) = None"
  shows "conv_inv (c\<lparr>cItems := insert_at pos (itRef it) (cItems c),
                     cIndex := (cIndex c)(itRef it \<mapsto> it)\<rparr>)"
proof -
  have "itRef it \<notin> set (cItems c)" using assms by (auto simp: conv_inv_def)
  then show ?thesis using assms by (auto simp: conv_inv_def distinct_insert_at)
qed

lemma conv_insert_inv [inv_intros]:
  assumes "conv_inv c" "ref_free c (itRef it)"
  shows "conv_inv (fst (conv_insert c it previous atRoot))"
proof (cases "itRef it = 0")
  case True
  have "conv_inv (c\<lparr>cNext := Suc (cNext c)\<rparr>)" using newRef_inv [OF assms(1)] by (simp add: newRef_def)
  moreover have "cIndex c (Suc (cNext c)) = None" using assms(1) by (simp add: conv_inv_fresh)
  ultimately show ?thesis using True
    using place_inv [of "c\<lparr>cNext := Suc (cNext c)\<rparr>" "it\<lparr>itRef := Suc (cNext c)\<rparr>"]
    by (auto simp: conv_insert_def newRef_def Let_def split: option.splits)
next
  case False
  then show ?thesis using assms place_inv [of c it]
    by (auto simp: conv_insert_def ref_free_def Let_def split: option.splits)
qed

lemma conv_update_inv [inv_intros]:
  "conv_inv c \<Longrightarrow> (\<And>it. itRef (f it) = itRef it) \<Longrightarrow> conv_inv (conv_update c r f)"
  by (auto simp: conv_inv_def conv_update_def dom_def split: if_splits)

lemma index_from_mem:
  "x \<in> set xs \<Longrightarrow> \<exists>ys zs. xs = ys @ x # zs \<and> x \<notin> set ys \<and> index_from 0 x xs = int (length ys)"
  using index_from_split [of x _ 0] by (fastforce dest: split_list_first)

lemma conv_remove_eq:
  assumes "conv_inv c" "cIndex c r = Some it"
  shows "conv_remove c r =
           Some (c\<lparr>cItems := filter (\<lambda>x. x \<noteq> r) (cItems c), cIndex := (cIndex c)(r := None)\<rparr>, True)"
proof -
  have "r \<in> set (cItems c)" using assms by (simp add: conv_inv_mem)
  then obtain ys zs where c: "cItems c = ys @ r # zs" "r \<notin> set ys" "index_from 0 r (cItems c) = int (length ys)"
    using index_from_mem by metis
  moreover have "r \<notin> set zs" using assms(1) c by (auto simp: conv_inv_def)
  then have "filter (\<lambda>x. x \<noteq> r) zs = zs" by (induction zs) auto
  moreover have "filter (\<lambda>x. x \<noteq> r) ys = ys" using c(2) by (induction ys) auto
  ultimately show ?thesis using assms by (simp add: conv_remove_def conv_position_def Let_def)
qed

lemma conv_remove_absent: "cIndex c r = None \<Longrightarrow> conv_remove c r = Some (c, False)"
  by (simp add: conv_remove_def)

lemma conv_remove_total: "conv_inv c \<Longrightarrow> conv_remove c r \<noteq> None"
  by (cases "cIndex c r") (simp_all add: conv_remove_eq conv_remove_absent)

lemma conv_remove_inv:
  assumes "conv_inv c" "conv_remove c r = Some (c', b)"
  shows "conv_inv c'"
proof (cases "cIndex c r")
  case None
  then show ?thesis using assms by (simp add: conv_remove_def)
next
  case (Some it)
  show ?thesis using assms(1) conv_remove_eq [OF assms(1) Some] assms(2)
    by (auto simp: conv_inv_def split: if_splits)
qed


section \<open>The ordered store\<close>

text \<open>
  The contract the session relies on: a reader sees a list of items with distinct references;
  \<open>append\<close> adds at the end under a reference nobody holds, \<open>remove\<close> deletes exactly one, an update
  through a pointer changes exactly one. The rest of what the session needs follows.
\<close>

locale ordered_store =
  fixes ok :: "'c \<Rightarrow> bool"
    and view :: "'c \<Rightarrow> item list"
    and get :: "'c \<Rightarrow> ItemRef \<Rightarrow> item option"
    and add :: "'c \<Rightarrow> item \<Rightarrow> 'c \<times> item \<times> ItemRef"
    and upd :: "'c \<Rightarrow> ItemRef \<Rightarrow> (item \<Rightarrow> item) \<Rightarrow> 'c"
    and free :: "'c \<Rightarrow> ItemRef \<Rightarrow> bool"
  assumes get_view: "ok c \<Longrightarrow> get c r = find (\<lambda>it. itRef it = r) (view c)"
    and view_distinct: "ok c \<Longrightarrow> distinct (map itRef (view c))"
    and add_view: "ok c \<Longrightarrow> free c (itRef it) \<Longrightarrow> add c it = (c', it', p) \<Longrightarrow>
          ok c' \<and> view c' = view c @ [it'] \<and> itRef it' \<notin> itRef ` set (view c) \<and>
          it' = it\<lparr>itRef := itRef it'\<rparr> \<and> p = (if view c = [] then 0 else itRef (last (view c)))"
    and upd_view: "ok c \<Longrightarrow> (\<And>it. itRef (f it) = itRef it) \<Longrightarrow>
          ok (upd c r f) \<and> view (upd c r f) = map (\<lambda>it. if itRef it = r then f it else it) (view c)"
begin

lemma add_get:
  assumes "ok c" "free c (itRef it)" "add c it = (c', it', p)"
  shows "get c' r = (if r = itRef it' then Some it' else get c r)"
proof -
  have "find (\<lambda>it. itRef it = r) (xs @ [it']) =
        (case find (\<lambda>it. itRef it = r) xs of None \<Rightarrow> if itRef it' = r then Some it' else None | s \<Rightarrow> s)" for xs
    by (induction xs) auto
  moreover have "find (\<lambda>it. itRef it = itRef it') (view c) = None"
    using add_view [OF assms] unfolding find_None_iff by (metis image_eqI)
  ultimately show ?thesis using add_view [OF assms] assms(1) by (auto simp: get_view split: option.splits)
qed

lemma upd_get:
  assumes "ok c" "\<And>it. itRef (f it) = itRef it"
  shows "get (upd c r f) q = (if q = r then map_option f (get c r) else get c q)"
proof -
  have "find (\<lambda>it. itRef it = q) (map (\<lambda>it. if itRef it = r then f it else it) xs) =
        (if q = r then map_option f (find (\<lambda>it. itRef it = r) xs) else find (\<lambda>it. itRef it = q) xs)" for xs
    using assms(2) by (induction xs) auto
  then show ?thesis using upd_view [OF assms] assms(1) by (simp add: get_view)
qed

lemma get_mem: "ok c \<Longrightarrow> get c r = Some it \<longleftrightarrow> it \<in> set (view c) \<and> itRef it = r"
  using view_distinct [of c]
  by (auto simp: get_view find_Some_iff distinct_conv_nth in_set_conv_nth)

end

lemma the_index_ref: "conv_inv c \<Longrightarrow> r \<in> set (cItems c) \<Longrightarrow> itRef (the (cIndex c r)) = r"
  by (auto simp: conv_inv_mem dest: conv_inv_dom)

lemma conv_view_refs: "conv_inv c \<Longrightarrow> map itRef (conv_view c) = cItems c"
  by (auto simp: conv_view_def the_index_ref intro: map_idI)

lemma conv_get_view:
  assumes "conv_inv c"
  shows "conv_get c r = find (\<lambda>it. itRef it = r) (conv_view c)"
proof -
  have "find (\<lambda>it. itRef it = r) (map (\<lambda>r. the (cIndex c r)) xs) = (if r \<in> set xs then cIndex c r else None)"
    if "set xs \<subseteq> set (cItems c)" for xs
    using that assms by (induction xs) (auto simp: the_index_ref conv_inv_mem)
  then show ?thesis using assms by (auto simp: conv_view_def conv_get_def conv_inv_mem)
qed

lemma conv_update_view:
  assumes "conv_inv c"
  shows "conv_view (conv_update c r f) = map (\<lambda>it. if itRef it = r then f it else it) (conv_view c)"
  using assms by (auto simp: conv_view_def conv_update_def the_index_ref conv_inv_mem)

text \<open>Appending: what the new conversation is, with the reference that was free or is new.\<close>

lemma conv_append_eq:
  assumes "conv_inv c" "ref_free c (itRef it)" "conv_append c it = (c', it', p)"
  shows "\<exists>r. cIndex c r = None \<and> r \<noteq> 0 \<and> r = (if itRef it = 0 then Suc (cNext c) else itRef it) \<and>
           it' = it\<lparr>itRef := r\<rparr> \<and> c' = c\<lparr>cItems := cItems c @ [r], cIndex := (cIndex c)(r \<mapsto> it'),
                                         cNext := (if itRef it = 0 then Suc (cNext c) else cNext c)\<rparr> \<and>
           p = (if cItems c = [] then 0 else last (cItems c))"
proof -
  have "itRef it \<noteq> 0 \<Longrightarrow> it\<lparr>itRef := itRef it\<rparr> = it" by simp
  then show ?thesis using assms
    by (auto simp: conv_append_def conv_insert_def insert_pos_def newRef_def ref_free_def Let_def conv_inv_fresh
        nth_append last_conv_nth split: if_splits)
qed

lemma conv_append_inv:
  assumes "conv_inv c" "ref_free c (itRef it)" "conv_append c it = (c', it', p)"
  shows "conv_inv c'"
  using conv_insert_inv [OF assms(1,2), of 0 False] assms(3)
  by (auto simp: conv_append_def Let_def split: prod.splits)

lemma conv_append_view:
  assumes "conv_inv c" "ref_free c (itRef it)" "conv_append c it = (c', it', p)"
  shows "conv_view c' = conv_view c @ [it']"
proof -
  obtain r where r: "cIndex c r = None" "it' = it\<lparr>itRef := r\<rparr>"
      and c': "c' = c\<lparr>cItems := cItems c @ [r], cIndex := (cIndex c)(r \<mapsto> it'),
                      cNext := (if itRef it = 0 then Suc (cNext c) else cNext c)\<rparr>"
    using conv_append_eq [OF assms] by blast
  have "r \<notin> set (cItems c)" using r assms(1) by (simp add: conv_inv_mem)
  then show ?thesis by (auto simp: c' conv_view_def)
qed

lemma conv_append_prev:
  assumes "conv_inv c" "ref_free c (itRef it)" "conv_append c it = (c', it', p)"
  shows "p = (if conv_view c = [] then 0 else itRef (last (conv_view c)))"
  using conv_append_eq [OF assms] assms(1)
  by (auto simp: conv_view_def last_map the_index_ref)

interpretation conv_store: ordered_store conv_inv conv_view conv_get conv_append conv_update ref_free
proof unfold_locales
  fix c r assume "conv_inv c" then show "conv_get c r = find (\<lambda>it. itRef it = r) (conv_view c)"
    by (rule conv_get_view)
next
  fix c assume "conv_inv c" then show "distinct (map itRef (conv_view c))"
    by (simp add: conv_view_refs) (simp add: conv_inv_def)
next
  fix c it c' it' p assume a: "conv_inv c" "ref_free c (itRef it)" "conv_append c it = (c', it', p)"
  have "itRef ` set (conv_view c) = set (cItems c)"
    using arg_cong [OF conv_view_refs [OF a(1)], of set] by simp
  then have "itRef it' \<notin> itRef ` set (conv_view c)"
    using conv_append_eq [OF a] a(1) by (auto simp: conv_inv_mem)
  moreover have "it' = it\<lparr>itRef := itRef it'\<rparr>" using conv_append_eq [OF a] by auto
  ultimately show "conv_inv c' \<and> conv_view c' = conv_view c @ [it'] \<and> itRef it' \<notin> itRef ` set (conv_view c) \<and>
      it' = it\<lparr>itRef := itRef it'\<rparr> \<and> p = (if conv_view c = [] then 0 else itRef (last (conv_view c)))"
    using conv_append_inv [OF a] conv_append_view [OF a] conv_append_prev [OF a] by blast
next
  fix c :: conversation and f :: "item \<Rightarrow> item" and r
  assume "conv_inv c" "\<And>it. itRef (f it) = itRef it"
  then show "conv_inv (conv_update c r f) \<and>
      conv_view (conv_update c r f) = map (\<lambda>it. if itRef it = r then f it else it) (conv_view c)"
    by (simp add: conv_update_inv conv_update_view)
qed


section \<open>Insertion and removal as list operations\<close>

text \<open>Where a client item goes: first, after the item it names, or last.\<close>

definition place_after :: "item \<Rightarrow> ItemRef \<Rightarrow> bool \<Rightarrow> item list \<Rightarrow> item list" where
  "place_after it previous atRoot xs =
     (if atRoot then it # xs
      else if previous = 0 then xs @ [it]
      else takeWhile (\<lambda>x. itRef x \<noteq> previous) xs @ take 1 (dropWhile (\<lambda>x. itRef x \<noteq> previous) xs)
             @ [it] @ drop 1 (dropWhile (\<lambda>x. itRef x \<noteq> previous) xs))"

definition known_previous :: "conversation \<Rightarrow> ItemRef \<Rightarrow> bool \<Rightarrow> bool" where
  "known_previous c previous atRoot \<longleftrightarrow> atRoot \<or> previous = 0 \<or> conv_get c previous \<noteq> None"

lemma insert_pos_iff: "insert_pos c previous atRoot = None \<longleftrightarrow> \<not> known_previous c previous atRoot"
  by (auto simp: insert_pos_def known_previous_def conv_get_def split: option.splits)

lemma conv_view_place:
  assumes "r \<notin> set (cItems c)"
  shows "conv_view (c\<lparr>cItems := insert_at pos r (cItems c), cIndex := (cIndex c)(r \<mapsto> it)\<rparr>) =
           insert_at pos it (conv_view c)"
proof -
  have "map (\<lambda>q. the (((cIndex c)(r \<mapsto> it)) q)) (cItems c) = conv_view c"
    using assms by (auto simp: conv_view_def)
  then show ?thesis by (subst (1) conv_view_def) (simp add: map_insert_at del: fun_upd_apply, simp)
qed

lemma insert_pos_place:
  assumes "conv_inv c" "insert_pos c previous atRoot = Some pos"
  shows "insert_at pos it (conv_view c) = place_after it previous atRoot (conv_view c)"
proof (cases "atRoot \<or> previous = 0")
  case True
  then show ?thesis using assms
    by (auto simp: insert_pos_def place_after_def insert_at_def conv_view_def)
next
  case False
  then have "previous \<in> set (cItems c)" "pos = nat (index_from 0 previous (cItems c) + 1)"
    using assms by (auto simp: insert_pos_def conv_inv_mem conv_position_def split: option.splits)
  moreover obtain ys zs where c: "cItems c = ys @ previous # zs" "previous \<notin> set ys"
      "index_from 0 previous (cItems c) = int (length ys)"
    using index_from_mem calculation(1) by metis
  ultimately have pos: "pos = Suc (length ys)" by simp
  let ?f = "\<lambda>r. the (cIndex c r)"
  have v: "conv_view c = map ?f ys @ ?f previous # map ?f zs" by (simp add: conv_view_def c)
  have ref: "itRef (?f previous) = previous" "\<forall>x \<in> set (map ?f ys). itRef x \<noteq> previous"
    using assms(1) c(1,2) by (auto simp: the_index_ref)
  have "takeWhile (\<lambda>x. itRef x \<noteq> previous) (conv_view c) = map ?f ys"
    and "dropWhile (\<lambda>x. itRef x \<noteq> previous) (conv_view c) = ?f previous # map ?f zs"
    using ref by (auto simp: v takeWhile_append dropWhile_append)
  then show ?thesis using False by (simp add: place_after_def insert_at_def pos v)
qed

text \<open>Inserting a new item with a previous item that exists (or none, or at the root) makes
  the reader's list exactly the old list with the item placed at the front, right after the named
  item, or at the end, under a reference no item had.\<close>

theorem insert_places:
  assumes "conv_inv c" "itRef it = 0" "known_previous c previous atRoot"
  shows "conv_view (fst (conv_insert c it previous atRoot)) =
           place_after (it\<lparr>itRef := cNext c + 1\<rparr>) previous atRoot (conv_view c)"
proof -
  define c1 where "c1 = fst (newRef c)"
  have inv: "conv_inv c1" using assms(1) by (simp add: c1_def newRef_inv)
  have sel: "cItems c1 = cItems c" "cIndex c1 = cIndex c" by (simp_all add: c1_def)
  then have view: "conv_view c1 = conv_view c" by (simp add: conv_view_def)
  have "known_previous c1 previous atRoot" using assms(3) sel by (simp add: known_previous_def conv_get_def)
  then obtain pos where pos: "insert_pos c1 previous atRoot = Some pos" using insert_pos_iff by blast
  have "Suc (cNext c) \<notin> set (cItems c1)" using assms(1) sel by (simp add: conv_inv_mem conv_inv_fresh)
  then have "conv_view (fst (conv_insert c it previous atRoot)) =
      insert_at pos (it\<lparr>itRef := cNext c + 1\<rparr>) (conv_view c1)"
    using pos assms(2) conv_view_place [of "Suc (cNext c)" c1]
    by (simp add: conv_insert_def c1_def newRef_def Let_def)
  then show ?thesis using insert_pos_place [OF inv pos] view by simp
qed

theorem insert_places_witness:
  "conv_view (fst (conv_insert newConversation blank_item 7 True)) =
     place_after (blank_item\<lparr>itRef := 1\<rparr>) 7 True (conv_view newConversation)"
  using insert_places [of newConversation blank_item 7 True] newConversation_inv
  by (simp add: known_previous_def blank_item_def newConversation_def)

text \<open>Removing a reference never panics in a consistent conversation, reports whether it was
  present, and leaves the reader's list with exactly that item gone.\<close>

theorem remove_deletes:
  assumes "conv_inv c"
  shows "\<exists>c'. conv_remove c r = Some (c', conv_get c r \<noteq> None) \<and> conv_inv c' \<and>
           conv_view c' = filter (\<lambda>it. itRef it \<noteq> r) (conv_view c)"
proof (cases "cIndex c r")
  case None
  then have "\<forall>it \<in> set (conv_view c). itRef it \<noteq> r"
    using conv_store.get_mem [OF assms, of r] by (auto simp: conv_get_def)
  then have "filter (\<lambda>it. itRef it \<noteq> r) (conv_view c) = conv_view c" by (induction "conv_view c") auto
  then show ?thesis using None assms by (simp add: conv_remove_absent conv_get_def)
next
  case (Some it)
  have "conv_view (c\<lparr>cItems := filter (\<lambda>x. x \<noteq> r) (cItems c), cIndex := (cIndex c)(r := None)\<rparr>) =
        filter (\<lambda>it. itRef it \<noteq> r) (conv_view c)"
  proof -
    have "filter (\<lambda>x. itRef (the (cIndex c x)) \<noteq> r) (cItems c) = filter (\<lambda>x. x \<noteq> r) (cItems c)"
      using assms by (auto simp: the_index_ref intro!: filter_cong)
    then show ?thesis by (simp add: conv_view_def filter_map comp_def)
  qed
  then show ?thesis using Some conv_remove_eq [OF assms Some] conv_remove_inv [OF assms]
    by (fastforce simp: conv_get_def)
qed

theorem remove_deletes_witness:
  "\<exists>c'. conv_remove newConversation 3 = Some (c', conv_get newConversation 3 \<noteq> None) \<and> conv_inv c' \<and>
     conv_view c' = filter (\<lambda>it. itRef it \<noteq> 3) (conv_view newConversation)"
  by (rule remove_deletes) (rule newConversation_inv)

section \<open>Projection to chat messages\<close>

text \<open>What each item must contribute to the chat: its tool call, or its spoken part (role, content,
  call id).\<close>

definition item_calls :: "item \<Rightarrow> ToolCall list" where
  "item_calls it = (if itContent it = ContentToolCall then [tool_call_of it] else [])"

definition item_says :: "item \<Rightarrow> (string \<times> string \<times> string) list" where
  "item_says it =
     (case itContent it of ContentToolCall \<Rightarrow> []
      | ContentToolOutput \<Rightarrow> [(RoleTool, itText it, itCallID it)]
      | _ \<Rightarrow> if itText it = [] then [] else [(itRole it, itText it, [])])"

definition pure_call :: "Message \<Rightarrow> bool" where
  "pure_call m \<longleftrightarrow> msgContent m = [] \<and> msgToolCalls m \<noteq> []"

definition message_says :: "Message list \<Rightarrow> (string \<times> string \<times> string) list" where
  "message_says ms = map (\<lambda>m. (msgRole m, msgContent m, msgToolCallID m)) (filter (\<lambda>m. \<not> pure_call m) ms)"

text \<open>The shape every prefix of the projection has: an assistant message without calls speaks, a
  message carries at most one call, and a call that could have joined the message before it did.\<close>

definition one_turn_one_message :: "Message list \<Rightarrow> bool" where
  "one_turn_one_message ms \<longleftrightarrow>
     (\<forall>m \<in> set ms. length (msgToolCalls m) \<le> 1) \<and>
     (\<forall>i. Suc i < length ms \<longrightarrow> pure_call (ms ! Suc i) \<longrightarrow>
        \<not> (msgRole (ms ! i) = RoleAssistant \<and> msgToolCalls (ms ! i) = []))"

definition speaks :: "Message list \<Rightarrow> bool" where
  "speaks ms \<longleftrightarrow> (\<forall>m \<in> set ms. msgRole m = RoleAssistant \<longrightarrow> msgToolCalls m = [] \<longrightarrow> msgContent m \<noteq> [])"

lemma list_last_cases: "ms = [] \<or> (\<exists>us m. ms = us @ [m])"
  by (cases ms rule: rev_cases) auto

lemma add_message_calls:
  "concat (map msgToolCalls (add_message ms it)) = concat (map msgToolCalls ms) @ item_calls it"
  using list_last_cases [of ms]
  by (auto simp: add_message_def item_calls_def split: ContentKind.splits)

lemma add_message_speaks: "speaks ms \<Longrightarrow> speaks (add_message ms it)"
  using list_last_cases [of ms]
  by (auto simp: add_message_def speaks_def split: ContentKind.splits)

lemma add_message_says:
  "speaks ms \<Longrightarrow> message_says (add_message ms it) = message_says ms @ item_says it"
  using list_last_cases [of ms]
  by (auto simp: add_message_def message_says_def item_says_def speaks_def pure_call_def
      split: ContentKind.splits)

lemma one_turn_snoc:
  "one_turn_one_message (us @ [m]) \<longleftrightarrow> one_turn_one_message us \<and> length (msgToolCalls m) \<le> 1 \<and>
     (us \<noteq> [] \<longrightarrow> pure_call m \<longrightarrow> \<not> (msgRole (last us) = RoleAssistant \<and> msgToolCalls (last us) = []))"
proof -
  have "(\<forall>i. Suc i < Suc (length us) \<longrightarrow> Q i) \<longleftrightarrow>
        (\<forall>i. Suc i < length us \<longrightarrow> Q i) \<and> (us \<noteq> [] \<longrightarrow> Q (length us - 1))" for Q
    by (cases us) (auto simp: less_Suc_eq)
  then show ?thesis
    by (auto simp: one_turn_one_message_def nth_append last_conv_nth)
qed

lemma add_message_one_turn: "speaks ms \<Longrightarrow> one_turn_one_message ms \<Longrightarrow> one_turn_one_message (add_message ms it)"
  using list_last_cases [of ms]
  by (auto simp: add_message_def one_turn_snoc speaks_def pure_call_def split: ContentKind.splits)

lemma fold_messages:
  assumes "speaks ms" "one_turn_one_message ms"
  shows "concat (map msgToolCalls (foldl add_message ms its)) = concat (map msgToolCalls ms) @ concat (map item_calls its)"
    and "message_says (foldl add_message ms its) = message_says ms @ concat (map item_says its)"
    and "one_turn_one_message (foldl add_message ms its)"
  using assms
  by (induction its arbitrary: ms)
     (simp_all add: add_message_calls add_message_says add_message_speaks add_message_one_turn)

lemma no_messages [simp]: "speaks []" "one_turn_one_message []" "message_says [] = []"
  by (simp_all add: speaks_def one_turn_one_message_def message_says_def)

text \<open>The chat history carries every function call of the conversation, exactly once and in
  order, with or without arguments.\<close>

theorem messages_calls:
  "concat (map msgToolCalls (messages c)) = concat (map item_calls (conv_view c))"
  by (simp add: messages_def fold_messages)

text \<open>Besides its calls the chat history says exactly what the items say, in order: every
  function call output (empty ones too) under its call id, and every other item that has text;
  merging a call into a message changes nothing of this.\<close>

theorem messages_says:
  "message_says (messages c) = concat (map item_says (conv_view c))"
  by (simp add: messages_def fold_messages)

text \<open>One turn is one message: a message carries at most one call, and a message that is only
  a call never directly follows an assistant message that has none.\<close>

theorem messages_one_turn: "one_turn_one_message (messages c)"
  by (simp add: messages_def fold_messages)

end
