(* ===== verification/Audio.thy ===== *)
theory Audio
  imports Prelude
begin

text \<open>
  \<^verbatim>\<open>internal/audio/audio.go\<close>: the one PCM format of the gateway (16-bit little-endian mono at
  24 kHz), millisecond and byte conversions, and sample access. \<open>MsToBytes\<close> multiplies a
  client-supplied millisecond count, so its wrap-around is kept.
\<close>

definition SampleRate :: int where "SampleRate = 24000"
definition BytesPerSample :: int where "BytesPerSample = 2"
definition BytesPerMs :: int where "BytesPerMs = 48"

definition MsToBytes :: "int \<Rightarrow> int" where
  "MsToBytes ms = i64 (ms * BytesPerMs)"

definition BytesToMs :: "int \<Rightarrow> int" where
  "BytesToMs n = go_div n BytesPerMs"

definition AlignDown :: "int \<Rightarrow> int" where
  "AlignDown n = n - go_rem n BytesPerSample"

text \<open>Sample access reads or writes two bytes at \<open>i * BytesPerSample\<close>; outside the slice it panics.\<close>

definition Sample :: "pcm \<Rightarrow> nat \<Rightarrow> 16 word option" where
  "Sample p i =
     (if 2 * i + 1 < length p
      then Some (word_cat (p ! (2 * i + 1)) (p ! (2 * i))) else None)"

definition PutSample :: "pcm \<Rightarrow> nat \<Rightarrow> 16 word \<Rightarrow> pcm option" where
  "PutSample p i v =
     (if 2 * i + 1 < length p
      then Some (p[2 * i := ucast v, 2 * i + 1 := ucast (drop_bit 8 v)]) else None)"

lemma BytesPerMs_derivation: "BytesPerMs = SampleRate * BytesPerSample div 1000"
  by (simp add: BytesPerMs_def SampleRate_def BytesPerSample_def)

lemma MsToBytes_small: "0 \<le> ms \<Longrightarrow> ms < 2 ^ 57 \<Longrightarrow> MsToBytes ms = 48 * ms"
  by (simp add: MsToBytes_def BytesPerMs_def i64_nonneg_small)

lemma BytesToMs_nat [simp]: "BytesToMs (int n) = int n div 48"
  by (simp add: BytesToMs_def BytesPerMs_def)

lemma BytesToMs_nonneg: "0 \<le> n \<Longrightarrow> BytesToMs n = n div 48"
  by (simp add: BytesToMs_def BytesPerMs_def)

lemma AlignDown_nonneg: "0 \<le> n \<Longrightarrow> AlignDown n = n - n mod 2"
  by (simp add: AlignDown_def BytesPerSample_def)

lemma word_cat_halves: "word_cat (ucast (drop_bit 8 v) :: 8 word) (ucast v :: 8 word) = (v :: 16 word)"
  by (rule bit_word_eqI) (auto simp: bit_word_cat_iff bit_ucast_iff bit_drop_bit_eq)

end
