(* ===== verification/Buffer.thy ===== *)
theory Buffer
  imports Audio
begin

text \<open>
  \<^verbatim>\<open>internal/session/buffer.go\<close>: the uncommitted input audio and the session timeline. All
  arithmetic is Go \<open>int\<close> arithmetic; the two slice expressions of \<open>commit\<close> and \<open>trimIdle\<close> can
  panic, which is the result \<^term>\<open>None\<close>. The invariant \<open>buf_inv\<close> bounds the timeline by
  \<open>2^56\<close> ms (two million years of audio), which keeps every timeline value far from overflow;
  \<open>seg_inv\<close> says that a marked segment lies inside the audio that has arrived.
\<close>

record inputAudioBuffer =
  bufPcm :: pcm
  baseMs :: int
  headMs :: int
  maxBytes :: int
  segStartMs :: int
  segEndMs :: int

datatype buffer_error = errBufferOverflow

section \<open>Operations\<close>

definition newInputAudioBuffer :: "int \<Rightarrow> inputAudioBuffer" where
  "newInputAudioBuffer maxMs =
     \<lparr>bufPcm = [], baseMs = 0, headMs = 0, maxBytes = MsToBytes maxMs, segStartMs = -1, segEndMs = -1\<rparr>"

definition buf_len :: "inputAudioBuffer \<Rightarrow> int" where
  "buf_len b = int (length (bufPcm b))"

definition buf_append :: "inputAudioBuffer \<Rightarrow> pcm \<Rightarrow> buffer_error + inputAudioBuffer" where
  "buf_append b p =
     (if maxBytes b < i64 (buf_len b + int (length p)) then Inl errBufferOverflow
      else Inr (b\<lparr>bufPcm := bufPcm b @ p\<rparr>))"

definition totalMs :: "inputAudioBuffer \<Rightarrow> int" where
  "totalMs b = i64 (headMs b + BytesToMs (buf_len b))"

definition markSpeechStart :: "inputAudioBuffer \<Rightarrow> int \<Rightarrow> int \<Rightarrow> int \<times> inputAudioBuffer" where
  "markSpeechStart b offsetMs prefixPaddingMs =
     (let s0 = i64 (i64 (baseMs b + offsetMs) - prefixPaddingMs);
          start = (if s0 < headMs b then headMs b else s0)
      in (start, b\<lparr>segStartMs := start, segEndMs := -1\<rparr>))"

definition markSpeechEnd :: "inputAudioBuffer \<Rightarrow> int \<Rightarrow> int \<Rightarrow> int \<times> inputAudioBuffer" where
  "markSpeechEnd b offsetMs silenceMs =
     (let e0 = i64 (i64 (baseMs b + offsetMs) + silenceMs);
          e = (if totalMs b < e0 then totalMs b else e0)
      in (e, b\<lparr>segEndMs := e\<rparr>))"

definition buf_clear :: "inputAudioBuffer \<Rightarrow> inputAudioBuffer" where
  "buf_clear b =
     b\<lparr>baseMs := totalMs b, headMs := totalMs b, bufPcm := [], segStartMs := -1, segEndMs := -1\<rparr>"

text \<open>The slice \<open>commit\<close> takes: its bounds on the timeline and in the held bytes.\<close>

definition commit_start :: "inputAudioBuffer \<Rightarrow> int" where
  "commit_start b = (if 0 \<le> segStartMs b then segStartMs b else headMs b)"

definition commit_end :: "inputAudioBuffer \<Rightarrow> int" where
  "commit_end b = (if 0 \<le> segEndMs b \<and> commit_start b < segEndMs b then segEndMs b else totalMs b)"

definition buf_commit ::
  "inputAudioBuffer \<Rightarrow> ((pcm \<times> int \<times> int) option \<times> inputAudioBuffer) option" where
  "buf_commit b =
     (if bufPcm b = [] then Some (None, b)
      else let startMs = commit_start b; endMs = commit_end b;
               from = MsToBytes (i64 (startMs - headMs b));
               to0 = MsToBytes (i64 (endMs - headMs b));
               to = (if buf_len b < to0 then buf_len b else to0)
           in do { p \<leftarrow> go_slice from to (bufPcm b);
                   Some (Some (p, startMs, endMs), buf_clear b) })"

definition trimIdle :: "inputAudioBuffer \<Rightarrow> int \<Rightarrow> inputAudioBuffer option" where
  "trimIdle b keepMs =
     (if 0 \<le> segStartMs b then Some b
      else let dropMs = i64 (BytesToMs (buf_len b) - keepMs)
           in if dropMs \<le> 0 then Some b
              else do { p \<leftarrow> go_slice (MsToBytes dropMs) (buf_len b) (bufPcm b);
                        Some (b\<lparr>bufPcm := p, headMs := i64 (headMs b + dropMs)\<rparr>) })"

section \<open>Invariants\<close>

definition buf_inv :: "inputAudioBuffer \<Rightarrow> bool" where
  "buf_inv b \<longleftrightarrow> 0 \<le> baseMs b \<and> baseMs b \<le> headMs b \<and> 48 * headMs b + buf_len b < 48 * 2 ^ 56
     \<and> (segStartMs b = -1 \<or> headMs b \<le> segStartMs b) \<and> -1 \<le> segEndMs b"

definition seg_inv :: "inputAudioBuffer \<Rightarrow> bool" where
  "seg_inv b \<longleftrightarrow> segStartMs b \<le> headMs b + buf_len b div 48 \<and> segEndMs b \<le> headMs b + buf_len b div 48"

text \<open>Whether \<open>n\<close> more bytes keep the timeline within its bound.\<close>

definition within_horizon :: "inputAudioBuffer \<Rightarrow> nat \<Rightarrow> bool" where
  "within_horizon b n \<longleftrightarrow> 48 * headMs b + buf_len b + int n < 48 * 2 ^ 56"

lemma whole_ms_fit: "a \<le> n div 48 \<Longrightarrow> 48 * a \<le> (n::int)"
  by presburger

lemma buf_len_nonneg [simp]: "0 \<le> buf_len b"
  by (simp add: buf_len_def)

lemma buf_inv_bounds:
  assumes "buf_inv b"
  shows "0 \<le> headMs b" "headMs b < 2 ^ 56" "buf_len b < 48 * 2 ^ 56" "0 \<le> baseMs b"
    "baseMs b \<le> headMs b" "headMs b + buf_len b div 48 < 2 ^ 56" "0 \<le> buf_len b div 48"
    "buf_len b div 48 < 2 ^ 56"
proof -
  have h: "0 \<le> baseMs b" "baseMs b \<le> headMs b" "48 * headMs b + buf_len b < 48 * 2 ^ 56"
    and n: "0 \<le> buf_len b"
    using assms by (simp_all add: buf_inv_def)
  have d: "48 * (buf_len b div 48) \<le> buf_len b" "0 \<le> buf_len b div 48"
    using n by (simp_all add: minus_mod_eq_mult_div [symmetric] pos_imp_zdiv_nonneg_iff)
  show "0 \<le> headMs b" "headMs b < 2 ^ 56" "buf_len b < 48 * 2 ^ 56" "0 \<le> baseMs b"
    "baseMs b \<le> headMs b" "headMs b + buf_len b div 48 < 2 ^ 56" "0 \<le> buf_len b div 48"
    "buf_len b div 48 < 2 ^ 56"
    using h n d by linarith+
qed

lemma totalMs_eq: "buf_inv b \<Longrightarrow> totalMs b = headMs b + buf_len b div 48"
  using buf_inv_bounds[of b] by (simp add: totalMs_def BytesToMs_nonneg i64_nonneg_small)

lemma buf_inv_new: "buf_inv (newInputAudioBuffer m)"
  by (simp add: buf_inv_def newInputAudioBuffer_def buf_len_def)

lemma seg_inv_new: "seg_inv (newInputAudioBuffer m)"
  by (simp add: seg_inv_def newInputAudioBuffer_def buf_len_def)

lemma buf_inv_append [inv_intros]:
  "buf_inv b \<Longrightarrow> within_horizon b (length p) \<Longrightarrow> buf_append b p = Inr b' \<Longrightarrow> buf_inv b'"
  by (auto simp: buf_append_def buf_inv_def within_horizon_def buf_len_def split: if_splits)

lemma seg_inv_append [inv_intros]: "seg_inv b \<Longrightarrow> buf_append b p = Inr b' \<Longrightarrow> seg_inv b'"
proof -
  assume "seg_inv b" and b': "buf_append b p = Inr b'"
  moreover have "buf_len b div 48 \<le> (buf_len b + int (length p)) div 48"
    by (rule zdiv_mono1) simp_all
  ultimately show ?thesis
    by (auto simp: buf_append_def seg_inv_def buf_len_def split: if_splits)
qed

lemma buf_inv_clear [inv_intros]: "buf_inv b \<Longrightarrow> buf_inv (buf_clear b)"
proof -
  assume b: "buf_inv b"
  then have "48 * (headMs b + buf_len b div 48) < 48 * 2 ^ 56"
    using buf_inv_bounds(6)[OF b] by simp
  then show ?thesis using totalMs_eq[OF b] buf_inv_bounds(1,7)[OF b]
    by (simp add: buf_inv_def buf_clear_def buf_len_def)
qed

lemma seg_inv_clear [inv_intros]: "buf_inv b \<Longrightarrow> seg_inv (buf_clear b)"
  using totalMs_eq[of b] buf_inv_bounds(1,7)[of b]
  by (simp add: seg_inv_def buf_clear_def buf_len_def)

lemma totalMs_clear: "buf_inv b \<Longrightarrow> totalMs (buf_clear b) = totalMs b"
  using totalMs_eq[OF buf_inv_clear, of b] by (simp add: buf_clear_def buf_len_def)

lemma buf_inv_markStart [inv_intros]: "buf_inv b \<Longrightarrow> buf_inv (snd (markSpeechStart b off pad))"
  by (auto simp: markSpeechStart_def buf_inv_def buf_len_def Let_def)

lemma buf_inv_markEnd [inv_intros]:
  "buf_inv b \<Longrightarrow> 0 \<le> off \<Longrightarrow> 0 \<le> sil \<Longrightarrow> baseMs b + off + sil < 2 ^ 62 \<Longrightarrow>
   buf_inv (snd (markSpeechEnd b off sil))"
proof -
  assume b: "buf_inv b" and "0 \<le> off" "0 \<le> sil" "baseMs b + off + sil < 2 ^ 62"
  then have e: "i64 (baseMs b + off) = baseMs b + off" "i64 (baseMs b + off + sil) = baseMs b + off + sil"
    using buf_inv_bounds(4)[OF b] by (simp_all add: i64_nonneg_small)
  have "0 \<le> totalMs b" using totalMs_eq[OF b] buf_inv_bounds(1,7)[OF b] by simp
  with b e \<open>0 \<le> off\<close> \<open>0 \<le> sil\<close> show ?thesis
    by (simp add: markSpeechEnd_def buf_inv_def buf_len_def Let_def)
qed

text \<open>A speech start within the arrived audio gives a segment within it.\<close>

lemma markStart_value:
  assumes "buf_inv b" "0 \<le> off" "baseMs b + off \<le> headMs b + buf_len b div 48" "0 \<le> pad" "pad < 2 ^ 62"
  shows "fst (markSpeechStart b off pad) = max (headMs b) (baseMs b + off - pad)"
proof -
  have "i64 (baseMs b + off) = baseMs b + off"
    using assms buf_inv_bounds[of b] by (intro i64_nonneg_small) simp_all
  moreover have "i64 (baseMs b + off - pad) = baseMs b + off - pad"
    using assms buf_inv_bounds[of b] by (intro i64_id) (simp add: in_i64_def)
  ultimately show ?thesis by (simp add: markSpeechStart_def Let_def max_def)
qed

lemma seg_inv_markStart [inv_intros]:
  assumes "buf_inv b" "0 \<le> off" "baseMs b + off \<le> headMs b + buf_len b div 48" "0 \<le> pad" "pad < 2 ^ 62"
  shows "seg_inv (snd (markSpeechStart b off pad))"
  using assms markStart_value[OF assms] buf_inv_bounds[of b]
  by (simp add: markSpeechStart_def seg_inv_def buf_len_def Let_def max_def split: if_splits)

lemma seg_inv_markEnd [inv_intros]:
  "buf_inv b \<Longrightarrow> seg_inv b \<Longrightarrow> seg_inv (snd (markSpeechEnd b off sil))"
  using totalMs_eq[of b] by (auto simp: markSpeechEnd_def seg_inv_def buf_len_def Let_def)

section \<open>Committing\<close>

lemma commit_range:
  assumes "buf_inv b" "seg_inv b"
  shows "headMs b \<le> commit_start b" "commit_start b \<le> commit_end b"
    "commit_end b \<le> headMs b + buf_len b div 48"
  using assms totalMs_eq[OF assms(1)] buf_inv_bounds[OF assms(1)]
  by (auto simp: commit_start_def commit_end_def buf_inv_def seg_inv_def)

lemma buf_commit_slice:
  assumes b: "buf_inv b" and s: "seg_inv b" and ne: "bufPcm b \<noteq> []"
  defines "k \<equiv> nat (48 * (commit_start b - headMs b))"
    and "m \<equiv> nat (48 * (commit_end b - commit_start b))"
  shows "buf_commit b = Some (Some (take m (drop k (bufPcm b)), commit_start b, commit_end b), buf_clear b)
         \<and> k + m \<le> length (bufPcm b)"
proof -
  let ?s = "commit_start b" and ?e = "commit_end b"
  note r = commit_range[OF b s] and bd = buf_inv_bounds[OF b]
  have "i64 (?s - headMs b) = ?s - headMs b" "i64 (?e - headMs b) = ?e - headMs b"
    using r bd by (simp_all add: i64_nonneg_small)
  then have f: "MsToBytes (i64 (?s - headMs b)) = 48 * (?s - headMs b)"
    "MsToBytes (i64 (?e - headMs b)) = 48 * (?e - headMs b)"
    using r bd by (simp_all add: MsToBytes_small)
  have le: "48 * (?e - headMs b) \<le> buf_len b" using r by (intro whole_ms_fit) simp
  then have "go_slice (48 * (?s - headMs b)) (48 * (?e - headMs b)) (bufPcm b) =
      Some (take m (drop k (bufPcm b)))"
    using r by (simp add: go_slice_def buf_len_def k_def m_def nat_diff_distrib [symmetric] algebra_simps)
  moreover have "k + m \<le> length (bufPcm b)"
    using r le by (simp add: k_def m_def nat_add_distrib [symmetric] buf_len_def nat_le_iff algebra_simps)
  ultimately show ?thesis using ne le f by (simp add: buf_commit_def Let_def)
qed

lemma buf_commit_inv [inv_intros]:
  "buf_inv b \<Longrightarrow> seg_inv b \<Longrightarrow> buf_commit b = Some (r, b') \<Longrightarrow> buf_inv b' \<and> seg_inv b'"
  by (cases "bufPcm b = []")
    (auto simp: buf_commit_def [of b] buf_commit_slice intro: buf_inv_clear seg_inv_clear
      split: bind_splits if_splits simp: Let_def)

section \<open>Trimming\<close>

lemma trimIdle_eq:
  assumes b: "buf_inv b" and k: "0 \<le> keep" "keep < 2 ^ 62" and ns: "segStartMs b < 0"
    and d: "keep < buf_len b div 48"
  shows "trimIdle b keep = Some (b\<lparr>bufPcm := drop (nat (48 * (buf_len b div 48 - keep))) (bufPcm b),
           headMs := headMs b + (buf_len b div 48 - keep)\<rparr>)"
proof -
  let ?d = "buf_len b div 48 - keep"
  note bd = buf_inv_bounds[OF b]
  have i: "i64 (BytesToMs (buf_len b) - keep) = ?d" "i64 (headMs b + ?d) = headMs b + ?d"
    using k d bd by (simp_all add: BytesToMs_nonneg i64_nonneg_small)
  have "48 * ?d \<le> buf_len b" using k by (intro whole_ms_fit) simp
  moreover have "MsToBytes ?d = 48 * ?d" using k d bd by (simp add: MsToBytes_small)
  ultimately have "go_slice (MsToBytes ?d) (buf_len b) (bufPcm b) = Some (drop (nat (48 * ?d)) (bufPcm b))"
    using d by (simp add: buf_len_def go_slice_tail)
  with ns d i show ?thesis by (simp add: trimIdle_def Let_def)
qed

lemma trimIdle_noop:
  "buf_inv b \<Longrightarrow> 0 \<le> keep \<Longrightarrow> keep < 2 ^ 62 \<Longrightarrow> 0 \<le> segStartMs b \<or> buf_len b div 48 \<le> keep \<Longrightarrow>
   trimIdle b keep = Some b"
proof -
  assume b: "buf_inv b" and k: "0 \<le> keep" "keep < 2 ^ 62" and c: "0 \<le> segStartMs b \<or> buf_len b div 48 \<le> keep"
  have "i64 (BytesToMs (buf_len b) - keep) = buf_len b div 48 - keep"
    using k buf_inv_bounds[OF b] by (simp add: BytesToMs_nonneg i64_id in_i64_def)
  with c show ?thesis by (auto simp: trimIdle_def Let_def)
qed

lemma trimIdle_total:
  assumes b: "buf_inv b" and s: "seg_inv b" and k: "0 \<le> keep" "keep < 2 ^ 62"
  obtains b' where "trimIdle b keep = Some b'" "buf_inv b'" "seg_inv b'" "totalMs b' = totalMs b"
    "baseMs b' = baseMs b" "48 * headMs b' + buf_len b' = 48 * headMs b + buf_len b"
    "segStartMs b' = segStartMs b" "segEndMs b' = segEndMs b" "maxBytes b' = maxBytes b"
    "segStartMs b < 0 \<Longrightarrow> buf_len b' div 48 \<le> keep"
proof (cases "segStartMs b < 0 \<and> keep < buf_len b div 48")
  case False
  then show ?thesis using that[OF trimIdle_noop[OF b k]] b s by auto
next
  case True
  let ?d = "buf_len b div 48 - keep"
  define b' where "b' = b\<lparr>bufPcm := drop (nat (48 * ?d)) (bufPcm b), headMs := headMs b + ?d\<rparr>"
  have eq: "trimIdle b keep = Some b'" using True by (simp add: trimIdle_eq[OF b k] b'_def)
  have le: "48 * ?d \<le> buf_len b" using k by (intro whole_ms_fit) simp
  then have len: "buf_len b' = buf_len b - 48 * ?d"
    using True by (simp add: b'_def buf_len_def nat_le_iff of_nat_diff)
  then have dv: "buf_len b' div 48 = keep" by (simp add: algebra_simps)
  have fr: "headMs b' = headMs b + ?d" "baseMs b' = baseMs b" "segStartMs b' = segStartMs b"
    "segEndMs b' = segEndMs b" "maxBytes b' = maxBytes b"
    by (simp_all add: b'_def)
  have inv: "buf_inv b'" using b True len fr by (auto simp: buf_inv_def)
  have sg: "seg_inv b'" using s fr dv by (simp add: seg_inv_def)
  have "totalMs b' = totalMs b" using totalMs_eq[OF inv] totalMs_eq[OF b] fr dv by simp
  then show ?thesis using that[OF eq inv sg] fr len dv by simp
qed

section \<open>Properties\<close>

text \<open>\<^bold>\<open>C24\<close>: with the marked segment inside the arrived audio, \<open>commit\<close> never panics; it returns
  exactly the bytes of the reported interval [start, end) of the timeline, 48 per millisecond, lying
  inside the held audio, and leaves an empty buffer whose timeline stands where it stood.\<close>

theorem commit_exact:
  assumes "buf_inv b" "seg_inv b" "bufPcm b \<noteq> []"
  shows "\<exists>p. buf_commit b = Some (Some (p, commit_start b, commit_end b), buf_clear b)
     \<and> p = take (length p) (drop (nat (48 * (commit_start b - headMs b))) (bufPcm b))
     \<and> int (length p) = 48 * (commit_end b - commit_start b)
     \<and> headMs b \<le> commit_start b \<and> commit_start b \<le> commit_end b \<and> commit_end b \<le> totalMs b
     \<and> totalMs (buf_clear b) = totalMs b \<and> bufPcm (buf_clear b) = []"
proof -
  define k m where "k = nat (48 * (commit_start b - headMs b))"
    and "m = nat (48 * (commit_end b - commit_start b))"
  note c = buf_commit_slice[OF assms, folded k_def m_def] and r = commit_range[OF assms(1,2)]
  have "k + m \<le> length (bufPcm b)" using c by blast
  then have len: "length (take m (drop k (bufPcm b))) = m" by (auto simp: min_def)
  have m: "int m = 48 * (commit_end b - commit_start b)" using r by (simp add: m_def)
  show ?thesis
    using c len m r totalMs_eq[OF assms(1)] totalMs_clear[OF assms(1)]
    by (intro exI[of _ "take m (drop k (bufPcm b))"]) (simp add: k_def buf_clear_def)
qed

theorem commit_exact_witness:
  "\<exists>p. buf_commit \<lparr>bufPcm = replicate 192 1, baseMs = 10, headMs = 12, maxBytes = 480,
        segStartMs = 13, segEndMs = 15\<rparr> = Some (Some (p, 13, 15), buf_clear
        \<lparr>bufPcm = replicate 192 1, baseMs = 10, headMs = 12, maxBytes = 480, segStartMs = 13, segEndMs = 15\<rparr>)
     \<and> length p = 96"
  using commit_exact[of "\<lparr>bufPcm = replicate 192 1, baseMs = 10, headMs = 12, maxBytes = 480,
        segStartMs = 13, segEndMs = 15\<rparr>"]
  by (auto simp: buf_inv_def seg_inv_def buf_len_def commit_start_def commit_end_def)

text \<open>Only appended audio moves the timeline. Clearing, marking a speech start or end, and
  trimming idle audio leave the current position unchanged; an append is all or nothing and
  advances it by the whole milliseconds that became complete; and no operation lets it go back.\<close>

theorem timeline_only_appends:
  assumes "buf_inv b" "seg_inv b" "0 \<le> keep" "keep < 2 ^ 62"
  shows "totalMs (buf_clear b) = totalMs b
     \<and> totalMs (snd (markSpeechStart b off pad)) = totalMs b
     \<and> totalMs (snd (markSpeechEnd b off sil)) = totalMs b
     \<and> (\<exists>b'. trimIdle b keep = Some b' \<and> totalMs b' = totalMs b)
     \<and> (within_horizon b (length p) \<longrightarrow> (case buf_append b p of
            Inl e \<Rightarrow> maxBytes b < buf_len b + int (length p)
          | Inr b' \<Rightarrow> bufPcm b' = bufPcm b @ p \<and> totalMs b \<le> totalMs b'
              \<and> totalMs b' = headMs b + (buf_len b + int (length p)) div 48))"
proof -
  obtain b' where "trimIdle b keep = Some b'" "totalMs b' = totalMs b"
    using trimIdle_total[OF assms] by metis
  moreover have "case buf_append b p of Inl e \<Rightarrow> maxBytes b < buf_len b + int (length p)
      | Inr b' \<Rightarrow> bufPcm b' = bufPcm b @ p \<and> totalMs b \<le> totalMs b'
          \<and> totalMs b' = headMs b + (buf_len b + int (length p)) div 48"
    if w: "within_horizon b (length p)"
  proof (cases "buf_append b p")
    case (Inl e)
    have "i64 (buf_len b + int (length p)) = buf_len b + int (length p)"
      using w buf_inv_bounds[OF assms(1)] by (intro i64_nonneg_small) (simp_all add: within_horizon_def)
    with Inl show ?thesis by (simp add: buf_append_def split: if_splits)
  next
    case (Inr b')
    note i = buf_inv_append[OF assms(1) w Inr]
    have "buf_len b div 48 \<le> (buf_len b + int (length p)) div 48" by (rule zdiv_mono1) simp_all
    with Inr totalMs_eq[OF i] totalMs_eq[OF assms(1)] show ?thesis
      by (auto simp: buf_append_def buf_len_def split: if_splits)
  qed
  ultimately show ?thesis
    using totalMs_clear[OF assms(1)]
    by (auto simp: markSpeechStart_def markSpeechEnd_def totalMs_def buf_len_def Let_def)
qed

theorem timeline_only_appends_witness:
  "totalMs (buf_clear \<lparr>bufPcm = replicate 960 7, baseMs = 0, headMs = 3, maxBytes = 960,
        segStartMs = -1, segEndMs = -1\<rparr>) = 23"
  using timeline_only_appends[of "\<lparr>bufPcm = replicate 960 7, baseMs = 0, headMs = 3, maxBytes = 960,
        segStartMs = -1, segEndMs = -1\<rparr>" 5 0 0 0 "[]"]
  by (simp add: buf_inv_def seg_inv_def buf_len_def totalMs_def BytesToMs_def BytesPerMs_def
      i64_nonneg_small)

text \<open>Trimming idle audio bounds the held buffer and never touches what can still be
  committed: while no speech is marked, at most the newest \<open>keep\<close> milliseconds (and a partial one)
  remain, as a suffix of the held bytes, and a marked segment is left as it is.\<close>

theorem trimIdle_bounds:
  assumes "buf_inv b" "seg_inv b" "0 \<le> keep" "keep < 2 ^ 62"
  shows "\<exists>b' n. trimIdle b keep = Some b' \<and> bufPcm b' = drop n (bufPcm b)
     \<and> 48 * headMs b' = 48 * headMs b + int (length (bufPcm b) - length (bufPcm b'))
     \<and> (segStartMs b < 0 \<longrightarrow> buf_len b' < 48 * (keep + 1))
     \<and> min (buf_len b) (48 * keep) \<le> buf_len b'
     \<and> (0 \<le> segStartMs b \<longrightarrow> b' = b)"
proof (cases "segStartMs b < 0 \<and> keep < buf_len b div 48")
  case False
  have "buf_len b < 48 * (buf_len b div 48 + 1)" by presburger
  with False show ?thesis
    by (intro exI[of _ b] exI[of _ 0]) (auto simp: trimIdle_noop[OF assms(1,3,4)])
next
  case True
  let ?d = "buf_len b div 48 - keep"
  have le: "48 * ?d \<le> buf_len b" using assms by (intro whole_ms_fit) simp
  have "buf_len b < 48 * (buf_len b div 48 + 1)" "48 * (buf_len b div 48) \<le> buf_len b" by presburger+
  with True le show ?thesis
    by (intro exI conjI) (rule trimIdle_eq[OF assms(1,3,4)], simp_all add: buf_len_def nat_le_iff of_nat_diff)
qed

theorem trimIdle_bounds_witness:
  "\<exists>b'. trimIdle \<lparr>bufPcm = replicate 960 7, baseMs = 0, headMs = 3, maxBytes = 960,
        segStartMs = -1, segEndMs = -1\<rparr> 5 = Some b' \<and> buf_len b' < 288"
  using trimIdle_bounds[of "\<lparr>bufPcm = replicate 960 7, baseMs = 0, headMs = 3, maxBytes = 960,
        segStartMs = -1, segEndMs = -1\<rparr>" 5]
  by (auto simp: buf_inv_def seg_inv_def buf_len_def)

end
