(* ===== verification/Vad.thy ===== *)
theory Vad
  imports Audio Float64
begin

text \<open>
  \<^verbatim>\<open>internal/vad/vad.go\<close>: the energy detector. It consumes the stream in frames of 20 ms, compares
  the frame's root-mean-square level (computed in float64 as the source does) with an entry and an
  exit threshold, and reports speech starts and ends with millisecond offsets since the last reset.
\<close>

section \<open>State and operations\<close>

datatype EventKind = SpeechStart | SpeechEnd

record vad_event =
  veKind :: EventKind
  OffsetMs :: int

record vad_config =
  vcThreshold :: f64
  vcSilenceDurationMs :: int

definition FrameMs :: int where "FrameMs = 20"
definition hysteresisRatio :: f64 where "hysteresisRatio = f64_round (6 / 10)"
definition thresholdScale :: f64 where "thresholdScale = f64_round (1 / 10)"

record Energy =
  enterLevel :: f64
  exitLevel :: f64
  silenceMs :: int
  pendingPcm :: pcm
  elapsedMs :: int
  speaking :: bool
  lastVoiced :: int

definition NewEnergy :: "vad_config \<Rightarrow> Energy" where
  "NewEnergy cfg =
     (let en = fmul (vcThreshold cfg) thresholdScale in
      \<lparr>enterLevel = en, exitLevel = fmul en hysteresisRatio, silenceMs = vcSilenceDurationMs cfg,
       pendingPcm = [], elapsedMs = 0, speaking = False, lastVoiced = 0\<rparr>)"

definition Energy_Reset :: "Energy \<Rightarrow> Energy" where
  "Energy_Reset e = e\<lparr>pendingPcm := [], elapsedMs := 0, speaking := False, lastVoiced := 0\<rparr>"

text \<open>\<open>float64(audio.Sample(frame, i)) / math.MaxInt16\<close>; the index is in range by the loop's bound.\<close>

definition level_of :: "pcm \<Rightarrow> nat \<Rightarrow> f64" where
  "level_of frame i = fdiv (f64_of_int (sint (the (Sample frame i)))) 32767"

definition rms :: "pcm \<Rightarrow> f64" where
  "rms frame =
     (let n = length frame div 2 in
      if n = 0 then 0
      else fsqrt (fdiv (foldl (\<lambda>sum i. let s = level_of frame i in fadd sum (fmul s s)) 0 [0..<n])
                       (f64_of_int (int n))))"

definition frameBytes :: nat where "frameBytes = nat (MsToBytes FrameMs)"

text \<open>One iteration of the loop, on a whole frame.\<close>

definition frame_step :: "Energy \<Rightarrow> pcm \<Rightarrow> Energy \<times> vad_event list" where
  "frame_step e0 frame =
     (let frameStart = elapsedMs e0; e = e0\<lparr>elapsedMs := elapsedMs e0 + FrameMs\<rparr>; level = rms frame in
      if \<not> speaking e \<and> enterLevel e \<le> level
      then (e\<lparr>speaking := True, lastVoiced := elapsedMs e\<rparr>, [\<lparr>veKind = SpeechStart, OffsetMs = frameStart\<rparr>])
      else if speaking e \<and> exitLevel e \<le> level then (e\<lparr>lastVoiced := elapsedMs e\<rparr>, [])
      else if speaking e \<and> silenceMs e \<le> elapsedMs e - lastVoiced e
      then (e\<lparr>speaking := False\<rparr>, [\<lparr>veKind = SpeechEnd, OffsetMs = lastVoiced e\<rparr>])
      else (e, []))"

lemma frameBytes_eq [simp]: "frameBytes = 960"
  by (simp add: frameBytes_def FrameMs_def MsToBytes_small)

function process_loop :: "Energy \<Rightarrow> Energy \<times> vad_event list" where
  "process_loop e =
     (if frameBytes \<le> length (pendingPcm e)
      then let (e1, evs) = frame_step (e\<lparr>pendingPcm := drop frameBytes (pendingPcm e)\<rparr>) (take frameBytes (pendingPcm e));
               (e2, more) = process_loop e1
           in (e2, evs @ more)
      else (e, []))"
  by pat_completeness auto
termination
  by (relation "measure (\<lambda>e. length (pendingPcm (e :: Energy)))")
     (auto simp: frame_step_def Let_def split: if_splits)

declare process_loop.simps [simp del]

definition Process :: "Energy \<Rightarrow> pcm \<Rightarrow> Energy \<times> vad_event list" where
  "Process e p = process_loop (e\<lparr>pendingPcm := pendingPcm e @ p\<rparr>)"

section \<open>Frames\<close>

lemma frame_step_pending:
  "frame_step (e\<lparr>pendingPcm := q\<rparr>) f = ((fst (frame_step e f))\<lparr>pendingPcm := q\<rparr>, snd (frame_step e f))"
  by (simp add: frame_step_def Let_def)

lemma frame_step_sel [simp]:
  "pendingPcm (fst (frame_step e f)) = pendingPcm e"
  "elapsedMs (fst (frame_step e f)) = elapsedMs e + 20"
  "silenceMs (fst (frame_step e f)) = silenceMs e"
  "enterLevel (fst (frame_step e f)) = enterLevel e"
  "exitLevel (fst (frame_step e f)) = exitLevel e"
  by (simp_all add: frame_step_def Let_def FrameMs_def)

text \<open>The detector between two calls holds less than a frame; its last voiced offset is a frame end
  in the past.\<close>

definition energy_inv :: "Energy \<Rightarrow> bool" where
  "energy_inv e \<longleftrightarrow> length (pendingPcm e) < 960 \<and> 0 \<le> lastVoiced e \<and> lastVoiced e \<le> elapsedMs e"

lemma NewEnergy_inv [inv_intros]: "energy_inv (NewEnergy cfg)"
  by (simp add: energy_inv_def NewEnergy_def Let_def)

lemma Energy_Reset_inv [inv_intros]: "energy_inv (Energy_Reset e)"
  by (simp add: energy_inv_def Energy_Reset_def)

text \<open>Events alternate, and offsets move forward within the audio consumed.\<close>

fun alternates :: "bool \<Rightarrow> vad_event list \<Rightarrow> bool \<Rightarrow> bool" where
  "alternates sp [] sp' \<longleftrightarrow> sp = sp'"
| "alternates sp (ev # evs) sp' \<longleftrightarrow> veKind ev = (if sp then SpeechEnd else SpeechStart) \<and> alternates (\<not> sp) evs sp'"

lemma alternates_append:
  "alternates sp (xs @ ys) sp' \<longleftrightarrow> (\<exists>m. alternates sp xs m \<and> alternates m ys sp')"
  by (induction xs arbitrary: sp) auto

definition in_window :: "int \<Rightarrow> int \<Rightarrow> vad_event list \<Rightarrow> bool" where
  "in_window lo hi evs \<longleftrightarrow> sorted (map OffsetMs evs) \<and> (\<forall>ev \<in> set evs. lo \<le> OffsetMs ev \<and> OffsetMs ev \<le> hi)"

text \<open>The least offset the next event can have.\<close>

definition next_floor :: "Energy \<Rightarrow> int" where
  "next_floor e = (if speaking e then lastVoiced e else elapsedMs e)"

lemma next_floor_pending [simp]: "next_floor (e\<lparr>pendingPcm := q\<rparr>) = next_floor e"
  by (simp add: next_floor_def)

lemma frame_step_facts:
  assumes "0 \<le> lastVoiced e" "lastVoiced e \<le> elapsedMs e" "frame_step e f = (e', evs)"
  shows "0 \<le> lastVoiced e' \<and> lastVoiced e' \<le> elapsedMs e'"
    and "alternates (speaking e) evs (speaking e')"
    and "in_window (next_floor e) (next_floor e') evs" "next_floor e \<le> next_floor e'"
  using assms
  by (auto simp: frame_step_def Let_def FrameMs_def in_window_def next_floor_def split: if_splits)

lemma in_window_append:
  "in_window a b xs \<Longrightarrow> in_window b c ys \<Longrightarrow> a \<le> b \<Longrightarrow> b \<le> c \<Longrightarrow> in_window a c (xs @ ys)"
  by (fastforce simp: in_window_def sorted_append)

lemma process_loop_facts:
  assumes "0 \<le> lastVoiced e" "lastVoiced e \<le> elapsedMs e" "process_loop e = (e', evs)"
  shows "energy_inv e' \<and> alternates (speaking e) evs (speaking e') \<and>
         in_window (next_floor e) (next_floor e') evs \<and> next_floor e \<le> next_floor e' \<and>
         48 * elapsedMs e' + int (length (pendingPcm e')) = 48 * elapsedMs e + int (length (pendingPcm e))"
  using assms
proof (induction e arbitrary: e' evs rule: process_loop.induct)
  case (1 e)
  show ?case
  proof (cases "960 \<le> length (pendingPcm e)")
    case False
    then show ?thesis using 1(2-4) by (simp add: process_loop.simps [of e] energy_inv_def in_window_def)
  next
    case True
    let ?e0 = "e\<lparr>pendingPcm := drop frameBytes (pendingPcm e)\<rparr>" and ?f = "take frameBytes (pendingPcm e)"
    obtain e1 xs where s: "frame_step ?e0 ?f = (e1, xs)" by (cases "frame_step ?e0 ?f")
    obtain e2 ys where p: "process_loop e1 = (e2, ys)" by (cases "process_loop e1")
    have out: "e' = e2" "evs = xs @ ys"
      using 1(4) s p True by (simp_all add: process_loop.simps [of e])
    note f = frame_step_facts [OF _ _ s]
    have e1: "e1 = fst (frame_step ?e0 ?f)" using s by simp
    have "energy_inv e2 \<and> alternates (speaking e1) ys (speaking e2) \<and>
          in_window (next_floor e1) (next_floor e2) ys \<and> next_floor e1 \<le> next_floor e2 \<and>
          48 * elapsedMs e2 + int (length (pendingPcm e2)) = 48 * elapsedMs e1 + int (length (pendingPcm e1))"
      using 1(1) [OF _ s [symmetric] refl] True f(1) 1(2,3) p by simp
    then show ?thesis
      using f(2-4) 1(2,3) True out in_window_append [of "next_floor e" "next_floor e1" xs "next_floor e2" ys]
      by (auto simp: e1 alternates_append next_floor_def)
  qed
qed


lemma process_loop_more:
  "process_loop (e\<lparr>pendingPcm := pendingPcm e @ q\<rparr>) =
     (let (e1, xs) = process_loop e; (e2, ys) = process_loop (e1\<lparr>pendingPcm := pendingPcm e1 @ q\<rparr>) in (e2, xs @ ys))"
proof (induction e rule: process_loop.induct)
  case (1 e)
  show ?case
  proof (cases "960 \<le> length (pendingPcm e)")
    case False
    then show ?thesis by (simp add: process_loop.simps [of e] split: prod.splits)
  next
    case True
    let ?e0 = "e\<lparr>pendingPcm := drop frameBytes (pendingPcm e)\<rparr>" and ?f = "take frameBytes (pendingPcm e)"
    obtain e1 xs where s: "frame_step ?e0 ?f = (e1, xs)" by (cases "frame_step ?e0 ?f")
    have pend: "pendingPcm e1 = drop frameBytes (pendingPcm e)" using s frame_step_sel(1) [of ?e0 ?f] by simp
    have "frame_step (e\<lparr>pendingPcm := drop frameBytes (pendingPcm e @ q)\<rparr>) ?f = (e1\<lparr>pendingPcm := pendingPcm e1 @ q\<rparr>, xs)"
      using s frame_step_pending [where e = ?e0 and q = "drop frameBytes (pendingPcm e @ q)" and f = ?f] True pend by simp
    then show ?thesis
      using 1(1) [OF _ s [symmetric] refl] True s
      by (subst process_loop.simps) (simp add: process_loop.simps [of e] split: prod.splits)
  qed
qed

section \<open>The contract of a detector\<close>

text \<open>
  What the session relies on, for any detector: feeding audio in two pieces is feeding it at once,
  feeding nothing does nothing, and the events of a call continue the alternation and stay between
  the floor offset before and after it. From these the whole stream behaves the same way.
\<close>

fun process_all :: "('d \<Rightarrow> pcm \<Rightarrow> 'd \<times> vad_event list) \<Rightarrow> 'd \<Rightarrow> pcm list \<Rightarrow> 'd \<times> vad_event list" where
  "process_all process d [] = (d, [])"
| "process_all process d (p # ps) =
     (let (d1, xs) = process d p; (d2, ys) = process_all process d1 ps in (d2, xs @ ys))"

locale detector =
  fixes process :: "'d \<Rightarrow> pcm \<Rightarrow> 'd \<times> vad_event list"
    and good :: "'d \<Rightarrow> bool"
    and talking :: "'d \<Rightarrow> bool"
    and floor_ms :: "'d \<Rightarrow> int"
    and fed :: "'d \<Rightarrow> int"
  assumes process_nothing: "good d \<Longrightarrow> process d [] = (d, [])"
    and process_pieces: "good d \<Longrightarrow> process d (p @ q) =
          (let (d1, xs) = process d p; (d2, ys) = process d1 q in (d2, xs @ ys))"
    and process_good: "good d \<Longrightarrow> process d p = (d', evs) \<Longrightarrow>
          good d' \<and> alternates (talking d) evs (talking d') \<and> in_window (floor_ms d) (floor_ms d') evs \<and>
          floor_ms d \<le> floor_ms d' \<and> fed d' = fed d + int (length p)"
begin

lemma process_all_concat: "good d \<Longrightarrow> process_all process d ps = process d (concat ps)"
proof (induction ps arbitrary: d)
  case (Cons p ps)
  obtain d1 xs where p: "process d p = (d1, xs)" by (cases "process d p")
  then show ?case using Cons.IH [of d1] process_good [OF Cons.prems p] process_pieces [OF Cons.prems, of p "concat ps"]
    by (simp add: split: prod.splits)
qed (simp add: process_nothing)

lemma process_all_good:
  "good d \<Longrightarrow> process_all process d ps = (d', evs) \<Longrightarrow>
     alternates (talking d) evs (talking d') \<and> in_window (floor_ms d) (floor_ms d') evs"
  using process_good [of d "concat ps" d' evs] by (simp add: process_all_concat)

end

definition fed_bytes :: "Energy \<Rightarrow> int" where
  "fed_bytes e = 48 * elapsedMs e + int (length (pendingPcm e))"

interpretation energy: detector Process energy_inv speaking next_floor fed_bytes
proof unfold_locales
  fix d assume "energy_inv d"
  then show "Process d [] = (d, [])"
    by (simp add: Process_def process_loop.simps energy_inv_def)
next
  fix d p q assume "energy_inv d"
  show "Process d (p @ q) = (let (d1, xs) = Process d p; (d2, ys) = Process d1 q in (d2, xs @ ys))"
    using process_loop_more [of "d\<lparr>pendingPcm := pendingPcm d @ p\<rparr>" q] by (simp add: Process_def)
next
  fix d p d' evs assume "energy_inv d" "Process d p = (d', evs)"
  then show "energy_inv d' \<and> alternates (speaking d) evs (speaking d') \<and> in_window (next_floor d) (next_floor d') evs \<and>
      next_floor d \<le> next_floor d' \<and> fed_bytes d' = fed_bytes d + int (length p)"
    using process_loop_facts [of "d\<lparr>pendingPcm := pendingPcm d @ p\<rparr>" d' evs]
    by (simp add: Process_def energy_inv_def fed_bytes_def)
qed

section \<open>Properties\<close>

text \<open>\<^bold>\<open>C28\<close>: how the network cut the audio into chunks does not matter: a fresh detector fed chunk
  by chunk ends in the same state and reports the same events as one fed the whole stream.\<close>

theorem vad_chunking_irrelevant:
  "process_all Process (NewEnergy cfg) ps = Process (NewEnergy cfg) (concat ps)"
  by (rule energy.process_all_concat) (rule NewEnergy_inv)

text \<open>Over any stream, speech starts and ends alternate beginning with a start, and their
  offsets never go back nor past the audio consumed.\<close>

theorem vad_events_well_formed:
  "case process_all Process (NewEnergy cfg) ps of (e, evs) \<Rightarrow>
     alternates False evs (speaking e) \<and> in_window 0 (elapsedMs e) evs"
proof -
  obtain e evs where p: "process_all Process (NewEnergy cfg) ps = (e, evs)"
    by (cases "process_all Process (NewEnergy cfg) ps")
  have n: "\<not> speaking (NewEnergy cfg)" "next_floor (NewEnergy cfg) = 0"
    by (simp_all add: NewEnergy_def next_floor_def Let_def)
  have g: "alternates False evs (speaking e)" "in_window 0 (next_floor e) evs"
    using energy.process_all_good [OF NewEnergy_inv p] n by simp_all
  have "energy_inv e"
    using energy.process_good [OF NewEnergy_inv, of cfg "concat ps" e evs] p
    by (simp add: energy.process_all_concat [OF NewEnergy_inv])
  then have "next_floor e \<le> elapsedMs e" by (simp add: next_floor_def energy_inv_def)
  then show ?thesis using g p by (auto simp: in_window_def)
qed

lemma Process_frame:
  assumes "pendingPcm e = []" "length f = 960"
  shows "Process e f = frame_step e f"
proof -
  obtain e1 xs where s: "frame_step e f = (e1, xs)" by (cases "frame_step e f")
  have "pendingPcm e1 = []" using s frame_step_sel(1) [of e f] assms(1) by simp
  moreover have "frame_step (e\<lparr>pendingPcm := []\<rparr>) f = (e1, xs)"
    using s assms(1) by (metis Energy.surjective Energy.update_convs(4) Energy.select_convs(4))
  ultimately show ?thesis using assms s
    by (simp add: Process_def process_loop.simps [of "e\<lparr>pendingPcm := f\<rparr>"] process_loop.simps [of e1])
qed

lemma quiet_frame:
  assumes "speaking e" "rms f < exitLevel e"
  shows "frame_step e f =
     (if silenceMs e \<le> elapsedMs e + 20 - lastVoiced e
      then (e\<lparr>elapsedMs := elapsedMs e + 20, speaking := False\<rparr>, [\<lparr>veKind = SpeechEnd, OffsetMs = lastVoiced e\<rparr>])
      else (e\<lparr>elapsedMs := elapsedMs e + 20\<rparr>, []))"
  using assms by (simp add: frame_step_def Let_def FrameMs_def)

definition quiet :: "Energy \<Rightarrow> pcm \<Rightarrow> bool" where
  "quiet e f \<longleftrightarrow> length f = 960 \<and> rms f < exitLevel e"

text \<open>After a voiced frame, quiet frames report nothing while less than the configured
  silence has passed, and the frame that completes it reports the end of speech, once, at the offset
  where the silence began.\<close>

theorem vad_silence_window:
  assumes "speaking e" "pendingPcm e = []" "list_all (quiet e) fs"
    "elapsedMs e + 20 * (int (length fs) - 1) - lastVoiced e < silenceMs e"
  shows "snd (process_all Process e fs) =
     (if fs \<noteq> [] \<and> silenceMs e \<le> elapsedMs e + 20 * int (length fs) - lastVoiced e
      then [\<lparr>veKind = SpeechEnd, OffsetMs = lastVoiced e\<rparr>] else [])"
  using assms
proof (induction fs arbitrary: e)
  case (Cons f fs)
  have f: "length f = 960" "rms f < exitLevel e" using Cons.prems(3) by (simp_all add: quiet_def)
  note step = Process_frame [OF Cons.prems(2) f(1)] quiet_frame [OF Cons.prems(1) f(2)]
  show ?case
  proof (cases "fs = []")
    case True
    then show ?thesis using step by simp
  next
    case False
    let ?e = "e\<lparr>elapsedMs := elapsedMs e + 20\<rparr>"
    have "1 \<le> int (length fs)" using False by (cases fs) auto
    then have going: "\<not> silenceMs e \<le> elapsedMs e + 20 - lastVoiced e" using Cons.prems(4) by simp
    have "list_all (quiet ?e) fs" using Cons.prems(3) by (simp add: list_all_iff quiet_def)
    then show ?thesis using Cons.IH [of ?e] Cons.prems step going False
      by (simp add: algebra_simps split: prod.splits)
  qed
qed simp

lemma digital_silence:
  "level_of (replicate 960 0) i = 0" if "i < 480" for i
  using that by (simp add: level_of_def Sample_def f64_of_int_def f64_round_def fdiv_def)

lemma rms_silence: "rms (replicate 960 0) = 0"
proof -
  have "foldl (\<lambda>sum i. let s = level_of (replicate 960 0) i in fadd sum (fmul s s)) 0 is = 0"
    if "\<forall>i \<in> set is. i < 480" for "is"
    using that by (induction "is") (simp_all add: digital_silence fadd_def fmul_def f64_round_def Let_def)
  then show ?thesis by (simp add: rms_def fdiv_def f64_round_def fsqrt_def)
qed

theorem vad_silence_window_witness:
  "snd (process_all Process \<lparr>enterLevel = 1, exitLevel = 1 / 2, silenceMs = 30, pendingPcm = [], elapsedMs = 60,
      speaking = True, lastVoiced = 60\<rparr> [replicate 960 0, replicate 960 0]) =
      [\<lparr>veKind = SpeechEnd, OffsetMs = 60\<rparr>]"
  by (subst vad_silence_window) (simp_all add: quiet_def rms_silence)

end
