(* ===== verification/Truncate.thy ===== *)
theory Truncate
  imports Types Audio
begin

text \<open>
  \<^verbatim>\<open>internal/session/truncate.go\<close>: what part of a spoken text the user is assumed to have heard when
  playback stopped at a byte offset of the audio. Offsets are Go ints and every slice expression
  keeps its run-time panic; the proportional cut is computed in float64 as the source does.
\<close>

section \<open>Operations\<close>

definition align_keep :: "CharTiming list \<Rightarrow> int \<Rightarrow> int \<Rightarrow> int" where
  "align_keep align cutMs n =
     foldl (\<lambda>keep ct. if cutMs \<le> StartMs ct \<and> CharIndex ct < keep then CharIndex ct else keep) n align"

definition trimByAlignment :: "string \<Rightarrow> CharTiming list \<Rightarrow> int \<Rightarrow> string option" where
  "trimByAlignment text align cutBytes =
     (let rs = runes text; keep = align_keep align (BytesToMs cutBytes) (int (length rs))
      in map_option string_of_runes (go_slice 0 keep rs))"

definition keep_runes :: "int \<Rightarrow> int \<Rightarrow> int \<Rightarrow> int" where
  "keep_runes n part whole = f64_to_int (fmul (f64_of_int n) (fdiv (f64_of_int part) (f64_of_int whole)))"

fun seg_keep :: "string \<Rightarrow> audioSegment list \<Rightarrow> int \<Rightarrow> int \<Rightarrow> int option" where
  "seg_keep text [] cutB keep = Some keep"
| "seg_keep text (seg # segs) cutB keep =
     (if audioEnd seg \<le> cutB then seg_keep text segs cutB (textEnd seg)
      else if cutB \<le> audioStart seg then Some keep
      else do {
        span \<leftarrow> go_slice (textStart seg) (textEnd seg) text;
        rs \<leftarrow> go_slice 0 (keep_runes (int (rune_count span)) (cutB - audioStart seg) (audioEnd seg - audioStart seg))
                (runes span);
        Some (textStart seg + int (length (string_of_runes rs)))
      })"

definition trimBySegments :: "string \<Rightarrow> audioSegment list \<Rightarrow> int \<Rightarrow> string option" where
  "trimBySegments text segs cutB = do { k \<leftarrow> seg_keep text segs cutB 0; go_slice 0 k text }"

definition trimText :: "string \<Rightarrow> audioSegment list \<Rightarrow> CharTiming list \<Rightarrow> int \<Rightarrow> int \<Rightarrow> string option" where
  "trimText text segs align cutBytes totalAudioBytes =
     (if totalAudioBytes \<le> cutBytes \<or> text = [] then Some text
      else if cutBytes \<le> 0 then Some []
      else if align \<noteq> [] then trimByAlignment text align cutBytes
      else trimBySegments text
             (if segs = [] then [\<lparr>textStart = 0, textEnd = int (length text), audioStart = 0,
                                  audioEnd = totalAudioBytes\<rparr>] else segs) cutBytes)"

section \<open>Well-formed bookkeeping\<close>

text \<open>Segments as the synthesis stage records them: in text and audio order, inside the text, each
  span cut at rune boundaries; audio offsets small enough for float64 to hold them exactly.\<close>

fun segs_ok :: "string \<Rightarrow> int \<Rightarrow> int \<Rightarrow> audioSegment list \<Rightarrow> bool" where
  "segs_ok text tlo alo [] \<longleftrightarrow> True"
| "segs_ok text tlo alo (seg # segs) \<longleftrightarrow>
     tlo \<le> textStart seg \<and> textStart seg \<le> textEnd seg \<and> textEnd seg \<le> int (length text) \<and>
     alo \<le> audioStart seg \<and> audioStart seg \<le> audioEnd seg \<and> audioEnd seg \<le> 2 ^ 53 \<and>
     valid_utf8 (take (nat (textEnd seg - textStart seg)) (drop (nat (textStart seg)) text)) \<and>
     segs_ok text (textEnd seg) (audioEnd seg) segs"

definition trim_ok :: "string \<Rightarrow> audioSegment list \<Rightarrow> CharTiming list \<Rightarrow> int \<Rightarrow> bool" where
  "trim_ok text segs align tot \<longleftrightarrow>
     valid_utf8 text \<and> length text \<le> 2 ^ 53 \<and> tot \<le> 2 ^ 53 \<and>
     (\<forall>ct \<in> set align. 0 \<le> CharIndex ct) \<and> (align = [] \<longrightarrow> segs_ok text 0 0 segs)"

section \<open>Proportional cut\<close>

lemma rune_count_le: "rune_count s \<le> length s"
  unfolding rune_count_def
proof (induction s rule: runes.induct)
  case (1 s)
  show ?case
  proof (cases "s = []")
    case False
    then have "length (runes s) = Suc (length (runes (drop (snd (decode_rune s)) s)))"
      by (subst runes.simps) simp
    moreover have "1 \<le> snd (decode_rune s)" "snd (decode_rune s) \<le> length s"
      using decode_rune_size [OF False] by simp_all
    ultimately show ?thesis using 1 [OF False] unfolding length_drop by linarith
  qed (simp add: runes.simps)
qed

lemma keep_runes_eq:
  assumes "0 \<le> n" "n \<le> 2 ^ 53" "0 \<le> part" "part \<le> whole" "0 < whole" "whole \<le> 2 ^ 53"
  shows "keep_runes n part whole = \<lfloor>f64_round (of_int n * f64_round (of_int part / of_int whole))\<rfloor>"
proof -
  have "f64_of_int n = of_int n" "f64_of_int part = of_int part" "f64_of_int whole = of_int whole"
    using assms by (simp_all add: f64_of_int_def f64r.rnd_int)
  moreover have "(0 :: rat) \<le> of_int part" "(0 :: rat) < of_int whole" using assms by simp_all
  then have "0 \<le> f64_round (of_int part / of_int whole)" by (intro f64r.rnd_nonneg) simp
  then have "0 \<le> f64_round (of_int n * f64_round (of_int part / of_int whole))"
    using assms(1) by (intro f64r.rnd_nonneg) simp
  ultimately show ?thesis by (simp add: keep_runes_def f64_to_int_def fmul_def fdiv_def)
qed

lemma keep_runes_bound:
  assumes "0 \<le> n" "n \<le> 2 ^ 53" "0 \<le> part" "part \<le> whole" "0 < whole" "whole \<le> 2 ^ 53"
  shows "0 \<le> keep_runes n part whole \<and> keep_runes n part whole \<le> n"
proof -
  have "(0 :: rat) \<le> of_int part" "of_int part \<le> (of_int whole :: rat)" "(0 :: rat) < of_int whole"
    using assms by simp_all
  from f64r.proportion_bound [OF assms(1,2) this] keep_runes_eq [OF assms]
  show ?thesis by (metis floor_mono floor_of_int zero_le_floor)
qed

lemma keep_runes_mono:
  assumes "0 \<le> n" "n \<le> 2 ^ 53" "0 \<le> part" "part \<le> part'" "part' \<le> whole" "0 < whole" "whole \<le> 2 ^ 53"
  shows "keep_runes n part whole \<le> keep_runes n part' whole"
proof -
  have "(0 :: rat) \<le> of_int part" "of_int part \<le> (of_int part' :: rat)" "(0 :: rat) < of_int whole"
    using assms by simp_all
  from f64r.proportion_mono [OF assms(1) this]
  have "f64_round (of_int n * f64_round (of_int part / of_int whole)) \<le>
        f64_round (of_int n * f64_round (of_int part' / of_int whole))" .
  then show ?thesis using assms by (simp add: keep_runes_eq floor_mono)
qed

section \<open>Segments\<close>

text \<open>The straddling segment: how many bytes are kept, and that no slice panics.\<close>

definition straddle_len :: "string \<Rightarrow> audioSegment \<Rightarrow> int \<Rightarrow> nat" where
  "straddle_len text seg cutB =
     (let span = take (nat (textEnd seg - textStart seg)) (drop (nat (textStart seg)) text)
      in length (string_of_runes (take (nat (keep_runes (int (rune_count span)) (cutB - audioStart seg)
                   (audioEnd seg - audioStart seg))) (runes span))))"

lemma seg_keep_straddle:
  assumes "segs_ok text tlo alo (seg # segs)" "0 \<le> tlo" "0 \<le> alo" "length text \<le> 2 ^ 53"
    "\<not> audioEnd seg \<le> cutB" "\<not> cutB \<le> audioStart seg"
  shows "seg_keep text (seg # segs) cutB keep = Some (textStart seg + int (straddle_len text seg cutB))"
    and "int (straddle_len text seg cutB) \<le> textEnd seg - textStart seg"
proof -
  define span where "span = take (nat (textEnd seg - textStart seg)) (drop (nat (textStart seg)) text)"
  have sl: "go_slice (textStart seg) (textEnd seg) text = Some span"
    using assms(1,2) by (auto simp: go_slice_def span_def nat_diff_distrib)
  have n: "rune_count span \<le> length span" by (rule rune_count_le)
  also have len: "int (length span) = textEnd seg - textStart seg" using go_slice_length [OF sl] .
  have "length span \<le> 2 ^ 53" using assms(1,2,4) len by auto
  then have "int (rune_count span) \<le> 2 ^ 53" using n by simp
  then have k: "0 \<le> keep_runes (int (rune_count span)) (cutB - audioStart seg) (audioEnd seg - audioStart seg)"
      "keep_runes (int (rune_count span)) (cutB - audioStart seg) (audioEnd seg - audioStart seg) \<le> int (rune_count span)"
    using assms keep_runes_bound [of "int (rune_count span)" "cutB - audioStart seg" "audioEnd seg - audioStart seg"]
    by auto
  show "seg_keep text (seg # segs) cutB keep = Some (textStart seg + int (straddle_len text seg cutB))"
    using assms(5,6) sl k by (simp add: go_slice_Some rune_count_def straddle_len_def span_def [symmetric] Let_def)
  have "valid_utf8 span" using assms(1) by (simp add: span_def)
  then show "int (straddle_len text seg cutB) \<le> textEnd seg - textStart seg"
    using runes_take_length len by (simp add: straddle_len_def span_def [symmetric] Let_def) (metis of_nat_le_iff)
qed

lemma straddle_len_mono:
  assumes "segs_ok text tlo alo (seg # segs)" "0 \<le> tlo" "0 \<le> alo" "length text \<le> 2 ^ 53"
    "cutB \<le> cutB'" "\<not> audioEnd seg \<le> cutB'" "\<not> cutB \<le> audioStart seg"
  shows "straddle_len text seg cutB \<le> straddle_len text seg cutB'"
proof -
  define span where "span = take (nat (textEnd seg - textStart seg)) (drop (nat (textStart seg)) text)"
  have "length span \<le> length text" by (simp add: span_def)
  then have "rune_count span \<le> 2 ^ 53" using rune_count_le [of span] assms(4) by linarith
  then have "int (rune_count span) \<le> 2 ^ 53" by simp
  then have "keep_runes (int (rune_count span)) (cutB - audioStart seg) (audioEnd seg - audioStart seg) \<le>
             keep_runes (int (rune_count span)) (cutB' - audioStart seg) (audioEnd seg - audioStart seg)"
    using assms by (intro keep_runes_mono) auto
  then show ?thesis
    by (auto simp: straddle_len_def span_def [symmetric] Let_def intro!: string_of_runes_take_mono)
qed

lemma seg_keep_bounds:
  assumes "segs_ok text tlo alo segs" "0 \<le> tlo" "tlo \<le> int (length text)" "0 \<le> alo" "length text \<le> 2 ^ 53"
  shows "\<exists>k. seg_keep text segs cutB tlo = Some k \<and> tlo \<le> k \<and> k \<le> int (length text)"
  using assms
proof (induction segs arbitrary: tlo alo)
  case (Cons seg segs)
  show ?case
  proof (cases "audioEnd seg \<le> cutB \<or> cutB \<le> audioStart seg")
    case True
    then show ?thesis using Cons.IH [of "textEnd seg" "audioEnd seg"] Cons.prems by fastforce
  next
    case False
    then show ?thesis
      using seg_keep_straddle(1) [OF Cons.prems(1,2,4,5), of cutB tlo]
        seg_keep_straddle(2) [OF Cons.prems(1,2,4,5), of cutB] Cons.prems(1) by auto
  qed
qed simp

lemma seg_keep_mono:
  assumes "segs_ok text tlo alo segs" "0 \<le> tlo" "tlo \<le> int (length text)" "0 \<le> alo" "length text \<le> 2 ^ 53"
    "cutB \<le> cutB'" "seg_keep text segs cutB tlo = Some k" "seg_keep text segs cutB' tlo = Some k'"
  shows "k \<le> k'"
  using assms
proof (induction segs arbitrary: tlo alo)
  case (Cons seg segs)
  note ok = Cons.prems(1,2,4,5)
  have next_seg: "segs_ok text (textEnd seg) (audioEnd seg) segs" "0 \<le> textEnd seg"
      "textEnd seg \<le> int (length text)" "0 \<le> audioEnd seg"
    using Cons.prems by auto
  consider "audioEnd seg \<le> cutB" | "\<not> audioEnd seg \<le> cutB" "cutB \<le> audioStart seg"
    | "\<not> audioEnd seg \<le> cutB" "\<not> cutB \<le> audioStart seg" by blast
  then show ?case
  proof cases
    case 1
    then show ?thesis using Cons.IH [OF next_seg] Cons.prems by auto
  next
    case 2
    then show ?thesis using seg_keep_bounds [OF Cons.prems(1-5), of cutB'] Cons.prems by auto
  next
    case 3
    note s = seg_keep_straddle [OF ok 3]
    have k: "k = textStart seg + int (straddle_len text seg cutB)" using s(1) Cons.prems(7) by simp
    show ?thesis
    proof (cases "audioEnd seg \<le> cutB'")
      case True
      then have "textEnd seg \<le> k'" using seg_keep_bounds [OF next_seg Cons.prems(5), of cutB'] Cons.prems(8) by auto
      then show ?thesis using k s(2) by simp
    next
      case False
      moreover have "\<not> cutB' \<le> audioStart seg" using 3 Cons.prems(6) by simp
      ultimately have "k' = textStart seg + int (straddle_len text seg cutB')"
        using seg_keep_straddle(1) [OF ok, of cutB'] Cons.prems(8) by simp
      then show ?thesis using k straddle_len_mono [OF ok Cons.prems(6) False 3(2)] by simp
    qed
  qed
qed simp


section \<open>Alignment\<close>

lemma align_keep_bounds:
  "0 \<le> n \<Longrightarrow> \<forall>ct \<in> set align. 0 \<le> CharIndex ct \<Longrightarrow> 0 \<le> align_keep align ms n \<and> align_keep align ms n \<le> n"
  unfolding align_keep_def
proof (induction align arbitrary: n)
  case (Cons ct align)
  have "0 \<le> CharIndex ct" "\<forall>ct \<in> set align. 0 \<le> CharIndex ct" using Cons.prems by simp_all
  then show ?case using Cons.IH [of n] Cons.IH [of "CharIndex ct"] Cons.prems(1) by fastforce
qed simp

lemma align_keep_mono:
  "ms \<le> ms' \<Longrightarrow> n \<le> n' \<Longrightarrow> align_keep align ms n \<le> align_keep align ms' n'"
  unfolding align_keep_def by (induction align arbitrary: n n') auto

lemma BytesToMs_mono: "0 \<le> a \<Longrightarrow> a \<le> b \<Longrightarrow> BytesToMs a \<le> BytesToMs b"
  by (simp add: BytesToMs_nonneg zdiv_mono1)

section \<open>The whole routine\<close>

text \<open>How many bytes \<open>trimText\<close> keeps; the result is that prefix of the text.\<close>

definition kept_bytes :: "string \<Rightarrow> audioSegment list \<Rightarrow> CharTiming list \<Rightarrow> int \<Rightarrow> int \<Rightarrow> int" where
  "kept_bytes text segs align cutB tot =
     (if tot \<le> cutB \<or> text = [] then int (length text)
      else if cutB \<le> 0 then 0
      else if align \<noteq> [] then
        int (length (string_of_runes (take (nat (align_keep align (BytesToMs cutB) (int (length (runes text))))) (runes text))))
      else the (seg_keep text
             (if segs = [] then [\<lparr>textStart = 0, textEnd = int (length text), audioStart = 0, audioEnd = tot\<rparr>]
              else segs) cutB 0))"

lemma whole_segment_ok:
  "trim_ok text segs [] tot \<Longrightarrow> 0 < tot \<Longrightarrow>
   segs_ok text 0 0 (if segs = [] then [\<lparr>textStart = 0, textEnd = int (length text), audioStart = 0, audioEnd = tot\<rparr>] else segs)"
  by (simp add: trim_ok_def)

lemma trimText_kept:
  assumes "trim_ok text segs align tot"
  shows "trimText text segs align cutB tot = Some (take (nat (kept_bytes text segs align cutB tot)) text)"
    and "0 \<le> kept_bytes text segs align cutB tot"
    and "kept_bytes text segs align cutB tot \<le> int (length text)"
proof -
  let ?segs = "if segs = [] then [\<lparr>textStart = 0, textEnd = int (length text), audioStart = 0, audioEnd = tot\<rparr>] else segs"
  have aligned: "trimByAlignment text align cutB =
      Some (take (length (string_of_runes (take k (runes text)))) text)"
    and keep: "length (string_of_runes (take k (runes text))) \<le> length text"
    if "k = nat (align_keep align (BytesToMs cutB) (int (length (runes text))))" for k
  proof -
    have "0 \<le> align_keep align (BytesToMs cutB) (int (length (runes text))) \<and>
          align_keep align (BytesToMs cutB) (int (length (runes text))) \<le> int (length (runes text))"
      using assms by (intro align_keep_bounds) (simp_all add: trim_ok_def)
    then show "trimByAlignment text align cutB = Some (take (length (string_of_runes (take k (runes text)))) text)"
      using assms that by (simp add: trimByAlignment_def Let_def go_slice_Some runes_take_prefix trim_ok_def)
    show "length (string_of_runes (take k (runes text))) \<le> length text"
      using assms by (simp add: runes_take_length trim_ok_def)
  qed
  have seg: "\<exists>k. seg_keep text ?segs cutB 0 = Some k \<and> 0 \<le> k \<and> k \<le> int (length text)"
    if "align = []" "\<not> tot \<le> cutB" "0 < cutB"
    using seg_keep_bounds [OF whole_segment_ok [of "text" segs tot], of cutB] assms that by (simp add: trim_ok_def)
  show "trimText text segs align cutB tot = Some (take (nat (kept_bytes text segs align cutB tot)) text)"
    using aligned seg
    by (fastforce simp: trimText_def kept_bytes_def trimBySegments_def go_slice_def)
  show "0 \<le> kept_bytes text segs align cutB tot" "kept_bytes text segs align cutB tot \<le> int (length text)"
    using keep seg by (fastforce simp: kept_bytes_def)+
qed

lemma kept_bytes_mono:
  assumes "trim_ok text segs align tot" "cutB \<le> cutB'"
  shows "kept_bytes text segs align cutB tot \<le> kept_bytes text segs align cutB' tot"
proof (cases "cutB \<le> 0 \<or> tot \<le> cutB' \<or> text = []")
  case True
  then show ?thesis using assms trimText_kept(2,3) [OF assms(1), of cutB] trimText_kept(2) [OF assms(1), of cutB']
    by (auto simp: kept_bytes_def)
next
  case False
  let ?segs = "if segs = [] then [\<lparr>textStart = 0, textEnd = int (length text), audioStart = 0, audioEnd = tot\<rparr>] else segs"
  show ?thesis
  proof (cases "align = []")
    case True
    have ok: "segs_ok text 0 0 ?segs" "length text \<le> 2 ^ 53"
      using whole_segment_ok [of "text" segs tot] assms True False by (auto simp: trim_ok_def)
    obtain k k' where "seg_keep text ?segs cutB 0 = Some k" "seg_keep text ?segs cutB' 0 = Some k'"
      using seg_keep_bounds [OF ok(1) _ _ _ ok(2)] by (metis of_nat_0_le_iff order_refl)
    then show ?thesis
      using seg_keep_mono [OF ok(1) _ _ _ ok(2) assms(2)] True False assms(2) by (simp add: kept_bytes_def)
  next
    case align: False
    have "align_keep align (BytesToMs cutB) n \<le> align_keep align (BytesToMs cutB') n" for n
      using False assms(2) by (intro align_keep_mono BytesToMs_mono) auto
    then show ?thesis using align False assms(2)
      by (auto simp: kept_bytes_def intro!: string_of_runes_take_mono nat_mono)
  qed
qed

section \<open>Properties\<close>

lemma valid_Hi: "valid_utf8 ''Hi''"
  by (simp add: valid_utf8_def runes.simps decode_rune_def string_of_runes_def encode_rune_def
      valid_rune_def char_of_eq_iff)

text \<open>\<^bold>\<open>C26\<close>: with well-formed bookkeeping trimming never panics and returns a prefix of the text.\<close>

theorem trim_is_prefix:
  assumes "trim_ok text segs align tot"
  shows "\<exists>r. trimText text segs align cutB tot = Some r \<and> (\<exists>rest. text = r @ rest)"
  using trimText_kept(1) [OF assms, of cutB] by (metis append_take_drop_id)

theorem trim_is_prefix_witness:
  "\<exists>r. trimText ''Hi'' [] [] 10 96 = Some r \<and> (\<exists>rest. ''Hi'' = r @ rest)"
  by (rule trim_is_prefix) (simp add: trim_ok_def valid_Hi)

text \<open>Trimming is monotone in the cut: hearing more audio never keeps less text, whichever of
  the three tiers applies, including the float64 rounding of the proportional cut.\<close>

theorem trim_monotone:
  assumes "trim_ok text segs align tot" "cutB \<le> cutB'"
    "trimText text segs align cutB tot = Some r" "trimText text segs align cutB' tot = Some r'"
  shows "\<exists>rest. r' = r @ rest"
proof -
  have "r = take (nat (kept_bytes text segs align cutB tot)) text"
    and "r' = take (nat (kept_bytes text segs align cutB' tot)) text"
    using trimText_kept(1) [OF assms(1)] assms(3,4) by simp_all
  moreover have "nat (kept_bytes text segs align cutB tot) \<le> nat (kept_bytes text segs align cutB' tot)"
    by (intro nat_mono kept_bytes_mono assms)
  ultimately have "r = take (nat (kept_bytes text segs align cutB tot)) r'" by (simp add: min_absorb1)
  then show ?thesis by (metis append_take_drop_id)
qed

theorem trim_monotone_witness:
  "\<exists>rest. ''Hi'' = ''H'' @ (rest :: string)"
proof (rule trim_monotone [of "''Hi''" "[]" "[\<lparr>CharIndex = 0, StartMs = 0\<rparr>, \<lparr>CharIndex = 1, StartMs = 1\<rparr>]" 96 48 96])
  show "trim_ok ''Hi'' [] [\<lparr>CharIndex = 0, StartMs = 0\<rparr>, \<lparr>CharIndex = 1, StartMs = 1\<rparr>] 96"
    by (simp add: trim_ok_def valid_Hi)
  show "trimText ''Hi'' [] [\<lparr>CharIndex = 0, StartMs = 0\<rparr>, \<lparr>CharIndex = 1, StartMs = 1\<rparr>] 48 96 = Some ''H''"
    by (simp add: trimText_def trimByAlignment_def align_keep_def BytesToMs_nonneg go_slice_def runes.simps
        decode_rune_def string_of_runes_def encode_rune_def char_of_eq_iff)
qed (simp_all add: trimText_def)

text \<open>Segments recorded for the whole text do not fit a text that was already trimmed: cutting
  the two-sentence text \<open>abcdef\<close> inside its first segment keeps \<open>ab\<close>, and cutting that result again
  with the segments unchanged slices past its end and panics.\<close>

theorem second_trim_panics:
  "trimText ''abcdef'' [\<lparr>textStart = 0, textEnd = 4, audioStart = 0, audioEnd = 192\<rparr>,
                       \<lparr>textStart = 4, textEnd = 6, audioStart = 192, audioEnd = 288\<rparr>] [] 96 288 = Some ''ab'' \<and>
   trimText ''ab'' [\<lparr>textStart = 0, textEnd = 4, audioStart = 0, audioEnd = 192\<rparr>,
                   \<lparr>textStart = 4, textEnd = 6, audioStart = 192, audioEnd = 288\<rparr>] [] 48 96 = None"
proof -
  have "keep_runes 4 96 192 = 2" by code_simp
  then show ?thesis
    by (simp add: trimText_def trimBySegments_def go_slice_def runes.simps decode_rune_def rune_count_def
        string_of_runes_def encode_rune_def)
qed

end
