(* ===== verification/Turn.thy ===== *)
theory Turn
  imports Config
begin

text \<open>
  \<^verbatim>\<open>internal/session/turn.go\<close>: the turn manager, a pure state machine fed with acoustic, transcript
  and client facts that returns the decision the actor executes, and the sentence-end test on
  transcripts it uses (with the punctuation classes of \<^verbatim>\<open>sentencer.go\<close>).
\<close>

section \<open>Punctuation\<close>

definition isCJKTerminator :: "rune \<Rightarrow> bool" where
  "isCJKTerminator r \<longleftrightarrow> r = 0x3002 \<or> r = 0xFF01 \<or> r = 0xFF1F"

definition isTerminator :: "rune \<Rightarrow> bool" where
  "isTerminator r \<longleftrightarrow> r = 0x2E \<or> r = 0x21 \<or> r = 0x3F \<or> isCJKTerminator r"

definition isClosingQuote :: "rune \<Rightarrow> bool" where
  "isClosingQuote r \<longleftrightarrow> r = 0x22 \<or> r = 0x27 \<or> r = 0x29 \<or> r = 0x201D \<or> r = 0x2019 \<or> r = 0x300D \<or> r = 0x300F"

definition endsSentence :: "string \<Rightarrow> bool" where
  "endsSentence text =
     (let s = trim_right (\<lambda>r. is_space r \<or> isClosingQuote r) text in
      if s = [] then False else isTerminator (last (runes s)))"

section \<open>State, inputs and decisions\<close>

datatype turnMode = modeManual | modeServerVAD | modeSemanticVAD

datatype TurnInput = vadSpeechStart | vadSpeechEnd | asrFinal string | asrEndOfTurn | clientCommit
  | clientCreateResponse | responseStarted | responseEnded

record TurnDecision =
  EmitSpeechStarted :: bool
  EmitSpeechStopped :: bool
  Interrupt :: bool
  Commit :: bool
  Trigger :: bool
  DeferTrigger :: bool
  ArmEndOfTurnTimer :: bool
  ArmFinalWaitTimer :: bool

definition no_decision :: TurnDecision where
  "no_decision = \<lparr>EmitSpeechStarted = False, EmitSpeechStopped = False, Interrupt = False,
     Commit = False, Trigger = False, DeferTrigger = False, ArmEndOfTurnTimer = False,
     ArmFinalWaitTimer = False\<rparr>"

record TurnManager =
  tmMode :: turnMode
  tmCreateResponse :: bool
  tmInterruptResponse :: bool
  tmResponseActive :: bool
  tmSpeaking :: bool
  tmPendingEOT :: bool
  tmFinalPending :: bool
  tmFinalTerminal :: bool

definition newTurnManager :: "TurnDetection option \<Rightarrow> TurnManager" where
  "newTurnManager td = (case td of
     None \<Rightarrow> \<lparr>tmMode = modeManual, tmCreateResponse = False, tmInterruptResponse = False,
       tmResponseActive = False, tmSpeaking = False, tmPendingEOT = False,
       tmFinalPending = False, tmFinalTerminal = False\<rparr>
   | Some t \<Rightarrow> \<lparr>tmMode = (if tdType t = TurnDetectionServerVAD then modeServerVAD
           else if tdType t = TurnDetectionSemanticVAD then modeSemanticVAD else modeManual),
       tmCreateResponse = tdCreateResponse t, tmInterruptResponse = tdInterruptResponse t,
       tmResponseActive = False, tmSpeaking = False, tmPendingEOT = False,
       tmFinalPending = False, tmFinalTerminal = False\<rparr>)"

definition vadEnabled :: "TurnManager \<Rightarrow> bool" where
  "vadEnabled t \<longleftrightarrow> tmMode t \<noteq> modeManual"

section \<open>Transitions\<close>

definition resetTurn :: "TurnManager \<Rightarrow> TurnManager" where
  "resetTurn t = t\<lparr>tmSpeaking := False, tmPendingEOT := False, tmFinalPending := False\<rparr>"

definition endTurn :: "TurnManager \<Rightarrow> TurnDecision \<Rightarrow> TurnManager \<times> TurnDecision" where
  "endTurn t d =
     (resetTurn t,
      if tmMode t = modeSemanticVAD
      then d\<lparr>Commit := True, DeferTrigger := tmCreateResponse t\<rparr>
      else d\<lparr>Commit := True, Trigger := tmCreateResponse t\<rparr>)"

definition judge :: "bool \<Rightarrow> TurnManager \<Rightarrow> TurnDecision \<Rightarrow> TurnManager \<times> TurnDecision" where
  "judge terminal t d =
     (if terminal then endTurn t d else (t, d\<lparr>ArmEndOfTurnTimer := True\<rparr>))"

fun Step :: "TurnManager \<Rightarrow> TurnInput \<Rightarrow> TurnManager \<times> TurnDecision" where
  "Step t responseStarted = (t\<lparr>tmResponseActive := True\<rparr>, no_decision)"
| "Step t responseEnded = (t\<lparr>tmResponseActive := False\<rparr>, no_decision)"
| "Step t clientCommit = (resetTurn t, no_decision\<lparr>Commit := True\<rparr>)"
| "Step t clientCreateResponse = (t, no_decision\<lparr>Trigger := True\<rparr>)"
| "Step t vadSpeechStart =
     (if tmMode t = modeManual then (t, no_decision)
      else (t\<lparr>tmSpeaking := True, tmPendingEOT := False, tmFinalPending := False\<rparr>,
            no_decision\<lparr>EmitSpeechStarted := True,
              Interrupt := tmInterruptResponse t \<and> tmResponseActive t\<rparr>))"
| "Step t vadSpeechEnd =
     (if tmMode t = modeManual \<or> \<not> tmSpeaking t then (t, no_decision)
      else (let t1 = t\<lparr>tmSpeaking := False\<rparr>; d1 = no_decision\<lparr>EmitSpeechStopped := True\<rparr> in
        case tmMode t of
          modeServerVAD \<Rightarrow> endTurn t1 d1
        | modeSemanticVAD \<Rightarrow>
            (let t2 = t1\<lparr>tmPendingEOT := True\<rparr> in
             if tmFinalPending t2 then judge (tmFinalTerminal t2) (t2\<lparr>tmFinalPending := False\<rparr>) d1
             else (t2, d1\<lparr>ArmFinalWaitTimer := True\<rparr>))
        | modeManual \<Rightarrow> (t1, d1)))"
| "Step t (asrFinal text) =
     (if tmMode t \<noteq> modeSemanticVAD then (t, no_decision)
      else (let terminal = endsSentence text in
        if tmPendingEOT t then judge terminal t no_decision
        else if tmSpeaking t then (t\<lparr>tmFinalPending := True, tmFinalTerminal := terminal\<rparr>, no_decision)
        else (t, no_decision)))"
| "Step t asrEndOfTurn =
     (if tmMode t = modeSemanticVAD \<and> tmPendingEOT t then endTurn t no_decision
      else (t, no_decision))"

section \<open>Invariant\<close>

text \<open>
  While the user speaks no end of turn is pending, a Final is remembered only during speech, and
  the semantic-only flags are never set in another mode.
\<close>

definition turn_inv :: "TurnManager \<Rightarrow> bool" where
  "turn_inv t \<longleftrightarrow> \<not> (tmSpeaking t \<and> tmPendingEOT t) \<and> (tmFinalPending t \<longrightarrow> tmSpeaking t)
     \<and> (tmMode t = modeManual \<longrightarrow> \<not> tmSpeaking t)
     \<and> (tmMode t \<noteq> modeSemanticVAD \<longrightarrow> \<not> tmPendingEOT t \<and> \<not> tmFinalPending t)"

lemmas turn_defs = turn_inv_def resetTurn_def endTurn_def judge_def no_decision_def Let_def

lemma turn_inv_new: "turn_inv (newTurnManager td)"
  by (simp add: newTurnManager_def turn_inv_def split: option.split)

lemma turn_inv_resetTurn [inv_intros]: "turn_inv t \<Longrightarrow> turn_inv (resetTurn t)"
  by (auto simp: turn_defs)

lemma turn_inv_active [inv_intros]: "turn_inv t \<Longrightarrow> turn_inv (t\<lparr>tmResponseActive := b\<rparr>)"
  by (simp add: turn_inv_def)

lemma turn_inv_Step [inv_intros]: "turn_inv t \<Longrightarrow> turn_inv (fst (Step t i))"
  by (cases i; cases "tmMode t") (auto simp: turn_defs)

text \<open>Only the two response inputs touch \<open>responseActive\<close>, and no input changes the settings.\<close>

lemma Step_frame:
  "tmMode (fst (Step t i)) = tmMode t"
  "tmCreateResponse (fst (Step t i)) = tmCreateResponse t"
  "tmInterruptResponse (fst (Step t i)) = tmInterruptResponse t"
  by (cases i; cases "tmMode t"; auto simp: turn_defs)+

lemma Step_active:
  "i \<noteq> responseStarted \<Longrightarrow> i \<noteq> responseEnded \<Longrightarrow>
   tmResponseActive (fst (Step t i)) = tmResponseActive t"
  by (cases i; cases "tmMode t") (auto simp: turn_defs)

interpretation turns: machine "\<lambda>t i. fst (Step t i)" turn_inv
  by unfold_locales (rule turn_inv_Step)

section \<open>Abstract phases\<close>

text \<open>
  What the actor sees of a turn: nobody speaks, the user speaks, or speech ended and the end of
  turn is still open (semantic mode only). The abstract machine says which inputs end a turn;
  the concrete one refines it.
\<close>

datatype phase = Idle | Speaking | Pending

definition phase_of :: "TurnManager \<Rightarrow> phase" where
  "phase_of t = (if tmSpeaking t then Speaking else if tmPendingEOT t then Pending else Idle)"

inductive phase_step :: "turnMode \<Rightarrow> phase \<Rightarrow> TurnInput \<Rightarrow> bool \<Rightarrow> phase \<Rightarrow> bool" where
  ph_start: "m \<noteq> modeManual \<Longrightarrow> phase_step m p vadSpeechStart False Speaking"
| ph_end_server: "phase_step modeServerVAD Speaking vadSpeechEnd True Idle"
| ph_end_open: "phase_step modeSemanticVAD Speaking vadSpeechEnd False Pending"
| ph_end_judged: "phase_step modeSemanticVAD Speaking vadSpeechEnd True Idle"
| ph_final: "endsSentence x \<Longrightarrow> phase_step modeSemanticVAD Pending (asrFinal x) True Idle"
| ph_timeout: "phase_step modeSemanticVAD Pending asrEndOfTurn True Idle"
| ph_client: "phase_step m p clientCommit True Idle"
| ph_stay: "i \<noteq> clientCommit \<Longrightarrow> phase_step m p i False p"

lemma Step_refines:
  assumes "turn_inv t"
  shows "phase_step (tmMode t) (phase_of t) i (Commit (snd (Step t i))) (phase_of (fst (Step t i)))"
proof (cases i)
  case vadSpeechStart
  with assms show ?thesis
    by (cases "tmMode t") (auto simp: turn_defs phase_of_def intro: phase_step.intros)
next
  case vadSpeechEnd
  with assms show ?thesis
    by (cases "tmMode t") (auto simp: turn_defs phase_of_def intro: phase_step.intros)
next
  case (asrFinal x)
  with assms show ?thesis
    by (cases "tmMode t") (auto simp: turn_defs phase_of_def intro: phase_step.intros)
next
  case asrEndOfTurn
  with assms show ?thesis
    by (cases "tmMode t") (auto simp: turn_defs phase_of_def intro: phase_step.intros)
qed (auto simp: turn_defs phase_of_def intro: phase_step.intros)

text \<open>The inputs of a run that end a turn without the client asking, and its speech starts.\<close>

fun auto_commits :: "TurnManager \<Rightarrow> TurnInput list \<Rightarrow> nat" where
  "auto_commits t [] = 0"
| "auto_commits t (i # is) =
     (if Commit (snd (Step t i)) \<and> i \<noteq> clientCommit then 1 else 0) + auto_commits (fst (Step t i)) is"

definition open_turns :: "TurnManager \<Rightarrow> nat" where
  "open_turns t = (if phase_of t = Idle then 0 else 1)"

lemma auto_commit_step:
  assumes "turn_inv t"
  shows "(if Commit (snd (Step t i)) \<and> i \<noteq> clientCommit then 1 else 0) + open_turns (fst (Step t i))
     \<le> open_turns t + (if i = vadSpeechStart then 1 else 0)"
  using Step_refines[OF assms, of i]
  by (cases rule: phase_step.cases) (auto simp: open_turns_def)

lemma auto_commits_le:
  "turn_inv t \<Longrightarrow> auto_commits t is \<le> open_turns t + count_list is vadSpeechStart"
proof (induction "is" arbitrary: t)
  case Nil
  then show ?case by simp
next
  case (Cons i "is")
  have "turn_inv (fst (Step t i))" using Cons.prems by (rule turn_inv_Step)
  from Cons.IH[OF this] auto_commit_step[OF Cons.prems, of i] show ?case by auto
qed

section \<open>Properties\<close>

text \<open>\<^bold>\<open>C22\<close>: over every sequence of inputs from a fresh turn manager, the flags stay consistent
  (never speaking with an open end of turn, a remembered Final only during speech, semantic flags
  only in semantic mode), and every step of the manager is a step of the abstract phase machine,
  committing exactly where that machine ends a turn.\<close>

theorem turn_manager_refines_phases:
  "let t = run_machine (\<lambda>t i. fst (Step t i)) (newTurnManager td) inputs in
     turn_inv t \<and>
     phase_step (tmMode t) (phase_of t) i (Commit (snd (Step t i))) (phase_of (fst (Step t i)))"
  using turns.run_inv[OF turn_inv_new, of td inputs] by (simp add: Let_def Step_refines)

text \<open>The decisions are exclusive as documented: an immediate and a deferred trigger are
  never set together, nor the two timers; an interrupt comes only with a reported speech start,
  when interruption is enabled and a response is active; a deferred trigger always comes with a
  commit and only in semantic mode; and a response-lifecycle input decides nothing.\<close>

theorem turn_decisions_exclusive:
  "let d = snd (Step t i) in
     \<not> (Trigger d \<and> DeferTrigger d) \<and> \<not> (ArmEndOfTurnTimer d \<and> ArmFinalWaitTimer d)
   \<and> (Interrupt d \<longleftrightarrow> i = vadSpeechStart \<and> tmMode t \<noteq> modeManual
        \<and> tmInterruptResponse t \<and> tmResponseActive t)
   \<and> \<not> (DeferTrigger d \<and> \<not> (Commit d \<and> tmMode t = modeSemanticVAD \<and> tmCreateResponse t))
   \<and> \<not> (i \<in> {responseStarted, responseEnded} \<and> d \<noteq> no_decision)"
  by (cases i; cases "tmMode t") (auto simp: turn_defs)

text \<open>\<^bold>\<open>C23\<close>: a turn in VAD mode always ends. When speech stops, either the turn is committed at
  once, or exactly one bounded timer is armed and the end of turn is left open; and in that open
  state the timer's input commits, as does a Final ending a sentence, while any other Final
  re-arms a timer.\<close>

theorem turn_end_not_lost:
  assumes "turn_inv t" "tmMode t \<noteq> modeManual"
  shows "(tmSpeaking t \<longrightarrow> (let (t', d) = Step t vadSpeechEnd in EmitSpeechStopped d
            \<and> (Commit d \<and> phase_of t' = Idle
               \<or> phase_of t' = Pending \<and> (ArmEndOfTurnTimer d \<noteq> ArmFinalWaitTimer d))))
       \<and> (phase_of t = Pending \<longrightarrow> Commit (snd (Step t asrEndOfTurn))
            \<and> (if endsSentence x then Commit (snd (Step t (asrFinal x)))
               else ArmEndOfTurnTimer (snd (Step t (asrFinal x)))))"
  using assms by (cases "tmMode t") (auto simp: turn_defs phase_of_def)

theorem turn_end_not_lost_witness:
  "let t = \<lparr>tmMode = modeSemanticVAD, tmCreateResponse = True, tmInterruptResponse = True,
       tmResponseActive = False, tmSpeaking = True, tmPendingEOT = False, tmFinalPending = False,
       tmFinalTerminal = False\<rparr> in
     ArmFinalWaitTimer (snd (Step t vadSpeechEnd))
     \<and> Commit (snd (Step (fst (Step t vadSpeechEnd)) asrEndOfTurn))"
proof -
  define t where "t = \<lparr>tmMode = modeSemanticVAD, tmCreateResponse = True, tmInterruptResponse = True,
       tmResponseActive = False, tmSpeaking = True, tmPendingEOT = False, tmFinalPending = False,
       tmFinalTerminal = False\<rparr>"
  have "turn_inv t" "tmMode t \<noteq> modeManual" "tmSpeaking t" by (simp_all add: t_def turn_inv_def)
  from turn_end_not_lost[OF this(1,2)] this show ?thesis
    by (simp add: t_def [symmetric] Let_def) (simp add: t_def turn_defs)
qed

text \<open>The gateway never commits a turn on its own more often than speech has started: in
  any run from a fresh manager the automatic commits are at most the speech starts.\<close>

theorem auto_commits_bounded:
  "auto_commits (newTurnManager td) inputs \<le> count_list inputs vadSpeechStart"
proof -
  have "open_turns (newTurnManager td) = 0"
    by (simp add: open_turns_def phase_of_def newTurnManager_def split: option.split)
  then show ?thesis using auto_commits_le[OF turn_inv_new, of td inputs] by simp
qed

end
