(* ===== verification/Session.thy ===== *)
theory Session
  imports Conversation Buffer Vad Truncate Turn
begin

text \<open>
  \<^verbatim>\<open>internal/session/session.go\<close> and \<^verbatim>\<open>response.go\<close>: the actor that owns a conversation. Its state is
  the record \<open>session\<close>, and every handler of the source is one function from state to state, in the
  order of the file; \<open>None\<close> is a run-time panic.

  What surrounds the actor is explicit:
  \<^item> \<open>world\<close> is the outside: the error each call to the ASR stream returns, whether the session context
    has been cancelled from outside by the time of each send, and which branch wins when a send and
    the cancelled context are both ready;
  \<^item> \<open>ssTried\<close> is every event the actor tried to send, \<open>ssEvents\<close> those that were delivered. While the
    session is open a send blocks until it is delivered, so the two agree until it closes;
  \<^item> timers are the flags of the channels the actor selects on; pipelines started and cancelled are
    logs. Spans, metrics, log lines and the timestamps only they use are not modelled.
\<close>

section \<open>State\<close>

text \<open>\<^verbatim>\<open>response.go\<close>: the response and the facts its pipeline reports. \<open>rHasCancel\<close> says that \<open>cancel\<close>
  is not nil; the zero value of a finish reason or failure code is \<^term>\<open>None\<close>.\<close>

record response =
  rRef :: ResponseRef
  rGen :: Generation
  rStatus :: ResponseStatus
  rAwaiting :: bool
  rLLMDone :: bool
  rTTSDone :: bool
  rAudioFlushed :: bool
  rHasCancel :: bool
  rItem :: ItemRef
  rDependsOn :: ItemRef
  rTextOnly :: bool
  rInstructions :: string
  rMaxTokens :: int
  rVoice :: string
  rFailCode :: "ErrCode option"
  rFinish :: "FinishReason option"
  rUsage :: Usage
  rTag :: string
  rTools :: "ToolDef list"
  rToolChoice :: ToolChoice
  rSpoke :: bool
  rToolItem :: ItemRef

datatype PipeEvent =
    PipeTextDelta Generation ResponseRef string
  | PipeAudioTranscriptDelta Generation ResponseRef string
  | PipeAudioDelta Generation ResponseRef pcm
  | PipeToolCall Generation ToolCall
  | PipeTTSStart Generation
  | PipeAlignment Generation "CharTiming list"
  | PipeSegment Generation audioSegment
  | PipeLLMDone Generation "FinishReason option" Usage
  | PipeTTSDone Generation
  | PipeError Generation string string

fun generation :: "PipeEvent \<Rightarrow> Generation" where
  "generation (PipeTextDelta g _ _) = g"
| "generation (PipeAudioTranscriptDelta g _ _) = g"
| "generation (PipeAudioDelta g _ _) = g"
| "generation (PipeToolCall g _) = g"
| "generation (PipeTTSStart g) = g"
| "generation (PipeAlignment g _) = g"
| "generation (PipeSegment g _) = g"
| "generation (PipeLLMDone g _ _) = g"
| "generation (PipeTTSDone g) = g"
| "generation (PipeError g _ _) = g"

definition terminal :: "response \<Rightarrow> bool" where
  "terminal r \<longleftrightarrow> rStatus r \<noteq> ResponseInProgress"

definition outcome :: "response \<Rightarrow> ResponseStatus \<times> StatusReason" where
  "outcome r =
     (case rFinish r of
        Some FinishLength \<Rightarrow> (ResponseIncomplete, ReasonMaxOutputTokens)
      | Some FinishContentFilter \<Rightarrow> (ResponseIncomplete, ReasonContentFilter)
      | _ \<Rightarrow> (ResponseCompleted, ReasonNone))"

definition response_done :: "response \<Rightarrow> bool" where
  "response_done r \<longleftrightarrow> rLLMDone r \<and> (rTextOnly r \<or> \<not> rSpoke r \<or> (rTTSDone r \<and> rAudioFlushed r))"

datatype AsrCall = PushAudio pcm | Finalize | CloseStream

text \<open>A started pipeline: its stamp, the response it serves and what it was asked to generate.\<close>

record pipeline_start =
  psGen :: Generation
  psResp :: ResponseRef
  psTextOnly :: bool
  psReq :: ChatRequest
  psTTS :: TTSConfig

record session =
  ssCfg :: SessionDefaults
  ssLimits :: Limits
  ssAsrCfg :: ASRConfig
  ssTemp :: "f64 option"
  ssBuffer :: inputAudioBuffer
  ssDetector :: "Energy option"
  ssTurns :: TurnManager
  ssConv :: conversation
  ssActive :: "response option"
  ssActiveGen :: Generation
  ssNextResp :: ResponseRef
  ssAudioEmitted :: bool
  ssSpeechItem :: ItemRef
  ssPendingItem :: "ItemRef option"
  ssTranscriptAcc :: string
  ssPartial :: string
  ssAsrWait :: bool
  ssEot :: "int option"
  ssDeferItem :: ItemRef
  ssDeferWait :: bool
  ssAsrLog :: "AsrCall list"
  ssPipes :: "pipeline_start list"
  ssCancelled :: "Generation list"
  ssClosed :: "CloseReason option"
  ssTried :: "Event list"
  ssEvents :: "Event list"

record world =
  wAsr :: "nat \<Rightarrow> string option"
  wCancel :: "nat \<Rightarrow> CloseReason option"
  wSend :: "nat \<Rightarrow> bool"

section \<open>Sending\<close>

text \<open>\<open>s.cancel\<close>: the first cause wins.\<close>

definition cancel_ctx :: "CloseReason \<Rightarrow> session \<Rightarrow> session" where
  "cancel_ctx reason s = (case ssClosed s of None \<Rightarrow> s\<lparr>ssClosed := Some reason\<rparr> | Some _ \<Rightarrow> s)"

definition emit :: "world \<Rightarrow> Event \<Rightarrow> session \<Rightarrow> session" where
  "emit w ev s =
     (let n = length (ssTried s);
          s1 = (case wCancel w n of None \<Rightarrow> s | Some reason \<Rightarrow> cancel_ctx reason s)
      in s1\<lparr>ssTried := ssTried s1 @ [ev],
            ssEvents := (if ssClosed s1 = None \<or> wSend w n then ssEvents s1 @ [ev] else ssEvents s1)\<rparr>)"

definition emitError :: "world \<Rightarrow> string \<Rightarrow> ErrCode \<Rightarrow> session \<Rightarrow> session" where
  "emitError w tag code s = emit w (EvError tag code [] False) s"

definition emitParamError :: "world \<Rightarrow> string \<Rightarrow> ErrCode \<Rightarrow> string \<Rightarrow> session \<Rightarrow> session" where
  "emitParamError w tag code param s = emit w (EvError tag code param False) s"

definition fatal :: "world \<Rightarrow> ErrCode \<Rightarrow> CloseReason \<Rightarrow> session \<Rightarrow> session" where
  "fatal w code reason s = cancel_ctx reason (emit w (EvError [] code [] True) s)"

text \<open>A call to the ASR stream is logged; its error is the world's answer to that call.\<close>

definition asr_call :: "world \<Rightarrow> AsrCall \<Rightarrow> session \<Rightarrow> session \<times> string option" where
  "asr_call w c s = (s\<lparr>ssAsrLog := ssAsrLog s @ [c]\<rparr>, wAsr w (length (ssAsrLog s)))"

section \<open>Timers and configuration\<close>

definition disarmEndOfTurn :: "session \<Rightarrow> session" where
  "disarmEndOfTurn s = s\<lparr>ssEot := None\<rparr>"

definition armEndOfTurn :: "int \<Rightarrow> session \<Rightarrow> session" where
  "armEndOfTurn d s = (disarmEndOfTurn s)\<lparr>ssEot := Some d\<rparr>"

definition stopASRWait :: "session \<Rightarrow> session" where
  "stopASRWait s = s\<lparr>ssAsrWait := False\<rparr>"

definition dropDeferredTrigger :: "session \<Rightarrow> session" where
  "dropDeferredTrigger s = s\<lparr>ssDeferWait := False, ssDeferItem := 0\<rparr>"

definition stopTimers :: "session \<Rightarrow> session" where
  "stopTimers s = dropDeferredTrigger (disarmEndOfTurn (stopASRWait s))"

definition cfg_turn_detection :: "session \<Rightarrow> TurnDetection option" where
  "cfg_turn_detection s = aiTurnDetection (sdAudioInput (ssCfg s))"

definition td_setting :: "(TurnDetection \<Rightarrow> 'a option) \<Rightarrow> 'a \<Rightarrow> session \<Rightarrow> 'a" where
  "td_setting f d s =
     (case cfg_turn_detection s of None \<Rightarrow> d | Some td \<Rightarrow> (case f td of None \<Rightarrow> d | Some v \<Rightarrow> v))"

definition vadThreshold :: "session \<Rightarrow> f64" where
  "vadThreshold s = td_setting tdThreshold DefaultVADThreshold s"

definition vadPrefixMs :: "session \<Rightarrow> int" where
  "vadPrefixMs s = td_setting tdPrefixPaddingMs DefaultVADPrefixPaddingMs s"

definition vadSilenceMs :: "session \<Rightarrow> int" where
  "vadSilenceMs s = td_setting tdSilenceDurationMs DefaultVADSilenceDurationMs s"

definition eagernessMs :: "session \<Rightarrow> int" where
  "eagernessMs s =
     (case cfg_turn_detection s of None \<Rightarrow> 800
      | Some td \<Rightarrow> (case tdEagerness td of None \<Rightarrow> 800
         | Some v \<Rightarrow> if v = ''high'' then 400 else if v = ''low'' then 1500 else 800))"

text \<open>Durations are nanoseconds.\<close>

definition millisecond :: int where "millisecond = 1000000"

definition finalWait :: "session \<Rightarrow> int" where
  "finalWait s = max (limASRFinalTimeout (ssLimits s)) (eagernessMs s * millisecond)"

definition transcriptionEnabled :: "session \<Rightarrow> bool" where
  "transcriptionEnabled s \<longleftrightarrow> aiTranscription (sdAudioInput (ssCfg s)) \<noteq> None"

definition textOnly :: "session \<Rightarrow> string list option \<Rightarrow> bool" where
  "textOnly s mods = ((case mods of None \<Rightarrow> sdOutputModalities (ssCfg s) | Some m \<Rightarrow> m) = [ModalityText])"

definition ttsConfig :: "session \<Rightarrow> string \<Rightarrow> TTSConfig" where
  "ttsConfig s voice =
     \<lparr>tcVoice = voice, tcSpeed = aoSpeed (sdAudioOutput (ssCfg s)), tcSampleRate = SampleRate\<rparr>"

definition set_turns :: "(TurnManager \<Rightarrow> TurnManager) \<Rightarrow> session \<Rightarrow> session" where
  "set_turns f s = s\<lparr>ssTurns := f (ssTurns s)\<rparr>"

text \<open>The turn manager is rebuilt from the snapshot and keeps only whether a response is active.\<close>

definition applyTurnDetection :: "session \<Rightarrow> session" where
  "applyTurnDetection s =
     (let prevActive = tmResponseActive (ssTurns s);
          t = (newTurnManager (cfg_turn_detection s))\<lparr>tmResponseActive := prevActive\<rparr>;
          d = (if vadEnabled t
               then Some (NewEnergy \<lparr>vcThreshold = vadThreshold s, vcSilenceDurationMs = vadSilenceMs s\<rparr>)
               else None)
      in (disarmEndOfTurn (s\<lparr>ssTurns := t, ssDetector := d\<rparr>))\<lparr>ssSpeechItem := 0\<rparr>)"

section \<open>Client items\<close>

definition newToolOutputItem :: "world \<Rightarrow> ItemSpec \<Rightarrow> string \<Rightarrow> session \<Rightarrow> session \<times> item option" where
  "newToolOutputItem w spec tag s =
     (case conv_get (ssConv s) (spCallItem spec) of
        None \<Rightarrow> (emitParamError w tag ErrCodeInvalidItem ''item.call_id'' s, None)
      | Some call \<Rightarrow>
          if itContent call \<noteq> ContentToolCall
          then (emitParamError w tag ErrCodeInvalidItem ''item.call_id'' s, None)
          else if answered (ssConv s) (itCallID call)
          then (emitParamError w tag ErrCodeInvalidItem ''item.call_id'' s, None)
          else (s, Some (blank_item\<lparr>itClientID := spClientID spec, itContent := ContentToolOutput,
                           itStatus := ItemCompleted, itText := spText spec, itCallID := itCallID call,
                           itName := itName call, itTranscriptDone := True\<rparr>)))"

definition newClientItem :: "world \<Rightarrow> ItemSpec \<Rightarrow> string \<Rightarrow> session \<Rightarrow> session \<times> item option" where
  "newClientItem w spec tag s =
     (if spContent spec = ContentToolOutput then newToolOutputItem w spec tag s
      else if spRole spec \<notin> {RoleUser, RoleAssistant, RoleSystem}
      then (emitParamError w tag ErrCodeInvalidItem ''item.role'' s, None)
      else if spText spec = []
      then (emitParamError w tag ErrCodeInvalidItem ''item.content'' s, None)
      else (s, Some (blank_item\<lparr>itClientID := spClientID spec, itRole := spRole spec, itContent := ContentText,
                       itStatus := ItemCompleted, itText := spText spec, itTranscriptDone := True\<rparr>)))"

definition createItem :: "world \<Rightarrow> ItemSpec \<Rightarrow> ItemRef \<Rightarrow> bool \<Rightarrow> string \<Rightarrow> session \<Rightarrow> session" where
  "createItem w spec previous atRoot tag s =
     (case newClientItem w spec tag s of
        (s1, None) \<Rightarrow> s1
      | (s1, Some it0) \<Rightarrow>
          (case conv_insert (ssConv s1) it0 previous atRoot of
             (c, it, None) \<Rightarrow> emitParamError w tag ErrCodeItemNotFound ''previous_item_id'' (s1\<lparr>ssConv := c\<rparr>)
           | (c, it, Some prev) \<Rightarrow>
               emit w (EvItemDone (snapshot it)) (emit w (EvItemAdded (snapshot it) prev) (s1\<lparr>ssConv := c\<rparr>))))"

definition deleteItem :: "world \<Rightarrow> ItemRef \<Rightarrow> string \<Rightarrow> session \<Rightarrow> session option" where
  "deleteItem w ref tag s =
     (if (case ssActive s of None \<Rightarrow> False | Some r \<Rightarrow> rItem r = ref)
      then Some (emitParamError w tag ErrCodeInvalidItem ''item_id'' s)
      else do {
        (c, found) \<leftarrow> conv_remove (ssConv s) ref;
        (if \<not> found then Some (emitParamError w tag ErrCodeItemNotFound ''item_id'' s)
         else let s1 = s\<lparr>ssConv := c\<rparr>;
                  s2 = (if ssPendingItem s1 = Some ref then s1\<lparr>ssPendingItem := None\<rparr> else s1)
              in Some (emit w (EvItemDeleted ref) s2))
      })"

definition truncateItem :: "world \<Rightarrow> ItemRef \<Rightarrow> int \<Rightarrow> int \<Rightarrow> string \<Rightarrow> session \<Rightarrow> session option" where
  "truncateItem w ref contentIndex audioEndMs tag s =
     (case conv_get (ssConv s) ref of
        None \<Rightarrow> Some (emitParamError w tag ErrCodeItemNotFound ''item_id'' s)
      | Some it \<Rightarrow>
          if itRole it \<noteq> RoleAssistant \<or> itContent it \<noteq> ContentAudio
          then Some (emitParamError w tag ErrCodeItemNotTruncatable ''item_id'' s)
          else if contentIndex \<noteq> 0
          then Some (emitParamError w tag ErrCodeInvalidItem ''content_index'' s)
          else let cutB = MsToBytes audioEndMs in
            if audioEndMs < 0 \<or> itAudioB it < cutB
            then Some (emitParamError w tag ErrCodeTruncateOutOfRange ''audio_end_ms'' s)
            else do {
              t \<leftarrow> trimText (itText it) (itSegments it) (itAlignment it) cutB (itAudioB it);
              let f = (\<lambda>i. if cutB < itAudioB i
                           then i\<lparr>itText := t, itAudioB := cutB, itAudioMs := audioEndMs\<rparr>
                           else i\<lparr>itText := t\<rparr>);
              Some (emit w (EvItemTruncated ref contentIndex audioEndMs) (s\<lparr>ssConv := conv_update (ssConv s) ref f\<rparr>))
            })"


section \<open>Responses\<close>

definition toolDefs :: "Tool list \<Rightarrow> ToolDef list" where
  "toolDefs tools =
     map (\<lambda>t. \<lparr>tdefName = toolName t, tdefDescription = toolDescription t, tdefParameters = toolParameters t\<rparr>) tools"

definition toolChoice :: "ToolChoice \<Rightarrow> ToolChoice" where
  "toolChoice tc =
     (if tcMode tc = [] then \<lparr>tcMode = ToolChoiceAuto, tcName = []\<rparr>
      else \<lparr>tcMode = tcMode tc, tcName = tcName tc\<rparr>)"

text \<open>A write through the pointer to the active response.\<close>

definition upd_active :: "(response \<Rightarrow> response) \<Rightarrow> session \<Rightarrow> session" where
  "upd_active f s = s\<lparr>ssActive := map_option f (ssActive s)\<rparr>"

definition conv_write :: "ItemRef \<Rightarrow> (item \<Rightarrow> item) \<Rightarrow> session \<Rightarrow> session" where
  "conv_write ref f s = s\<lparr>ssConv := conv_update (ssConv s) ref f\<rparr>"

definition startPipeline :: "session \<Rightarrow> session" where
  "startPipeline s =
     (case ssActive s of None \<Rightarrow> s
      | Some r \<Rightarrow>
          let g = ssActiveGen s + 1;
              p = \<lparr>psGen = g, psResp = rRef r, psTextOnly = rTextOnly r,
                   psReq = \<lparr>crInstructions = rInstructions r, crMessages = messages (ssConv s),
                            crMaxOutputTokens = rMaxTokens r, crTemperature = ssTemp s,
                            crTools = rTools r, crToolChoice = rToolChoice r\<rparr>,
                   psTTS = ttsConfig s (rVoice r)\<rparr>
          in s\<lparr>ssActive := Some (r\<lparr>rAwaiting := False, rGen := g, rHasCancel := True\<rparr>),
               ssActiveGen := g, ssPipes := ssPipes s @ [p]\<rparr>)"

text \<open>The session object a response is checked against: the snapshot with the overrides applied.\<close>

definition probe_config :: "ResponseOverrides \<Rightarrow> SessionDefaults \<Rightarrow> SessionDefaults" where
  "probe_config ov cfg =
     (let p1 = (case ovOutputModalities ov of None \<Rightarrow> cfg | Some m \<Rightarrow> cfg\<lparr>sdOutputModalities := m\<rparr>);
          p2 = (case ovMaxOutputTokens ov of None \<Rightarrow> p1 | Some m \<Rightarrow> p1\<lparr>sdMaxOutputTokens := m\<rparr>)
      in case ovVoice ov of None \<Rightarrow> p2
         | Some v \<Rightarrow> p2\<lparr>sdAudioOutput := (sdAudioOutput p2)\<lparr>aoVoice := v\<rparr>\<rparr>)"

definition new_response :: "ResponseOverrides \<Rightarrow> string \<Rightarrow> SessionDefaults \<Rightarrow> session \<Rightarrow> response" where
  "new_response ov tag probe s =
     \<lparr>rRef = ssNextResp s + 1, rGen = 0, rStatus = ResponseInProgress, rAwaiting = True,
      rLLMDone = False, rTTSDone = False, rAudioFlushed = False, rHasCancel = False,
      rItem = 0, rDependsOn = 0, rTextOnly = textOnly s (Some (sdOutputModalities probe)),
      rInstructions = (case ovInstructions ov of None \<Rightarrow> sdInstructions (ssCfg s) | Some i \<Rightarrow> i),
      rMaxTokens = (if motInf (sdMaxOutputTokens probe) then 0 else motN (sdMaxOutputTokens probe)),
      rVoice = aoVoice (sdAudioOutput probe), rFailCode = None, rFinish = None,
      rUsage = \<lparr>InputTokens = 0, OutputTokens = 0\<rparr>, rTag = tag,
      rTools = toolDefs (sdTools (ssCfg s)), rToolChoice = toolChoice (sdToolChoice (ssCfg s)),
      rSpoke = False, rToolItem = 0\<rparr>"

text \<open>The pending item a new response must wait for: committed, and its transcript not final.\<close>

definition awaited_item :: "session \<Rightarrow> ItemRef option" where
  "awaited_item s =
     (case ssPendingItem s of None \<Rightarrow> None
      | Some p \<Rightarrow> (case conv_get (ssConv s) p of None \<Rightarrow> None
                  | Some it \<Rightarrow> if itTranscriptDone it then None else Some p))"

definition voice_locked :: "session \<Rightarrow> string option \<Rightarrow> bool" where
  "voice_locked s v \<longleftrightarrow>
     (case v of None \<Rightarrow> False | Some x \<Rightarrow> x \<noteq> aoVoice (sdAudioOutput (ssCfg s)) \<and> ssAudioEmitted s)"

text \<open>A response is entered: it becomes the active one, is announced, and the turn manager is told.\<close>

definition begin_response :: "world \<Rightarrow> ResponseOverrides \<Rightarrow> string \<Rightarrow> SessionDefaults \<Rightarrow> session \<Rightarrow> session" where
  "begin_response w ov tag probe s =
     (let r = new_response ov tag probe s
      in set_turns (\<lambda>t. fst (Step t responseStarted))
           (emit w (EvResponseCreated (rRef r) (sdOutputModalities probe) (rVoice r) (sdMaxOutputTokens probe) (ovMetadata ov))
             (s\<lparr>ssNextResp := ssNextResp s + 1, ssActive := Some r\<rparr>)))"

definition createResponseAt :: "world \<Rightarrow> ResponseOverrides \<Rightarrow> string \<Rightarrow> session \<Rightarrow> session" where
  "createResponseAt w ov tag s =
     (let probe = probe_config ov (ssCfg s) in
      if voice_locked s (ovVoice ov)
      then emitParamError w tag ErrCodeVoiceLocked ''response.audio.output.voice'' s
      else case SessionDefaults_Validate ''response'' probe of
        Some err \<Rightarrow> emitParamError w tag ErrCodeInvalidOverrides (feField err) s
      | None \<Rightarrow>
          let s2 = begin_response w ov tag probe s
          in case awaited_item s2 of
               Some p \<Rightarrow> (upd_active (\<lambda>r. r\<lparr>rDependsOn := p\<rparr>) s2)\<lparr>ssAsrWait := True\<rparr>
             | None \<Rightarrow> startPipeline s2)"

definition createResponse :: "world \<Rightarrow> ResponseOverrides \<Rightarrow> string \<Rightarrow> session \<Rightarrow> session" where
  "createResponse w ov tag s = createResponseAt w ov tag s"

text \<open>The terminal events of the output item, in the order the protocol fixes.\<close>

definition finish_item :: "world \<Rightarrow> response \<Rightarrow> ResponseStatus \<Rightarrow> session \<Rightarrow> session \<times> Item list" where
  "finish_item w r status s =
     (case conv_get (ssConv s) (rItem r) of None \<Rightarrow> (s, [])
      | Some it \<Rightarrow>
          let mark = (\<lambda>i. i\<lparr>itStatus := (if status = ResponseCompleted then ItemCompleted else ItemIncomplete)\<rparr>);
              it' = mark it;
              s1 = conv_write (rItem r) mark s;
              s2 = (if rTextOnly r then emit w (EvOutputTextDone (rRef r) (rItem r) (itText it')) s1
                    else emit w (EvOutputAudioTranscriptDone (rRef r) (rItem r) (itText it'))
                           (emit w (EvOutputAudioDone (rRef r) (rItem r)) s1))
          in (emit w (EvOutputItemDone (rRef r) (snapshot it')) s2, [snapshot it']))"

text \<open>Before the terminal events the pipeline is cancelled and the wait for a transcript ends; after
  them the response is gone and the generation moves on.\<close>

definition finish_stop :: "response \<Rightarrow> ResponseStatus \<Rightarrow> session \<Rightarrow> session" where
  "finish_stop r status s =
     stopASRWait (upd_active (\<lambda>r. r\<lparr>rStatus := status\<rparr>)
       (if rHasCancel r then s\<lparr>ssCancelled := ssCancelled s @ [rGen r]\<rparr> else s))"

definition finish_close ::
    "world \<Rightarrow> response \<Rightarrow> ResponseStatus \<Rightarrow> StatusReason \<Rightarrow> string option \<Rightarrow> Item list \<Rightarrow> session \<Rightarrow> session" where
  "finish_close w r status reason err out s =
     (let call = (case conv_get (ssConv s) (rToolItem r) of None \<Rightarrow> [] | Some c \<Rightarrow> [snapshot c]);
          s1 = emit w (EvResponseDone (rRef r) status reason (rFailCode r) err (rUsage r) (out @ call)) s
      in set_turns (\<lambda>t. fst (Step t responseEnded)) (s1\<lparr>ssActive := None, ssActiveGen := ssActiveGen s1 + 1\<rparr>))"

definition finish :: "world \<Rightarrow> ResponseStatus \<Rightarrow> StatusReason \<Rightarrow> string option \<Rightarrow> session \<Rightarrow> session" where
  "finish w status reason err s =
     (case ssActive s of None \<Rightarrow> s
      | Some r \<Rightarrow>
          if terminal r then s
          else let (s1, out) = finish_item w r status (finish_stop r status s)
               in finish_close w r status reason err out s1)"

definition interrupt :: "world \<Rightarrow> StatusReason \<Rightarrow> session \<Rightarrow> session" where
  "interrupt w reason s = (if ssActive s = None then s else finish w ResponseCancelled reason None s)"

definition failResponse :: "world \<Rightarrow> ErrCode \<Rightarrow> string \<Rightarrow> session \<Rightarrow> session" where
  "failResponse w code err s =
     (case ssActive s of None \<Rightarrow> s
      | Some r \<Rightarrow> finish w ResponseFailed ReasonNone (Some err)
                   (emitError w (rTag r) code (upd_active (\<lambda>r. r\<lparr>rFailCode := Some code\<rparr>) s)))"

definition maybeComplete :: "world \<Rightarrow> session \<Rightarrow> session" where
  "maybeComplete w s =
     (case ssActive s of None \<Rightarrow> s
      | Some r \<Rightarrow> if \<not> response_done r then s
                  else finish w (fst (outcome r)) (snd (outcome r)) None s)"

definition noteFirstText :: "session \<Rightarrow> session" where
  "noteFirstText s = upd_active (\<lambda>r. r\<lparr>rSpoke := True\<rparr>) s"

text \<open>The response's message item, created on the first piece of output; returns its reference.\<close>

definition ensureOutputItem :: "world \<Rightarrow> response \<Rightarrow> session \<Rightarrow> session \<times> ItemRef" where
  "ensureOutputItem w r s =
     (case conv_get (ssConv s) (rItem r) of Some _ \<Rightarrow> (s, rItem r)
      | None \<Rightarrow>
          let it = blank_item\<lparr>itRole := RoleAssistant,
                     itContent := (if rTextOnly r then ContentText else ContentAudio),
                     itStatus := ItemInProgress, itTranscriptDone := True\<rparr>;
              (c, it', prev) = conv_append (ssConv s) it;
              s1 = upd_active (\<lambda>r. r\<lparr>rItem := itRef it'\<rparr>) (s\<lparr>ssConv := c\<rparr>)
          in (emit w (EvOutputItemAdded (rRef r) (snapshot it') prev) s1, itRef it'))"

definition deliverToolCall :: "world \<Rightarrow> response \<Rightarrow> ToolCall \<Rightarrow> session \<Rightarrow> session" where
  "deliverToolCall w r call s =
     (if rToolItem r \<noteq> 0 then s
      else
        let it = blank_item\<lparr>itContent := ContentToolCall, itStatus := ItemInProgress, itName := callName call,
                   itCallID := callID call, itText := callArguments call, itTranscriptDone := True\<rparr>;
            (c, it', prev) = conv_append (ssConv s) it;
            ref = itRef it';
            s1 = upd_active (\<lambda>r. r\<lparr>rToolItem := ref\<rparr>) (s\<lparr>ssConv := c\<rparr>);
            s2 = emit w (EvOutputItemAdded (rRef r) (snapshot it') prev) s1;
            s3 = emit w (EvToolCallArguments (rRef r) ref (callArguments call)) s2;
            it'' = it'\<lparr>itStatus := ItemCompleted\<rparr>
        in emit w (EvOutputItemDone (rRef r) (snapshot it'')) (conv_write ref (\<lambda>i. i\<lparr>itStatus := ItemCompleted\<rparr>) s3))"

text \<open>One accepted pipeline event, for the active response \<open>r\<close>.\<close>

fun pipe_event :: "world \<Rightarrow> response \<Rightarrow> PipeEvent \<Rightarrow> session \<Rightarrow> session" where
  "pipe_event w r (PipeTextDelta g resp delta) s =
     (let (s1, ref) = ensureOutputItem w r s
      in emit w (EvOutputTextDelta resp ref delta)
           (noteFirstText (conv_write ref (\<lambda>i. i\<lparr>itText := itText i @ delta\<rparr>) s1)))"
| "pipe_event w r (PipeAudioTranscriptDelta g resp delta) s =
     (let (s1, ref) = ensureOutputItem w r s
      in emit w (EvOutputAudioTranscriptDelta resp ref delta)
           (noteFirstText (conv_write ref (\<lambda>i. i\<lparr>itText := itText i @ delta\<rparr>) s1)))"
| "pipe_event w r (PipeToolCall g call) s = deliverToolCall w r call s"
| "pipe_event w r (PipeAudioDelta g resp p) s =
     (let (s1, ref) = ensureOutputItem w r s
      in emit w (EvOutputAudioDelta resp ref p)
           ((conv_write ref (\<lambda>i. let b = itAudioB i + int (length p)
                              in i\<lparr>itAudioB := b, itAudioMs := BytesToMs b\<rparr>) s1)\<lparr>ssAudioEmitted := True\<rparr>))"
| "pipe_event w r (PipeTTSStart g) s = s"
| "pipe_event w r (PipeAlignment g ts) s = conv_write (rItem r) (\<lambda>i. i\<lparr>itAlignment := itAlignment i @ ts\<rparr>) s"
| "pipe_event w r (PipeSegment g seg) s = conv_write (rItem r) (\<lambda>i. i\<lparr>itSegments := itSegments i @ [seg]\<rparr>) s"
| "pipe_event w r (PipeLLMDone g fin usage) s =
     maybeComplete w (upd_active (\<lambda>r. r\<lparr>rLLMDone := True, rFinish := fin, rUsage := usage\<rparr>) s)"
| "pipe_event w r (PipeTTSDone g) s =
     maybeComplete w (upd_active (\<lambda>r. r\<lparr>rTTSDone := True, rAudioFlushed := True\<rparr>) s)"
| "pipe_event w r (PipeError g stage err) s = failResponse w ErrCodeProviderError err s"

definition handleResponseEvent :: "world \<Rightarrow> PipeEvent \<Rightarrow> session \<Rightarrow> session" where
  "handleResponseEvent w ev s =
     (case ssActive s of None \<Rightarrow> s
      | Some r \<Rightarrow> if rAwaiting r \<or> generation ev \<noteq> ssActiveGen s then s else pipe_event w r ev s)"

section \<open>Commit and turn decisions\<close>

text \<open>The user item of a commit: under the reference reserved at speech start or a new one, appended
  and announced.\<close>

definition add_user_item :: "world \<Rightarrow> int \<Rightarrow> session \<Rightarrow> session" where
  "add_user_item w audioMs s =
     (let (c1, ref) = (if ssSpeechItem s = 0 then newRef (ssConv s) else (ssConv s, ssSpeechItem s));
          it = blank_item\<lparr>itRef := ref, itRole := RoleUser, itContent := ContentAudio,
                 itStatus := ItemInProgress, itText := ssTranscriptAcc s, itAudioMs := audioMs\<rparr>;
          (c2, it', prev) = conv_append c1 it
      in emit w (EvItemAdded (snapshot it') prev) (emit w (EvAudioBufferCommitted ref prev)
           (s\<lparr>ssSpeechItem := 0, ssConv := c2, ssPendingItem := Some ref\<rparr>)))"

definition commit :: "world \<Rightarrow> string \<Rightarrow> session \<Rightarrow> (session \<times> bool) option" where
  "commit w tag s =
     do {
       (res, b) \<leftarrow> buf_commit (ssBuffer s);
       (case res of
          None \<Rightarrow> Some (emitError w tag ErrCodeBufferEmpty s, False)
        | Some (p, startMs, endMs) \<Rightarrow>
            let s1 = add_user_item w (endMs - startMs)
                       (s\<lparr>ssBuffer := b, ssDetector := map_option Energy_Reset (ssDetector s)\<rparr>);
                (s2, err) = asr_call w Finalize s1
            in (case err of
                  Some _ \<Rightarrow> Some (fatal w ErrCodeProviderError CloseProviderError s2, False)
                | None \<Rightarrow> Some (s2, True)))
     }"

definition deferTrigger :: "session \<Rightarrow> session" where
  "deferTrigger s =
     (case ssPendingItem s of None \<Rightarrow> s
      | Some ref \<Rightarrow> (dropDeferredTrigger s)\<lparr>ssDeferItem := ref, ssDeferWait := True\<rparr>)"

definition apply_decision :: "world \<Rightarrow> TurnDecision \<Rightarrow> string \<Rightarrow> session \<Rightarrow> session option" where
  "apply_decision w d tag s =
     (let s1 = (if ArmEndOfTurnTimer d then armEndOfTurn (eagernessMs s * millisecond) s else s);
          s2 = (if ArmFinalWaitTimer d then armEndOfTurn (finalWait s1) s1 else s1)
      in do {
        s3 \<leftarrow> (if Commit d then
                 do { (s', ok) \<leftarrow> commit w tag s2;
                      Some (if ok \<and> DeferTrigger d then deferTrigger s' else s') }
               else Some s2);
        Some (if Trigger d then (if ssActive s3 \<noteq> None then s3 else createResponse w no_overrides tag s3) else s3)
      })"

text \<open>\<open>s.apply(s.turns.Step(in), tag)\<close>\<close>

definition step_and_apply :: "world \<Rightarrow> TurnInput \<Rightarrow> string \<Rightarrow> session \<Rightarrow> session option" where
  "step_and_apply w i tag s =
     (let (t, d) = Step (ssTurns s) i in apply_decision w d tag (s\<lparr>ssTurns := t\<rparr>))"

definition speech_start :: "world \<Rightarrow> int \<Rightarrow> session \<Rightarrow> session option" where
  "speech_start w off s =
     (let (c, ref) = (if ssSpeechItem s = 0 then newRef (ssConv s) else (ssConv s, ssSpeechItem s));
          s1 = s\<lparr>ssConv := c, ssSpeechItem := ref\<rparr>;
          (startMs, b) = markSpeechStart (ssBuffer s1) off (vadPrefixMs s1);
          s2 = disarmEndOfTurn (s1\<lparr>ssBuffer := b\<rparr>);
          (t, d) = Step (ssTurns s2) vadSpeechStart;
          s3 = s2\<lparr>ssTurns := t\<rparr>;
          s4 = (if EmitSpeechStarted d then emit w (EvSpeechStarted startMs (ssSpeechItem s3)) s3 else s3);
          s5 = (if Interrupt d then interrupt w ReasonTurnDetected s4 else s4);
          s6 = (if EmitSpeechStarted d \<and> tmInterruptResponse (ssTurns s5) \<and> ssDeferItem s5 \<noteq> 0
                then dropDeferredTrigger s5 else s5)
      in apply_decision w d [] s6)"

definition speech_end :: "world \<Rightarrow> int \<Rightarrow> session \<Rightarrow> session option" where
  "speech_end w off s =
     (let (endMs, b) = markSpeechEnd (ssBuffer s) off (vadSilenceMs s);
          s1 = s\<lparr>ssBuffer := b\<rparr>;
          (t, d) = Step (ssTurns s1) vadSpeechEnd;
          s2 = s1\<lparr>ssTurns := t\<rparr>;
          s3 = (if EmitSpeechStopped d then emit w (EvSpeechStopped endMs (ssSpeechItem s2)) s2 else s2)
      in apply_decision w d [] s3)"

fun vad_events :: "world \<Rightarrow> vad_event list \<Rightarrow> session \<Rightarrow> session option" where
  "vad_events w [] s = Some s"
| "vad_events w (ev # evs) s =
     do { s1 \<leftarrow> (case veKind ev of SpeechStart \<Rightarrow> speech_start w (OffsetMs ev) s
                 | SpeechEnd \<Rightarrow> speech_end w (OffsetMs ev) s);
          vad_events w evs s1 }"

definition handleAudio :: "world \<Rightarrow> pcm \<Rightarrow> session \<Rightarrow> session option" where
  "handleAudio w p s =
     (case buf_append (ssBuffer s) p of
        Inl _ \<Rightarrow> Some (fatal w ErrCodeBufferOverflow CloseBufferOverflow s)
      | Inr b \<Rightarrow>
          let (s1, err) = asr_call w (PushAudio p) (s\<lparr>ssBuffer := b\<rparr>) in
          (case err of
             Some _ \<Rightarrow> Some (fatal w ErrCodeProviderError CloseProviderError s1)
           | None \<Rightarrow>
               (case ssDetector s1 of
                  None \<Rightarrow> Some s1
                | Some d \<Rightarrow>
                    let (d', evs) = Process d p in
                    do { s2 \<leftarrow> vad_events w evs (s1\<lparr>ssDetector := Some d'\<rparr>);
                         b' \<leftarrow> trimIdle (ssBuffer s2) (i64 (vadPrefixMs s2 + FrameMs));
                         Some (s2\<lparr>ssBuffer := b'\<rparr>) })))"

section \<open>Transcripts\<close>

definition joinTranscript :: "string \<Rightarrow> string \<Rightarrow> string" where
  "joinTranscript acc t = (if t = [] then acc else if acc = [] then t else acc @ '' '' @ t)"

definition resolveDeferredTrigger :: "world \<Rightarrow> ItemRef \<Rightarrow> string \<Rightarrow> session \<Rightarrow> session" where
  "resolveDeferredTrigger w ref t s =
     (if ssDeferItem s = 0 \<or> ssDeferItem s \<noteq> ref then s
      else let s1 = dropDeferredTrigger s in
        if trim_space t = [] then s1
        else if ssActive s1 \<noteq> None then s1
        else createResponseAt w no_overrides [] s1)"

definition completePendingItem :: "world \<Rightarrow> ItemRef \<Rightarrow> string \<Rightarrow> string \<Rightarrow> session \<Rightarrow> session" where
  "completePendingItem w ref t delta s =
     (let s1 = conv_write ref (\<lambda>i. i\<lparr>itText := t, itTranscriptDone := True, itStatus := ItemCompleted\<rparr>)
                 (s\<lparr>ssPendingItem := None, ssTranscriptAcc := []\<rparr>);
          s2 = (if transcriptionEnabled s1
                then emit w (EvInputTranscriptDone ref t)
                       (if delta \<noteq> [] then emit w (EvInputTranscriptDelta ref delta) s1 else s1)
                else s1);
          s3 = (case conv_get (ssConv s2) ref of None \<Rightarrow> s2
                | Some it \<Rightarrow> emit w (EvItemDone (snapshot it)) s2);
          s4 = (case ssActive s3 of None \<Rightarrow> s3
                | Some r \<Rightarrow> if rAwaiting r \<and> rDependsOn r = ref then startPipeline (stopASRWait s3) else s3)
      in resolveDeferredTrigger w ref t s4)"

definition handleASR :: "world \<Rightarrow> ASREvent \<Rightarrow> session \<Rightarrow> session option" where
  "handleASR w ev s =
     (case ev of
        ASRPartial t \<Rightarrow> Some (s\<lparr>ssPartial := t\<rparr>)
      | ASRFinal t \<Rightarrow>
          let s1 = s\<lparr>ssPartial := []\<rparr>;
              s2 = (case ssPendingItem s1 of
                      Some ref \<Rightarrow> completePendingItem w ref (joinTranscript (ssTranscriptAcc s1) t) t s1
                    | None \<Rightarrow> s1\<lparr>ssTranscriptAcc := joinTranscript (ssTranscriptAcc s1) t\<rparr>)
          in step_and_apply w (asrFinal t) [] s2
      | ASREndOfTurn \<Rightarrow>
          let s1 = (case ssPendingItem s of
                      Some ref \<Rightarrow> completePendingItem w ref (ssTranscriptAcc s) [] s
                    | None \<Rightarrow> s)
          in step_and_apply w asrEndOfTurn [] s1
      | ASRError e \<Rightarrow> Some (fatal w ErrCodeProviderError CloseProviderError s))"

definition handleTranscriptTimeout :: "world \<Rightarrow> session \<Rightarrow> session" where
  "handleTranscriptTimeout w s =
     (case ssActive s of None \<Rightarrow> s
      | Some r \<Rightarrow>
          if \<not> rAwaiting r then s
          else let best = joinTranscript (ssTranscriptAcc s) (ssPartial s) in
            if best = [] then failResponse w ErrCodeTranscriptTimeout ''no transcript before asr_final_timeout'' s
            else startPipeline (case ssPendingItem s of None \<Rightarrow> s
                                | Some ref \<Rightarrow> conv_write ref (\<lambda>i. i\<lparr>itText := best\<rparr>) s))"

definition handleDeferredTimeout :: "world \<Rightarrow> session \<Rightarrow> session" where
  "handleDeferredTimeout w s =
     (let ref = ssDeferItem s; s1 = dropDeferredTrigger s in
      if ref = 0 \<or> ssPendingItem s1 \<noteq> Some ref then s1
      else let best = joinTranscript (ssTranscriptAcc s1) (ssPartial s1) in
        if trim_space best = [] then s1
        else if ssActive s1 \<noteq> None then s1
        else let s2 = createResponseAt w no_overrides [] (conv_write ref (\<lambda>i. i\<lparr>itText := best\<rparr>) s1) in
          (case ssActive s2 of None \<Rightarrow> s2
           | Some r \<Rightarrow> if rAwaiting r then startPipeline (stopASRWait s2) else s2))"

section \<open>Commands\<close>

definition patched_config :: "SessionPatch \<Rightarrow> SessionDefaults \<Rightarrow> SessionDefaults" where
  "patched_config p c =
     (let c1 = (case pInstructions p of None \<Rightarrow> c | Some v \<Rightarrow> c\<lparr>sdInstructions := v\<rparr>);
          c2 = (case pOutputModalities p of None \<Rightarrow> c1 | Some v \<Rightarrow> c1\<lparr>sdOutputModalities := v\<rparr>);
          c3 = (case pVoice p of None \<Rightarrow> c2
                | Some v \<Rightarrow> c2\<lparr>sdAudioOutput := (sdAudioOutput c2)\<lparr>aoVoice := v\<rparr>\<rparr>);
          c4 = (case pSpeed p of None \<Rightarrow> c3
                | Some v \<Rightarrow> c3\<lparr>sdAudioOutput := (sdAudioOutput c3)\<lparr>aoSpeed := v\<rparr>\<rparr>);
          c5 = (case pMaxOutputTokens p of None \<Rightarrow> c4 | Some v \<Rightarrow> c4\<lparr>sdMaxOutputTokens := v\<rparr>);
          c6 = (if nSet (pTranscription p)
                then c5\<lparr>sdAudioInput := (sdAudioInput c5)\<lparr>aiTranscription := nValue (pTranscription p)\<rparr>\<rparr> else c5);
          c7 = (if nSet (pTurnDetection p)
                then c6\<lparr>sdAudioInput := (sdAudioInput c6)\<lparr>aiTurnDetection :=
                          map_option ApplyDefaults (nValue (pTurnDetection p))\<rparr>\<rparr> else c6);
          c8 = (case pTools p of None \<Rightarrow> c7 | Some v \<Rightarrow> c7\<lparr>sdTools := v\<rparr>)
      in case pToolChoice p of None \<Rightarrow> c8 | Some v \<Rightarrow> c8\<lparr>sdToolChoice := v\<rparr>)"

definition updateSession :: "world \<Rightarrow> SessionPatch \<Rightarrow> string \<Rightarrow> session \<Rightarrow> session" where
  "updateSession w p tag s =
     (if voice_locked s (pVoice p)
      then emitParamError w tag ErrCodeVoiceLocked ''session.audio.output.voice'' s
      else case SessionDefaults_Validate ''session'' (patched_config p (ssCfg s)) of
        Some err \<Rightarrow> emitParamError w tag ErrCodeInvalidSession (feField err) s
      | None \<Rightarrow>
          let s1 = s\<lparr>ssCfg := patched_config p (ssCfg s)\<rparr>;
              s2 = (if nSet (pTurnDetection p) then applyTurnDetection s1 else s1)
          in emit w (EvSessionUpdated (ssCfg s2)) s2)"

definition clear_audio :: "world \<Rightarrow> session \<Rightarrow> session" where
  "clear_audio w s =
     emit w EvAudioBufferCleared
       ((disarmEndOfTurn (set_turns resetTurn
           (s\<lparr>ssBuffer := buf_clear (ssBuffer s), ssDetector := map_option Energy_Reset (ssDetector s)\<rparr>)))
        \<lparr>ssSpeechItem := 0\<rparr>)"

fun handleCommand :: "world \<Rightarrow> Command \<Rightarrow> session \<Rightarrow> session option" where
  "handleCommand w (CmdUpdateSession tag p) s = Some (updateSession w p tag s)"
| "handleCommand w (CmdCommitAudio tag) s = step_and_apply w clientCommit tag s"
| "handleCommand w (CmdClearAudio tag) s = Some (clear_audio w s)"
| "handleCommand w (CmdCreateItem tag spec previous atRoot) s = Some (createItem w spec previous atRoot tag s)"
| "handleCommand w (CmdDeleteItem tag ref) s = deleteItem w ref tag s"
| "handleCommand w (CmdTruncateItem tag ref ci ms) s = truncateItem w ref ci ms tag s"
| "handleCommand w (CmdCreateResponse tag ov) s =
     (if ssActive s \<noteq> None then Some (emitError w tag ErrCodeResponseInProgress s)
      else let (t, d) = Step (ssTurns s) clientCreateResponse; s1 = s\<lparr>ssTurns := t\<rparr>
           in Some (if Trigger d then createResponse w ov tag s1 else s1))"
| "handleCommand w (CmdCancelResponse tag ref) s =
     Some (case ssActive s of
             None \<Rightarrow> emitError w tag ErrCodeResponseCancelNotActive s
           | Some r \<Rightarrow> if ref \<noteq> 0 \<and> ref \<noteq> rRef r
                       then emitParamError w tag ErrCodeResponseCancelNotActive ''response_id'' s
                       else interrupt w ReasonClientCancelled s)"
| "handleCommand w (CmdClose tag reason) s = Some (cancel_ctx reason s)"

section \<open>The actor\<close>

text \<open>The state \<open>New\<close> builds; its turn manager does not exist yet, so \<open>applyTurnDetection\<close> finds no
  active response.\<close>

record Options =
  opSession :: SessionDefaults
  opLimits :: Limits
  opASRLanguage :: string
  opASRModel :: string
  opTemperature :: "f64 option"

definition New :: "Options \<Rightarrow> session" where
  "New opts =
     (let td = map_option ApplyDefaults (aiTurnDetection (sdAudioInput (opSession opts)));
          cfg = (opSession opts)\<lparr>sdAudioInput := (sdAudioInput (opSession opts))\<lparr>aiTurnDetection := td\<rparr>\<rparr>;
          asrCfg = \<lparr>acSampleRate = SampleRate, acLanguage = opASRLanguage opts,
                    acPrompt = (case aiTranscription (sdAudioInput cfg) of None \<Rightarrow> [] | Some tr \<Rightarrow> trPrompt tr),
                    acModel = opASRModel opts\<rparr>
      in applyTurnDetection
        \<lparr>ssCfg = cfg, ssLimits = opLimits opts, ssAsrCfg = asrCfg, ssTemp = opTemperature opts,
         ssBuffer = newInputAudioBuffer (limInputAudioBufferMaxMs (opLimits opts)), ssDetector = None,
         ssTurns = newTurnManager None, ssConv = newConversation, ssActive = None, ssActiveGen = 0,
         ssNextResp = 0, ssAudioEmitted = False, ssSpeechItem = 0, ssPendingItem = None,
         ssTranscriptAcc = [], ssPartial = [], ssAsrWait = False, ssEot = None, ssDeferItem = 0,
         ssDeferWait = False, ssAsrLog = [], ssPipes = [], ssCancelled = [], ssClosed = None,
         ssTried = [], ssEvents = []\<rparr>)"

text \<open>\<open>Start\<close>, given the error \<open>OpenStream\<close> returned; with one the session is closed before it ran.\<close>

definition Start :: "string option \<Rightarrow> session \<Rightarrow> session \<times> string option" where
  "Start openErr s =
     (case openErr of Some e \<Rightarrow> (cancel_ctx CloseProviderError s, Some (''open asr stream: '' @ e))
      | None \<Rightarrow> (s, None))"

text \<open>What the actor's select can receive.\<close>

datatype Input = InCommand Command | InAudio pcm | InASR ASREvent | InPipe PipeEvent
  | InAsrWait | InEot | InDeferWait

definition handle :: "world \<Rightarrow> Input \<Rightarrow> session \<Rightarrow> session option" where
  "handle w i s =
     (case i of
        InCommand c \<Rightarrow> handleCommand w c s
      | InAudio p \<Rightarrow> handleAudio w p s
      | InASR ev \<Rightarrow> handleASR w ev s
      | InPipe ev \<Rightarrow> Some (handleResponseEvent w ev s)
      | InAsrWait \<Rightarrow> Some (handleTranscriptTimeout w (s\<lparr>ssAsrWait := False\<rparr>))
      | InEot \<Rightarrow> step_and_apply w asrEndOfTurn [] (s\<lparr>ssEot := None\<rparr>)
      | InDeferWait \<Rightarrow> Some (handleDeferredTimeout w (s\<lparr>ssDeferWait := False\<rparr>)))"

text \<open>\<open>cleanup\<close>: the final event is sent with a bounded wait, so the world decides whether it arrives.\<close>

definition cleanup :: "world \<Rightarrow> session \<Rightarrow> session" where
  "cleanup w s =
     (let reason = (case ssClosed s of None \<Rightarrow> CloseContextCancelled | Some r \<Rightarrow> r);
          s1 = (if ssActive s \<noteq> None then finish w ResponseCancelled ReasonNone None s else s);
          s2 = fst (asr_call w CloseStream (stopTimers s1));
          n = length (ssTried s2)
      in s2\<lparr>ssTried := ssTried s2 @ [EvSessionClosed reason],
            ssEvents := (if wSend w n then ssEvents s2 @ [EvSessionClosed reason] else ssEvents s2)\<rparr>)"

end
