(* ===== verification/SessionInv.thy ===== *)
theory SessionInv
  imports Session
begin

text \<open>
  The structural invariant of the session actor and its preservation by every handler: the
  conversation and the turn manager are consistent, the turn manager knows whether a response is
  active, a response that waits for a transcript has its timer armed, at most one pipeline is live
  and it serves the active response, the pending item and the output item exist.
\<close>

section \<open>Sending touches only the logs\<close>

lemma emit_frame [simp]:
  "ssCfg (emit w ev s) = ssCfg s" "ssLimits (emit w ev s) = ssLimits s" "ssTemp (emit w ev s) = ssTemp s"
  "ssBuffer (emit w ev s) = ssBuffer s" "ssDetector (emit w ev s) = ssDetector s"
  "ssTurns (emit w ev s) = ssTurns s" "ssConv (emit w ev s) = ssConv s" "ssActive (emit w ev s) = ssActive s"
  "ssActiveGen (emit w ev s) = ssActiveGen s" "ssNextResp (emit w ev s) = ssNextResp s"
  "ssAudioEmitted (emit w ev s) = ssAudioEmitted s" "ssSpeechItem (emit w ev s) = ssSpeechItem s"
  "ssPendingItem (emit w ev s) = ssPendingItem s" "ssTranscriptAcc (emit w ev s) = ssTranscriptAcc s"
  "ssPartial (emit w ev s) = ssPartial s" "ssAsrWait (emit w ev s) = ssAsrWait s" "ssEot (emit w ev s) = ssEot s"
  "ssDeferItem (emit w ev s) = ssDeferItem s" "ssDeferWait (emit w ev s) = ssDeferWait s"
  "ssAsrLog (emit w ev s) = ssAsrLog s" "ssPipes (emit w ev s) = ssPipes s" "ssCancelled (emit w ev s) = ssCancelled s"
  "ssTried (emit w ev s) = ssTried s @ [ev]"
  by (simp_all add: emit_def cancel_ctx_def Let_def split: option.splits)

lemma cancel_ctx_frame [simp]:
  "ssCfg (cancel_ctx c s) = ssCfg s" "ssLimits (cancel_ctx c s) = ssLimits s" "ssTemp (cancel_ctx c s) = ssTemp s"
  "ssBuffer (cancel_ctx c s) = ssBuffer s" "ssDetector (cancel_ctx c s) = ssDetector s"
  "ssTurns (cancel_ctx c s) = ssTurns s" "ssConv (cancel_ctx c s) = ssConv s" "ssActive (cancel_ctx c s) = ssActive s"
  "ssActiveGen (cancel_ctx c s) = ssActiveGen s" "ssNextResp (cancel_ctx c s) = ssNextResp s"
  "ssAudioEmitted (cancel_ctx c s) = ssAudioEmitted s" "ssSpeechItem (cancel_ctx c s) = ssSpeechItem s"
  "ssPendingItem (cancel_ctx c s) = ssPendingItem s" "ssTranscriptAcc (cancel_ctx c s) = ssTranscriptAcc s"
  "ssPartial (cancel_ctx c s) = ssPartial s" "ssAsrWait (cancel_ctx c s) = ssAsrWait s" "ssEot (cancel_ctx c s) = ssEot s"
  "ssDeferItem (cancel_ctx c s) = ssDeferItem s" "ssDeferWait (cancel_ctx c s) = ssDeferWait s"
  "ssAsrLog (cancel_ctx c s) = ssAsrLog s" "ssPipes (cancel_ctx c s) = ssPipes s" "ssCancelled (cancel_ctx c s) = ssCancelled s"
  "ssTried (cancel_ctx c s) = ssTried s" "ssEvents (cancel_ctx c s) = ssEvents s"
  by (simp_all add: cancel_ctx_def split: option.splits)

section \<open>The invariant\<close>

definition pending_ok :: "conversation \<Rightarrow> ItemRef option \<Rightarrow> bool" where
  "pending_ok c p \<longleftrightarrow> (case p of None \<Rightarrow> True
     | Some ref \<Rightarrow> \<exists>it. conv_get c ref = Some it \<and> itRole it = RoleUser \<and> \<not> itTranscriptDone it)"

definition output_ok :: "conversation \<Rightarrow> ItemRef \<Rightarrow> bool" where
  "output_ok c ref \<longleftrightarrow> ref = 0 \<or> (\<exists>it. conv_get c ref = Some it \<and> itRole it = RoleAssistant \<and> itTranscriptDone it)"

text \<open>Pipelines: all but the running one were cancelled and carry an older stamp.\<close>

definition idle_pipes :: "pipeline_start list \<Rightarrow> Generation list \<Rightarrow> Generation \<Rightarrow> bool" where
  "idle_pipes ps cs g \<longleftrightarrow> (\<forall>p \<in> set ps. psGen p < g \<and> psGen p \<in> set cs)"

definition running_pipes :: "pipeline_start list \<Rightarrow> Generation list \<Rightarrow> Generation \<Rightarrow> ResponseRef \<Rightarrow> bool" where
  "running_pipes ps cs g ref \<longleftrightarrow>
     (\<exists>qs p. ps = qs @ [p] \<and> idle_pipes qs cs g \<and> psGen p = g \<and> psResp p = ref)"

definition active_ok :: "session \<Rightarrow> response \<Rightarrow> bool" where
  "active_ok s r \<longleftrightarrow>
     rStatus r = ResponseInProgress \<and> rRef r = ssNextResp s \<and> 0 < rRef r \<and> rAwaiting r = ssAsrWait s \<and>
     output_ok (ssConv s) (rItem r) \<and>
     (if rAwaiting r
      then \<not> rHasCancel r \<and> rItem r = 0 \<and> rToolItem r = 0 \<and> idle_pipes (ssPipes s) (ssCancelled s) (ssActiveGen s + 1)
      else rHasCancel r \<and> rGen r = ssActiveGen s \<and>
           running_pipes (ssPipes s) (ssCancelled s) (ssActiveGen s) (rRef r))"

definition sess_inv :: "session \<Rightarrow> bool" where
  "sess_inv s \<longleftrightarrow>
     conv_inv (ssConv s) \<and> turn_inv (ssTurns s) \<and> session_ok (ssCfg s) \<and>
     (tmResponseActive (ssTurns s) \<longleftrightarrow> ssActive s \<noteq> None) \<and>
     pending_ok (ssConv s) (ssPendingItem s) \<and> ref_free (ssConv s) (ssSpeechItem s) \<and>
     (ssDeferWait s \<longleftrightarrow> ssDeferItem s \<noteq> 0) \<and>
     (case ssActive s of
        None \<Rightarrow> \<not> ssAsrWait s \<and> idle_pipes (ssPipes s) (ssCancelled s) (ssActiveGen s + 1)
      | Some r \<Rightarrow> active_ok s r)"

lemma sess_inv_frame [simp]:
  "sess_inv (emit w ev s) = sess_inv s" "sess_inv (cancel_ctx c s) = sess_inv s"
  "sess_inv (s\<lparr>ssEot := e\<rparr>) = sess_inv s" "sess_inv (s\<lparr>ssBuffer := b\<rparr>) = sess_inv s"
  "sess_inv (s\<lparr>ssDetector := d\<rparr>) = sess_inv s" "sess_inv (s\<lparr>ssPartial := t\<rparr>) = sess_inv s"
  "sess_inv (s\<lparr>ssTranscriptAcc := t\<rparr>) = sess_inv s" "sess_inv (s\<lparr>ssAsrLog := l\<rparr>) = sess_inv s"
  "sess_inv (s\<lparr>ssAudioEmitted := a\<rparr>) = sess_inv s"
  by (simp_all add: sess_inv_def active_ok_def cong: option.case_cong)

lemma sess_inv_send [simp]:
  "sess_inv (emitError w tag code s) = sess_inv s" "sess_inv (emitParamError w tag code p s) = sess_inv s"
  "sess_inv (fatal w code c s) = sess_inv s" "sess_inv (fst (asr_call w call s)) = sess_inv s"
  "sess_inv (disarmEndOfTurn s) = sess_inv s" "sess_inv (armEndOfTurn d s) = sess_inv s"
  by (simp_all add: emitError_def emitParamError_def fatal_def asr_call_def disarmEndOfTurn_def armEndOfTurn_def)

section \<open>Changing the conversation\<close>

text \<open>A conversation change that keeps what the invariant says of the items.\<close>

definition conv_keeps :: "conversation \<Rightarrow> conversation \<Rightarrow> bool" where
  "conv_keeps c c' \<longleftrightarrow> conv_inv c' \<and>
     (\<forall>r it. conv_get c r = Some it \<longrightarrow>
        (\<exists>it'. conv_get c' r = Some it' \<and> itRole it' = itRole it \<and> itTranscriptDone it' = itTranscriptDone it))"

lemma conv_keeps_pending: "conv_keeps c c' \<Longrightarrow> pending_ok c p \<Longrightarrow> pending_ok c' p"
  by (fastforce simp: conv_keeps_def pending_ok_def split: option.splits)

lemma conv_keeps_output: "conv_keeps c c' \<Longrightarrow> output_ok c r \<Longrightarrow> output_ok c' r"
  by (fastforce simp: conv_keeps_def output_ok_def)

lemma sess_inv_conv:
  assumes "sess_inv s" "conv_keeps (ssConv s) c" "ref_free c (ssSpeechItem s)"
  shows "sess_inv (s\<lparr>ssConv := c\<rparr>)"
  using assms conv_keeps_pending [OF assms(2)] conv_keeps_output [OF assms(2)]
  by (auto simp: sess_inv_def active_ok_def conv_keeps_def split: option.splits)

lemma conv_update_keeps:
  assumes "conv_inv c" "\<And>it. itRef (f it) = itRef it" "\<And>it. itRole (f it) = itRole it"
    "\<And>it. itTranscriptDone (f it) = itTranscriptDone it"
  shows "conv_keeps c (conv_update c r f)"
  using assms conv_update_inv [OF assms(1,2)] conv_store.upd_get [OF assms(1,2)]
  by (simp add: conv_keeps_def)

lemma ref_free_update [simp]: "ref_free (conv_update c r f) x = ref_free c x"
  by (auto simp: ref_free_def conv_update_def)

lemma sess_inv_write:
  assumes "sess_inv s" "\<And>it. itRef (f it) = itRef it" "\<And>it. itRole (f it) = itRole it"
    "\<And>it. itTranscriptDone (f it) = itTranscriptDone it"
  shows "sess_inv (conv_write r f s)"
proof -
  have "conv_inv (ssConv s)" "ref_free (ssConv s) (ssSpeechItem s)" using assms(1) by (simp_all add: sess_inv_def)
  then show ?thesis unfolding conv_write_def
    by (intro sess_inv_conv assms conv_update_keeps) simp_all
qed

lemma conv_append_keeps:
  assumes "conv_inv c" "ref_free c (itRef it)" "conv_append c it = (c', it', p)"
  shows "conv_keeps c c'" "conv_get c' (itRef it') = Some it'" "itRef it' \<noteq> 0"
    "itRole it' = itRole it" "itTranscriptDone it' = itTranscriptDone it" "itRef it \<noteq> 0 \<Longrightarrow> it' = it"
proof -
  have inv: "conv_inv c'" using conv_append_inv [OF assms] .
  have new: "conv_get c (itRef it') = None"
    using conv_append_eq [OF assms] by (auto simp: conv_get_def)
  then show "conv_keeps c c'"
    using inv conv_store.add_get [OF assms] by (auto simp: conv_keeps_def)
  show "conv_get c' (itRef it') = Some it'" using conv_store.add_get [OF assms] by simp
  show "itRef it' \<noteq> 0" "itRole it' = itRole it" "itTranscriptDone it' = itTranscriptDone it"
    "itRef it \<noteq> 0 \<Longrightarrow> it' = it"
    using conv_append_eq [OF assms] by auto
qed

lemma newRef_keeps: "conv_inv c \<Longrightarrow> conv_keeps c (fst (newRef c))"
  using newRef_inv by (auto simp: conv_keeps_def conv_get_def)

text \<open>A fresh item leaves the reserved reference free; so does handing out a reference.\<close>

lemma ref_free_append:
  assumes "conv_inv c" "itRef it = 0" "conv_append c it = (c', it', p)" "ref_free c x"
  shows "ref_free c' x"
  using conv_append_eq [OF assms(1) _ assms(3)] assms(2,4) by (auto simp: ref_free_def)

lemma ref_free_newRef [simp]: "conv_inv c \<Longrightarrow> ref_free (fst (newRef c)) (snd (newRef c))"
  by (simp add: ref_free_def conv_inv_fresh)

lemma ref_free_zero [simp]: "ref_free c 0"
  by (simp add: ref_free_def)


section \<open>Configuration and items\<close>

lemma newTurnManager_inactive [simp]: "\<not> tmResponseActive (newTurnManager td)"
  by (simp add: newTurnManager_def split: option.split)

lemma applyTurnDetection_inv: "sess_inv s \<Longrightarrow> sess_inv (applyTurnDetection s)"
  using turn_inv_active [OF turn_inv_new]
  by (auto simp: applyTurnDetection_def Let_def disarmEndOfTurn_def sess_inv_def active_ok_def split: option.splits)

lemma session_validate_ok: "SessionDefaults_Validate p c = None \<Longrightarrow> session_ok c"
  by (auto simp: SessionDefaults_Validate_def session_ok_def validateTools_def validateTools_from_None
      validateToolChoice_None split: option.splits)

lemma updateSession_inv:
  assumes "sess_inv s"
  shows "sess_inv (updateSession w p tag s)"
proof -
  have "sess_inv (s\<lparr>ssCfg := c\<rparr>)" if "SessionDefaults_Validate ''session'' c = None" for c
    using assms session_validate_ok [OF that] by (auto simp: sess_inv_def active_ok_def split: option.splits)
  then show ?thesis using assms applyTurnDetection_inv
    by (auto simp: updateSession_def Let_def split: option.splits)
qed

lemma newClientItem_shape:
  assumes "newClientItem w spec tag s = (s1, Some it)"
  shows "s1 = s" "itRef it = 0" "itTranscriptDone it"
  using assms
  by (auto simp: newClientItem_def newToolOutputItem_def blank_item_def split: if_splits option.splits)

lemma newClientItem_inv: "newClientItem w spec tag s = (s1, x) \<Longrightarrow> sess_inv s \<Longrightarrow> sess_inv s1"
  by (auto simp: newClientItem_def newToolOutputItem_def split: if_splits option.splits)

lemma conv_insert_keeps:
  assumes "conv_inv c" "itRef it = 0" "ref_free c x" "conv_insert c it previous atRoot = (c', it', p)"
  shows "conv_keeps c c' \<and> ref_free c' x"
proof -
  have inv: "conv_inv c'" using conv_insert_inv [OF assms(1), of it previous atRoot] assms(2,4) by simp
  have "cIndex c (Suc (cNext c)) = None" using assms(1) by (simp add: conv_inv_fresh)
  then have "(\<forall>r i. conv_get c r = Some i \<longrightarrow> conv_get c' r = Some i) \<and> ref_free c' x"
    using assms(2-4)
    by (auto simp: conv_insert_def newRef_def conv_get_def ref_free_def Let_def split: option.splits)
  then show ?thesis using inv by (auto simp: conv_keeps_def)
qed

lemma createItem_inv:
  assumes "sess_inv s"
  shows "sess_inv (createItem w spec previous atRoot tag s)"
proof (cases "newClientItem w spec tag s")
  case (Pair s1 x)
  show ?thesis
  proof (cases x)
    case None
    then show ?thesis using Pair newClientItem_inv [OF Pair assms] by (simp add: createItem_def)
  next
    case (Some it)
    obtain c it' p where ins: "conv_insert (ssConv s) it previous atRoot = (c, it', p)"
      by (cases "conv_insert (ssConv s) it previous atRoot") auto
    have "itRef it = 0" "s1 = s" using newClientItem_shape Pair Some by auto
    moreover have "sess_inv (s\<lparr>ssConv := c\<rparr>)"
      using assms conv_insert_keeps [OF _ \<open>itRef it = 0\<close> _ ins, of "ssSpeechItem s"]
      by (intro sess_inv_conv) (auto simp: sess_inv_def)
    ultimately show ?thesis using Pair Some ins by (auto simp: createItem_def split: option.splits)
  qed
qed

lemma sess_inv_remove:
  assumes "sess_inv s" "conv_remove (ssConv s) ref = Some (c, b)"
    "\<And>r. ssActive s = Some r \<Longrightarrow> rItem r \<noteq> ref" "pend = (if ssPendingItem s = Some ref then None else ssPendingItem s)"
  shows "sess_inv (s\<lparr>ssConv := c, ssPendingItem := pend\<rparr>)"
proof -
  have inv: "conv_inv (ssConv s)" using assms(1) by (simp add: sess_inv_def)
  have c: "conv_inv c" using conv_remove_inv [OF inv assms(2)] .
  have get: "conv_get c x = conv_get (ssConv s) x" if "x \<noteq> ref" for x
    using that assms(2) by (auto simp: conv_remove_def conv_get_def Let_def split: option.splits if_splits)
  have "ref_free (ssConv s) x \<Longrightarrow> ref_free c x" for x
    using assms(2) by (auto simp: conv_remove_def ref_free_def Let_def split: option.splits if_splits)
  moreover have "pending_ok c pend" using assms(1,4) get by (auto simp: sess_inv_def pending_ok_def split: option.splits)
  moreover have "output_ok c (rItem r)" if "ssActive s = Some r" "output_ok (ssConv s) (rItem r)" for r
    using that assms(3) get by (auto simp: output_ok_def)
  ultimately show ?thesis using assms(1) c by (auto simp: sess_inv_def active_ok_def split: option.splits)
qed

lemma deleteItem_inv:
  assumes "sess_inv s"
  shows "\<exists>s'. deleteItem w ref tag s = Some s' \<and> sess_inv s'"
proof (cases "case ssActive s of None \<Rightarrow> False | Some r \<Rightarrow> rItem r = ref")
  case True
  then show ?thesis using assms by (simp add: deleteItem_def)
next
  case False
  have "conv_inv (ssConv s)" using assms by (simp add: sess_inv_def)
  then obtain c b where rm: "conv_remove (ssConv s) ref = Some (c, b)" using conv_remove_total by fastforce
  have "sess_inv (s\<lparr>ssConv := c, ssPendingItem := (if ssPendingItem s = Some ref then None else ssPendingItem s)\<rparr>)"
    using sess_inv_remove [OF assms rm _ refl] False by fastforce
  then show ?thesis using False assms rm by (auto simp: deleteItem_def Let_def split: if_splits)
qed

lemma truncateItem_inv:
  assumes "sess_inv s" "truncateItem w ref ci ms tag s = Some s'"
  shows "sess_inv s'"
proof -
  have "sess_inv (s\<lparr>ssConv := conv_update (ssConv s) ref f\<rparr>)"
    if "\<And>i. itRef (f i) = itRef i \<and> itRole (f i) = itRole i \<and> itTranscriptDone (f i) = itTranscriptDone i" for f
    using sess_inv_write [OF assms(1), of f ref] that by (simp add: conv_write_def)
  then show ?thesis using assms
    by (auto simp: truncateItem_def Let_def split: option.splits if_splits Option.bind_splits)
qed

section \<open>Responses\<close>

lemma awaited_none: "sess_inv s \<Longrightarrow> awaited_item s = ssPendingItem s"
  by (auto simp: awaited_item_def sess_inv_def pending_ok_def split: option.splits)

text \<open>Starting the pipeline of the active response, after its wait was cancelled.\<close>

lemma startPipeline_inv:
  assumes "sess_inv s" "ssActive s = Some r" "rAwaiting r"
  shows "sess_inv (startPipeline (stopASRWait s))"
  using assms
  by (auto simp: startPipeline_def stopASRWait_def Let_def sess_inv_def active_ok_def running_pipes_def)

text \<open>The state right after a response was entered, before its pipeline or its wait.\<close>

definition entered :: "session \<Rightarrow> bool" where
  "entered s \<longleftrightarrow> (\<exists>r. ssActive s = Some r \<and> rAwaiting r \<and> sess_inv (s\<lparr>ssAsrWait := True\<rparr>))"

lemma entered_wait: "entered s \<Longrightarrow> sess_inv ((upd_active (\<lambda>r. r\<lparr>rDependsOn := p\<rparr>) s)\<lparr>ssAsrWait := True\<rparr>)"
  by (auto simp: entered_def upd_active_def sess_inv_def active_ok_def)

lemma entered_start: "entered s \<Longrightarrow> \<not> ssAsrWait s \<Longrightarrow> sess_inv (startPipeline s)"
  by (auto simp: entered_def startPipeline_def Let_def sess_inv_def active_ok_def running_pipes_def)

lemma begin_response_frame [simp]:
  "ssAsrWait (begin_response w ov tag probe s) = ssAsrWait s"
  "ssConv (begin_response w ov tag probe s) = ssConv s"
  "ssPendingItem (begin_response w ov tag probe s) = ssPendingItem s"
  by (simp_all add: begin_response_def set_turns_def Let_def)

lemma begin_response_entered:
  assumes "sess_inv s" "ssActive s = None"
  shows "entered (begin_response w ov tag probe s)"
  using assms turn_inv_active [of "ssTurns s" True]
  by (auto simp: begin_response_def Let_def entered_def set_turns_def sess_inv_def active_ok_def new_response_def
      output_ok_def)

lemma createResponseAt_inv:
  assumes "sess_inv s" "ssActive s = None"
  shows "sess_inv (createResponseAt w ov tag s)"
proof -
  have "\<not> ssAsrWait s" using assms by (simp add: sess_inv_def)
  then show ?thesis
    using assms(1) begin_response_entered [OF assms] entered_wait entered_start
    by (simp add: createResponseAt_def Let_def split: option.splits)
qed

lemma createResponse_inv: "sess_inv s \<Longrightarrow> ssActive s = None \<Longrightarrow> sess_inv (createResponse w ov tag s)"
  by (simp add: createResponse_def createResponseAt_inv)

lemma conv_get_zero: "conv_inv c \<Longrightarrow> conv_get c 0 = None"
  by (simp add: conv_get_def)

lemma finish_item_frame:
  assumes "finish_item w r status s = (s', out)"
  shows "ssCfg s' = ssCfg s" "ssTurns s' = ssTurns s" "ssActive s' = ssActive s" "ssActiveGen s' = ssActiveGen s"
    "ssNextResp s' = ssNextResp s" "ssSpeechItem s' = ssSpeechItem s" "ssPendingItem s' = ssPendingItem s"
    "ssAsrWait s' = ssAsrWait s" "ssDeferItem s' = ssDeferItem s" "ssDeferWait s' = ssDeferWait s"
    "ssPipes s' = ssPipes s" "ssCancelled s' = ssCancelled s" "ssAudioEmitted s' = ssAudioEmitted s"
  using assms by (auto simp: finish_item_def conv_write_def Let_def split: option.splits if_splits)

lemma finish_item_conv:
  assumes "conv_inv (ssConv s)" "finish_item w r status s = (s', out)"
  shows "conv_keeps (ssConv s) (ssConv s')" "ref_free (ssConv s') x = ref_free (ssConv s) x"
proof -
  let ?mark = "\<lambda>i. i\<lparr>itStatus := (if status = ResponseCompleted then ItemCompleted else ItemIncomplete)\<rparr>"
  have c: "ssConv s' = ssConv s \<or> ssConv s' = conv_update (ssConv s) (rItem r) ?mark"
    using assms(2) by (auto simp: finish_item_def conv_write_def Let_def split: option.splits if_splits)
  moreover have "conv_keeps (ssConv s) (conv_update (ssConv s) (rItem r) ?mark)"
    by (rule conv_update_keeps [OF assms(1)]) simp_all
  moreover have "conv_keeps (ssConv s) (ssConv s)" using assms(1) by (auto simp: conv_keeps_def)
  ultimately show "conv_keeps (ssConv s) (ssConv s')" by auto
  show "ref_free (ssConv s') x = ref_free (ssConv s) x" using c by auto
qed

text \<open>Between stopping and closing a response is neither live nor gone: the invariant without its clause.\<close>

definition closing :: "session \<Rightarrow> bool" where
  "closing s \<longleftrightarrow>
     conv_inv (ssConv s) \<and> turn_inv (ssTurns s) \<and> session_ok (ssCfg s) \<and>
     pending_ok (ssConv s) (ssPendingItem s) \<and> ref_free (ssConv s) (ssSpeechItem s) \<and>
     (ssDeferWait s \<longleftrightarrow> ssDeferItem s \<noteq> 0) \<and> \<not> ssAsrWait s \<and>
     idle_pipes (ssPipes s) (ssCancelled s) (ssActiveGen s + 1)"

lemma idle_pipes_mono: "idle_pipes ps cs g \<Longrightarrow> g \<le> g' \<Longrightarrow> set cs \<subseteq> set cs' \<Longrightarrow> idle_pipes ps cs' g'"
  by (fastforce simp: idle_pipes_def)

lemma running_pipes_idle: "running_pipes ps cs g ref \<Longrightarrow> idle_pipes ps (cs @ [g]) (Suc g)"
  by (fastforce simp: running_pipes_def idle_pipes_def less_Suc_eq)

lemma finish_stop_wait [simp]: "finish_stop r status (s\<lparr>ssAsrWait := b\<rparr>) = finish_stop r status s"
  by (simp add: finish_stop_def stopASRWait_def upd_active_def)

lemma finish_stop_closing:
  assumes "sess_inv s" "ssActive s = Some r"
  shows "closing (finish_stop r status s)"
proof -
  have "idle_pipes (ssPipes s) (ssCancelled (finish_stop r status s)) (Suc (ssActiveGen s))"
    using assms running_pipes_idle [of "ssPipes s" "ssCancelled s" "ssActiveGen s" "rRef r"]
    by (auto simp: finish_stop_def stopASRWait_def upd_active_def sess_inv_def active_ok_def split: if_splits)
  then show ?thesis using assms
    by (auto simp: finish_stop_def stopASRWait_def upd_active_def sess_inv_def closing_def)
qed

lemma finish_item_closing:
  assumes "closing s" "finish_item w r status s = (s', out)"
  shows "closing s'"
  using assms finish_item_frame [OF assms(2)] finish_item_conv [OF _ assms(2)]
    conv_keeps_pending [OF finish_item_conv(1) [OF _ assms(2)]]
  by (auto simp: closing_def conv_keeps_def)

lemma finish_close_inv:
  assumes "closing s"
  shows "sess_inv (finish_close w r status reason err out s)"
  using assms turn_inv_active [of "ssTurns s" False] idle_pipes_mono [of "ssPipes s" "ssCancelled s" "Suc (ssActiveGen s)"]
  by (simp add: closing_def finish_close_def set_turns_def sess_inv_def Let_def)

lemma finish_inv_wait:
  assumes "sess_inv (s\<lparr>ssAsrWait := b\<rparr>)" "ssActive s \<noteq> None"
  shows "sess_inv (finish w status reason err s)"
proof -
  obtain r where r: "ssActive s = Some r" using assms(2) by auto
  have "\<not> terminal r" using assms(1) r by (simp add: terminal_def sess_inv_def active_ok_def)
  moreover have "closing (finish_stop r status s)" using finish_stop_closing [OF assms(1), of r status] r by simp
  ultimately show ?thesis using r finish_close_inv [OF finish_item_closing]
    by (auto simp: finish_def split: prod.splits)
qed

lemma finish_inv:
  assumes "sess_inv s"
  shows "sess_inv (finish w status reason err s)"
proof (cases "ssActive s = None")
  case True
  then show ?thesis using assms by (simp add: finish_def)
next
  case False
  moreover have "s\<lparr>ssAsrWait := ssAsrWait s\<rparr> = s" by simp
  ultimately show ?thesis using finish_inv_wait [where s = s and b = "ssAsrWait s"] assms by simp
qed

lemma finish_inactive:
  assumes "sess_inv s"
  shows "ssActive (finish w status reason err s) = None"
  using assms
  by (auto simp: finish_def finish_close_def set_turns_def terminal_def sess_inv_def active_ok_def Let_def
      split: option.splits prod.splits)

lemma interrupt_inv: "sess_inv s \<Longrightarrow> sess_inv (interrupt w reason s)"
  using finish_inv [of s] by (auto simp: interrupt_def)

lemma interrupt_inactive: "sess_inv s \<Longrightarrow> ssActive (interrupt w reason s) = None"
  using finish_inactive [of s] by (auto simp: interrupt_def)

text \<open>Changes to the active response that the invariant does not look at.\<close>

lemma sess_inv_active:
  assumes "sess_inv s" "\<And>r. rRef (f r) = rRef r" "\<And>r. rStatus (f r) = rStatus r" "\<And>r. rAwaiting (f r) = rAwaiting r"
    "\<And>r. rHasCancel (f r) = rHasCancel r" "\<And>r. rGen (f r) = rGen r" "\<And>r. rItem (f r) = rItem r"
    "\<And>r. ssActive s = Some r \<Longrightarrow> rToolItem (f r) = rToolItem r \<or> \<not> rAwaiting r"
  shows "sess_inv (upd_active f s)"
  using assms by (auto simp: upd_active_def sess_inv_def active_ok_def split: option.splits)

lemma failResponse_inv_wait:
  assumes "sess_inv (s\<lparr>ssAsrWait := b\<rparr>)" "ssActive s \<noteq> None"
  shows "sess_inv (failResponse w code err s)"
proof -
  let ?f = "\<lambda>r. r\<lparr>rFailCode := Some code\<rparr>"
  obtain r where r: "ssActive s = Some r" using assms(2) by auto
  have "sess_inv (upd_active ?f (s\<lparr>ssAsrWait := b\<rparr>))" by (rule sess_inv_active [OF assms(1)]) simp_all
  moreover have "upd_active ?f (s\<lparr>ssAsrWait := b\<rparr>) = (upd_active ?f s)\<lparr>ssAsrWait := b\<rparr>" by (simp add: upd_active_def)
  moreover have "sess_inv ((emitError w tag code t)\<lparr>ssAsrWait := b\<rparr>) = sess_inv (t\<lparr>ssAsrWait := b\<rparr>)" for tag t
    by (simp add: emitError_def sess_inv_def active_ok_def cong: option.case_cong)
  ultimately have "sess_inv ((emitError w (rTag r) code (upd_active ?f s))\<lparr>ssAsrWait := b\<rparr>)" by metis
  moreover have "ssActive (emitError w (rTag r) code (upd_active ?f s)) \<noteq> None"
    using r by (simp add: emitError_def upd_active_def)
  ultimately show ?thesis using r finish_inv_wait by (simp add: failResponse_def)
qed

lemma failResponse_inv: "sess_inv s \<Longrightarrow> sess_inv (failResponse w code err s)"
  using failResponse_inv_wait [where s = s and b = "ssAsrWait s"] by (cases "ssActive s") (simp_all add: failResponse_def)

lemma maybeComplete_inv: "sess_inv s \<Longrightarrow> sess_inv (maybeComplete w s)"
  using finish_inv by (auto simp: maybeComplete_def split: option.splits)


section \<open>Pipeline events\<close>

lemma blank_item_ref [simp]: "itRef blank_item = 0"
  by (simp add: blank_item_def)

text \<open>Appending a fresh assistant item and making it the output item of the running response.\<close>

lemma ensureOutputItem_inv:
  assumes "sess_inv s" "ssActive s = Some r" "\<not> rAwaiting r" "ensureOutputItem w r s = (s', ref)"
  shows "sess_inv s'" "ssActive s' = Some (r\<lparr>rItem := ref\<rparr>)" "ref \<noteq> 0"
proof -
  have inv: "conv_inv (ssConv s)" "ref_free (ssConv s) (ssSpeechItem s)" "output_ok (ssConv s) (rItem r)"
    using assms(1,2) by (simp_all add: sess_inv_def active_ok_def)
  show "sess_inv s'" and "ssActive s' = Some (r\<lparr>rItem := ref\<rparr>)" and "ref \<noteq> 0"
  proof (atomize (full), cases "conv_get (ssConv s) (rItem r)")
    case (Some it)
    then have "rItem r \<noteq> 0" using inv(1) by (cases "rItem r = 0") (auto simp: conv_get_zero)
    then show "sess_inv s' \<and> ssActive s' = Some (r\<lparr>rItem := ref\<rparr>) \<and> ref \<noteq> 0"
      using assms Some by (auto simp: ensureOutputItem_def)
  next
    case None
    define it where "it = blank_item\<lparr>itRole := RoleAssistant,
      itContent := (if rTextOnly r then ContentText else ContentAudio), itStatus := ItemInProgress, itTranscriptDone := True\<rparr>"
    obtain c it' p where app: "conv_append (ssConv s) it = (c, it', p)" by (cases "conv_append (ssConv s) it") auto
    have ref0: "itRef it = 0" by (simp add: it_def)
    note k = conv_append_keeps [OF inv(1) _ app, unfolded ref0, OF ref_free_zero]
    have s': "s' = emit w (EvOutputItemAdded (rRef r) (snapshot it') p)
                 (upd_active (\<lambda>r. r\<lparr>rItem := itRef it'\<rparr>) (s\<lparr>ssConv := c\<rparr>))" "ref = itRef it'"
      using assms(4) None app by (auto simp: ensureOutputItem_def it_def [symmetric] Let_def)
    have "sess_inv (s\<lparr>ssConv := c\<rparr>)"
      using assms(1) k(1) ref_free_append [OF inv(1) ref0 app inv(2)] by (rule sess_inv_conv)
    moreover have "output_ok c (itRef it')"
      using k(2,4,5) by (simp add: output_ok_def it_def)
    ultimately show "sess_inv s' \<and> ssActive s' = Some (r\<lparr>rItem := ref\<rparr>) \<and> ref \<noteq> 0"
      using assms(2,3) k(3) by (auto simp: s' upd_active_def sess_inv_def active_ok_def)
  qed
qed


lemma deliverToolCall_inv:
  assumes "sess_inv s" "ssActive s = Some r" "\<not> rAwaiting r"
  shows "sess_inv (deliverToolCall w r call s)"
proof (cases "rToolItem r = 0")
  case True
  define it where "it = blank_item\<lparr>itContent := ContentToolCall, itStatus := ItemInProgress, itName := callName call,
    itCallID := callID call, itText := callArguments call, itTranscriptDone := True\<rparr>"
  obtain c it' p where app: "conv_append (ssConv s) it = (c, it', p)" by (cases "conv_append (ssConv s) it") auto
  have ref0: "itRef it = 0" by (simp add: it_def)
  have inv: "conv_inv (ssConv s)" "ref_free (ssConv s) (ssSpeechItem s)" using assms(1) by (simp_all add: sess_inv_def)
  note k = conv_append_keeps [OF inv(1) _ app, unfolded ref0, OF ref_free_zero]
  have "sess_inv (s\<lparr>ssConv := c\<rparr>)"
    using assms(1) k(1) ref_free_append [OF inv(1) ref0 app inv(2)] by (rule sess_inv_conv)
  then have "sess_inv (upd_active (\<lambda>r. r\<lparr>rToolItem := itRef it'\<rparr>) (s\<lparr>ssConv := c\<rparr>))"
    by (rule sess_inv_active) (use assms in simp_all)
  then show ?thesis using True app
    by (simp add: deliverToolCall_def it_def [symmetric] Let_def sess_inv_write)
qed (use assms in \<open>simp add: deliverToolCall_def\<close>)

lemma noteFirstText_inv: "sess_inv s \<Longrightarrow> sess_inv (noteFirstText s)"
  unfolding noteFirstText_def by (rule sess_inv_active) simp_all

lemma pipe_event_inv:
  assumes "sess_inv s" "ssActive s = Some r" "\<not> rAwaiting r"
  shows "sess_inv (pipe_event w r ev s)"
proof (cases ev)
  case (PipeTextDelta g resp delta)
  then show ?thesis using ensureOutputItem_inv(1) [OF assms]
    by (auto simp: sess_inv_write noteFirstText_inv split: prod.splits)
next
  case (PipeAudioTranscriptDelta g resp delta)
  then show ?thesis using ensureOutputItem_inv(1) [OF assms]
    by (auto simp: sess_inv_write noteFirstText_inv split: prod.splits)
next
  case (PipeAudioDelta g resp p)
  then show ?thesis using ensureOutputItem_inv(1) [OF assms]
    by (auto simp: sess_inv_write Let_def split: prod.splits)
next
  case (PipeLLMDone g fin usage)
  then show ?thesis using assms by (simp add: maybeComplete_inv sess_inv_active)
next
  case (PipeTTSDone g)
  then show ?thesis using assms by (simp add: maybeComplete_inv sess_inv_active)
qed (use assms in \<open>simp_all add: deliverToolCall_inv sess_inv_write failResponse_inv\<close>)

lemma handleResponseEvent_inv: "sess_inv s \<Longrightarrow> sess_inv (handleResponseEvent w ev s)"
  using pipe_event_inv by (auto simp: handleResponseEvent_def split: option.splits)

section \<open>Turns\<close>

lemma dropDeferredTrigger_inv: "sess_inv s \<Longrightarrow> sess_inv (dropDeferredTrigger s)"
  by (auto simp: dropDeferredTrigger_def sess_inv_def active_ok_def split: option.splits)

lemma pending_nonzero: "sess_inv s \<Longrightarrow> ssPendingItem s = Some ref \<Longrightarrow> ref \<noteq> 0"
  by (cases "ref = 0") (auto simp: sess_inv_def pending_ok_def conv_get_zero)

lemma deferTrigger_inv:
  assumes "sess_inv s"
  shows "sess_inv (deferTrigger s)"
proof (cases "ssPendingItem s")
  case (Some ref)
  then show ?thesis using pending_nonzero [OF assms Some] assms
    by (auto simp: deferTrigger_def dropDeferredTrigger_def sess_inv_def active_ok_def split: option.splits)
qed (use assms in \<open>simp add: deferTrigger_def\<close>)

text \<open>The reference a commit uses: the one reserved at speech start, or a new one.\<close>

lemma reserve_ref:
  assumes "sess_inv s" "(if ssSpeechItem s = 0 then newRef (ssConv s) else (ssConv s, ssSpeechItem s)) = (c, ref)"
  shows "sess_inv (s\<lparr>ssConv := c, ssSpeechItem := ref\<rparr>)" "ref \<noteq> 0" "ref_free c ref" "conv_inv c"
proof -
  have inv: "conv_inv (ssConv s)" "ref_free (ssConv s) (ssSpeechItem s)" using assms(1) by (simp_all add: sess_inv_def)
  have k: "conv_keeps (ssConv s) c"
    using assms(2) newRef_keeps [OF inv(1)] inv(1) by (auto simp: conv_keeps_def split: if_splits)
  show f: "ref_free c ref" "ref \<noteq> 0"
    using assms(2) inv ref_free_newRef [OF inv(1)] by (auto simp: newRef_def split: if_splits)
  show "conv_inv c" using k by (simp add: conv_keeps_def)
  have "sess_inv (s\<lparr>ssSpeechItem := 0\<rparr>)" using assms(1) by (auto simp: sess_inv_def active_ok_def split: option.splits)
  then have "sess_inv (s\<lparr>ssSpeechItem := 0, ssConv := c\<rparr>)" by (rule sess_inv_conv) (use k in simp_all)
  then show "sess_inv (s\<lparr>ssConv := c, ssSpeechItem := ref\<rparr>)"
    using f by (auto simp: sess_inv_def active_ok_def split: option.splits)
qed

lemma add_user_item_inv:
  assumes "sess_inv s"
  shows "sess_inv (add_user_item w ms s)"
proof -
  obtain c1 ref where rr: "(if ssSpeechItem s = 0 then newRef (ssConv s) else (ssConv s, ssSpeechItem s)) = (c1, ref)"
    by (cases "if ssSpeechItem s = 0 then newRef (ssConv s) else (ssConv s, ssSpeechItem s)")
  define it where "it = blank_item\<lparr>itRef := ref, itRole := RoleUser, itContent := ContentAudio,
                     itStatus := ItemInProgress, itText := ssTranscriptAcc s, itAudioMs := ms\<rparr>"
  obtain c2 it' prev where app: "conv_append c1 it = (c2, it', prev)" by (cases "conv_append c1 it") auto
  note r = reserve_ref [OF assms rr]
  have itref: "itRef it = ref" by (simp add: it_def)
  note k = conv_append_keeps [OF r(4) _ app, unfolded itref, OF r(3)]
  have "sess_inv (s\<lparr>ssConv := c1, ssSpeechItem := 0\<rparr>)" using r(1)
    by (auto simp: sess_inv_def active_ok_def split: option.splits)
  then have "sess_inv (s\<lparr>ssConv := c1, ssSpeechItem := 0, ssConv := c2\<rparr>)"
    by (rule sess_inv_conv) (use k(1) in simp_all)
  moreover have "pending_ok c2 (Some ref)"
    using k(2,6) r(2) itref by (simp add: pending_ok_def it_def blank_item_def)
  ultimately have "sess_inv (s\<lparr>ssSpeechItem := 0, ssConv := c2, ssPendingItem := Some ref\<rparr>)"
    by (auto simp: sess_inv_def active_ok_def split: option.splits)
  then show ?thesis using rr app by (simp add: add_user_item_def it_def [symmetric] Let_def)
qed

lemma add_user_item_frame [simp]:
  "ssActive (add_user_item w ms s) = ssActive s" "ssTurns (add_user_item w ms s) = ssTurns s"
  "ssCfg (add_user_item w ms s) = ssCfg s" "ssBuffer (add_user_item w ms s) = ssBuffer s"
  "ssDetector (add_user_item w ms s) = ssDetector s" "ssAudioEmitted (add_user_item w ms s) = ssAudioEmitted s"
  "ssNextResp (add_user_item w ms s) = ssNextResp s" "ssPipes (add_user_item w ms s) = ssPipes s"
  by (simp_all add: add_user_item_def Let_def split: prod.splits)

lemma commit_cases:
  assumes "commit w tag s = Some (s', ok)"
  obtains (empty) "s' = emitError w tag ErrCodeBufferEmpty s" "\<not> ok"
    | (committed) b ms where "s' = fst (asr_call w Finalize (add_user_item w ms
            (s\<lparr>ssBuffer := b, ssDetector := map_option Energy_Reset (ssDetector s)\<rparr>)))" "ok"
    | (failed) b ms where "s' = fatal w ErrCodeProviderError CloseProviderError (fst (asr_call w Finalize (add_user_item w ms
            (s\<lparr>ssBuffer := b, ssDetector := map_option Energy_Reset (ssDetector s)\<rparr>))))" "\<not> ok"
proof -
  obtain res b where bc: "buf_commit (ssBuffer s) = Some (res, b)"
    using assms by (cases "buf_commit (ssBuffer s)") (auto simp: commit_def)
  show thesis
  proof (cases res)
    case None
    then show thesis using assms bc empty by (simp add: commit_def)
  next
    case (Some q)
    obtain p startMs endMs where q: "q = (p, startMs, endMs)" by (cases q)
    let ?s1 = "add_user_item w (endMs - startMs)
            (s\<lparr>ssBuffer := b, ssDetector := map_option Energy_Reset (ssDetector s)\<rparr>)"
    obtain s2 err where a: "asr_call w Finalize ?s1 = (s2, err)" by (cases "asr_call w Finalize ?s1")
    have c: "commit w tag s = (case err of
                  Some _ \<Rightarrow> Some (fatal w ErrCodeProviderError CloseProviderError s2, False)
                | None \<Rightarrow> Some (s2, True))"
      using bc Some q a by (simp add: commit_def)
    show thesis using assms c a committed [of "endMs - startMs" b] failed [of "endMs - startMs" b]
      by (cases err) simp_all
  qed
qed

lemma commit_inv:
  assumes "sess_inv s" "commit w tag s = Some (s', ok)"
  shows "sess_inv s'"
  using assms(2)
proof (cases rule: commit_cases)
  case empty
  then show ?thesis using assms(1) by simp
qed (use assms(1) in \<open>simp_all add: add_user_item_inv\<close>)

lemma commit_active: "commit w tag s = Some (s', ok) \<Longrightarrow> ssActive s' = ssActive s"
  by (elim commit_cases) (simp_all add: emitError_def fatal_def asr_call_def)


lemma apply_decision_inv:
  assumes "sess_inv s" "apply_decision w d tag s = Some s'"
  shows "sess_inv s'"
proof -
  define s1 where "s1 = (if ArmEndOfTurnTimer d then armEndOfTurn (eagernessMs s * millisecond) s else s)"
  define s2 where "s2 = (if ArmFinalWaitTimer d then armEndOfTurn (finalWait s1) s1 else s1)"
  have i2: "sess_inv s2" using assms(1) by (simp add: s1_def s2_def)
  obtain s3 where s3: "(if Commit d then do { (s', ok) \<leftarrow> commit w tag s2;
                      Some (if ok \<and> DeferTrigger d then deferTrigger s' else s') } else Some s2) = Some s3"
    and s': "s' = (if Trigger d then (if ssActive s3 \<noteq> None then s3 else createResponse w no_overrides tag s3) else s3)"
    using assms(2) unfolding apply_decision_def s1_def [symmetric] s2_def [symmetric] Let_def by (auto simp: bind_eq_Some_conv)
  have "sess_inv s3"
    using s3 i2 commit_inv [OF i2] deferTrigger_inv by (auto simp: bind_eq_Some_conv split: if_splits)
  then show ?thesis using s' createResponse_inv by auto
qed

lemma Step_inv:
  assumes "sess_inv s" "i \<noteq> responseStarted" "i \<noteq> responseEnded" "Step (ssTurns s) i = (t, d)"
  shows "sess_inv (s\<lparr>ssTurns := t\<rparr>)"
proof -
  have "turn_inv t" "tmResponseActive t = tmResponseActive (ssTurns s)"
    using turn_inv_Step [of "ssTurns s" i] Step_active [OF assms(2,3), of "ssTurns s"] assms(1,4)
    by (simp_all add: sess_inv_def)
  then show ?thesis using assms(1) by (auto simp: sess_inv_def active_ok_def split: option.splits)
qed

lemma step_and_apply_inv:
  assumes "sess_inv s" "i \<noteq> responseStarted" "i \<noteq> responseEnded" "step_and_apply w i tag s = Some s'"
  shows "sess_inv s'"
proof -
  obtain t d where "Step (ssTurns s) i = (t, d)" by (cases "Step (ssTurns s) i")
  then show ?thesis
    using Step_inv [OF assms(1-3)] assms(4) apply_decision_inv by (fastforce simp: step_and_apply_def)
qed

lemma speech_start_inv:
  assumes "sess_inv s" "speech_start w off s = Some s'"
  shows "sess_inv s'"
proof -
  obtain c ref where rr: "(if ssSpeechItem s = 0 then newRef (ssConv s) else (ssConv s, ssSpeechItem s)) = (c, ref)"
    by (cases "if ssSpeechItem s = 0 then newRef (ssConv s) else (ssConv s, ssSpeechItem s)")
  define s1 where "s1 = s\<lparr>ssConv := c, ssSpeechItem := ref\<rparr>"
  obtain startMs b where m: "markSpeechStart (ssBuffer s1) off (vadPrefixMs s1) = (startMs, b)"
    by (cases "markSpeechStart (ssBuffer s1) off (vadPrefixMs s1)")
  define s2 where "s2 = disarmEndOfTurn (s1\<lparr>ssBuffer := b\<rparr>)"
  obtain t d where st: "Step (ssTurns s2) vadSpeechStart = (t, d)" by (cases "Step (ssTurns s2) vadSpeechStart")
  define s4 where "s4 = (if EmitSpeechStarted d then emit w (EvSpeechStarted startMs (ssSpeechItem (s2\<lparr>ssTurns := t\<rparr>))) (s2\<lparr>ssTurns := t\<rparr>) else s2\<lparr>ssTurns := t\<rparr>)"
  define s5 where "s5 = (if Interrupt d then interrupt w ReasonTurnDetected s4 else s4)"
  define s6 where "s6 = (if EmitSpeechStarted d \<and> tmInterruptResponse (ssTurns s5) \<and> ssDeferItem s5 \<noteq> 0
                then dropDeferredTrigger s5 else s5)"
  have "sess_inv s2" using reserve_ref(1) [OF assms(1) rr] by (simp add: s1_def s2_def)
  from Step_inv [OF this _ _ st] have "sess_inv s4" by (simp add: s4_def)
  then have "sess_inv s6" by (simp add: s5_def s6_def interrupt_inv dropDeferredTrigger_inv)
  moreover have "apply_decision w d [] s6 = Some s'"
    using assms(2) unfolding speech_start_def s6_def s5_def s4_def s2_def s1_def Let_def
    by (simp only: rr m [unfolded s1_def] st [unfolded s2_def s1_def] prod.case)
  ultimately show ?thesis by (rule apply_decision_inv)
qed

lemma speech_end_inv:
  assumes "sess_inv s" "speech_end w off s = Some s'"
  shows "sess_inv s'"
proof -
  obtain e b where m: "markSpeechEnd (ssBuffer s) off (vadSilenceMs s) = (e, b)"
    by (cases "markSpeechEnd (ssBuffer s) off (vadSilenceMs s)")
  obtain t d where st: "Step (ssTurns (s\<lparr>ssBuffer := b\<rparr>)) vadSpeechEnd = (t, d)"
    by (cases "Step (ssTurns (s\<lparr>ssBuffer := b\<rparr>)) vadSpeechEnd")
  have "sess_inv (s\<lparr>ssBuffer := b, ssTurns := t\<rparr>)"
    using Step_inv [OF _ _ _ st] assms(1) by simp
  then show ?thesis using assms(2) m st
    by (auto simp: speech_end_def Let_def elim!: apply_decision_inv [rotated] split: if_splits)
qed

lemma vad_events_inv: "sess_inv s \<Longrightarrow> vad_events w evs s = Some s' \<Longrightarrow> sess_inv s'"
proof (induction evs arbitrary: s)
  case (Cons ev evs)
  obtain s1 where s1: "(case veKind ev of SpeechStart \<Rightarrow> speech_start w (OffsetMs ev) s
                 | SpeechEnd \<Rightarrow> speech_end w (OffsetMs ev) s) = Some s1" "vad_events w evs s1 = Some s'"
    using Cons.prems(2) by (auto simp: bind_eq_Some_conv)
  have "sess_inv s1"
    using s1(1) speech_start_inv [OF Cons.prems(1)] speech_end_inv [OF Cons.prems(1)] by (cases "veKind ev") simp_all
  then show ?case using Cons.IH s1(2) by blast
qed simp

lemma handleAudio_inv:
  assumes "sess_inv s" "handleAudio w p s = Some s'"
  shows "sess_inv s'"
proof (cases "buf_append (ssBuffer s) p")
  case (Inl e)
  then show ?thesis using assms by (auto simp: handleAudio_def)
next
  case (Inr b)
  define s1 where "s1 = s\<lparr>ssBuffer := b, ssAsrLog := ssAsrLog s @ [PushAudio p]\<rparr>"
  have s1: "sess_inv s1" using assms(1) by (simp add: s1_def)
  show ?thesis
  proof (cases "wAsr w (length (ssAsrLog s)) \<noteq> None \<or> ssDetector s = None")
    case True
    moreover have "ssDetector s1 = ssDetector s" by (simp add: s1_def)
    ultimately show ?thesis using assms(2) Inr s1
      by (auto simp: handleAudio_def asr_call_def s1_def [symmetric] split: option.splits)
  next
    case False
    then obtain d where d: "ssDetector s = Some d" "wAsr w (length (ssAsrLog s)) = None" by auto
    obtain d' evs where pr: "Process d p = (d', evs)" by (cases "Process d p")
    obtain s2 b' where v: "vad_events w evs (s1\<lparr>ssDetector := Some d'\<rparr>) = Some s2" and s': "s' = s2\<lparr>ssBuffer := b'\<rparr>"
      using assms(2) Inr d pr by (auto simp: handleAudio_def asr_call_def s1_def Let_def bind_eq_Some_conv)
    show ?thesis using vad_events_inv [OF _ v] s1 s' by simp
  qed
qed

section \<open>Transcripts, timers and commands\<close>

lemma resolveDeferredTrigger_inv: "sess_inv s \<Longrightarrow> sess_inv (resolveDeferredTrigger w ref t s)"
  using createResponseAt_inv dropDeferredTrigger_inv by (auto simp: resolveDeferredTrigger_def Let_def)

lemma complete_item_inv:
  assumes "sess_inv s" "ssPendingItem s = Some ref"
  shows "sess_inv (conv_write ref (\<lambda>i. i\<lparr>itText := t, itTranscriptDone := True, itStatus := ItemCompleted\<rparr>)
           (s\<lparr>ssPendingItem := None, ssTranscriptAcc := []\<rparr>))"
proof -
  let ?f = "\<lambda>i :: item. i\<lparr>itText := t, itTranscriptDone := True, itStatus := ItemCompleted\<rparr>"
  have inv: "conv_inv (ssConv s)" using assms(1) by (simp add: sess_inv_def)
  obtain it where it: "conv_get (ssConv s) ref = Some it" "itRole it = RoleUser"
    using assms by (auto simp: sess_inv_def pending_ok_def)
  have get: "conv_get (conv_update (ssConv s) ref ?f) q = (if q = ref then map_option ?f (conv_get (ssConv s) ref) else conv_get (ssConv s) q)" for q
    by (rule conv_store.upd_get [OF inv]) simp
  have "output_ok (ssConv s) q \<Longrightarrow> output_ok (conv_update (ssConv s) ref ?f) q" for q
    using get it by (auto simp: output_ok_def)
  moreover have "conv_inv (conv_update (ssConv s) ref ?f)" by (rule conv_update_inv [OF inv]) simp
  ultimately show ?thesis using assms(1)
    by (auto simp: conv_write_def sess_inv_def active_ok_def pending_ok_def split: option.splits)
qed

lemma completePendingItem_inv:
  assumes "sess_inv s" "ssPendingItem s = Some ref"
  shows "sess_inv (completePendingItem w ref t delta s)"
proof -
  define s1 where "s1 = conv_write ref (\<lambda>i. i\<lparr>itText := t, itTranscriptDone := True, itStatus := ItemCompleted\<rparr>)
                 (s\<lparr>ssPendingItem := None, ssTranscriptAcc := []\<rparr>)"
  define s2 where "s2 = (if transcriptionEnabled s1
                then emit w (EvInputTranscriptDone ref t)
                       (if delta \<noteq> [] then emit w (EvInputTranscriptDelta ref delta) s1 else s1)
                else s1)"
  define s3 where "s3 = (case conv_get (ssConv s2) ref of None \<Rightarrow> s2
                | Some it \<Rightarrow> emit w (EvItemDone (snapshot it)) s2)"
  have "sess_inv s3" using complete_item_inv [OF assms, of t]
    by (simp add: s3_def s2_def s1_def [symmetric] split: option.splits)
  then have "sess_inv (case ssActive s3 of None \<Rightarrow> s3
                | Some r \<Rightarrow> if rAwaiting r \<and> rDependsOn r = ref then startPipeline (stopASRWait s3) else s3)"
    using startPipeline_inv by (auto split: option.splits)
  then show ?thesis unfolding completePendingItem_def
    by (simp add: s1_def [symmetric] s2_def [symmetric] s3_def [symmetric] resolveDeferredTrigger_inv)
qed

lemma handleASR_inv:
  assumes "sess_inv s" "handleASR w ev s = Some s'"
  shows "sess_inv s'"
proof (cases ev)
  case (ASRFinal t)
  have "sess_inv (case ssPendingItem s of
        Some ref \<Rightarrow> completePendingItem w ref (joinTranscript (ssTranscriptAcc s) t) t (s\<lparr>ssPartial := []\<rparr>)
      | None \<Rightarrow> s\<lparr>ssPartial := [], ssTranscriptAcc := joinTranscript (ssTranscriptAcc s) t\<rparr>)"
    using assms(1) completePendingItem_inv [of "s\<lparr>ssPartial := []\<rparr>"] by (auto split: option.splits)
  moreover have "step_and_apply w (asrFinal t) [] (case ssPendingItem s of
        Some ref \<Rightarrow> completePendingItem w ref (joinTranscript (ssTranscriptAcc s) t) t (s\<lparr>ssPartial := []\<rparr>)
      | None \<Rightarrow> s\<lparr>ssPartial := [], ssTranscriptAcc := joinTranscript (ssTranscriptAcc s) t\<rparr>) = Some s'"
    using assms(2) ASRFinal by (cases "ssPendingItem s") (simp_all add: handleASR_def Let_def)
  ultimately show ?thesis using step_and_apply_inv by blast
next
  case ASREndOfTurn
  have "sess_inv (case ssPendingItem s of Some ref \<Rightarrow> completePendingItem w ref (ssTranscriptAcc s) [] s | None \<Rightarrow> s)"
    using assms(1) completePendingItem_inv by (auto split: option.splits)
  moreover have "step_and_apply w asrEndOfTurn []
      (case ssPendingItem s of Some ref \<Rightarrow> completePendingItem w ref (ssTranscriptAcc s) [] s | None \<Rightarrow> s) = Some s'"
    using assms(2) ASREndOfTurn by (simp add: handleASR_def Let_def)
  ultimately show ?thesis using step_and_apply_inv by blast
qed (use assms in \<open>auto simp: handleASR_def\<close>)

lemma handleTranscriptTimeout_inv:
  assumes "sess_inv s" "ssAsrWait s"
  shows "sess_inv (handleTranscriptTimeout w (s\<lparr>ssAsrWait := False\<rparr>))"
proof -
  obtain r where r: "ssActive s = Some r" "rAwaiting r"
    using assms by (cases "ssActive s") (auto simp: sess_inv_def active_ok_def)
  have same: "s\<lparr>ssAsrWait := True\<rparr> = s" using assms(2) by simp
  have wr: "entered (conv_write ref (\<lambda>i. i\<lparr>itText := best\<rparr>) (s\<lparr>ssAsrWait := False\<rparr>))" for ref best
  proof -
    have "(conv_write ref (\<lambda>i. i\<lparr>itText := best\<rparr>) (s\<lparr>ssAsrWait := False\<rparr>))\<lparr>ssAsrWait := True\<rparr> =
          conv_write ref (\<lambda>i. i\<lparr>itText := best\<rparr>) s"
      using assms(2) by (simp add: conv_write_def)
    moreover have "sess_inv (conv_write ref (\<lambda>i. i\<lparr>itText := best\<rparr>) s)" by (rule sess_inv_write [OF assms(1)]) simp_all
    ultimately show ?thesis using r by (auto simp: entered_def conv_write_def)
  qed
  have e: "entered (s\<lparr>ssAsrWait := False\<rparr>)" using r same assms(1) by (simp add: entered_def)
  have "sess_inv (failResponse w code err (s\<lparr>ssAsrWait := False\<rparr>))" for code err
    by (rule failResponse_inv_wait [where b = True]) (use r same assms(1) in simp_all)
  then show ?thesis using r entered_start [OF e] entered_start [OF wr]
    by (simp add: handleTranscriptTimeout_def Let_def conv_write_def split: option.splits)
qed


lemma sess_inv_if: "(P \<Longrightarrow> sess_inv a) \<Longrightarrow> (\<not> P \<Longrightarrow> sess_inv b) \<Longrightarrow> sess_inv (if P then a else b)"
  by simp

lemma handleDeferredTimeout_inv:
  assumes "sess_inv s"
  shows "sess_inv (handleDeferredTimeout w (s\<lparr>ssDeferWait := False\<rparr>))"
proof -
  have drop: "dropDeferredTrigger (s\<lparr>ssDeferWait := False\<rparr>) = dropDeferredTrigger s" by (simp add: dropDeferredTrigger_def)
  have d: "sess_inv (dropDeferredTrigger s)" using assms by (rule dropDeferredTrigger_inv)
  define s2 where "s2 ref best = createResponseAt w no_overrides [] (conv_write ref (\<lambda>i. i\<lparr>itText := best\<rparr>) (dropDeferredTrigger s))"
    for ref best
  have "sess_inv (s2 ref best)" if "ssActive (dropDeferredTrigger s) = None" for ref best
    unfolding s2_def using d that by (intro createResponseAt_inv sess_inv_write) (simp_all add: conv_write_def)
  then have run: "sess_inv (case ssActive (s2 ref best) of None \<Rightarrow> s2 ref best
      | Some r \<Rightarrow> if rAwaiting r then startPipeline (stopASRWait (s2 ref best)) else s2 ref best)"
    if "ssActive (dropDeferredTrigger s) = None" for ref best
    using that startPipeline_inv by (auto split: option.splits)
  show ?thesis unfolding handleDeferredTimeout_def drop Let_def s2_def [symmetric]
    by (intro sess_inv_if d run) simp
qed

lemma clear_audio_inv: "sess_inv s \<Longrightarrow> sess_inv (clear_audio w s)"
  using turn_inv_resetTurn [of "ssTurns s"]
  by (auto simp: clear_audio_def set_turns_def disarmEndOfTurn_def resetTurn_def sess_inv_def active_ok_def split: option.splits)

lemma handleCommand_inv:
  assumes "sess_inv s" "handleCommand w c s = Some s'"
  shows "sess_inv s'"
proof (cases c)
  case (CmdUpdateSession tag p)
  then show ?thesis using assms updateSession_inv by auto
next
  case (CmdCommitAudio tag)
  then have "step_and_apply w clientCommit tag s = Some s'" using assms(2) by simp
  from step_and_apply_inv [OF assms(1) _ _ this] show ?thesis by simp
next
  case (CmdClearAudio tag)
  then show ?thesis using assms clear_audio_inv by auto
next
  case (CmdCreateItem tag spec previous atRoot)
  then show ?thesis using assms createItem_inv by auto
next
  case (CmdDeleteItem tag ref)
  then show ?thesis using assms deleteItem_inv [OF assms(1), of w ref tag] by auto
next
  case (CmdTruncateItem tag ref ci ms)
  then show ?thesis using assms truncateItem_inv by auto
next
  case (CmdCreateResponse tag ov)
  then show ?thesis using assms createResponse_inv by (auto simp: no_decision_def split: if_splits)
next
  case (CmdCancelResponse tag ref)
  then show ?thesis using assms interrupt_inv by (auto split: option.splits)
next
  case (CmdClose tag reason)
  then show ?thesis using assms by auto
qed

section \<open>Reachable states\<close>

text \<open>An input the actor's select can offer: timers fire while armed, and a pipeline event carries the
  stamp and the response of a pipeline that was started.\<close>

fun pipe_resp :: "PipeEvent \<Rightarrow> ResponseRef option" where
  "pipe_resp (PipeTextDelta g resp _) = Some resp"
| "pipe_resp (PipeAudioTranscriptDelta g resp _) = Some resp"
| "pipe_resp (PipeAudioDelta g resp _) = Some resp"
| "pipe_resp _ = None"

definition from_pipeline :: "PipeEvent \<Rightarrow> pipeline_start \<Rightarrow> bool" where
  "from_pipeline ev p \<longleftrightarrow> generation ev = psGen p \<and> (case pipe_resp ev of None \<Rightarrow> True | Some ref \<Rightarrow> ref = psResp p)"

definition offered :: "session \<Rightarrow> Input \<Rightarrow> bool" where
  "offered s i \<longleftrightarrow> ssClosed s = None \<and>
     (case i of
        InPipe ev \<Rightarrow> (\<exists>p \<in> set (ssPipes s). from_pipeline ev p)
      | InAsrWait \<Rightarrow> ssAsrWait s
      | InEot \<Rightarrow> ssEot s \<noteq> None
      | InDeferWait \<Rightarrow> ssDeferWait s
      | _ \<Rightarrow> True)"

inductive sess_reach :: "world \<Rightarrow> session \<Rightarrow> session \<Rightarrow> bool" for w where
  reach_refl: "sess_reach w s s"
| reach_step: "sess_reach w s s1 \<Longrightarrow> offered s1 i \<Longrightarrow> handle w i s1 = Some s2 \<Longrightarrow> sess_reach w s s2"

lemma handle_inv:
  assumes "sess_inv s" "offered s i" "handle w i s = Some s'"
  shows "sess_inv s'"
proof (cases i)
  case (InCommand c)
  then show ?thesis using assms handleCommand_inv by (auto simp: handle_def)
next
  case (InAudio p)
  then show ?thesis using assms handleAudio_inv by (auto simp: handle_def)
next
  case (InASR ev)
  then show ?thesis using assms handleASR_inv by (auto simp: handle_def)
next
  case (InPipe ev)
  then show ?thesis using assms handleResponseEvent_inv by (auto simp: handle_def)
next
  case InAsrWait
  then show ?thesis using assms handleTranscriptTimeout_inv by (auto simp: handle_def offered_def)
next
  case InEot
  then show ?thesis using assms step_and_apply_inv [of "s\<lparr>ssEot := None\<rparr>"] by (auto simp: handle_def)
next
  case InDeferWait
  then show ?thesis using assms handleDeferredTimeout_inv by (auto simp: handle_def)
qed

lemma New_inv:
  assumes "session_ok (ssCfg (New opts))"
  shows "sess_inv (New opts)"
  using assms newConversation_inv turn_inv_active [OF turn_inv_new]
  by (simp add: New_def Let_def applyTurnDetection_def disarmEndOfTurn_def sess_inv_def pending_ok_def idle_pipes_def)

lemma reach_inv: "sess_reach w s s' \<Longrightarrow> sess_inv s \<Longrightarrow> sess_inv s'"
  by (induction rule: sess_reach.induct) (auto intro: handle_inv)

end
