(* ===== verification/SessionLog.thy ===== *)
theory SessionLog
  imports SessionInv "HOL-Library.Sublist"
begin

text \<open>
  The outbound stream of a session as a language. \<open>life\<close> is what a client must be able to assume of
  the responses it is told about: they come one after another with consecutive references, every
  output item is announced before anything is said about it and is closed before its response is.
  Every handler extends the sequence of sent events within this language, and the automaton's state
  is a function of the actor's.
\<close>

section \<open>The response protocol\<close>

text \<open>No response is open (the last one had this reference), or one is, with the items it has open and
  whether it has already called a tool.\<close>

datatype life = LIdle ResponseRef | LOpen ResponseRef "ItemRef list" bool

definition about_item :: "life \<Rightarrow> ResponseRef \<Rightarrow> ItemRef \<Rightarrow> life option" where
  "about_item l r i = (case l of LOpen r' xs b \<Rightarrow> if r' = r \<and> i \<in> set xs then Some l else None | LIdle _ \<Rightarrow> None)"

fun life_step :: "life \<Rightarrow> Event \<Rightarrow> life option" where
  "life_step (LIdle n) (EvResponseCreated r _ _ _ _) = (if r = n + 1 then Some (LOpen r [] False) else None)"
| "life_step (LOpen n xs b) (EvResponseCreated r _ _ _ _) = None"
| "life_step (LOpen n xs b) (EvOutputItemAdded r it _) =
     (if r = n \<and> itRef it \<notin> set xs then Some (LOpen n (itRef it # xs) b) else None)"
| "life_step (LIdle n) (EvOutputItemAdded r it _) = None"
| "life_step (LOpen n xs b) (EvOutputItemDone r it) =
     (if r = n \<and> itRef it \<in> set xs then Some (LOpen n (filter (\<lambda>x. x \<noteq> itRef it) xs) b) else None)"
| "life_step (LIdle n) (EvOutputItemDone r it) = None"
| "life_step (LOpen n xs b) (EvResponseDone r _ _ _ _ _ _) = (if r = n \<and> xs = [] then Some (LIdle n) else None)"
| "life_step (LIdle n) (EvResponseDone r _ _ _ _ _ _) = None"
| "life_step l (EvOutputTextDelta r i _) = about_item l r i"
| "life_step l (EvOutputAudioTranscriptDelta r i _) = about_item l r i"
| "life_step l (EvOutputAudioDelta r i _) = about_item l r i"
| "life_step (LOpen n xs b) (EvToolCallArguments r i _) =
     (if r = n \<and> i \<in> set xs \<and> \<not> b then Some (LOpen n xs True) else None)"
| "life_step (LIdle n) (EvToolCallArguments r i _) = None"
| "life_step l (EvOutputTextDone r i _) = about_item l r i"
| "life_step l (EvOutputAudioTranscriptDone r i _) = about_item l r i"
| "life_step l (EvOutputAudioDone r i) = about_item l r i"
| "life_step l _ = Some l"

fun run_life :: "life \<Rightarrow> Event list \<Rightarrow> life option" where
  "run_life l [] = Some l"
| "run_life l (ev # evs) = Option.bind (life_step l ev) (\<lambda>l'. run_life l' evs)"

lemma run_life_append: "run_life l (xs @ ys) = Option.bind (run_life l xs) (\<lambda>l'. run_life l' ys)"
proof (induction xs arbitrary: l)
  case (Cons x xs)
  then show ?case by (cases "life_step l x") auto
qed simp

lemma life_step_neutral: "event_resp ev = None \<Longrightarrow> life_step l ev = Some l"
  by (cases ev; cases l) auto

section \<open>The log of a session\<close>

text \<open>What reaches the client: some of what was sent, and all of it while the session is open.\<close>

definition delivered :: "session \<Rightarrow> bool" where
  "delivered s \<longleftrightarrow> subseq (ssEvents s) (ssTried s) \<and> (ssClosed s = None \<longrightarrow> ssEvents s = ssTried s)"

definition life_at :: "session \<Rightarrow> life \<Rightarrow> bool" where
  "life_at s l \<longleftrightarrow> run_life (LIdle 0) (ssTried s) = Some l \<and> delivered s"

definition life_of :: "session \<Rightarrow> life" where
  "life_of s = (case ssActive s of None \<Rightarrow> LIdle (ssNextResp s)
     | Some r \<Rightarrow> LOpen (rRef r) (if rItem r = 0 then [] else [rItem r]) (rToolItem r \<noteq> 0))"

definition logged :: "session \<Rightarrow> bool" where
  "logged s \<longleftrightarrow> life_at s (life_of s)"

lemma delivered_emit: "delivered s \<Longrightarrow> delivered (emit w ev s)"
  by (auto simp: delivered_def emit_def cancel_ctx_def Let_def list_emb_append_mono split: option.splits
      intro: list_emb_append2)

lemma life_at_emit: "life_at s l \<Longrightarrow> life_step l ev = Some l' \<Longrightarrow> life_at (emit w ev s) l'"
  by (simp add: life_at_def run_life_append delivered_emit)

lemma delivered_cong:
  "ssTried s' = ssTried s \<Longrightarrow> ssEvents s' = ssEvents s \<Longrightarrow> ssClosed s' = ssClosed s \<Longrightarrow> delivered s' = delivered s"
  by (simp add: delivered_def)

lemma life_at_cong:
  "life_at s l \<Longrightarrow> ssTried s' = ssTried s \<Longrightarrow> ssEvents s' = ssEvents s \<Longrightarrow> ssClosed s' = ssClosed s \<Longrightarrow> life_at s' l"
  by (simp add: life_at_def delivered_def)

lemma life_of_emit [simp]: "life_of (emit w ev s) = life_of s"
  by (simp add: life_of_def split: option.split)

lemma logged_emit: "event_resp ev = None \<Longrightarrow> logged s \<Longrightarrow> logged (emit w ev s)"
  unfolding logged_def life_of_emit by (rule life_at_emit) (simp_all add: life_step_neutral)

lemma logged_frame [simp]:
  "logged (s\<lparr>ssEot := e\<rparr>) = logged s" "logged (s\<lparr>ssBuffer := b\<rparr>) = logged s"
  "logged (s\<lparr>ssDetector := d\<rparr>) = logged s" "logged (s\<lparr>ssPartial := t\<rparr>) = logged s"
  "logged (s\<lparr>ssTranscriptAcc := t\<rparr>) = logged s" "logged (s\<lparr>ssAsrLog := l\<rparr>) = logged s"
  "logged (s\<lparr>ssAudioEmitted := a\<rparr>) = logged s" "logged (s\<lparr>ssConv := c'\<rparr>) = logged s"
  "logged (s\<lparr>ssTurns := tm\<rparr>) = logged s" "logged (s\<lparr>ssCfg := cfg\<rparr>) = logged s"
  "logged (s\<lparr>ssSpeechItem := i\<rparr>) = logged s" "logged (s\<lparr>ssPendingItem := p\<rparr>) = logged s"
  "logged (s\<lparr>ssAsrWait := b1\<rparr>) = logged s" "logged (s\<lparr>ssDeferWait := b2\<rparr>) = logged s"
  "logged (s\<lparr>ssDeferItem := di\<rparr>) = logged s" "logged (s\<lparr>ssPipes := ps\<rparr>) = logged s"
  "logged (s\<lparr>ssActiveGen := g\<rparr>) = logged s" "logged (s\<lparr>ssCancelled := cs\<rparr>) = logged s"
  by (simp_all add: logged_def life_at_def delivered_def life_of_def cong: option.case_cong)

lemma logged_cancel: "logged s \<Longrightarrow> logged (cancel_ctx c s)"
  by (auto simp: cancel_ctx_def logged_def life_at_def delivered_def life_of_def split: option.splits)

lemma logged_error:
  "logged s \<Longrightarrow> logged (emitError w tag code s)" "logged s \<Longrightarrow> logged (emitParamError w tag code p s)"
  "logged s \<Longrightarrow> logged (fatal w code c s)"
  by (simp_all add: emitError_def emitParamError_def fatal_def logged_emit logged_cancel)

lemma logged_ops [simp]:
  "logged (conv_write r f s) = logged s" "logged (set_turns g s) = logged s" "logged (stopASRWait s) = logged s"
  "logged (disarmEndOfTurn s) = logged s" "logged (armEndOfTurn d s) = logged s"
  "logged (dropDeferredTrigger s) = logged s" "logged (fst (asr_call w call s)) = logged s"
  by (simp_all add: conv_write_def set_turns_def stopASRWait_def disarmEndOfTurn_def armEndOfTurn_def
      dropDeferredTrigger_def asr_call_def)

lemma logged_active:
  "(\<And>r. rRef (f r) = rRef r) \<Longrightarrow> (\<And>r. rItem (f r) = rItem r) \<Longrightarrow> (\<And>r. rToolItem (f r) = rToolItem r) \<Longrightarrow> logged (upd_active f s) = logged s"
  by (simp add: logged_def life_at_def delivered_def life_of_def upd_active_def split: option.splits)

lemma logged_start [simp]: "logged (startPipeline s) = logged s"
  by (simp add: startPipeline_def logged_def life_at_def delivered_def life_of_def Let_def split: option.splits)

lemma logged_deferTrigger [simp]: "logged (deferTrigger s) = logged s"
  by (simp add: deferTrigger_def split: option.splits)

lemma logged_applyTurnDetection [simp]: "logged (applyTurnDetection s) = logged s"
  by (simp add: applyTurnDetection_def Let_def)

section \<open>Responses\<close>

lemma createResponseAt_logged:
  assumes "logged s" "ssActive s = None"
  shows "logged (createResponseAt w ov tag s)"
proof -
  have "logged (begin_response w ov tag probe s)" for probe
  proof -
    let ?r = "new_response ov tag probe s"
    let ?ev = "EvResponseCreated (rRef ?r) (sdOutputModalities probe) (rVoice ?r) (sdMaxOutputTokens probe) (ovMetadata ov)"
    let ?s = "s\<lparr>ssNextResp := ssNextResp s + 1, ssActive := Some ?r\<rparr>"
    have "life_at ?s (LIdle (ssNextResp s))" using assms by (simp add: logged_def life_at_def delivered_def life_of_def)
    from life_at_emit [OF this, of ?ev "life_of (emit w ?ev ?s)" w] have "logged (emit w ?ev ?s)"
      by (simp add: logged_def life_of_def new_response_def)
    then show ?thesis by (simp add: begin_response_def Let_def)
  qed
  then show ?thesis using assms(1) logged_error
    by (auto simp: createResponseAt_def Let_def logged_active split: option.splits)
qed

lemma createResponse_logged: "logged s \<Longrightarrow> ssActive s = None \<Longrightarrow> logged (createResponse w ov tag s)"
  by (simp add: createResponse_def createResponseAt_logged)

lemma output_get:
  assumes "sess_inv s" "ssActive s = Some r" "rItem r \<noteq> 0"
  obtains it where "conv_get (ssConv s) (rItem r) = Some it" "itRef it = rItem r"
proof -
  have "conv_inv (ssConv s)" "output_ok (ssConv s) (rItem r)" using assms by (simp_all add: sess_inv_def active_ok_def)
  then show thesis using assms(3) that conv_store.get_mem [of "ssConv s"] by (auto simp: output_ok_def)
qed

lemma finish_item_life:
  assumes "life_at s (LOpen (rRef r) (if rItem r = 0 then [] else [rItem r]) c)"
    "rItem r \<noteq> 0 \<Longrightarrow> \<exists>it. conv_get (ssConv s) (rItem r) = Some it \<and> itRef it = rItem r"
    "conv_inv (ssConv s)" "finish_item w r status s = (s', out)"
  shows "life_at s' (LOpen (rRef r) [] c)"
proof (cases "rItem r = 0")
  case True
  then show ?thesis using assms by (simp add: finish_item_def conv_get_zero)
next
  case False
  then obtain it where it: "conv_get (ssConv s) (rItem r) = Some it" "itRef it = rItem r" using assms(2) by blast
  let ?mark = "\<lambda>i. i\<lparr>itStatus := (if status = ResponseCompleted then ItemCompleted else ItemIncomplete)\<rparr>"
  let ?s1 = "conv_write (rItem r) ?mark s"
  have l1: "life_at ?s1 (LOpen (rRef r) [rItem r] c)"
    using assms(1) False by (auto simp: conv_write_def intro: life_at_cong)
  have close_item: "life_at (emit w (EvOutputItemDone (rRef r) (snapshot (?mark it))) t) (LOpen (rRef r) [] c)"
    if "life_at t (LOpen (rRef r) [rItem r] c)" for t
    using that it(2) by (intro life_at_emit) auto
  show ?thesis
    using assms(4) it l1
    by (auto simp: finish_item_def Let_def about_item_def intro!: close_item life_at_emit split: if_splits)
qed

lemma finish_logged_wait:
  assumes "sess_inv (s\<lparr>ssAsrWait := b\<rparr>)" "logged s"
  shows "logged (finish w status reason err s)"
proof (cases "ssActive s")
  case None
  then show ?thesis using assms by (simp add: finish_def)
next
  case (Some r)
  have act: "active_ok (s\<lparr>ssAsrWait := b\<rparr>) r" "conv_inv (ssConv s)" using assms(1) Some by (simp_all add: sess_inv_def)
  then have nt: "\<not> terminal r" by (simp add: terminal_def active_ok_def)
  obtain s1 out where f: "finish_item w r status (finish_stop r status s) = (s1, out)"
    by (cases "finish_item w r status (finish_stop r status s)")
  have same: "ssTried (finish_stop r status s) = ssTried s" "ssConv (finish_stop r status s) = ssConv s"
      "ssNextResp (finish_stop r status s) = ssNextResp s"
      "ssEvents (finish_stop r status s) = ssEvents s" "ssClosed (finish_stop r status s) = ssClosed s"
    by (simp_all add: finish_stop_def stopASRWait_def upd_active_def)
  have "life_at (finish_stop r status s) (LOpen (rRef r) (if rItem r = 0 then [] else [rItem r]) (rToolItem r \<noteq> 0))"
    using assms(2) Some same(1,4,5) by (simp add: logged_def life_at_def delivered_def life_of_def)
  then have "life_at s1 (LOpen (rRef r) [] (rToolItem r \<noteq> 0))"
    using finish_item_life [OF _ _ _ f] output_get [OF assms(1), of r] Some act(2) same(2) by simp blast
  moreover have "ssNextResp s1 = rRef r" using finish_item_frame(5) [OF f] same(3) act(1) by (simp add: active_ok_def)
  ultimately show ?thesis
    using Some nt f life_at_emit [of s1 "LOpen (rRef r) [] (rToolItem r \<noteq> 0)" _ "LIdle (rRef r)" w]
    by (simp add: finish_def finish_close_def Let_def) (simp add: logged_def life_at_def delivered_def life_of_def)
qed


lemma finish_logged: "sess_inv s \<Longrightarrow> logged s \<Longrightarrow> logged (finish w status reason err s)"
  using finish_logged_wait [where s = s and b = "ssAsrWait s"] by simp

lemma interrupt_logged: "sess_inv s \<Longrightarrow> logged s \<Longrightarrow> logged (interrupt w reason s)"
  by (simp add: interrupt_def finish_logged)

lemma failResponse_logged_wait:
  assumes "sess_inv (s\<lparr>ssAsrWait := b\<rparr>)" "logged s"
  shows "logged (failResponse w code err s)"
proof (cases "ssActive s")
  case (Some r)
  let ?s = "emitError w (rTag r) code (upd_active (\<lambda>r. r\<lparr>rFailCode := Some code\<rparr>) s)"
  have "sess_inv (upd_active (\<lambda>r. r\<lparr>rFailCode := Some code\<rparr>) (s\<lparr>ssAsrWait := b\<rparr>))"
    by (rule sess_inv_active [OF assms(1)]) simp_all
  then have "sess_inv (?s\<lparr>ssAsrWait := b\<rparr>)"
    by (auto simp: emitError_def upd_active_def sess_inv_def active_ok_def Some split: if_splits)
  moreover have "logged ?s" using assms(2) by (simp add: logged_error logged_active)
  ultimately show ?thesis using Some finish_logged_wait by (simp add: failResponse_def)
qed (use assms in \<open>simp add: failResponse_def\<close>)

lemma failResponse_logged: "sess_inv s \<Longrightarrow> logged s \<Longrightarrow> logged (failResponse w code err s)"
  using failResponse_logged_wait [where s = s and b = "ssAsrWait s"] by simp

lemma maybeComplete_logged: "sess_inv s \<Longrightarrow> logged s \<Longrightarrow> logged (maybeComplete w s)"
  using finish_logged by (auto simp: maybeComplete_def split: option.splits)

section \<open>Pipeline events\<close>

lemma ensureOutputItem_logged:
  assumes "sess_inv s" "ssActive s = Some r" "\<not> rAwaiting r" "logged s" "ensureOutputItem w r s = (s', ref)"
  shows "logged s'" "life_of s' = LOpen (rRef r) [ref] (rToolItem r \<noteq> 0)"
proof -
  have post: "ssActive s' = Some (r\<lparr>rItem := ref\<rparr>)" "ref \<noteq> 0" using ensureOutputItem_inv [OF assms(1-3,5)] by auto
  then show l: "life_of s' = LOpen (rRef r) [ref] (rToolItem r \<noteq> 0)" by (simp add: life_of_def)
  have inv: "conv_inv (ssConv s)" using assms(1) by (simp add: sess_inv_def)
  show "logged s'"
  proof (cases "conv_get (ssConv s) (rItem r)")
    case (Some it)
    then show ?thesis using assms(4,5) by (auto simp: ensureOutputItem_def)
  next
    case None
    then have r0: "rItem r = 0" using output_get [OF assms(1,2)] by force
    define it where "it = blank_item\<lparr>itRole := RoleAssistant,
      itContent := (if rTextOnly r then ContentText else ContentAudio), itStatus := ItemInProgress, itTranscriptDone := True\<rparr>"
    obtain c it' p where app: "conv_append (ssConv s) it = (c, it', p)" by (cases "conv_append (ssConv s) it") auto
    let ?s1 = "upd_active (\<lambda>r. r\<lparr>rItem := itRef it'\<rparr>) (s\<lparr>ssConv := c\<rparr>)"
    have s': "s' = emit w (EvOutputItemAdded (rRef r) (snapshot it') p) ?s1" "ref = itRef it'"
      using assms(5) None app by (auto simp: ensureOutputItem_def it_def [symmetric] Let_def)
    have "life_at ?s1 (LOpen (rRef r) [] (rToolItem r \<noteq> 0))"
      using assms(2,4) r0 by (simp add: logged_def life_of_def life_at_def delivered_def upd_active_def)
    then have "life_at s' (LOpen (rRef r) [ref] (rToolItem r \<noteq> 0))" unfolding s' by (rule life_at_emit) simp
    then show ?thesis using l by (simp add: logged_def)
  qed
qed

lemma noteFirstText_logged [simp]: "logged (noteFirstText s) = logged s" "life_of (noteFirstText s) = life_of s"
  by (simp_all add: noteFirstText_def logged_active)
     (simp add: life_of_def upd_active_def split: option.split)

lemma life_of_write [simp]: "life_of (conv_write r f s) = life_of s" "life_of (s\<lparr>ssAudioEmitted := a\<rparr>) = life_of s"
  by (simp_all add: life_of_def conv_write_def cong: option.case_cong)

lemma delta_logged:
  assumes "logged s" "life_of s = LOpen ref [i] c" "life_step (LOpen ref [i] c) ev = Some (LOpen ref [i] c)"
  shows "logged (emit w ev s)"
  using assms life_at_emit [of s "LOpen ref [i] c" ev "LOpen ref [i] c" w] by (simp add: logged_def)

lemma deliverToolCall_logged:
  assumes "sess_inv s" "ssActive s = Some r" "logged s"
  shows "logged (deliverToolCall w r call s)"
proof (cases "rToolItem r = 0")
  case True
  define it where "it = blank_item\<lparr>itContent := ContentToolCall, itStatus := ItemInProgress, itName := callName call,
    itCallID := callID call, itText := callArguments call, itTranscriptDone := True\<rparr>"
  obtain c it' p where app: "conv_append (ssConv s) it = (c, it', p)" by (cases "conv_append (ssConv s) it") auto
  have inv: "conv_inv (ssConv s)" using assms(1) by (simp add: sess_inv_def)
  have "conv_get (ssConv s) (itRef it') = None"
    using conv_append_eq [OF inv _ app] by (auto simp: it_def conv_get_def)
  moreover have nz: "itRef it' \<noteq> 0" using conv_append_eq [OF inv _ app] by (auto simp: it_def)
  ultimately have fresh: "rItem r \<noteq> 0 \<Longrightarrow> rItem r \<noteq> itRef it'" using output_get [OF assms(1,2)] by force
  let ?xs = "if rItem r = 0 then [] else [rItem r]"
  let ?s1 = "upd_active (\<lambda>r. r\<lparr>rToolItem := itRef it'\<rparr>) (s\<lparr>ssConv := c\<rparr>)"
  let ?s2 = "emit w (EvOutputItemAdded (rRef r) (snapshot it') p) ?s1"
  let ?s3 = "emit w (EvToolCallArguments (rRef r) (itRef it') (callArguments call)) ?s2"
  let ?s4 = "conv_write (itRef it') (\<lambda>i. i\<lparr>itStatus := ItemCompleted\<rparr>) ?s3"
  let ?s5 = "emit w (EvOutputItemDone (rRef r) (snapshot (it'\<lparr>itStatus := ItemCompleted\<rparr>))) ?s4"
  have eq: "deliverToolCall w r call s = ?s5"
    using True app by (simp add: deliverToolCall_def it_def [symmetric] Let_def)
  have "life_at ?s1 (LOpen (rRef r) ?xs False)"
    using assms(2,3) True by (simp add: logged_def life_of_def life_at_def delivered_def upd_active_def)
  then have "life_at ?s2 (LOpen (rRef r) (itRef it' # ?xs) False)" by (rule life_at_emit) (use fresh in auto)
  then have "life_at ?s3 (LOpen (rRef r) (itRef it' # ?xs) True)" by (rule life_at_emit) (simp add: about_item_def)
  then have "life_at ?s4 (LOpen (rRef r) (itRef it' # ?xs) True)" by (rule life_at_cong) (simp_all add: conv_write_def)
  then have "life_at ?s5 (LOpen (rRef r) ?xs True)" by (rule life_at_emit) (use fresh in auto)
  moreover have "life_of ?s5 = life_of ?s1" by simp
  moreover have "life_of ?s1 = LOpen (rRef r) ?xs True" using assms(2) nz by (simp add: life_of_def upd_active_def)
  ultimately show ?thesis unfolding eq logged_def by simp
qed (use assms in \<open>simp add: deliverToolCall_def\<close>)

lemma pipe_event_logged:
  assumes "sess_inv s" "ssActive s = Some r" "\<not> rAwaiting r" "logged s"
    "\<And>ref. pipe_resp ev = Some ref \<Longrightarrow> ref = rRef r"
  shows "logged (pipe_event w r ev s)"
proof (cases ev)
  case (PipeTextDelta g resp delta)
  then show ?thesis using ensureOutputItem_logged [OF assms(1-4)] assms(5)
    by (auto intro!: delta_logged simp: about_item_def split: prod.splits)
next
  case (PipeAudioTranscriptDelta g resp delta)
  then show ?thesis using ensureOutputItem_logged [OF assms(1-4)] assms(5)
    by (auto intro!: delta_logged simp: about_item_def split: prod.splits)
next
  case (PipeAudioDelta g resp p)
  then show ?thesis using ensureOutputItem_logged [OF assms(1-4)] assms(5)
    by (auto intro!: delta_logged simp: about_item_def Let_def split: prod.splits)
next
  case (PipeLLMDone g fin usage)
  then show ?thesis using assms by (simp add: maybeComplete_logged sess_inv_active logged_active)
next
  case (PipeTTSDone g)
  then show ?thesis using assms by (simp add: maybeComplete_logged sess_inv_active logged_active)
qed (use assms in \<open>simp_all add: deliverToolCall_logged failResponse_logged\<close>)

text \<open>An event that passes the generation check was produced for the active response.\<close>

lemma accepted_pipeline:
  assumes "sess_inv s" "ssActive s = Some r" "\<not> rAwaiting r" "p \<in> set (ssPipes s)" "psGen p = ssActiveGen s"
  shows "psResp p = rRef r"
proof -
  have "running_pipes (ssPipes s) (ssCancelled s) (ssActiveGen s) (rRef r)"
    using assms(1-3) by (auto simp: sess_inv_def active_ok_def)
  then show ?thesis using assms(4,5) by (fastforce simp: running_pipes_def idle_pipes_def)
qed

lemma handleResponseEvent_logged:
  assumes "sess_inv s" "logged s" "p \<in> set (ssPipes s)" "from_pipeline ev p"
  shows "logged (handleResponseEvent w ev s)"
proof (cases "ssActive s")
  case (Some r)
  show ?thesis
  proof (cases "rAwaiting r \<or> generation ev \<noteq> ssActiveGen s")
    case False
    then have "psResp p = rRef r" using accepted_pipeline [OF assms(1) Some _ assms(3)] assms(4) by (simp add: from_pipeline_def)
    then have "pipe_resp ev = Some ref \<Longrightarrow> ref = rRef r" for ref using assms(4) by (simp add: from_pipeline_def)
    then show ?thesis using False Some pipe_event_logged [OF assms(1) Some _ assms(2)] by (simp add: handleResponseEvent_def)
  qed (use assms Some in \<open>simp add: handleResponseEvent_def\<close>)
qed (use assms in \<open>simp add: handleResponseEvent_def\<close>)


section \<open>Turns, transcripts and commands\<close>

lemma add_user_item_logged: "logged s \<Longrightarrow> logged (add_user_item w ms s)"
  by (simp add: add_user_item_def Let_def logged_emit split: prod.splits)

lemma commit_logged:
  assumes "logged s" "commit w tag s = Some (s', ok)"
  shows "logged s'"
  using assms(2)
proof (cases rule: commit_cases)
  case empty
  then show ?thesis using assms(1) by (simp add: logged_error)
qed (use assms(1) in \<open>simp_all add: add_user_item_logged logged_error\<close>)

lemma apply_decision_logged:
  assumes "logged s" "apply_decision w d tag s = Some s'"
  shows "logged s'"
proof -
  define s1 where "s1 = (if ArmEndOfTurnTimer d then armEndOfTurn (eagernessMs s * millisecond) s else s)"
  define s2 where "s2 = (if ArmFinalWaitTimer d then armEndOfTurn (finalWait s1) s1 else s1)"
  have i2: "logged s2" using assms(1) by (simp add: s1_def s2_def)
  obtain s3 where s3: "(if Commit d then do { (s', ok) \<leftarrow> commit w tag s2;
                      Some (if ok \<and> DeferTrigger d then deferTrigger s' else s') } else Some s2) = Some s3"
    and s': "s' = (if Trigger d then (if ssActive s3 \<noteq> None then s3 else createResponse w no_overrides tag s3) else s3)"
    using assms(2) unfolding apply_decision_def s1_def [symmetric] s2_def [symmetric] Let_def by (auto simp: bind_eq_Some_conv)
  have "logged s3"
    using s3 i2 commit_logged [OF i2] by (auto simp: bind_eq_Some_conv split: if_splits)
  then show ?thesis using s' createResponse_logged by auto
qed

lemma step_and_apply_logged: "logged s \<Longrightarrow> step_and_apply w i tag s = Some s' \<Longrightarrow> logged s'"
  by (cases "Step (ssTurns s) i") (simp add: step_and_apply_def apply_decision_logged [of "s\<lparr>ssTurns := t\<rparr>" for t])

lemma logged_if: "(P \<Longrightarrow> logged a) \<Longrightarrow> (\<not> P \<Longrightarrow> logged b) \<Longrightarrow> logged (if P then a else b)"
  by simp

lemma speech_start_logged:
  assumes "sess_inv s" "logged s" "speech_start w off s = Some s'"
  shows "logged s'"
proof -
  obtain c ref where rr: "(if ssSpeechItem s = 0 then newRef (ssConv s) else (ssConv s, ssSpeechItem s)) = (c, ref)"
    by (cases "if ssSpeechItem s = 0 then newRef (ssConv s) else (ssConv s, ssSpeechItem s)")
  define s1 where "s1 = s\<lparr>ssConv := c, ssSpeechItem := ref\<rparr>"
  obtain startMs b where m: "markSpeechStart (ssBuffer s1) off (vadPrefixMs s1) = (startMs, b)"
    by (cases "markSpeechStart (ssBuffer s1) off (vadPrefixMs s1)")
  define s2 where "s2 = disarmEndOfTurn (s1\<lparr>ssBuffer := b\<rparr>)"
  obtain t d where st: "Step (ssTurns s2) vadSpeechStart = (t, d)" by (cases "Step (ssTurns s2) vadSpeechStart")
  define s4 where "s4 = (if EmitSpeechStarted d then emit w (EvSpeechStarted startMs (ssSpeechItem (s2\<lparr>ssTurns := t\<rparr>))) (s2\<lparr>ssTurns := t\<rparr>) else s2\<lparr>ssTurns := t\<rparr>)"
  define s5 where "s5 = (if Interrupt d then interrupt w ReasonTurnDetected s4 else s4)"
  define s6 where "s6 = (if EmitSpeechStarted d \<and> tmInterruptResponse (ssTurns s5) \<and> ssDeferItem s5 \<noteq> 0
                then dropDeferredTrigger s5 else s5)"
  have i2: "sess_inv s2" using reserve_ref(1) [OF assms(1) rr] by (simp add: s1_def s2_def)
  have i4: "sess_inv s4" using Step_inv [OF i2 _ _ st] by (simp add: s4_def)
  have "logged s2" using assms(2) by (simp add: s1_def s2_def)
  then have "logged s4" by (simp add: s4_def logged_emit)
  then have "logged s6" using i4 by (simp add: s5_def s6_def interrupt_logged)
  moreover have "apply_decision w d [] s6 = Some s'"
    using assms(3) unfolding speech_start_def s6_def s5_def s4_def s2_def s1_def Let_def
    by (simp only: rr m [unfolded s1_def] st [unfolded s2_def s1_def] prod.case)
  ultimately show ?thesis by (rule apply_decision_logged)
qed

lemma speech_end_logged:
  assumes "logged s" "speech_end w off s = Some s'"
  shows "logged s'"
proof -
  obtain e b where m: "markSpeechEnd (ssBuffer s) off (vadSilenceMs s) = (e, b)"
    by (cases "markSpeechEnd (ssBuffer s) off (vadSilenceMs s)")
  obtain t d where st: "Step (ssTurns (s\<lparr>ssBuffer := b\<rparr>)) vadSpeechEnd = (t, d)"
    by (cases "Step (ssTurns (s\<lparr>ssBuffer := b\<rparr>)) vadSpeechEnd")
  have "logged (s\<lparr>ssBuffer := b, ssTurns := t\<rparr>)" using assms(1) by simp
  then show ?thesis using assms(2) m st
    by (auto simp: speech_end_def Let_def logged_emit elim!: apply_decision_logged [rotated] split: if_splits)
qed

lemma vad_events_logged: "sess_inv s \<Longrightarrow> logged s \<Longrightarrow> vad_events w evs s = Some s' \<Longrightarrow> logged s'"
proof (induction evs arbitrary: s)
  case (Cons ev evs)
  obtain s1 where s1: "(case veKind ev of SpeechStart \<Rightarrow> speech_start w (OffsetMs ev) s
                 | SpeechEnd \<Rightarrow> speech_end w (OffsetMs ev) s) = Some s1" "vad_events w evs s1 = Some s'"
    using Cons.prems(3) by (auto simp: bind_eq_Some_conv)
  have "sess_inv s1"
    using s1(1) speech_start_inv [OF Cons.prems(1)] speech_end_inv [OF Cons.prems(1)] by (cases "veKind ev") simp_all
  moreover have "logged s1"
    using s1(1) speech_start_logged [OF Cons.prems(1,2)] speech_end_logged [OF Cons.prems(2)] by (cases "veKind ev") simp_all
  ultimately show ?case using Cons.IH s1(2) by blast
qed simp

lemma handleAudio_logged:
  assumes "sess_inv s" "logged s" "handleAudio w p s = Some s'"
  shows "logged s'"
proof (cases "buf_append (ssBuffer s) p")
  case (Inl e)
  then show ?thesis using assms by (auto simp: handleAudio_def logged_error)
next
  case (Inr b)
  define s1 where "s1 = s\<lparr>ssBuffer := b, ssAsrLog := ssAsrLog s @ [PushAudio p]\<rparr>"
  have s1: "sess_inv s1" "logged s1" using assms(1,2) by (simp_all add: s1_def)
  show ?thesis
  proof (cases "wAsr w (length (ssAsrLog s)) \<noteq> None \<or> ssDetector s = None")
    case True
    moreover have "ssDetector s1 = ssDetector s" by (simp add: s1_def)
    ultimately show ?thesis using assms(3) Inr s1
      by (auto simp: handleAudio_def asr_call_def s1_def [symmetric] logged_error split: option.splits)
  next
    case False
    then obtain d where d: "ssDetector s = Some d" "wAsr w (length (ssAsrLog s)) = None" by auto
    obtain d' evs where pr: "Process d p = (d', evs)" by (cases "Process d p")
    obtain s2 b' where v: "vad_events w evs (s1\<lparr>ssDetector := Some d'\<rparr>) = Some s2" and s': "s' = s2\<lparr>ssBuffer := b'\<rparr>"
      using assms(3) Inr d pr by (auto simp: handleAudio_def asr_call_def s1_def Let_def bind_eq_Some_conv)
    show ?thesis using vad_events_logged [OF _ _ v] s1 s' by simp
  qed
qed

lemma resolveDeferredTrigger_logged: "logged s \<Longrightarrow> logged (resolveDeferredTrigger w ref t s)"
  using createResponseAt_logged by (auto simp: resolveDeferredTrigger_def Let_def)

lemma completePendingItem_logged:
  assumes "logged s"
  shows "logged (completePendingItem w ref t delta s)"
  unfolding completePendingItem_def Let_def
  by (rule resolveDeferredTrigger_logged) (use assms in \<open>simp add: logged_emit split: option.splits\<close>)

lemma handleASR_logged:
  assumes "logged s" "handleASR w ev s = Some s'"
  shows "logged s'"
proof (cases ev)
  case (ASRFinal t)
  have "logged (case ssPendingItem s of
        Some ref \<Rightarrow> completePendingItem w ref (joinTranscript (ssTranscriptAcc s) t) t (s\<lparr>ssPartial := []\<rparr>)
      | None \<Rightarrow> s\<lparr>ssPartial := [], ssTranscriptAcc := joinTranscript (ssTranscriptAcc s) t\<rparr>)"
    using assms(1) by (simp add: completePendingItem_logged split: option.splits)
  moreover have "step_and_apply w (asrFinal t) [] (case ssPendingItem s of
        Some ref \<Rightarrow> completePendingItem w ref (joinTranscript (ssTranscriptAcc s) t) t (s\<lparr>ssPartial := []\<rparr>)
      | None \<Rightarrow> s\<lparr>ssPartial := [], ssTranscriptAcc := joinTranscript (ssTranscriptAcc s) t\<rparr>) = Some s'"
    using assms(2) ASRFinal by (cases "ssPendingItem s") (simp_all add: handleASR_def Let_def)
  ultimately show ?thesis by (rule step_and_apply_logged)
next
  case ASREndOfTurn
  have "logged (case ssPendingItem s of Some ref \<Rightarrow> completePendingItem w ref (ssTranscriptAcc s) [] s | None \<Rightarrow> s)"
    using assms(1) by (simp add: completePendingItem_logged split: option.splits)
  moreover have "step_and_apply w asrEndOfTurn []
      (case ssPendingItem s of Some ref \<Rightarrow> completePendingItem w ref (ssTranscriptAcc s) [] s | None \<Rightarrow> s) = Some s'"
    using assms(2) ASREndOfTurn by (simp add: handleASR_def Let_def)
  ultimately show ?thesis by (rule step_and_apply_logged)
qed (use assms in \<open>auto simp: handleASR_def logged_error\<close>)

lemma handleTranscriptTimeout_logged:
  assumes "sess_inv s" "logged s"
  shows "logged (handleTranscriptTimeout w (s\<lparr>ssAsrWait := False\<rparr>))"
proof -
  have "logged (failResponse w code err (s\<lparr>ssAsrWait := False\<rparr>))" for code err
    by (rule failResponse_logged_wait [where b = "ssAsrWait s"]) (use assms in simp_all)
  then show ?thesis using assms(2) by (simp add: handleTranscriptTimeout_def Let_def split: option.splits)
qed

lemma handleDeferredTimeout_logged:
  assumes "logged s"
  shows "logged (handleDeferredTimeout w (s\<lparr>ssDeferWait := False\<rparr>))"
proof -
  define s2 where "s2 ref best = createResponseAt w no_overrides []
      (conv_write ref (\<lambda>i. i\<lparr>itText := best\<rparr>) (dropDeferredTrigger (s\<lparr>ssDeferWait := False\<rparr>)))" for ref best
  have "logged (s2 ref best)" if "ssActive (dropDeferredTrigger (s\<lparr>ssDeferWait := False\<rparr>)) = None" for ref best
    unfolding s2_def using assms that by (intro createResponseAt_logged) (simp_all add: conv_write_def)
  then have run: "logged (case ssActive (s2 ref best) of None \<Rightarrow> s2 ref best
      | Some r \<Rightarrow> if rAwaiting r then startPipeline (stopASRWait (s2 ref best)) else s2 ref best)"
    if "ssActive (dropDeferredTrigger (s\<lparr>ssDeferWait := False\<rparr>)) = None" for ref best
    using that by (auto split: option.splits)
  have d: "logged (dropDeferredTrigger (s\<lparr>ssDeferWait := False\<rparr>))" using assms by simp
  show ?thesis unfolding handleDeferredTimeout_def Let_def s2_def [symmetric]
    by (intro logged_if d run) simp
qed

lemma newClientItem_logged: "newClientItem w spec tag s = (s1, x) \<Longrightarrow> logged s \<Longrightarrow> logged s1"
  by (auto simp: newClientItem_def newToolOutputItem_def logged_error split: if_splits option.splits)

lemma handleCommand_logged:
  assumes "sess_inv s" "logged s" "handleCommand w c s = Some s'"
  shows "logged s'"
proof (cases c)
  case (CmdUpdateSession tag p)
  then show ?thesis using assms by (auto simp: updateSession_def Let_def logged_emit logged_error split: option.splits)
next
  case (CmdCommitAudio tag)
  then show ?thesis using assms(3) step_and_apply_logged [OF assms(2)] by simp
next
  case (CmdClearAudio tag)
  then show ?thesis using assms by (auto simp: clear_audio_def logged_emit)
next
  case (CmdCreateItem tag spec previous atRoot)
  then show ?thesis using assms newClientItem_logged [of w spec tag s]
    by (auto simp: createItem_def logged_emit logged_error split: prod.splits option.splits)
next
  case (CmdDeleteItem tag ref)
  then show ?thesis using assms
    by (auto simp: deleteItem_def Let_def bind_eq_Some_conv logged_emit logged_error split: if_splits)
next
  case (CmdTruncateItem tag ref ci ms)
  then show ?thesis using assms
    by (auto simp: truncateItem_def Let_def bind_eq_Some_conv logged_emit logged_error split: if_splits option.splits)
next
  case (CmdCreateResponse tag ov)
  then show ?thesis using assms createResponse_logged by (auto simp: logged_error split: if_splits)
next
  case (CmdCancelResponse tag ref)
  then show ?thesis using assms interrupt_logged by (auto simp: logged_error split: option.splits if_splits)
next
  case (CmdClose tag reason)
  then show ?thesis using assms logged_cancel by auto
qed

lemma handle_logged:
  assumes "sess_inv s" "logged s" "offered s i" "handle w i s = Some s'"
  shows "logged s'"
proof (cases i)
  case (InCommand c)
  then show ?thesis using assms handleCommand_logged by (auto simp: handle_def)
next
  case (InAudio p)
  then show ?thesis using assms handleAudio_logged by (auto simp: handle_def)
next
  case (InASR ev)
  then show ?thesis using assms handleASR_logged by (auto simp: handle_def)
next
  case (InPipe ev)
  then show ?thesis using assms handleResponseEvent_logged by (auto simp: handle_def offered_def)
next
  case InAsrWait
  then show ?thesis using assms handleTranscriptTimeout_logged by (auto simp: handle_def)
next
  case InEot
  then show ?thesis using assms step_and_apply_logged [of "s\<lparr>ssEot := None\<rparr>"] by (auto simp: handle_def)
next
  case InDeferWait
  then show ?thesis using assms handleDeferredTimeout_logged by (auto simp: handle_def)
qed

lemma New_logged: "logged (New opts)"
  by (simp add: New_def Let_def) (simp add: logged_def life_at_def delivered_def life_of_def)

lemma reach_logged: "sess_reach w s s' \<Longrightarrow> sess_inv s \<Longrightarrow> logged s \<Longrightarrow> logged s'"
  by (induction rule: sess_reach.induct) (auto intro: handle_logged reach_inv)

end
