(* ===== verification/SessionProps.thy ===== *)
theory SessionProps
  imports SessionLog
begin

text \<open>
  The properties of the session actor, over every state it can reach from \<open>New\<close> with a valid
  configuration, for every behaviour of the world, together with a concrete session that the
  witnesses run.
\<close>

section \<open>A concrete session\<close>

definition calm :: world where
  "calm = \<lparr>wAsr = (\<lambda>_. None), wCancel = (\<lambda>_. None), wSend = (\<lambda>_. True)\<rparr>"

definition plain_session :: SessionDefaults where
  "plain_session =
     \<lparr>sdInstructions = ''Be brief.'', sdOutputModalities = [ModalityAudio],
      sdAudioInput = \<lparr>aiFormat = pcm24k, aiTranscription = None, aiTurnDetection = None\<rparr>,
      sdAudioOutput = \<lparr>aoFormat = pcm24k, aoVoice = ''alloy'', aoSpeed = 1\<rparr>,
      sdMaxOutputTokens = \<lparr>motInf = True, motN = 0\<rparr>, sdTools = [],
      sdToolChoice = \<lparr>tcMode = ''auto'', tcName = []\<rparr>\<rparr>"

definition plain_limits :: Limits where
  "plain_limits =
     \<lparr>limMaxSessions = 10, limSessionTimeout = 3600000000000, limInputAudioQueueFrames = 64,
      limInputAudioBufferMaxMs = 60000, limASRFinalTimeout = 2000000000, limOutputEventQueue = 64,
      limClientWriteTimeout = 5000000000, limClientMaxMessageBytes = 1000000\<rparr>"

definition plain_options :: Options where
  "plain_options = \<lparr>opSession = plain_session, opLimits = plain_limits, opASRLanguage = ''en'',
     opASRModel = [], opTemperature = None\<rparr>"

lemma plain_ok: "session_ok (ssCfg (New plain_options))"
  by (simp add: New_def plain_options_def plain_session_def applyTurnDetection_def disarmEndOfTurn_def
      session_ok_def modalities_ok_def tool_choice_ok_def tokens_ok_def Let_def)

text \<open>The session after the client asked for a response, and after it cancelled it.\<close>

definition asked :: session where
  "asked = the (handle calm (InCommand (CmdCreateResponse ''e1'' no_overrides)) (New plain_options))"

definition cancelled :: session where
  "cancelled = the (handle calm (InCommand (CmdCancelResponse ''e2'' 0)) asked)"

lemma New_fields [simp]:
  "ssActive (New opts) = None" "ssClosed (New opts) = None" "ssPendingItem (New opts) = None"
  "ssAudioEmitted (New opts) = False" "ssNextResp (New opts) = 0" "ssActiveGen (New opts) = 0"
  "ssPipes (New opts) = []" "ssConv (New opts) = newConversation"
  by (simp_all add: New_def Let_def applyTurnDetection_def disarmEndOfTurn_def)

lemma emit_calm [simp]: "ssClosed (emit calm ev s) = ssClosed s"
  by (simp add: emit_def calm_def Let_def)

lemma validate_plain: "SessionDefaults_Validate p (ssCfg (New plain_options)) = None"
proof -
  have "session_ok c \<Longrightarrow> SessionDefaults_Validate p c = None" for c
    by (auto simp: SessionDefaults_Validate_def session_ok_def validateTools_def validateTools_from_None
        validateToolChoice_None split: option.splits)
  then show ?thesis using plain_ok .
qed

lemma asked_step: "handle calm (InCommand (CmdCreateResponse ''e1'' no_overrides)) (New plain_options) = Some asked"
  by (simp add: asked_def handle_def)

lemma asked_fields:
  "ssClosed asked = None" "\<exists>r. ssActive asked = Some r \<and> rRef r = 1 \<and> \<not> rAwaiting r"
  "\<exists>p. ssPipes asked = [p] \<and> psGen p = 1 \<and> psResp p = 1"
  using validate_plain [of "''response''"]
  by (simp_all add: asked_def handle_def createResponse_def createResponseAt_def voice_locked_def probe_config_def
      no_overrides_def begin_response_def set_turns_def awaited_item_def startPipeline_def new_response_def
      no_decision_def Let_def)

lemma cancelled_step: "handle calm (InCommand (CmdCancelResponse ''e2'' 0)) asked = Some cancelled"
  by (simp add: cancelled_def handle_def)

lemma asked_reach: "sess_reach calm (New plain_options) asked"
  by (rule reach_step [OF reach_refl _ asked_step]) (simp add: offered_def)

lemma cancelled_reach: "sess_reach calm (New plain_options) cancelled"
  by (rule reach_step [OF asked_reach _ cancelled_step]) (simp add: offered_def asked_fields(1))

lemma finish_pipes [simp]: "ssPipes (finish w status reason err s) = ssPipes s"
  by (auto simp: finish_def finish_close_def finish_stop_def set_turns_def stopASRWait_def upd_active_def Let_def
      split: option.splits prod.splits dest: finish_item_frame(11))

lemma cancelled_fields: "ssActive cancelled = None" "ssPipes cancelled = ssPipes asked"
proof -
  have c: "cancelled = interrupt calm ReasonClientCancelled asked"
    using asked_fields(2) by (auto simp: cancelled_def handle_def)
  have "sess_inv asked" using reach_inv [OF asked_reach New_inv [OF plain_ok]] .
  then show "ssActive cancelled = None" unfolding c by (rule interrupt_inactive)
  show "ssPipes cancelled = ssPipes asked" unfolding c by (simp add: interrupt_def)
qed

text \<open>A session that holds some audio, after its commit, and after a response was asked for before the
  transcript arrived.\<close>

definition held :: session where
  "held = the (handle calm (InAudio (replicate 960 0)) (New plain_options))"

definition committed :: session where
  "committed = the (handle calm (InCommand (CmdCommitAudio [])) held)"

definition waiting :: session where
  "waiting = the (handle calm (InCommand (CmdCreateResponse [] no_overrides)) committed)"

lemma plain_new:
  "ssBuffer (New plain_options) = newInputAudioBuffer 60000" "ssDetector (New plain_options) = None"
  "ssTurns (New plain_options) = newTurnManager None" "ssSpeechItem (New plain_options) = 0"
  by (simp_all add: New_def plain_options_def plain_session_def plain_limits_def Let_def applyTurnDetection_def
      disarmEndOfTurn_def cfg_turn_detection_def newTurnManager_def vadEnabled_def)

lemma held_step: "handle calm (InAudio (replicate 960 0)) (New plain_options) = Some held"
  and held_eq: "held = (New plain_options)
     \<lparr>ssBuffer := \<lparr>bufPcm = replicate 960 0, baseMs = 0, headMs = 0, maxBytes = 2880000, segStartMs = -1, segEndMs = -1\<rparr>,
      ssAsrLog := ssAsrLog (New plain_options) @ [PushAudio (replicate 960 0)]\<rparr>"
  by (simp_all add: held_def handle_def handleAudio_def plain_new buf_append_def newInputAudioBuffer_def buf_len_def
      MsToBytes_small i64_nonneg_small asr_call_def calm_def Let_def)

lemma committed_step: "handle calm (InCommand (CmdCommitAudio [])) held = Some committed"
  and committed_fields: "ssPendingItem committed = Some 1" "ssActive committed = None"
    "ssCfg committed = ssCfg (New plain_options)" "ssClosed committed = None"
    "\<exists>it. conv_get (ssConv committed) 1 = Some it \<and> \<not> itTranscriptDone it"
  by (simp_all add: committed_def handle_def step_and_apply_def apply_decision_def no_decision_def commit_def held_eq
      buf_commit_def commit_start_def commit_end_def totalMs_def buf_len_def i64_nonneg_small MsToBytes_small
      BytesToMs_nonneg go_slice_def plain_new add_user_item_def newRef_def newConversation_def conv_append_def
      conv_insert_def insert_pos_def asr_call_def Let_def conv_get_def blank_item_def)
     (simp_all add: calm_def emit_def Let_def)

lemma waiting_step: "handle calm (InCommand (CmdCreateResponse [] no_overrides)) committed = Some waiting"
  by (simp add: waiting_def handle_def)

lemma waiting_reach: "sess_reach calm (New plain_options) waiting"
proof -
  have "sess_reach calm (New plain_options) held"
    by (rule reach_step [OF reach_refl _ held_step]) (simp add: offered_def)
  then have "sess_reach calm (New plain_options) committed"
    by (rule reach_step [OF _ _ committed_step]) (simp add: offered_def held_eq)
  then show ?thesis
    by (rule reach_step [OF _ _ waiting_step]) (simp add: offered_def committed_fields)
qed

lemma waiting_fields: "\<exists>r. ssActive waiting = Some r \<and> rAwaiting r"
  using validate_plain [of "''response''"] committed_fields
  by (auto simp: waiting_def handle_def createResponse_def createResponseAt_def voice_locked_def probe_config_def
      no_overrides_def begin_response_def set_turns_def awaited_item_def new_response_def no_decision_def upd_active_def
      Let_def split: option.splits)

section \<open>Properties\<close>

text \<open>\<^bold>\<open>C1\<close>: in every reachable state the events sent so far form a correct response protocol:
  responses come one at a time with consecutive references, each is announced once and ended once,
  every delta belongs to an announced and still open item of the open response, every item is closed
  before its response ends, and a response calls at most one tool. The automaton's state is that of
  the actor: a response is open exactly while one is active.\<close>

theorem response_protocol:
  assumes "session_ok (ssCfg (New opts))" "sess_reach w (New opts) s"
  shows "run_life (LIdle 0) (ssTried s) = Some (life_of s)"
  using reach_logged [OF assms(2) New_inv [OF assms(1)] New_logged] by (simp add: logged_def life_at_def)

theorem response_protocol_witness:
  "run_life (LIdle 0) (ssTried cancelled) = Some (life_of cancelled)"
  by (rule response_protocol [OF plain_ok cancelled_reach])

text \<open>While the session is open nothing that is sent is lost or reordered; once it has closed,
  what still arrives is a subsequence of what is sent.\<close>

theorem events_delivered:
  assumes "session_ok (ssCfg (New opts))" "sess_reach w (New opts) s"
  shows "subseq (ssEvents s) (ssTried s) \<and> (ssClosed s = None \<longrightarrow> ssEvents s = ssTried s)"
  using reach_logged [OF assms(2) New_inv [OF assms(1)] New_logged]
  by (simp add: logged_def life_at_def delivered_def)

theorem events_delivered_witness: "subseq (ssEvents asked) (ssTried asked)"
  using events_delivered [OF plain_ok asked_reach] by blast

text \<open>\<^bold>\<open>C3\<close>: at most one pipeline is live: in every reachable state every pipeline ever started has
  been cancelled, except the last one while a response is generating; that one carries the current
  generation and serves the active response.\<close>

theorem one_live_pipeline:
  assumes "session_ok (ssCfg (New opts))" "sess_reach w (New opts) s"
    "i < length (ssPipes s)" "psGen (ssPipes s ! i) \<notin> set (ssCancelled s)"
  shows "Suc i = length (ssPipes s) \<and> psGen (ssPipes s ! i) = ssActiveGen s \<and>
         (\<exists>r. ssActive s = Some r \<and> \<not> rAwaiting r \<and> rRef r = psResp (ssPipes s ! i))"
proof -
  have inv: "sess_inv s" using reach_inv [OF assms(2) New_inv [OF assms(1)]] .
  have "\<not> idle_pipes (ssPipes s) (ssCancelled s) g" for g
    using assms(3,4) nth_mem [OF assms(3)] by (auto simp: idle_pipes_def)
  then obtain r where r: "ssActive s = Some r" "\<not> rAwaiting r"
      "running_pipes (ssPipes s) (ssCancelled s) (ssActiveGen s) (rRef r)"
    using inv by (auto simp: sess_inv_def active_ok_def split: option.splits if_splits)
  then obtain qs p where p: "ssPipes s = qs @ [p]" "idle_pipes qs (ssCancelled s) (ssActiveGen s)"
      "psGen p = ssActiveGen s" "psResp p = rRef r"
    by (auto simp: running_pipes_def)
  have "\<not> i < length qs"
    using assms(4) p(1,2) by (auto simp: idle_pipes_def nth_append)
  then have "i = length qs" using assms(3) p(1) by simp
  then show ?thesis using p r by simp
qed

theorem one_live_pipeline_witness:
  "Suc 0 = length (ssPipes asked) \<and> psGen (ssPipes asked ! 0) = ssActiveGen asked \<and>
   (\<exists>r. ssActive asked = Some r \<and> \<not> rAwaiting r \<and> rRef r = psResp (ssPipes asked ! 0))"
proof (rule one_live_pipeline [OF plain_ok asked_reach])
  show "0 < length (ssPipes asked)" using asked_fields(3) by auto
  have "ssCancelled asked = []"
    using validate_plain [of "''response''"]
    by (simp add: asked_def handle_def createResponse_def createResponseAt_def voice_locked_def probe_config_def
        no_overrides_def begin_response_def set_turns_def awaited_item_def startPipeline_def no_decision_def
        Let_def) (simp add: New_def Let_def applyTurnDetection_def disarmEndOfTurn_def)
  then show "psGen (ssPipes asked ! 0) \<notin> set (ssCancelled asked)" by simp
qed

text \<open>\<^bold>\<open>C4\<close>: nothing a pipeline still reports after its response ended has any effect: an event of a
  pipeline whose response is not the active one is ignored, in every reachable state.\<close>

theorem stale_events_ignored:
  assumes "session_ok (ssCfg (New opts))" "sess_reach w (New opts) s"
    "p \<in> set (ssPipes s)" "from_pipeline ev p" "\<forall>r. ssActive s = Some r \<longrightarrow> rRef r \<noteq> psResp p"
  shows "handleResponseEvent w' ev s = s"
proof (cases "ssActive s")
  case (Some r)
  have "sess_inv s" using reach_inv [OF assms(2) New_inv [OF assms(1)]] .
  from accepted_pipeline [OF this Some _ assms(3)] have "rAwaiting r \<or> generation ev \<noteq> ssActiveGen s"
    using assms(4,5) Some by (auto simp: from_pipeline_def)
  then show ?thesis using Some by (simp add: handleResponseEvent_def)
qed (simp add: handleResponseEvent_def)

theorem stale_events_ignored_witness: "handleResponseEvent calm (PipeTextDelta 1 1 ''late'') cancelled = cancelled"
proof -
  obtain p where p: "ssPipes cancelled = [p]" "psGen p = 1" "psResp p = 1"
    using asked_fields(3) cancelled_fields(2) by auto
  show ?thesis
    by (rule stale_events_ignored [OF plain_ok cancelled_reach, of p])
       (simp_all add: p from_pipeline_def cancelled_fields(1))
qed

text \<open>\<^bold>\<open>C7\<close>: no response and no deferred trigger waits for ever: whenever a response waits for a
  transcript its timer is armed, and whenever a turn's trigger is deferred its timer is armed.\<close>

theorem waits_are_timed:
  assumes "session_ok (ssCfg (New opts))" "sess_reach w (New opts) s"
  shows "(\<forall>r. ssActive s = Some r \<longrightarrow> rAwaiting r \<longrightarrow> ssAsrWait s) \<and> (ssDeferItem s \<noteq> 0 \<longrightarrow> ssDeferWait s)"
  using reach_inv [OF assms(2) New_inv [OF assms(1)]] by (auto simp: sess_inv_def active_ok_def split: option.splits)

theorem waits_are_timed_witness: "(\<exists>r. ssActive waiting = Some r \<and> rAwaiting r) \<and> ssAsrWait waiting"
  using waits_are_timed [OF plain_ok waiting_reach] waiting_fields by blast

text \<open>\<^bold>\<open>C5\<close>: the actor's state stays consistent: in every reachable state the conversation is
  consistent, the configuration valid, the turn manager knows exactly whether a response is active,
  and the committed item awaiting its transcript and the output item of the active response exist.\<close>

theorem session_consistent:
  assumes "session_ok (ssCfg (New opts))" "sess_reach w (New opts) s"
  shows "conv_inv (ssConv s) \<and> session_ok (ssCfg s) \<and> (tmResponseActive (ssTurns s) \<longleftrightarrow> ssActive s \<noteq> None) \<and>
         pending_ok (ssConv s) (ssPendingItem s) \<and>
         (\<forall>r. ssActive s = Some r \<longrightarrow> rStatus r = ResponseInProgress \<and> output_ok (ssConv s) (rItem r))"
  using reach_inv [OF assms(2) New_inv [OF assms(1)]] by (auto simp: sess_inv_def active_ok_def split: option.splits)

theorem session_consistent_witness: "conv_inv (ssConv asked) \<and> session_ok (ssCfg asked)"
  using session_consistent [OF plain_ok asked_reach] by blast

end
