(* ===== verification/SessionCases.thy ===== *)
theory SessionCases
  imports SessionProps
begin

text \<open>
  Functional behaviour of single operations of the session, and concrete runs of the model that show
  where the code departs from its documentation: a truncation whose millisecond count wraps around, and
  a voice that changes after audio was produced.
\<close>

section \<open>Truncation\<close>

text \<open>Truncating an assistant audio item at a position inside its audio keeps a prefix of its
  text, records the new length, changes no other item and reports it; the bookkeeping of the item must
  be well formed.\<close>

theorem truncate_in_range:
  assumes "conv_inv (ssConv s)" "conv_get (ssConv s) ref = Some it" "itRole it = RoleAssistant"
    "itContent it = ContentAudio" "0 \<le> ms" "48 * ms < itAudioB it" "itAudioB it \<le> 2 ^ 53"
    "trim_ok (itText it) (itSegments it) (itAlignment it) (itAudioB it)"
  shows "\<exists>s' t rest. truncateItem w ref 0 ms tag s = Some s' \<and> itText it = t @ rest \<and>
           conv_get (ssConv s') ref = Some (it\<lparr>itText := t, itAudioB := 48 * ms, itAudioMs := ms\<rparr>) \<and>
           (\<forall>q. q \<noteq> ref \<longrightarrow> conv_get (ssConv s') q = conv_get (ssConv s) q) \<and>
           ssTried s' = ssTried s @ [EvItemTruncated ref 0 ms]"
proof -
  have b: "MsToBytes ms = 48 * ms" using assms(5-7) by (intro MsToBytes_small) simp_all
  obtain t where t: "trimText (itText it) (itSegments it) (itAlignment it) (48 * ms) (itAudioB it) = Some t"
      "\<exists>rest. itText it = t @ rest"
    using trimText_kept(1) [OF assms(8)] by (metis append_take_drop_id)
  let ?f = "\<lambda>i. if 48 * ms < itAudioB i then i\<lparr>itText := t, itAudioB := 48 * ms, itAudioMs := ms\<rparr> else i\<lparr>itText := t\<rparr>"
  have get: "conv_get (conv_update (ssConv s) ref ?f) q =
      (if q = ref then map_option ?f (conv_get (ssConv s) ref) else conv_get (ssConv s) q)" for q
    by (rule conv_store.upd_get [OF assms(1)]) simp
  have "truncateItem w ref 0 ms tag s = Some (emit w (EvItemTruncated ref 0 ms) (s\<lparr>ssConv := conv_update (ssConv s) ref ?f\<rparr>))"
    using assms b t(1) by (simp add: truncateItem_def Let_def)
  moreover have "conv_get (conv_update (ssConv s) ref ?f) ref = Some (it\<lparr>itText := t, itAudioB := 48 * ms, itAudioMs := ms\<rparr>)"
    using get [of ref] assms(2,6) by simp
  moreover have "\<forall>q. q \<noteq> ref \<longrightarrow> conv_get (conv_update (ssConv s) ref ?f) q = conv_get (ssConv s) q" using get by simp
  ultimately show ?thesis using t(2) by auto
qed

text \<open>A session whose only item is ten milliseconds of spoken \<open>Hi\<close>.\<close>

definition spoken_item :: item where
  "spoken_item = blank_item\<lparr>itRef := 1, itRole := RoleAssistant, itContent := ContentAudio, itStatus := ItemCompleted,
     itText := ''Hi'', itAudioMs := 10, itTranscriptDone := True, itAudioB := 480\<rparr>"

definition spoken :: session where
  "spoken = (New plain_options)\<lparr>ssConv := \<lparr>cItems = [1], cIndex = [1 \<mapsto> spoken_item], cNext = 1\<rparr>\<rparr>"

lemma spoken_conv: "conv_inv (ssConv spoken)" "conv_get (ssConv spoken) 1 = Some spoken_item"
  by (simp_all add: spoken_def spoken_item_def conv_inv_def conv_get_def)

lemma spoken_sel:
  "itRole spoken_item = RoleAssistant" "itContent spoken_item = ContentAudio" "itAudioB spoken_item = 480"
  "itText spoken_item = ''Hi''" "itSegments spoken_item = []" "itAlignment spoken_item = []"
  by (simp_all add: spoken_item_def blank_item_def)

theorem truncate_in_range_witness:
  "\<exists>s' t rest. truncateItem calm 1 0 5 ''e'' spoken = Some s' \<and> ''Hi'' = t @ rest \<and>
     conv_get (ssConv s') 1 = Some (spoken_item\<lparr>itText := t, itAudioB := 240, itAudioMs := 5\<rparr>) \<and>
     (\<forall>q. q \<noteq> 1 \<longrightarrow> conv_get (ssConv s') q = conv_get (ssConv spoken) q) \<and>
     ssTried s' = ssTried spoken @ [EvItemTruncated 1 0 5]"
  using truncate_in_range [OF spoken_conv, of 5 calm "''e''"]
  by (simp add: spoken_sel trim_ok_def valid_Hi)

text \<open>The range check of a truncation multiplies before it compares, and the product wraps:
  truncating at \<open>2^60\<close> milliseconds an item that has some audio is accepted, empties its text and
  records a length of \<open>2^60\<close> milliseconds.\<close>

theorem truncate_wraps:
  assumes "conv_inv (ssConv s)" "conv_get (ssConv s) ref = Some it" "itRole it = RoleAssistant"
    "itContent it = ContentAudio" "0 < itAudioB it" "itText it \<noteq> []"
  shows "\<exists>s'. truncateItem w ref 0 (2 ^ 60) tag s = Some s' \<and>
           conv_get (ssConv s') ref = Some (it\<lparr>itText := [], itAudioB := 0, itAudioMs := 2 ^ 60\<rparr>)"
proof -
  have b: "MsToBytes (2 ^ 60) = 0" by (simp add: MsToBytes_def BytesPerMs_def i64_def)
  let ?f = "\<lambda>i :: item. if 0 < itAudioB i then i\<lparr>itText := [], itAudioB := 0, itAudioMs := 2 ^ 60\<rparr> else i\<lparr>itText := []\<rparr>"
  have "conv_get (conv_update (ssConv s) ref ?f) ref = map_option ?f (conv_get (ssConv s) ref)"
    using conv_store.upd_get [OF assms(1), of ?f ref ref] by simp
  moreover have "truncateItem w ref 0 (2 ^ 60) tag s =
      Some (emit w (EvItemTruncated ref 0 (2 ^ 60)) (s\<lparr>ssConv := conv_update (ssConv s) ref ?f\<rparr>))"
    unfolding truncateItem_def Let_def b using assms by (simp add: trimText_def)
  ultimately show ?thesis using assms(2,5) by simp
qed

theorem truncate_wraps_witness:
  "\<exists>s'. truncateItem calm 1 0 (2 ^ 60) ''e'' spoken = Some s' \<and>
     conv_get (ssConv s') 1 = Some (spoken_item\<lparr>itText := [], itAudioB := 0, itAudioMs := 2 ^ 60\<rparr>)"
  by (rule truncate_wraps [OF spoken_conv]) (simp_all add: spoken_sel)

section \<open>What a pipeline is started with\<close>

text \<open>A pipeline is given the instructions, tools, tool choice, token limit, modality and voice
  captured when its response was created, the conversation as it is at its start, and the speech speed
  configured at its start (not at the creation of the response).\<close>

theorem pipeline_inputs:
  assumes "ssActive s = Some r"
  shows "\<exists>p. ssPipes (startPipeline s) = ssPipes s @ [p] \<and> psResp p = rRef r \<and> psTextOnly p = rTextOnly r \<and>
     psReq p = \<lparr>crInstructions = rInstructions r, crMessages = messages (ssConv s), crMaxOutputTokens = rMaxTokens r,
                crTemperature = ssTemp s, crTools = rTools r, crToolChoice = rToolChoice r\<rparr> \<and>
     tcVoice (psTTS p) = rVoice r \<and> tcSpeed (psTTS p) = aoSpeed (sdAudioOutput (ssCfg s)) \<and>
     (\<forall>q \<in> set (ssPipes s). psGen q \<le> ssActiveGen s \<longrightarrow> psGen q < psGen p)"
  using assms by (auto simp: startPipeline_def ttsConfig_def Let_def)

theorem pipeline_inputs_witness:
  "\<exists>p r. ssActive asked = Some r \<and> ssPipes (startPipeline asked) = ssPipes asked @ [p] \<and> tcVoice (psTTS p) = rVoice r"
proof -
  obtain r where r: "ssActive asked = Some r" using asked_fields(2) by blast
  then show ?thesis using pipeline_inputs [OF r] by blast
qed

section \<open>A voice that changes\<close>

text \<open>The client asks for a response in another voice, hears audio of it, cancels it, and asks for a
  second response without naming a voice.\<close>

definition other_voice :: ResponseOverrides where
  "other_voice = no_overrides\<lparr>ovVoice := Some ''verse''\<rparr>"

definition voice_run :: "Input list" where
  "voice_run = [InCommand (CmdCreateResponse [] other_voice), InPipe (PipeAudioDelta 1 1 [0, 0]),
     InCommand (CmdCancelResponse [] 0), InCommand (CmdCreateResponse [] no_overrides)]"

fun handle_all :: "world \<Rightarrow> Input list \<Rightarrow> session \<Rightarrow> session option" where
  "handle_all w [] s = Some s"
| "handle_all w (i # is) s = do { s1 \<leftarrow> handle w i s; handle_all w is s1 }"

lemma probe_plain: "SessionDefaults_Validate p (probe_config other_voice (ssCfg (New plain_options))) = None"
proof -
  have "session_ok (probe_config other_voice (ssCfg (New plain_options)))"
    using plain_ok by (simp add: probe_config_def Let_def other_voice_def no_overrides_def session_ok_def)
  then show ?thesis
    by (auto simp: SessionDefaults_Validate_def session_ok_def validateTools_def validateTools_from_None
        validateToolChoice_None split: option.splits)
qed

lemmas create_defs = createResponse_def createResponseAt_def voice_locked_def probe_config_def other_voice_def
  no_overrides_def begin_response_def set_turns_def awaited_item_def startPipeline_def new_response_def
  no_decision_def ttsConfig_def

lemmas finish_defs = interrupt_def finish_def finish_stop_def finish_item_def finish_close_def upd_active_def
  conv_write_def stopASRWait_def terminal_def set_turns_def

definition voiced :: session where
  "voiced = the (handle calm (InCommand (CmdCreateResponse [] other_voice)) (New plain_options))"

lemma voiced_fields:
  "\<exists>r. ssActive voiced = Some r \<and> rRef r = 1 \<and> \<not> rAwaiting r \<and> rVoice r = ''verse'' \<and> rItem r = 0 \<and> rGen r = 1"
  "\<exists>p. ssPipes voiced = [p] \<and> tcVoice (psTTS p) = ''verse''" "ssActiveGen voiced = 1" "ssCfg voiced = ssCfg (New plain_options)"
  "ssPendingItem voiced = None"
  using probe_plain [of "''response''"]
  by (simp_all add: voiced_def handle_def create_defs Let_def)

lemma finish_keeps [simp]:
  "ssCfg (finish w st re err s) = ssCfg s" "ssAudioEmitted (finish w st re err s) = ssAudioEmitted s"
  "ssPendingItem (finish w st re err s) = ssPendingItem s"
  by (auto simp: finish_def finish_close_def finish_stop_def finish_item_def conv_write_def set_turns_def
      stopASRWait_def upd_active_def Let_def split: option.splits)

lemma ensure_keeps:
  assumes "ensureOutputItem w r s = (s1, ref)"
  shows "ssCfg s1 = ssCfg s \<and> ssPipes s1 = ssPipes s \<and> ssPendingItem s1 = ssPendingItem s \<and> (ssActive s1 = None \<longleftrightarrow> ssActive s = None)"
  using assms by (auto simp: ensureOutputItem_def upd_active_def Let_def split: option.splits prod.splits)

lemma audio_keeps:
  assumes "ssActive s = Some r" "\<not> rAwaiting r" "ssActiveGen s = g"
  shows "ssCfg (handleResponseEvent w (PipeAudioDelta g k p) s) = ssCfg s \<and>
         ssPipes (handleResponseEvent w (PipeAudioDelta g k p) s) = ssPipes s \<and>
         ssActive (handleResponseEvent w (PipeAudioDelta g k p) s) \<noteq> None \<and>
         ssPendingItem (handleResponseEvent w (PipeAudioDelta g k p) s) = ssPendingItem s \<and>
         ssAudioEmitted (handleResponseEvent w (PipeAudioDelta g k p) s)"
proof -
  obtain s1 ref where e: "ensureOutputItem w r s = (s1, ref)" by fastforce
  then show ?thesis using assms ensure_keeps [OF e] by (simp add: handleResponseEvent_def conv_write_def)
qed

text \<open>The states of the run: audio heard, response cancelled, second response.\<close>

definition heard :: session where
  "heard = handleResponseEvent calm (PipeAudioDelta 1 1 [0, 0]) voiced"

definition silenced :: session where
  "silenced = interrupt calm ReasonClientCancelled heard"

lemma voiced_step: "handle calm (InCommand (CmdCreateResponse [] other_voice)) (New plain_options) = Some voiced"
  by (simp add: voiced_def handle_def)

lemma voiced_reach: "sess_reach calm (New plain_options) voiced"
  by (rule reach_step [OF reach_refl _ voiced_step]) (simp add: offered_def)

lemma heard_inv: "sess_inv heard"
proof -
  have "sess_inv voiced" using reach_inv [OF voiced_reach New_inv [OF plain_ok]] .
  then show ?thesis unfolding heard_def by (rule handleResponseEvent_inv)
qed

lemma heard_fields: "ssCfg heard = ssCfg (New plain_options)" "ssPipes heard = ssPipes voiced" "ssActive heard \<noteq> None"
  "ssAudioEmitted heard" "ssPendingItem heard = None"
  using audio_keeps [of voiced _ 1] voiced_fields(1,3,4,5) by (auto simp: heard_def)

lemma silenced_fields:
  "ssActive silenced = None" "ssCfg silenced = ssCfg (New plain_options)" "ssPipes silenced = ssPipes voiced"
  "ssAudioEmitted silenced" "ssPendingItem silenced = None"
  using interrupt_inactive [OF heard_inv] heard_fields by (simp_all add: silenced_def interrupt_def)

lemma heard_step: "handle calm (InPipe (PipeAudioDelta 1 1 [0, 0])) voiced = Some heard"
  by (simp add: handle_def heard_def)

lemma silenced_step: "handle calm (InCommand (CmdCancelResponse [] 0)) heard = Some silenced"
  using heard_fields(3) by (auto simp: handle_def silenced_def)

lemma silenced_asks:
  "handle calm (InCommand (CmdCreateResponse [] no_overrides)) silenced = Some (createResponse calm no_overrides [] silenced)"
  by (simp add: handle_def silenced_fields(1))

text \<open>The voice of a session can change after audio was produced: a response whose voice was
  overridden speaks, and the next one, which names no voice, is spoken in the session's voice; asking for
  the first voice again is then refused.\<close>

theorem voice_changes:
  "\<exists>s. handle_all calm voice_run (New plain_options) = Some s \<and>
       map (\<lambda>p. tcVoice (psTTS p)) (ssPipes s) = [''verse'', ''alloy''] \<and> ssAudioEmitted s \<and>
       voice_locked s (Some ''verse'')"
proof -
  obtain p where p: "ssPipes voiced = [p]" "tcVoice (psTTS p) = ''verse''" using voiced_fields(2) by blast
  have "handle_all calm voice_run (New plain_options) = Some (createResponse calm no_overrides [] silenced)"
    using voiced_step heard_step silenced_step silenced_asks by (simp add: voice_run_def del: One_nat_def)
  moreover have "ssCfg (New plain_options) = plain_session"
    by (simp add: New_def Let_def applyTurnDetection_def disarmEndOfTurn_def plain_options_def plain_session_def)
  ultimately show ?thesis using silenced_fields p validate_plain [of "''response''"]
    by (simp add: create_defs Let_def plain_session_def)
qed

end
