(* ===== verification/LateSpeech.thy ===== *)
theory LateSpeech
  imports SessionCases
begin

text \<open>
  A concrete run of the session with server VAD in which one chunk of input audio holds a short turn
  and the start of another. The events of the chunk are handled one after the other, but the commit
  of the first turn clears the buffer and resets the detector in between, so the second speech start
  is placed relative to the wrong origin, beyond the audio that has arrived; the next commit slices
  out of range and panics.
\<close>

section \<open>The chunk\<close>

text \<open>Twenty milliseconds at full scale, and as much digital silence.\<close>

definition loud :: pcm where "loud = concat (replicate 480 [0xFF, 0x7F])"
definition hush :: pcm where "hush = replicate 960 0"

lemma concat_pair_nth:
  "i < n \<Longrightarrow> concat (replicate n [a, b]) ! (2 * i) = a \<and> concat (replicate n [a, b]) ! Suc (2 * i) = b"
proof (induction n arbitrary: i)
  case (Suc n)
  then show ?case by (cases i) auto
qed simp

lemma lengths [simp]: "length loud = 960" "length hush = 960"
  by (simp_all add: loud_def hush_def length_concat sum_list_replicate)

lemma full_scale: "word_cat (127 :: 8 word) (255 :: 8 word) = (32767 :: 16 word)"
proof -
  have "(ucast (drop_bit 8 (32767 :: 16 word)) :: 8 word) = 127" "(ucast (32767 :: 16 word) :: 8 word) = 255" by simp_all
  then show ?thesis using word_cat_halves [of 32767] by (simp only:)
qed

lemma loud_level: "i < 480 \<Longrightarrow> level_of loud i = 1"
  using concat_pair_nth [of i 480 "0xFF :: 8 word" "0x7F"] f64_round_int [of 32767] f64_round_int [of 1]
  by (simp add: level_of_def Sample_def loud_def [symmetric] fdiv_def f64_of_int_def full_scale)

lemma loud_sum:
  "n \<le> 480 \<Longrightarrow> foldl (\<lambda>sum i. let s = level_of loud i in fadd sum (fmul s s)) 0 [0..<n] = of_nat n"
proof (induction n)
  case (Suc n)
  then show ?case using f64_round_int [of "int (Suc n)"] f64_round_int [of 1]
    by (simp add: loud_level fadd_def fmul_def add.commute)
qed simp

lemma isqrt_square: "isqrt (k * k) = k"
proof -
  let ?r = "isqrt (k * k)"
  have "?r * ?r \<le> k * k" "k * k < Suc ?r * Suc ?r" using isqrt_correct [of "k * k"] by simp_all
  then have "?r ^ 2 \<le> k ^ 2" "k ^ 2 < Suc ?r ^ 2" by (simp_all only: power2_eq_square)
  then have "?r \<le> k" "k < Suc ?r" by (simp_all add: power_less_imp_less_base)
  then show ?thesis by simp
qed

lemma fsqrt_one: "fsqrt 1 = 1"
proof -
  have "ilog2 1 = 0" by (simp add: ilog2_def bitlen_def)
  moreover have "isqrt (2 ^ 104) = 2 ^ 52" using isqrt_square [of "2 ^ 52"] by (simp add: power_add [symmetric])
  moreover have "\<lfloor>(1 :: rat) / 4 powi (- 52)\<rfloor> = 2 ^ 104"
    by (simp add: power_int_minus)
  ultimately show ?thesis by (simp add: fsqrt_def Let_def)
qed

lemma rms_loud: "rms loud = 1"
  using loud_sum [of 480] f64_round_int [of 480] f64_round_int [of 1]
  by (simp add: rms_def fdiv_def f64_of_int_def fsqrt_one)

section \<open>What the detector says\<close>

definition talk_detector :: Energy where
  "talk_detector = NewEnergy \<lparr>vcThreshold = 1, vcSilenceDurationMs = 20\<rparr>"

lemma f64_round_positive: "0 < q \<Longrightarrow> 0 < f64_round q"
  using f64_round_between(1) [of q] by (metis less_le_trans zero_less_numeral zero_less_power_int)

lemma talk_levels: "0 < exitLevel talk_detector" "enterLevel talk_detector \<le> 1" "silenceMs talk_detector = 20"
proof -
  have one: "f64_round x \<le> 1" if "0 \<le> x" "x \<le> 1" for x
    using f64_round_mono [OF that] f64_round_int [of 1] by simp
  have scale: "0 < thresholdScale" "thresholdScale \<le> 1" "0 < hysteresisRatio"
    by (simp_all add: thresholdScale_def hysteresisRatio_def f64_round_positive one)
  then have "0 < enterLevel talk_detector" "enterLevel talk_detector \<le> 1"
    by (simp_all add: talk_detector_def NewEnergy_def fmul_def Let_def f64_round_positive one)
  moreover have "exitLevel talk_detector = fmul (enterLevel talk_detector) hysteresisRatio"
    by (simp add: talk_detector_def NewEnergy_def Let_def)
  ultimately show "0 < exitLevel talk_detector" "enterLevel talk_detector \<le> 1" "silenceMs talk_detector = 20"
    using scale by (simp_all add: fmul_def f64_round_positive talk_detector_def NewEnergy_def Let_def)
qed

lemma talk_start: "pendingPcm talk_detector = []" "elapsedMs talk_detector = 0" "\<not> speaking talk_detector"
  by (simp_all add: talk_detector_def NewEnergy_def Let_def)

text \<open>Speech from 0 to 20 ms, and speech again from 40 ms on.\<close>

lemma detector_says:
  "\<exists>d. Process talk_detector (loud @ hush @ loud) =
     (d, [\<lparr>veKind = SpeechStart, OffsetMs = 0\<rparr>, \<lparr>veKind = SpeechEnd, OffsetMs = 20\<rparr>,
          \<lparr>veKind = SpeechStart, OffsetMs = 40\<rparr>])"
proof -
  have hush: "rms hush = 0" by (simp add: hush_def rms_silence)
  define d1 where "d1 = talk_detector\<lparr>elapsedMs := 20, speaking := True, lastVoiced := 20\<rparr>"
  define d2 where "d2 = d1\<lparr>elapsedMs := 40, speaking := False\<rparr>"
  define d3 where "d3 = d2\<lparr>elapsedMs := 60, speaking := True, lastVoiced := 60\<rparr>"
  have "Process talk_detector loud = (d1, [\<lparr>veKind = SpeechStart, OffsetMs = 0\<rparr>])"
    using talk_levels talk_start by (simp add: Process_frame frame_step_def FrameMs_def rms_loud d1_def Let_def)
  moreover have "Process d1 hush = (d2, [\<lparr>veKind = SpeechEnd, OffsetMs = 20\<rparr>])"
    using talk_levels talk_start
    by (simp add: Process_frame frame_step_def FrameMs_def hush d1_def d2_def Let_def)
  moreover have "Process d2 loud = (d3, [\<lparr>veKind = SpeechStart, OffsetMs = 40\<rparr>])"
    using talk_levels talk_start
    by (simp add: Process_frame frame_step_def FrameMs_def rms_loud d1_def d2_def d3_def Let_def)
  moreover have "Process talk_detector (loud @ hush @ loud) = process_all Process talk_detector [loud, hush, loud]"
    using energy.process_all_concat [of talk_detector "[loud, hush, loud]"] NewEnergy_inv by (simp add: talk_detector_def)
  ultimately show ?thesis by simp
qed

section \<open>The session\<close>

definition talk_options :: Options where
  "talk_options = plain_options\<lparr>opSession := plain_session\<lparr>sdAudioInput := (sdAudioInput plain_session)\<lparr>aiTurnDetection :=
     Some \<lparr>tdType = TurnDetectionServerVAD, tdThreshold = Some 1, tdPrefixPaddingMs = Some 0, tdSilenceDurationMs = Some 20,
           tdEagerness = None, tdCreateResponse = False, tdInterruptResponse = False\<rparr>\<rparr>\<rparr>\<rparr>"

text \<open>The fields of the session the run depends on.\<close>

lemma talk_new:
  "ssDetector (New talk_options) = Some talk_detector" "ssSpeechItem (New talk_options) = 0"
  "ssBuffer (New talk_options) = newInputAudioBuffer 60000"
  "tmMode (ssTurns (New talk_options)) = modeServerVAD" "\<not> tmCreateResponse (ssTurns (New talk_options))"
  "\<not> tmInterruptResponse (ssTurns (New talk_options))" "ssDeferItem (New talk_options) = 0"
  "cfg_turn_detection (New talk_options) = aiTurnDetection (sdAudioInput (opSession talk_options))"
  by (simp_all add: New_def talk_options_def plain_options_def plain_session_def plain_limits_def applyTurnDetection_def
      disarmEndOfTurn_def Let_def ApplyDefaults_def newTurnManager_def vadEnabled_def talk_detector_def
      vadThreshold_def vadSilenceMs_def td_setting_def cfg_turn_detection_def or_default_def)

text \<open>What the two kinds of speech events do in a session with server VAD that neither answers nor
  interrupts by itself.\<close>

definition listening :: "session \<Rightarrow> bool" where
  "listening s \<longleftrightarrow> tmMode (ssTurns s) = modeServerVAD \<and> \<not> tmCreateResponse (ssTurns s) \<and> \<not> tmInterruptResponse (ssTurns s)"

lemma start_event:
  assumes "listening s"
  shows "\<exists>s'. speech_start w off s = Some s' \<and> listening s' \<and> tmSpeaking (ssTurns s') \<and> ssCfg s' = ssCfg s \<and>
           ssDetector s' = ssDetector s \<and> ssBuffer s' = snd (markSpeechStart (ssBuffer s) off (vadPrefixMs s))"
  using assms
  by (simp add: speech_start_def listening_def newRef_def vadPrefixMs_def td_setting_def cfg_turn_detection_def
      disarmEndOfTurn_def apply_decision_def no_decision_def Let_def split: prod.splits)

lemma commit_calm:
  assumes "buf_commit (ssBuffer s) = Some (Some (p, a, z), b)"
  shows "\<exists>s'. commit calm tag s = Some (s', True) \<and> ssTurns s' = ssTurns s \<and> ssCfg s' = ssCfg s \<and>
           ssDetector s' = map_option Energy_Reset (ssDetector s) \<and> ssBuffer s' = b"
  using assms by (auto simp: commit_def add_user_item_def asr_call_def calm_def Let_def split: prod.splits)

lemma end_event:
  assumes "listening s" "tmSpeaking (ssTurns s)"
    "buf_commit (snd (markSpeechEnd (ssBuffer s) off (vadSilenceMs s))) = Some (Some (p, a, z), b)"
  shows "\<exists>s'. speech_end calm off s = Some s' \<and> listening s' \<and> ssCfg s' = ssCfg s \<and>
           ssDetector s' = map_option Energy_Reset (ssDetector s) \<and> ssBuffer s' = b"
proof -
  obtain endMs b1 where m: "markSpeechEnd (ssBuffer s) off (vadSilenceMs s) = (endMs, b1)" by fastforce
  let ?s = "emit calm (EvSpeechStopped endMs (ssSpeechItem s)) (s\<lparr>ssBuffer := b1, ssTurns := resetTurn ((ssTurns s)\<lparr>tmSpeaking := False\<rparr>)\<rparr>)"
  obtain s' where s': "commit calm [] ?s = Some (s', True)" "ssTurns s' = ssTurns ?s" "ssCfg s' = ssCfg ?s"
      "ssDetector s' = map_option Energy_Reset (ssDetector ?s)" "ssBuffer s' = b"
    using commit_calm [of ?s p a z b "[]"] assms(3) m by auto
  have "speech_end calm off s = Some s'"
    using assms(1,2) s'(1) m
    by (simp add: speech_end_def listening_def endTurn_def apply_decision_def no_decision_def Let_def)
  then show ?thesis using assms(1) s' by (simp add: listening_def resetTurn_def)
qed

text \<open>The buffer at each moment of the chunk: filled, marked, committed, marked again.\<close>

definition chunk :: pcm where "chunk = loud @ hush @ loud"

definition late_buffer :: inputAudioBuffer where
  "late_buffer = \<lparr>bufPcm = [], baseMs = 60, headMs = 60, maxBytes = 2880000, segStartMs = 100, segEndMs = -1\<rparr>"

lemma buffer_filled:
  "buf_append (newInputAudioBuffer 60000) chunk =
     Inr \<lparr>bufPcm = chunk, baseMs = 0, headMs = 0, maxBytes = 2880000, segStartMs = -1, segEndMs = -1\<rparr>"
  by (simp add: buf_append_def newInputAudioBuffer_def buf_len_def chunk_def MsToBytes_small i64_nonneg_small)

lemma buffer_committed:
  fixes b :: inputAudioBuffer
  assumes "b = \<lparr>bufPcm = chunk, baseMs = 0, headMs = 0, maxBytes = 2880000, segStartMs = 0, segEndMs = -1\<rparr>"
  shows "\<exists>p. buf_commit (snd (markSpeechEnd b 20 20)) =
     Some (Some (p, 0, 40), \<lparr>bufPcm = [], baseMs = 60, headMs = 60, maxBytes = 2880000, segStartMs = -1, segEndMs = -1\<rparr>)"
proof -
  have "length chunk = 2880" "chunk \<noteq> []" by (auto simp: chunk_def simp flip: length_0_conv)
  then show ?thesis
    by (simp add: assms markSpeechEnd_def totalMs_def buf_len_def i64_nonneg_small buf_commit_def commit_start_def
        commit_end_def MsToBytes_small go_slice_def buf_clear_def BytesToMs_nonneg Let_def)
qed

lemma marked_late:
  "snd (markSpeechStart \<lparr>bufPcm = [], baseMs = 60, headMs = 60, maxBytes = 2880000, segStartMs = -1, segEndMs = -1\<rparr> 40 0) =
   late_buffer"
  by (simp add: markSpeechStart_def late_buffer_def i64_nonneg_small Let_def)

lemma first_chunk:
  "\<exists>s d. handleAudio calm chunk (New talk_options) = Some s \<and> listening s \<and> ssBuffer s = late_buffer \<and>
     ssDetector s = Some d \<and> pendingPcm d = []"
proof -
  obtain d where d: "Process talk_detector chunk =
      (d, [\<lparr>veKind = SpeechStart, OffsetMs = 0\<rparr>, \<lparr>veKind = SpeechEnd, OffsetMs = 20\<rparr>, \<lparr>veKind = SpeechStart, OffsetMs = 40\<rparr>])"
    using detector_says by (auto simp: chunk_def)
  let ?b = "\<lparr>bufPcm = chunk, baseMs = 0, headMs = 0, maxBytes = 2880000, segStartMs = -1, segEndMs = -1\<rparr> :: inputAudioBuffer"
  define s0 where "s0 = (New talk_options)\<lparr>ssBuffer := ?b, ssAsrLog := ssAsrLog (New talk_options) @ [PushAudio chunk],
      ssDetector := Some d\<rparr>"
  have td: "vadPrefixMs s = 0" "vadSilenceMs s = 20" if "ssCfg s = ssCfg (New talk_options)" for s
    using talk_new(8) that
    by (simp_all add: vadPrefixMs_def vadSilenceMs_def td_setting_def cfg_turn_detection_def talk_options_def)
  have l0: "listening s0" "ssCfg s0 = ssCfg (New talk_options)" "ssBuffer s0 = ?b" "ssDetector s0 = Some d"
    using talk_new(4-6) by (simp_all add: s0_def listening_def)
  obtain s1 where s1: "speech_start calm 0 s0 = Some s1" "listening s1" "tmSpeaking (ssTurns s1)"
      "ssCfg s1 = ssCfg (New talk_options)" "ssDetector s1 = Some d" "ssBuffer s1 = ?b\<lparr>segStartMs := 0\<rparr>"
    using start_event [OF l0(1), of calm 0] l0 td [of s0] by (auto simp: markSpeechStart_def i64_nonneg_small)
  obtain p where "buf_commit (snd (markSpeechEnd (ssBuffer s1) 20 (vadSilenceMs s1))) =
      Some (Some (p, 0, 40), \<lparr>bufPcm = [], baseMs = 60, headMs = 60, maxBytes = 2880000, segStartMs = -1, segEndMs = -1\<rparr>)"
    using buffer_committed [of "ssBuffer s1"] s1(6) td [OF s1(4)] by auto
  from end_event [OF s1(2,3) this] obtain s2 where s2: "speech_end calm 20 s1 = Some s2" "listening s2"
      "ssCfg s2 = ssCfg (New talk_options)" "ssDetector s2 = Some (Energy_Reset d)"
      "ssBuffer s2 = \<lparr>bufPcm = [], baseMs = 60, headMs = 60, maxBytes = 2880000, segStartMs = -1, segEndMs = -1\<rparr>"
    using s1 by auto
  obtain s3 where s3: "speech_start calm 40 s2 = Some s3" "listening s3" "ssCfg s3 = ssCfg (New talk_options)"
      "ssDetector s3 = Some (Energy_Reset d)" "ssBuffer s3 = late_buffer"
    using start_event [OF s2(2), of calm 40] s2 td [OF s2(3)] marked_late by auto
  have "handleAudio calm chunk (New talk_options) = Some s3"
    using s1(1) s2(1) s3 d talk_new(1,3) td [OF s3(3)]
    by (simp add: handleAudio_def buffer_filled asr_call_def calm_def s0_def Let_def trimIdle_def late_buffer_def)
  then show ?thesis using s3 by (auto simp: Energy_Reset_def)
qed

text \<open>\<^bold>\<open>C27\<close>: a chunk of input audio that holds a whole short turn and the start of the next one leaves a
  segment mark beyond the audio received; ten more milliseconds are accepted, and the client's commit
  then panics. The session is a valid one with server VAD.\<close>

theorem late_speech_start_panics:
  "session_ok (ssCfg (New talk_options)) \<and>
   (\<exists>s. handle_all calm [InAudio chunk, InAudio (replicate 480 0)] (New talk_options) = Some s \<and>
        handle calm (InCommand (CmdCommitAudio [])) s = None)"
proof
  show "session_ok (ssCfg (New talk_options))"
    using plain_ok talk_new(8)
    by (simp add: session_ok_def cfg_turn_detection_def New_def Let_def applyTurnDetection_def disarmEndOfTurn_def
        talk_options_def plain_options_def plain_session_def turn_detection_ok_def)
  obtain s d where s: "handleAudio calm chunk (New talk_options) = Some s" "listening s" "ssBuffer s = late_buffer"
      "ssDetector s = Some d" "pendingPcm d = []"
    using first_chunk by blast
  let ?p = "replicate 480 0 :: pcm"
  let ?s = "s\<lparr>ssBuffer := late_buffer\<lparr>bufPcm := ?p\<rparr>, ssAsrLog := ssAsrLog s @ [PushAudio ?p],
      ssDetector := Some (d\<lparr>pendingPcm := ?p\<rparr>)\<rparr>"
  have q: "Process d ?p = (d\<lparr>pendingPcm := ?p\<rparr>, [])"
    using s(5) by (simp add: Process_def process_loop.simps)
  have a: "buf_append late_buffer ?p = Inr (late_buffer\<lparr>bufPcm := ?p\<rparr>)"
    by (simp add: buf_append_def late_buffer_def buf_len_def i64_nonneg_small)
  have "handleAudio calm ?p s = Some ?s"
    using s(3-5) q by (simp add: handleAudio_def a asr_call_def calm_def Let_def trimIdle_def) (simp add: late_buffer_def)
  then have "handle_all calm [InAudio chunk, InAudio ?p] (New talk_options) = Some ?s"
    using s(1) by (simp add: handle_def)
  moreover have "buf_commit (late_buffer\<lparr>bufPcm := ?p\<rparr>) = None"
    by (simp add: buf_commit_def late_buffer_def commit_start_def commit_end_def totalMs_def buf_len_def
        i64_nonneg_small BytesToMs_nonneg MsToBytes_small go_slice_def Let_def)
  then have "handle calm (InCommand (CmdCommitAudio [])) ?s = None"
    by (simp add: handle_def step_and_apply_def apply_decision_def commit_def no_decision_def)
  ultimately show "\<exists>s. handle_all calm [InAudio chunk, InAudio ?p] (New talk_options) = Some s \<and>
      handle calm (InCommand (CmdCommitAudio [])) s = None" by blast
qed

end
