(* ===== verification/Queues.thy ===== *)
theory Queues
  imports Types "HOL-Library.Sublist"
begin

text \<open>
  The inbound side of \<^verbatim>\<open>internal/session/session.go\<close>: commands and audio travel on two bounded queues
  (\<open>Post\<close>, \<open>PostAudio\<close>), every posted item carries a sequence number, and the actor restores the
  arrival order across the queues (\<open>run\<close>, \<open>runCommand\<close>, \<open>runAudio\<close>, \<open>drainAudioBefore\<close>,
  \<open>drainCommandsBefore\<close>) with two one-element stashes.

  The model is a small-step machine: one client posts, the context may be cancelled at any moment,
  and the actor takes one iteration of its loop or of a drain loop at a time. \<open>qHandled\<close> is the order
  in which items were given to their handlers and \<open>qPosted\<close> the order in which they were posted. The
  client is one goroutine (the server's read loop), so a post draws its number and enters its queue in
  one step.
\<close>

section \<open>State\<close>

datatype posted = PCmd Command | PAudio pcm

text \<open>Where the actor is: at the head of its loop, before the handler of a command while draining
  audio, before the handler of a frame while draining commands, or gone.\<close>

datatype pc = AtLoop | RunCommand "nat \<times> Command" | RunAudio "nat \<times> pcm" | Exited

record queues =
  qSeq :: nat
  qCmds :: "(nat \<times> Command) list"
  qAudio :: "(nat \<times> pcm) list"
  qStashCmd :: "(nat \<times> Command) option"
  qStashAudio :: "(nat \<times> pcm) option"
  qPc :: pc
  qClosed :: "CloseReason option"
  qPosted :: "(nat \<times> posted) list"
  qHandled :: "(nat \<times> posted) list"

definition newQueues :: queues where
  "newQueues = \<lparr>qSeq = 0, qCmds = [], qAudio = [], qStashCmd = None, qStashAudio = None, qPc = AtLoop,
     qClosed = None, qPosted = [], qHandled = []\<rparr>"

section \<open>Posting\<close>

datatype post_error = ErrClosed | ErrInputQueueFull

text \<open>\<open>Post\<close> waits while the command queue is full; the result is the moment it is let through.\<close>

definition Post :: "Command \<Rightarrow> queues \<Rightarrow> queues \<times> post_error option" where
  "Post c q =
     (if qClosed q \<noteq> None then (q, Some ErrClosed)
      else (q\<lparr>qSeq := qSeq q + 1, qCmds := qCmds q @ [(qSeq q + 1, c)],
              qPosted := qPosted q @ [(qSeq q + 1, PCmd c)]\<rparr>, None))"

text \<open>\<open>PostAudio\<close> never waits: a full queue closes the session. The sequence number is drawn before
  the select decides.\<close>

definition PostAudio :: "nat \<Rightarrow> pcm \<Rightarrow> queues \<Rightarrow> queues \<times> post_error option" where
  "PostAudio capacity p q =
     (if qClosed q \<noteq> None then (q, Some ErrClosed)
      else if length (qAudio q) < capacity
      then (q\<lparr>qSeq := qSeq q + 1, qAudio := qAudio q @ [(qSeq q + 1, p)],
              qPosted := qPosted q @ [(qSeq q + 1, PAudio p)]\<rparr>, None)
      else (q\<lparr>qSeq := qSeq q + 1, qClosed := Some CloseInputOverflow\<rparr>, Some ErrInputQueueFull))"

section \<open>The actor\<close>

definition handle_cmd :: "nat \<times> Command \<Rightarrow> queues \<Rightarrow> queues" where
  "handle_cmd env q = q\<lparr>qHandled := qHandled q @ [(fst env, PCmd (snd env))], qPc := AtLoop\<rparr>"

definition handle_audio :: "nat \<times> pcm \<Rightarrow> queues \<Rightarrow> queues" where
  "handle_audio fr q = q\<lparr>qHandled := qHandled q @ [(fst fr, PAudio (snd fr))], qPc := AtLoop\<rparr>"

text \<open>One iteration of \<open>drainAudioBefore\<close> for the command \<open>env\<close>: leave when the context is done, no
  audio is there, or the next frame is younger; otherwise handle the frame and go on.\<close>

definition drainAudioBefore :: "nat \<times> Command \<Rightarrow> queues \<Rightarrow> queues" where
  "drainAudioBefore env q =
     (if qClosed q \<noteq> None then handle_cmd env q
      else case (qStashAudio q, qAudio q) of
        (None, []) \<Rightarrow> handle_cmd env q
      | (None, fr # rest) \<Rightarrow>
          (if fst env < fst fr then handle_cmd env (q\<lparr>qStashAudio := Some fr, qAudio := rest\<rparr>)
           else (handle_audio fr (q\<lparr>qAudio := rest\<rparr>))\<lparr>qPc := RunCommand env\<rparr>)
      | (Some fr, _) \<Rightarrow>
          (if fst env < fst fr then handle_cmd env q
           else (handle_audio fr (q\<lparr>qStashAudio := None\<rparr>))\<lparr>qPc := RunCommand env\<rparr>))"

definition drainCommandsBefore :: "nat \<times> pcm \<Rightarrow> queues \<Rightarrow> queues" where
  "drainCommandsBefore fr q =
     (if qClosed q \<noteq> None then handle_audio fr q
      else case (qStashCmd q, qCmds q) of
        (None, []) \<Rightarrow> handle_audio fr q
      | (None, env # rest) \<Rightarrow>
          (if fst fr < fst env then handle_audio fr (q\<lparr>qStashCmd := Some env, qCmds := rest\<rparr>)
           else (handle_cmd env (q\<lparr>qCmds := rest\<rparr>))\<lparr>qPc := RunAudio fr\<rparr>)
      | (Some env, _) \<Rightarrow>
          (if fst fr < fst env then handle_audio fr q
           else (handle_cmd env (q\<lparr>qStashCmd := None\<rparr>))\<lparr>qPc := RunAudio fr\<rparr>))"

text \<open>One iteration of \<open>run\<close>: stashed items first, the older of the two; otherwise the select takes the
  head of either queue, here by the choice \<open>cmd_first\<close>, or waits.\<close>

definition run_loop :: "bool \<Rightarrow> queues \<Rightarrow> queues" where
  "run_loop cmd_first q =
     (if qClosed q \<noteq> None then q\<lparr>qPc := Exited\<rparr>
      else case (qStashCmd q, qStashAudio q) of
        (Some env, None) \<Rightarrow> q\<lparr>qStashCmd := None, qPc := RunCommand env\<rparr>
      | (Some env, Some fr) \<Rightarrow>
          (if fst env < fst fr then q\<lparr>qStashCmd := None, qPc := RunCommand env\<rparr>
           else q\<lparr>qStashAudio := None, qPc := RunAudio fr\<rparr>)
      | (None, Some fr) \<Rightarrow> q\<lparr>qStashAudio := None, qPc := RunAudio fr\<rparr>
      | (None, None) \<Rightarrow>
          (case (qCmds q, qAudio q) of
             ([], []) \<Rightarrow> q
           | (env # rest, []) \<Rightarrow> q\<lparr>qCmds := rest, qPc := RunCommand env\<rparr>
           | ([], fr # rest) \<Rightarrow> q\<lparr>qAudio := rest, qPc := RunAudio fr\<rparr>
           | (env # cs, fr # as) \<Rightarrow>
               (if cmd_first then q\<lparr>qCmds := cs, qPc := RunCommand env\<rparr>
                else q\<lparr>qAudio := as, qPc := RunAudio fr\<rparr>)))"

definition actor_step :: "bool \<Rightarrow> queues \<Rightarrow> queues" where
  "actor_step cmd_first q =
     (case qPc q of
        AtLoop \<Rightarrow> run_loop cmd_first q
      | RunCommand env \<Rightarrow> drainAudioBefore env q
      | RunAudio fr \<Rightarrow> drainCommandsBefore fr q
      | Exited \<Rightarrow> q)"

text \<open>Any interleaving of posts, cancellation and actor steps.\<close>

inductive qstep :: "nat \<Rightarrow> nat \<Rightarrow> queues \<Rightarrow> queues \<Rightarrow> bool" for capC capA where
  q_post: "length (qCmds q) < capC \<Longrightarrow> qstep capC capA q (fst (Post c q))"
| q_post_audio: "qstep capC capA q (fst (PostAudio capA p q))"
| q_cancel: "qClosed q = None \<Longrightarrow> qstep capC capA q (q\<lparr>qClosed := Some reason\<rparr>)"
| q_actor: "qstep capC capA q (actor_step cmd_first q)"

section \<open>Invariant\<close>

definition cmd_line :: "queues \<Rightarrow> (nat \<times> posted) list" where
  "cmd_line q = map (\<lambda>(n, c). (n, PCmd c))
     ((case qPc q of RunCommand env \<Rightarrow> [env] | _ \<Rightarrow> []) @ (case qStashCmd q of None \<Rightarrow> [] | Some env \<Rightarrow> [env]) @ qCmds q)"

definition audio_line :: "queues \<Rightarrow> (nat \<times> posted) list" where
  "audio_line q = map (\<lambda>(n, p). (n, PAudio p))
     ((case qPc q of RunAudio fr \<Rightarrow> [fr] | _ \<Rightarrow> []) @ (case qStashAudio q of None \<Rightarrow> [] | Some fr \<Rightarrow> [fr]) @ qAudio q)"

text \<open>Entries in order, by sequence number.\<close>

definition ascending :: "(nat \<times> posted) list \<Rightarrow> bool" where
  "ascending xs \<longleftrightarrow> sorted_wrt (<) (map fst xs)"

definition before :: "(nat \<times> posted) list \<Rightarrow> (nat \<times> posted) list \<Rightarrow> bool" where
  "before xs ys \<longleftrightarrow> (\<forall>x \<in> set xs. \<forall>y \<in> set ys. fst x < fst y)"

text \<open>While a command waits for audio to drain no other command is stashed, and vice versa; the actor
  never holds two stashed items at its loop.\<close>

definition stash_ok :: "queues \<Rightarrow> bool" where
  "stash_ok q \<longleftrightarrow>
     (case qPc q of RunCommand env \<Rightarrow> qStashCmd q = None | RunAudio fr \<Rightarrow> qStashAudio q = None
      | _ \<Rightarrow> qStashCmd q = None \<or> qStashAudio q = None)"

definition lines_ok :: "queues \<Rightarrow> bool" where
  "lines_ok q \<longleftrightarrow> ascending (cmd_line q) \<and> ascending (audio_line q) \<and>
     fst ` set (cmd_line q) \<inter> fst ` set (audio_line q) = {} \<and>
     before (qHandled q) (cmd_line q @ audio_line q) \<and>
     set (qPosted q) = set (qHandled q) \<union> set (cmd_line q) \<union> set (audio_line q)"

text \<open>After the cancellation the item being run may still be handled, and then the actor leaves.\<close>

definition leaving_ok :: "queues \<Rightarrow> bool" where
  "leaving_ok q \<longleftrightarrow>
     (case qPc q of
        RunCommand env \<Rightarrow> before (qHandled q) [(fst env, PCmd (snd env))] \<and> (fst env, PCmd (snd env)) \<in> set (qPosted q)
      | RunAudio fr \<Rightarrow> before (qHandled q) [(fst fr, PAudio (snd fr))] \<and> (fst fr, PAudio (snd fr)) \<in> set (qPosted q)
      | _ \<Rightarrow> True)"

definition queue_inv :: "queues \<Rightarrow> bool" where
  "queue_inv q \<longleftrightarrow>
     ascending (qPosted q) \<and> (\<forall>x \<in> set (qPosted q). fst x \<le> qSeq q) \<and>
     ascending (qHandled q) \<and> set (qHandled q) \<subseteq> set (qPosted q) \<and>
     (if qClosed q = None then stash_ok q \<and> lines_ok q \<and> qPc q \<noteq> Exited else leaving_ok q)"

lemma ascending_append: "ascending (xs @ ys) \<longleftrightarrow> ascending xs \<and> ascending ys \<and> before xs ys"
  by (auto simp: ascending_def before_def sorted_wrt_append)

lemma ascending_simps [simp]:
  "ascending []" "ascending [x]" "ascending (x # xs) \<longleftrightarrow> (\<forall>y \<in> set xs. fst x < fst y) \<and> ascending xs"
  by (auto simp: ascending_def)

lemma newQueues_inv: "queue_inv newQueues"
  by (simp add: newQueues_def queue_inv_def stash_ok_def lines_ok_def cmd_line_def audio_line_def before_def)

text \<open>What a step does to the two lines: nothing, a new entry at the end, or the oldest entry moves to
  the handled ones.\<close>

definition order_ok :: "(nat \<times> posted) list \<Rightarrow> (nat \<times> posted) list \<Rightarrow> (nat \<times> posted) list \<Rightarrow> (nat \<times> posted) list \<Rightarrow> bool" where
  "order_ok posted handled cs as \<longleftrightarrow>
     ascending posted \<and> ascending handled \<and> ascending cs \<and> ascending as \<and>
     fst ` set cs \<inter> fst ` set as = {} \<and> before handled (cs @ as) \<and> set posted = set handled \<union> set cs \<union> set as"

lemma before_simps [simp]:
  "before (xs @ ys) zs \<longleftrightarrow> before xs zs \<and> before ys zs" "before xs (ys @ zs) \<longleftrightarrow> before xs ys \<and> before xs zs"
  "before [] ys" "before xs []" "before xs (y # ys) \<longleftrightarrow> (\<forall>x \<in> set xs. fst x < fst y) \<and> before xs ys"
  by (auto simp: before_def)

lemma order_ok_post:
  assumes "order_ok posted handled cs as" "\<forall>x \<in> set posted. fst x < fst y"
  shows "order_ok (posted @ [y]) handled (cs @ [y]) as" "order_ok (posted @ [y]) handled cs (as @ [y])"
proof -
  have lt: "before handled [y]" "before cs [y]" "before as [y]" "before posted [y]"
    using assms by (auto simp: order_ok_def before_def)
  then have "fst y \<notin> fst ` set cs" "fst y \<notin> fst ` set as" by (auto simp: before_def)
  then show "order_ok (posted @ [y]) handled (cs @ [y]) as" "order_ok (posted @ [y]) handled cs (as @ [y])"
    using assms(1) lt by (auto simp: order_ok_def ascending_append)
qed

lemma order_ok_cmd:
  assumes "order_ok posted handled (x # cs) as" "before [x] as"
  shows "order_ok posted (handled @ [x]) cs as"
  using assms by (auto simp: order_ok_def ascending_append before_def)

lemma order_ok_audio:
  assumes "order_ok posted handled cs (x # as)" "before [x] cs"
  shows "order_ok posted (handled @ [x]) cs as"
  using assms by (auto simp: order_ok_def ascending_append before_def)

lemma queue_inv_open:
  "qClosed q = None \<Longrightarrow> queue_inv q \<longleftrightarrow>
     order_ok (qPosted q) (qHandled q) (cmd_line q) (audio_line q) \<and> (\<forall>x \<in> set (qPosted q). fst x \<le> qSeq q) \<and>
     stash_ok q \<and> qPc q \<noteq> Exited"
  by (auto simp: queue_inv_def order_ok_def lines_ok_def)

lemma queue_inv_closed:
  "qClosed q \<noteq> None \<Longrightarrow> queue_inv q \<longleftrightarrow>
     ascending (qPosted q) \<and> (\<forall>x \<in> set (qPosted q). fst x \<le> qSeq q) \<and>
     ascending (qHandled q) \<and> set (qHandled q) \<subseteq> set (qPosted q) \<and> leaving_ok q"
  by (auto simp: queue_inv_def)

lemma cmd_line_post [simp]:
  "cmd_line (q\<lparr>qSeq := n, qCmds := qCmds q @ [(k, c)], qPosted := ps\<rparr>) = cmd_line q @ [(k, PCmd c)]"
  "audio_line (q\<lparr>qSeq := n, qCmds := cs, qPosted := ps\<rparr>) = audio_line q"
  "audio_line (q\<lparr>qSeq := n, qAudio := qAudio q @ [(k, p)], qPosted := ps\<rparr>) = audio_line q @ [(k, PAudio p)]"
  "cmd_line (q\<lparr>qSeq := n, qAudio := as, qPosted := ps\<rparr>) = cmd_line q"
  by (simp_all add: cmd_line_def audio_line_def)

lemma stash_ok_post [simp]:
  "stash_ok (q\<lparr>qSeq := n, qCmds := cs, qPosted := ps\<rparr>) = stash_ok q"
  "stash_ok (q\<lparr>qSeq := n, qAudio := as, qPosted := ps\<rparr>) = stash_ok q"
  by (simp_all add: stash_ok_def split: pc.split)

lemma Post_inv:
  assumes "queue_inv q"
  shows "queue_inv (fst (Post c q))"
proof (cases "qClosed q")
  case None
  then have "order_ok (qPosted q @ [(qSeq q + 1, PCmd c)]) (qHandled q) (cmd_line q @ [(qSeq q + 1, PCmd c)]) (audio_line q)"
    using assms by (intro order_ok_post) (auto simp: queue_inv_open less_Suc_eq_le)
  then show ?thesis using assms None by (auto simp: Post_def queue_inv_open)
qed (use assms in \<open>simp add: Post_def\<close>)

text \<open>Cancelling: the item being run was the next of its line.\<close>

lemma cancel_inv:
  assumes "queue_inv q" "qClosed q = None"
  shows "queue_inv (q\<lparr>qClosed := Some reason\<rparr>)"
proof -
  have o: "order_ok (qPosted q) (qHandled q) (cmd_line q) (audio_line q)" using assms by (simp add: queue_inv_open)
  have "leaving_ok (q\<lparr>qClosed := Some reason\<rparr>)"
    using o by (auto simp: leaving_ok_def order_ok_def cmd_line_def audio_line_def split: pc.splits)
  then show ?thesis using assms o by (auto simp: queue_inv_open queue_inv_closed order_ok_def)
qed

lemma PostAudio_inv:
  assumes "queue_inv q"
  shows "queue_inv (fst (PostAudio capacity p q))"
proof (cases "qClosed q")
  case None
  show ?thesis
  proof (cases "length (qAudio q) < capacity")
    case True
    have "order_ok (qPosted q @ [(qSeq q + 1, PAudio p)]) (qHandled q) (cmd_line q) (audio_line q @ [(qSeq q + 1, PAudio p)])"
      using assms None by (intro order_ok_post) (auto simp: queue_inv_open less_Suc_eq_le)
    then show ?thesis using assms None True by (auto simp: PostAudio_def queue_inv_open)
  next
    case False
    have "queue_inv (q\<lparr>qClosed := Some CloseInputOverflow\<rparr>)" by (rule cancel_inv [OF assms None])
    then show ?thesis using None False
      by (auto simp: PostAudio_def queue_inv_closed leaving_ok_def le_SucI split: pc.splits)
  qed
qed (use assms in \<open>simp add: PostAudio_def\<close>)

lemma run_loop_inv:
  assumes "queue_inv q" "qPc q = AtLoop"
  shows "queue_inv (run_loop b q)"
proof (cases "qClosed q")
  case None
  have "cmd_line (run_loop b q) = cmd_line q \<and> audio_line (run_loop b q) = audio_line q \<and> stash_ok (run_loop b q) \<and>
        qPc (run_loop b q) \<noteq> Exited \<and> qClosed (run_loop b q) = None \<and> qPosted (run_loop b q) = qPosted q \<and>
        qHandled (run_loop b q) = qHandled q \<and> qSeq (run_loop b q) = qSeq q"
    using assms None
    by (auto simp: queue_inv_open run_loop_def cmd_line_def audio_line_def stash_ok_def
        split: option.splits list.splits)
  then show ?thesis using assms None by (simp add: queue_inv_open)
next
  case (Some r)
  then show ?thesis using assms by (simp add: queue_inv_closed run_loop_def leaving_ok_def)
qed

text \<open>Handling the command being run, when no waiting frame is older; handling a frame that is.\<close>

lemma handle_cmd_inv:
  assumes "queue_inv q" "qClosed q = None" "qPc q = RunCommand env"
    "before [(fst env, PCmd (snd env))] (audio_line q)" "qStashCmd q = None"
  shows "queue_inv (handle_cmd env q)"
proof -
  have "cmd_line q = (fst env, PCmd (snd env)) # cmd_line (handle_cmd env q)" "audio_line (handle_cmd env q) = audio_line q"
    using assms(3,5) by (simp_all add: cmd_line_def audio_line_def handle_cmd_def split: prod.splits)
  then show ?thesis using assms order_ok_cmd [of "qPosted q" "qHandled q" "(fst env, PCmd (snd env))"]
    by (auto simp: queue_inv_open handle_cmd_def stash_ok_def)
qed

lemma handle_audio_inv:
  assumes "queue_inv q" "qClosed q = None" "qPc q = RunAudio fr"
    "before [(fst fr, PAudio (snd fr))] (cmd_line q)" "qStashAudio q = None"
  shows "queue_inv (handle_audio fr q)"
proof -
  have "audio_line q = (fst fr, PAudio (snd fr)) # audio_line (handle_audio fr q)" "cmd_line (handle_audio fr q) = cmd_line q"
    using assms(3,5) by (simp_all add: cmd_line_def audio_line_def handle_audio_def split: prod.splits)
  then show ?thesis using assms order_ok_audio [of "qPosted q" "qHandled q" _ "(fst fr, PAudio (snd fr))"]
    by (auto simp: queue_inv_open handle_audio_def stash_ok_def)
qed

lemma leave_cmd_inv:
  "queue_inv q \<Longrightarrow> qClosed q \<noteq> None \<Longrightarrow> qPc q = RunCommand env \<Longrightarrow> queue_inv (handle_cmd env q)"
  by (auto simp: queue_inv_closed handle_cmd_def leaving_ok_def ascending_append)

lemma leave_audio_inv:
  "queue_inv q \<Longrightarrow> qClosed q \<noteq> None \<Longrightarrow> qPc q = RunAudio fr \<Longrightarrow> queue_inv (handle_audio fr q)"
  by (auto simp: queue_inv_closed handle_audio_def leaving_ok_def ascending_append)


lemma before_head:
  "ascending (y # ys) \<Longrightarrow> fst x < fst y \<Longrightarrow> before [x] (y # ys)"
  by (auto simp: before_def)

lemma before_head_le:
  "order_ok ps hs (y # ys) (x # xs) \<Longrightarrow> fst x \<le> fst y \<Longrightarrow> before [x] (y # ys)"
  "order_ok ps hs (x # xs) (y # ys) \<Longrightarrow> fst x \<le> fst y \<Longrightarrow> before [x] (y # ys)"
  by (fastforce simp: order_ok_def before_def)+

text \<open>A frame taken from its line while the command \<open>env\<close> waits, and the converse.\<close>

lemma take_frame_inv:
  assumes "queue_inv q" "qClosed q = None" "qPc q = RunCommand env"
    "audio_line q = (fst fr, PAudio (snd fr)) # audio_line q'" "cmd_line q' = cmd_line q" "fst fr \<le> fst env"
    "qStashCmd q' = None" "qClosed q' = None" "qPc q' = RunCommand env" "qPosted q' = qPosted q" "qSeq q' = qSeq q"
    "qHandled q' = qHandled q @ [(fst fr, PAudio (snd fr))]" "qStashCmd q = None"
  shows "queue_inv q'"
proof -
  have o: "order_ok (qPosted q) (qHandled q) (cmd_line q) (audio_line q)" using assms by (simp add: queue_inv_open)
  have "cmd_line q = (fst env, PCmd (snd env)) # map (\<lambda>(n, c). (n, PCmd c)) (qCmds q)"
    using assms(3,13) by (simp add: cmd_line_def split: prod.splits)
  then have "before [(fst fr, PAudio (snd fr))] (cmd_line q)"
    using before_head_le(1) [of "qPosted q" "qHandled q" _ _ "(fst fr, PAudio (snd fr))"] o assms(4,6) by auto
  from order_ok_audio [OF o [unfolded assms(4)] this] show ?thesis
    using assms by (simp add: queue_inv_open stash_ok_def)
qed

lemma take_cmd_inv:
  assumes "queue_inv q" "qClosed q = None" "qPc q = RunAudio fr"
    "cmd_line q = (fst env, PCmd (snd env)) # cmd_line q'" "audio_line q' = audio_line q" "fst env \<le> fst fr"
    "qStashAudio q' = None" "qClosed q' = None" "qPc q' = RunAudio fr" "qPosted q' = qPosted q" "qSeq q' = qSeq q"
    "qHandled q' = qHandled q @ [(fst env, PCmd (snd env))]" "qStashAudio q = None"
  shows "queue_inv q'"
proof -
  have o: "order_ok (qPosted q) (qHandled q) (cmd_line q) (audio_line q)" using assms by (simp add: queue_inv_open)
  have "audio_line q = (fst fr, PAudio (snd fr)) # map (\<lambda>(n, c). (n, PAudio c)) (qAudio q)"
    using assms(3,13) by (simp add: audio_line_def split: prod.splits)
  then have "before [(fst env, PCmd (snd env))] (audio_line q)"
    using before_head_le(2) [of "qPosted q" "qHandled q" "(fst env, PCmd (snd env))"] o assms(4,6) by auto
  from order_ok_cmd [OF o [unfolded assms(4)] this] show ?thesis
    using assms by (simp add: queue_inv_open stash_ok_def)
qed

text \<open>Moving the head of a queue to its stash leaves the line as it was.\<close>

lemma stash_audio_inv:
  "queue_inv q \<Longrightarrow> qClosed q = None \<Longrightarrow> qStashAudio q = None \<Longrightarrow> qAudio q = fr # rest \<Longrightarrow> qPc q = RunCommand env \<Longrightarrow>
   queue_inv (q\<lparr>qStashAudio := Some fr, qAudio := rest\<rparr>) \<and>
   audio_line (q\<lparr>qStashAudio := Some fr, qAudio := rest\<rparr>) = audio_line q"
  by (auto simp: queue_inv_open stash_ok_def cmd_line_def audio_line_def)

lemma stash_cmd_inv:
  "queue_inv q \<Longrightarrow> qClosed q = None \<Longrightarrow> qStashCmd q = None \<Longrightarrow> qCmds q = env # rest \<Longrightarrow> qPc q = RunAudio fr \<Longrightarrow>
   queue_inv (q\<lparr>qStashCmd := Some env, qCmds := rest\<rparr>) \<and>
   cmd_line (q\<lparr>qStashCmd := Some env, qCmds := rest\<rparr>) = cmd_line q"
  by (auto simp: queue_inv_open stash_ok_def cmd_line_def audio_line_def)

lemma drainAudioBefore_inv:
  assumes "queue_inv q" "qPc q = RunCommand env"
  shows "queue_inv (drainAudioBefore env q)"
proof (cases "qClosed q")
  case (Some r)
  then show ?thesis using leave_cmd_inv [OF assms(1) _ assms(2)] by (simp add: drainAudioBefore_def)
next
  case live: None
  have st: "qStashCmd q = None" using assms live by (simp add: queue_inv_open stash_ok_def)
  have asc: "ascending (audio_line q)" using assms live by (simp add: queue_inv_open order_ok_def)
  show ?thesis
  proof (cases "qStashAudio q")
    case stash: (Some fr)
    have al: "audio_line q = (fst fr, PAudio (snd fr)) # map (\<lambda>(n, c). (n, PAudio c)) (qAudio q)"
      using assms(2) stash by (simp add: audio_line_def split: prod.splits)
    show ?thesis
    proof (cases "fst env < fst fr")
      case True
      then have "before [(fst env, PCmd (snd env))] (audio_line q)" using asc before_head unfolding al by fastforce
      then show ?thesis using handle_cmd_inv [OF assms(1) live assms(2) _ st] True live stash
        by (simp add: drainAudioBefore_def)
    next
      case False
      then show ?thesis using live stash st assms al
        by (auto simp: drainAudioBefore_def handle_audio_def cmd_line_def audio_line_def
            intro!: take_frame_inv [OF assms(1) live assms(2)])
    qed
  next
    case stash: None
    show ?thesis
    proof (cases "qAudio q")
      case Nil
      then have "audio_line q = []" using assms(2) stash by (simp add: audio_line_def)
      then show ?thesis using handle_cmd_inv [OF assms(1) live assms(2) _ st] Nil live stash
        by (simp add: drainAudioBefore_def)
    next
      case (Cons fr rest)
      have al: "audio_line q = (fst fr, PAudio (snd fr)) # map (\<lambda>(n, c). (n, PAudio c)) rest"
        using assms(2) stash Cons by (simp add: audio_line_def split: prod.splits)
      show ?thesis
      proof (cases "fst env < fst fr")
        case True
        then have b: "before [(fst env, PCmd (snd env))] (audio_line q)" using asc before_head unfolding al by fastforce
        have "queue_inv (handle_cmd env (q\<lparr>qStashAudio := Some fr, qAudio := rest\<rparr>))"
          using stash_audio_inv [OF assms(1) live stash Cons assms(2)] b live st assms(2)
          by (intro handle_cmd_inv) simp_all
        then show ?thesis using True live stash Cons by (simp add: drainAudioBefore_def)
      next
        case False
        then show ?thesis using live stash st assms al Cons
          by (auto simp: drainAudioBefore_def handle_audio_def cmd_line_def audio_line_def
              intro!: take_frame_inv [OF assms(1) live assms(2)])
      qed
    qed
  qed
qed

lemma drainCommandsBefore_inv:
  assumes "queue_inv q" "qPc q = RunAudio fr"
  shows "queue_inv (drainCommandsBefore fr q)"
proof (cases "qClosed q")
  case (Some r)
  then show ?thesis using leave_audio_inv [OF assms(1) _ assms(2)] by (simp add: drainCommandsBefore_def)
next
  case live: None
  have st: "qStashAudio q = None" using assms live by (simp add: queue_inv_open stash_ok_def)
  have asc: "ascending (cmd_line q)" using assms live by (simp add: queue_inv_open order_ok_def)
  show ?thesis
  proof (cases "qStashCmd q")
    case stash: (Some env)
    have al: "cmd_line q = (fst env, PCmd (snd env)) # map (\<lambda>(n, c). (n, PCmd c)) (qCmds q)"
      using assms(2) stash by (simp add: cmd_line_def split: prod.splits)
    show ?thesis
    proof (cases "fst fr < fst env")
      case True
      then have "before [(fst fr, PAudio (snd fr))] (cmd_line q)" using asc before_head unfolding al by fastforce
      then show ?thesis using handle_audio_inv [OF assms(1) live assms(2) _ st] True live stash
        by (simp add: drainCommandsBefore_def)
    next
      case False
      then show ?thesis using live stash st assms al
        by (auto simp: drainCommandsBefore_def handle_cmd_def cmd_line_def audio_line_def
            intro!: take_cmd_inv [OF assms(1) live assms(2)])
    qed
  next
    case stash: None
    show ?thesis
    proof (cases "qCmds q")
      case Nil
      then have "cmd_line q = []" using assms(2) stash by (simp add: cmd_line_def)
      then show ?thesis using handle_audio_inv [OF assms(1) live assms(2) _ st] Nil live stash
        by (simp add: drainCommandsBefore_def)
    next
      case (Cons env rest)
      have al: "cmd_line q = (fst env, PCmd (snd env)) # map (\<lambda>(n, c). (n, PCmd c)) rest"
        using assms(2) stash Cons by (simp add: cmd_line_def split: prod.splits)
      show ?thesis
      proof (cases "fst fr < fst env")
        case True
        then have b: "before [(fst fr, PAudio (snd fr))] (cmd_line q)" using asc before_head unfolding al by fastforce
        have "queue_inv (handle_audio fr (q\<lparr>qStashCmd := Some env, qCmds := rest\<rparr>))"
          using stash_cmd_inv [OF assms(1) live stash Cons assms(2)] b live st assms(2)
          by (intro handle_audio_inv) simp_all
        then show ?thesis using True live stash Cons by (simp add: drainCommandsBefore_def)
      next
        case False
        then show ?thesis using live stash st assms al Cons
          by (auto simp: drainCommandsBefore_def handle_cmd_def cmd_line_def audio_line_def
              intro!: take_cmd_inv [OF assms(1) live assms(2)])
      qed
    qed
  qed
qed

lemma qstep_inv: "qstep capC capA q q' \<Longrightarrow> queue_inv q \<Longrightarrow> queue_inv q'"
proof (induction rule: qstep.induct)
  case (q_actor q b)
  then show ?case
    using run_loop_inv drainAudioBefore_inv drainCommandsBefore_inv by (simp add: actor_step_def split: pc.split)
qed (simp_all add: Post_inv PostAudio_inv cancel_inv)

inductive qreach :: "nat \<Rightarrow> nat \<Rightarrow> queues \<Rightarrow> bool" for capC capA where
  qreach_init: "qreach capC capA newQueues"
| qreach_step: "qreach capC capA q \<Longrightarrow> qstep capC capA q q' \<Longrightarrow> qreach capC capA q'"

lemma qreach_inv: "qreach capC capA q \<Longrightarrow> queue_inv q"
  by (induction rule: qreach.induct) (auto intro: newQueues_inv qstep_inv)


section \<open>Progress\<close>

text \<open>How far the held items are from their handlers.\<close>

definition distance :: "queues \<Rightarrow> nat" where
  "distance q =
     3 * (length (qCmds q) + length (qAudio q)) + (if qStashCmd q = None then 0 else 2) +
     (if qStashAudio q = None then 0 else 2) + (case qPc q of RunCommand _ \<Rightarrow> 1 | RunAudio _ \<Rightarrow> 1 | _ \<Rightarrow> 0)"

lemma actor_frame:
  "qClosed q = None \<Longrightarrow> qPc q \<noteq> Exited \<Longrightarrow> qClosed (actor_step b q) = None \<and> qPosted (actor_step b q) = qPosted q"
  by (simp add: actor_step_def run_loop_def drainAudioBefore_def drainCommandsBefore_def handle_cmd_def handle_audio_def
      split: pc.splits option.splits list.splits)

lemma run_loop_progress:
  "qClosed q = None \<Longrightarrow> qPc q = AtLoop \<Longrightarrow> 0 < distance q \<Longrightarrow> distance (run_loop b q) < distance q"
  by (cases "qStashCmd q"; cases "qStashAudio q"; cases "qCmds q"; cases "qAudio q")
     (simp_all add: distance_def run_loop_def)

lemma drain_audio_progress:
  "qClosed q = None \<Longrightarrow> qPc q = RunCommand env \<Longrightarrow> distance (drainAudioBefore env q) < distance q"
  by (cases "qStashAudio q"; cases "qAudio q") (simp_all add: distance_def drainAudioBefore_def handle_cmd_def handle_audio_def)

lemma drain_commands_progress:
  "qClosed q = None \<Longrightarrow> qPc q = RunAudio fr \<Longrightarrow> distance (drainCommandsBefore fr q) < distance q"
  by (cases "qStashCmd q"; cases "qCmds q") (simp_all add: distance_def drainCommandsBefore_def handle_cmd_def handle_audio_def)

lemma actor_progress:
  "qClosed q = None \<Longrightarrow> 0 < distance q \<Longrightarrow> qPc q \<noteq> Exited \<Longrightarrow> distance (actor_step b q) < distance q"
  by (cases "qPc q") (simp_all add: actor_step_def run_loop_progress drain_audio_progress drain_commands_progress)

lemma distance_zero:
  assumes "queue_inv q" "qClosed q = None" "distance q = 0"
  shows "set (qHandled q) = set (qPosted q)"
proof -
  have "cmd_line q = []" "audio_line q = []"
    using assms(3) by (auto simp: distance_def cmd_line_def audio_line_def split: if_splits pc.splits)
  then show ?thesis using assms(1,2) by (simp add: queue_inv_open order_ok_def)
qed

lemma ascending_unique: "ascending xs \<Longrightarrow> ascending ys \<Longrightarrow> set xs = set ys \<Longrightarrow> xs = ys"
proof (induction xs arbitrary: ys)
  case (Cons x xs)
  obtain y zs where y: "ys = y # zs" using Cons.prems(3) by (cases ys) auto
  have "x = y"
  proof (rule ccontr)
    assume "x \<noteq> y"
    then have "x \<in> set zs" "y \<in> set xs" using Cons.prems(3) y by auto
    then show False using Cons.prems(1,2) y by fastforce
  qed
  moreover have "x \<notin> set xs" "y \<notin> set zs" using Cons.prems(1,2) y by auto
  ultimately have "set xs = set zs" using Cons.prems(3) y by auto
  then show ?case using Cons.IH [of zs] Cons.prems y \<open>x = y\<close> by simp
qed simp

lemma ascending_prefix:
  assumes "ascending ps" "ascending hs" "set hs \<subseteq> set ps" "before hs (filter (\<lambda>x. x \<notin> set hs) ps)"
  shows "ps = hs @ filter (\<lambda>x. x \<notin> set hs) ps"
proof (rule ascending_unique [OF assms(1)])
  have "ascending (filter P ps)" for P
    using assms(1) by (auto simp: ascending_def sorted_wrt_map intro: sorted_wrt_filter)
  then show "ascending (hs @ filter (\<lambda>x. x \<notin> set hs) ps)" using assms(2,4) by (simp add: ascending_append)
qed (use assms(3) in auto)

lemma subseq_ascending:
  assumes "ascending ps" "ascending hs" "set hs \<subseteq> set ps"
  shows "subseq hs ps"
proof -
  have "ascending (filter (\<lambda>x. x \<in> set hs) ps)"
    using assms(1) by (auto simp: ascending_def sorted_wrt_map intro: sorted_wrt_filter)
  then have "hs = filter (\<lambda>x. x \<in> set hs) ps" using assms(2,3) by (intro ascending_unique) auto
  then show ?thesis by (metis subseq_filter_left)
qed

section \<open>Properties\<close>

text \<open>\<^bold>\<open>C8\<close>: although commands and audio travel on two queues and posts interleave freely with the
  actor, items reach their handlers exactly in the order they were posted: while the session is open
  the handled items are a prefix of the posted ones.\<close>

theorem arrival_order:
  assumes "qreach capC capA q" "qClosed q = None"
  shows "\<exists>waiting. qPosted q = qHandled q @ waiting"
proof -
  have o: "order_ok (qPosted q) (qHandled q) (cmd_line q) (audio_line q)"
    using qreach_inv [OF assms(1)] assms(2) by (simp add: queue_inv_open)
  then have "before (qHandled q) (filter (\<lambda>x. x \<notin> set (qHandled q)) (qPosted q))"
    unfolding order_ok_def before_def set_append set_filter by blast
  then show ?thesis using ascending_prefix o by (metis order_ok_def Un_upper1 sup.assoc)
qed

text \<open>Also after the session was cancelled nothing is handled out of order or twice: the
  handled items are always a subsequence of the posted ones.\<close>

theorem never_out_of_order:
  assumes "qreach capC capA q"
  shows "subseq (qHandled q) (qPosted q)"
  using qreach_inv [OF assms] by (intro subseq_ascending) (auto simp: queue_inv_def)


text \<open>A run: two frames and a commit are posted, and the select prefers the command.\<close>

definition sample_queues :: queues where
  "sample_queues = fst (Post (CmdCommitAudio ''e'') (fst (PostAudio 8 [2] (fst (PostAudio 8 [1] newQueues)))))"

lemma sample_reach: "qreach 4 8 sample_queues"
proof -
  have "qreach 4 8 (fst (PostAudio 8 [1] newQueues))" using qreach_init q_post_audio by (rule qreach_step)
  then have "qreach 4 8 (fst (PostAudio 8 [2] (fst (PostAudio 8 [1] newQueues))))" using q_post_audio by (rule qreach_step)
  then show ?thesis unfolding sample_queues_def
    by (rule qreach_step) (rule q_post, simp add: PostAudio_def newQueues_def)
qed

lemma sample_open: "qClosed sample_queues = None"
  by (simp add: sample_queues_def Post_def PostAudio_def newQueues_def)

theorem arrival_order_witness: "\<exists>waiting. qPosted sample_queues = qHandled sample_queues @ waiting"
  by (rule arrival_order [OF sample_reach sample_open])

theorem never_out_of_order_witness: "subseq (qHandled sample_queues) (qPosted sample_queues)"
  by (rule never_out_of_order [OF sample_reach])


end
