(* ===== verification/Json.thy ===== *)
theory Json
  imports Config
begin

text \<open>
  What the gateway uses of \<^verbatim>\<open>encoding/json\<close> and \<^verbatim>\<open>strconv\<close>: reading a decoded JSON value into a Go
  string, boolean or float64, integer literals, and the codecs of \<^verbatim>\<open>internal/config/types.go\<close>.
  Decoding JSON null into a Go scalar succeeds and leaves the zero value. A number literal is a float64
  by rounding its exact decimal value, and an error when that overflows; literals below the normal range
  are rounded as if exponents were unbounded.
\<close>

section \<open>Number literals\<close>

definition is_digit :: "char \<Rightarrow> bool" where "is_digit c \<longleftrightarrow> 48 \<le> byte c \<and> byte c \<le> 57"

definition digits_value :: "string \<Rightarrow> nat" where
  "digits_value s = foldl (\<lambda>n c. 10 * n + (byte c - 48)) 0 s"

text \<open>An optional sign.\<close>

definition split_sign :: "string \<Rightarrow> bool \<times> string" where
  "split_sign s = (case s of [] \<Rightarrow> (False, [])
     | c # r \<Rightarrow> if c = CHR ''-'' then (True, r) else if c = CHR ''+'' then (False, r) else (False, s))"

definition Atoi :: "string \<Rightarrow> int option" where
  "Atoi s =
     (let (neg, ds) = split_sign s; v = (if neg then - int (digits_value ds) else int (digits_value ds))
      in if ds \<noteq> [] \<and> list_all is_digit ds \<and> in_i64 v then Some v else None)"

text \<open>\<open>[-]digits[.digits][e[+-]digits]\<close>\<close>

definition num_value :: "string \<Rightarrow> rat" where
  "num_value s =
     (let (neg, r) = split_sign s;
          ip = takeWhile is_digit r; r1 = dropWhile is_digit r;
          fp = (case r1 of c # q \<Rightarrow> if c = CHR ''.'' then takeWhile is_digit q else [] | [] \<Rightarrow> []);
          r2 = (case r1 of c # q \<Rightarrow> if c = CHR ''.'' then dropWhile is_digit q else r1 | [] \<Rightarrow> []);
          (eneg, ed) = (case r2 of c # q \<Rightarrow> split_sign q | [] \<Rightarrow> (False, []));
          ex = (if eneg then - int (digits_value ed) else int (digits_value ed));
          m = (of_nat (digits_value (ip @ fp)) :: rat) * 10 powi (ex - int (length fp))
      in if neg then - m else m)"

definition int_str :: "int \<Rightarrow> string" where
  "int_str i = (if i < 0 then CHR ''-'' # nat_str (nat (- i)) else nat_str (nat i))"

lemma digits_value_snoc: "digits_value (s @ [c]) = 10 * digits_value s + (byte c - 48)"
  by (simp add: digits_value_def)

lemma nat_str_props: "digits_value (nat_str n) = n \<and> list_all is_digit (nat_str n) \<and> nat_str n \<noteq> []"
proof (induction n rule: nat_str.induct)
  case (1 n)
  show ?case
  proof (cases "n < 10")
    case True
    then show ?thesis by (simp add: nat_str.simps [of n] digits_value_def is_digit_def byte_char_of)
  next
    case False
    have "48 + n mod 10 < 256" "n mod 10 < 10" by simp_all
    then show ?thesis using 1 [OF False] False
      by (simp add: nat_str.simps [of n] digits_value_snoc is_digit_def byte_char_of del: mod_less_divisor)
  qed
qed

lemma nat_str_sign: "split_sign (nat_str n) = (False, nat_str n)"
proof -
  obtain c r where "nat_str n = c # r" using nat_str_props [of n] by (cases "nat_str n") auto
  then show ?thesis using nat_str_props [of n] by (auto simp: split_sign_def is_digit_def)
qed

lemma int_str_sign: "split_sign (int_str i) = (i < 0, nat_str (nat \<bar>i\<bar>))"
  by (auto simp: int_str_def nat_str_sign) (simp add: split_sign_def)

lemma Atoi_int_str: "in_i64 i \<Longrightarrow> Atoi (int_str i) = Some i"
  using nat_str_props [of "nat \<bar>i\<bar>"] by (auto simp: Atoi_def int_str_sign)

lemma num_value_int_str: "num_value (int_str i) = of_int i"
proof -
  have w: "takeWhile is_digit (nat_str n) = nat_str n" "dropWhile is_digit (nat_str n) = []" for n
    using nat_str_props [of n] by (auto simp: list_all_iff takeWhile_eq_all_conv dropWhile_eq_Nil_conv)
  have z: "digits_value [] = 0" "digits_value (nat_str n) = n" for n
    using nat_str_props [of n] by (simp_all add: digits_value_def)
  show ?thesis by (simp add: num_value_def int_str_sign w z Let_def)
qed

section \<open>Scalars\<close>

definition json_string :: "json \<Rightarrow> string option" where
  "json_string j = (case j of JStr s \<Rightarrow> Some s | JNull \<Rightarrow> Some [] | _ \<Rightarrow> None)"

definition json_bool :: "json \<Rightarrow> bool option" where
  "json_bool j = (case j of JBool b \<Rightarrow> Some b | JNull \<Rightarrow> Some False | _ \<Rightarrow> None)"

definition json_float :: "json \<Rightarrow> f64 option" where
  "json_float j = (case j of
     JNum l \<Rightarrow> let f = f64_round (num_value l) in if \<bar>f\<bar> < 2 ^ 1024 then Some f else None
   | JNull \<Rightarrow> Some 0 | _ \<Rightarrow> None)"

lemma json_float_one: "json_float (JNum ''1'') = Some 1"
proof -
  have "char_of (49 :: nat) = CHR ''1''" by code_simp
  then have "num_value ''1'' = 1" using num_value_int_str [of 1] by (simp add: int_str_def nat_str.simps)
  then show ?thesis using f64_round_int [of 1] by (simp add: json_float_def)
qed

section \<open>types.go\<close>

definition MaxOutputTokens_Marshal :: "MaxOutputTokens \<Rightarrow> json" where
  "MaxOutputTokens_Marshal m = (if motInf m then JStr ''inf'' else JNum (int_str (motN m)))"

definition MaxOutputTokens_Unmarshal :: "json \<Rightarrow> MaxOutputTokens option" where
  "MaxOutputTokens_Unmarshal j =
     (case json_string j of
        Some s \<Rightarrow> if s = ''inf'' then Some \<lparr>motInf = True, motN = 0\<rparr> else None
      | None \<Rightarrow> (case j of JNum l \<Rightarrow> map_option (\<lambda>n. \<lparr>motInf = False, motN = n\<rparr>) (Atoi l) | _ \<Rightarrow> None))"

lemma max_tokens_roundtrip:
  "in_i64 (motN m) \<Longrightarrow>
   MaxOutputTokens_Unmarshal (MaxOutputTokens_Marshal m) = Some (if motInf m then \<lparr>motInf = True, motN = 0\<rparr> else m)"
  by (simp add: MaxOutputTokens_Marshal_def MaxOutputTokens_Unmarshal_def json_string_def Atoi_int_str)

end
