(* ===== verification/Base64.thy ===== *)
theory Base64
  imports Prelude Utf8
begin

text \<open>
  \<^verbatim>\<open>base64.StdEncoding\<close> of Go's standard library, as \<^verbatim>\<open>internal/protocol\<close> uses it for audio on the
  wire: the padded alphabet, a decoder that skips carriage returns and newlines, and the round trip.
\<close>

section \<open>The alphabet\<close>

definition b64_char :: "nat \<Rightarrow> char" where
  "b64_char n = char_of (if n < 26 then 65 + n else if n < 52 then 97 + (n - 26) else if n < 62 then 48 + (n - 52)
     else if n = 62 then 43 else (47 :: nat))"

definition b64_val :: "char \<Rightarrow> nat option" where
  "b64_val c = (let n = byte c in
     if 65 \<le> n \<and> n \<le> 90 then Some (n - 65) else if 97 \<le> n \<and> n \<le> 122 then Some (n - 71)
     else if 48 \<le> n \<and> n \<le> 57 then Some (n + 4) else if n = 43 then Some 62 else if n = 47 then Some 63 else None)"

abbreviation pad :: char where "pad \<equiv> CHR ''=''"

lemma b64_val_char [simp]: "n < 64 \<Longrightarrow> b64_val (b64_char n) = Some n"
  by (auto simp: b64_char_def b64_val_def byte_char_of Let_def)

lemma b64_char_plain [simp]:
  "n < 64 \<Longrightarrow> b64_char n \<noteq> pad" "n < 64 \<Longrightarrow> b64_char n \<noteq> CHR 0x0A" "n < 64 \<Longrightarrow> b64_char n \<noteq> CHR 0x0D"
  using b64_val_char [of n] by (auto simp: b64_val_def Let_def)

section \<open>Encoding\<close>

fun EncodeToString :: "pcm \<Rightarrow> string" where
  "EncodeToString (a # b # c # rest) =
     (let n = unat a * 65536 + unat b * 256 + unat c
      in b64_char (n div 262144) # b64_char (n div 4096 mod 64) # b64_char (n div 64 mod 64) # b64_char (n mod 64)
         # EncodeToString rest)"
| "EncodeToString [a, b] =
     (let n = unat a * 65536 + unat b * 256
      in [b64_char (n div 262144), b64_char (n div 4096 mod 64), b64_char (n div 64 mod 64), pad])"
| "EncodeToString [a] =
     (let n = unat a * 65536 in [b64_char (n div 262144), b64_char (n div 4096 mod 64), pad, pad])"
| "EncodeToString [] = []"

section \<open>Decoding\<close>

text \<open>Quanta of four characters; only the last may be padded, and the bits a padded quantum leaves over
  are ignored.\<close>

fun decode_quanta :: "string \<Rightarrow> pcm option" where
  "decode_quanta [] = Some []"
| "decode_quanta (a # b # c # d # rest) =
     (if d = pad then
        (if rest \<noteq> [] then None
         else if c = pad then
           do { x \<leftarrow> b64_val a; y \<leftarrow> b64_val b; Some [of_nat ((x * 64 + y) div 16)] }
         else do { x \<leftarrow> b64_val a; y \<leftarrow> b64_val b; z \<leftarrow> b64_val c;
                   let n = (x * 4096 + y * 64 + z) div 4 in Some [of_nat (n div 256), of_nat (n mod 256)] })
      else do { x \<leftarrow> b64_val a; y \<leftarrow> b64_val b; z \<leftarrow> b64_val c; u \<leftarrow> b64_val d; more \<leftarrow> decode_quanta rest;
                let n = x * 262144 + y * 4096 + z * 64 + u
                in Some (of_nat (n div 65536) # of_nat (n div 256 mod 256) # of_nat (n mod 256) # more) })"
| "decode_quanta _ = None"

definition DecodeString :: "string \<Rightarrow> pcm option" where
  "DecodeString s = decode_quanta (filter (\<lambda>c. c \<noteq> CHR 0x0A \<and> c \<noteq> CHR 0x0D) s)"

section \<open>The round trip\<close>

lemma byte_bound: "unat (a :: 8 word) < 256"
  using unsigned_less [of a] by simp

lemma sextets:
  fixes n :: nat
  shows "n div 262144 * 262144 + n div 4096 mod 64 * 4096 + n div 64 mod 64 * 64 + n mod 64 = n"
    and "n div 262144 * 4096 + n div 4096 mod 64 * 64 + n div 64 mod 64 = n div 64"
    and "n div 262144 * 64 + n div 4096 mod 64 = n div 4096"
proof -
  have d: "n div 4096 = n div 64 div 64" "n div 262144 = n div 4096 div 64"
    using div_mult2_eq [of n 64 64] div_mult2_eq [of n 4096 64] by simp_all
  have m: "64 * (n div 64) + n mod 64 = n" "64 * (n div 64 div 64) + n div 64 mod 64 = n div 64"
      "64 * (n div 4096 div 64) + n div 4096 mod 64 = n div 4096"
    by (rule mult_div_mod_eq)+
  then show "n div 262144 * 64 + n div 4096 mod 64 = n div 4096" unfolding d by linarith
  then show "n div 262144 * 4096 + n div 4096 mod 64 * 64 + n div 64 mod 64 = n div 64" using m d by linarith
  then show "n div 262144 * 262144 + n div 4096 mod 64 * 4096 + n div 64 mod 64 * 64 + n mod 64 = n" using m by linarith
qed

lemma three_bytes:
  fixes a b c :: nat
  assumes "a < 256" "b < 256" "c < 256"
  shows "(a * 65536 + b * 256 + c) div 262144 < 64" "(a * 65536 + b * 256 + c) div 65536 = a"
    "(a * 65536 + b * 256 + c) div 256 mod 256 = b" "(a * 65536 + b * 256 + c) mod 256 = c"
proof -
  show "(a * 65536 + b * 256 + c) div 262144 < 64" using assms by simp
  have "(a * 65536 + b * 256 + c) div 65536 = a + (b * 256 + c) div 65536" by simp
  then show "(a * 65536 + b * 256 + c) div 65536 = a" using assms by simp
  have e: "a * 65536 + b * 256 + c = (a * 256 + b) * 256 + c" by simp
  have "((a * 256 + b) * 256 + c) mod 256 = c" "((a * 256 + b) * 256 + c) div 256 = a * 256 + b"
    using assms(3) by (simp_all only: mod_mult_self3 mod_less div_mult_self3 div_less add_0_right simp_thms)
  then have "(a * 65536 + b * 256 + c) div 256 = a * 256 + b" "(a * 65536 + b * 256 + c) mod 256 = c" by (simp_all only: e)
  then show "(a * 65536 + b * 256 + c) div 256 mod 256 = b" "(a * 65536 + b * 256 + c) mod 256 = c"
    using assms(2) by simp_all
qed

lemma EncodeToString_plain: "filter (\<lambda>c. c \<noteq> CHR 0x0A \<and> c \<noteq> CHR 0x0D) (EncodeToString p) = EncodeToString p"
proof (induction p rule: EncodeToString.induct)
  case (1 a b c rest)
  then show ?case using three_bytes(1) [OF byte_bound byte_bound byte_bound, of a b c] by (simp add: Let_def)
next
  case (2 a b)
  then show ?case using three_bytes(1) [OF byte_bound byte_bound, of 0 a b] by (simp add: Let_def)
next
  case (3 a)
  then show ?case using three_bytes(1) [OF byte_bound, of 0 0 a] by (simp add: Let_def)
qed simp

lemma decode_full:
  assumes "x < 64" "y < 64" "z < 64" "u < 64" "decode_quanta rest = Some more"
  shows "decode_quanta (b64_char x # b64_char y # b64_char z # b64_char u # rest) =
    (let n = x * 262144 + y * 4096 + z * 64 + u
     in Some (of_nat (n div 65536) # of_nat (n div 256 mod 256) # of_nat (n mod 256) # more))"
  using assms by simp

lemma decode_encode_quanta: "decode_quanta (EncodeToString p) = Some p"
proof (induction p rule: EncodeToString.induct)
  case (1 a b c rest)
  let ?n = "unat a * 65536 + unat b * 256 + unat c"
  note s = three_bytes [OF byte_bound byte_bound byte_bound, of a b c]
  have "decode_quanta (EncodeToString (a # b # c # rest)) =
      (let n = ?n in Some (of_nat (n div 65536) # of_nat (n div 256 mod 256) # of_nat (n mod 256) # rest))"
    unfolding EncodeToString.simps(1) Let_def
    using decode_full [OF s(1) _ _ _ 1, of "?n div 4096 mod 64" "?n div 64 mod 64" "?n mod 64"]
    by (simp add: sextets(1) Let_def del: decode_quanta.simps)
  then show ?case by (simp add: s Let_def)
next
  case (2 a b)
  let ?n = "unat a * 65536 + unat b * 256"
  have "?n div 262144 < 64" using three_bytes(1) [OF byte_bound byte_bound, of 0 a b] by simp
  moreover have "?n div 262144 * 4096 + ?n div 4096 mod 64 * 64 + (1024 * unat a + 4 * unat b) mod 64 = 4 * (256 * unat a + unat b)"
    using sextets(2) [of ?n] by simp
  moreover have "(256 * unat a + unat b) div 256 = unat a" "(256 * unat a + unat b) mod 256 = unat b"
    using byte_bound [of b] by simp_all
  ultimately show ?case by (simp add: Let_def)
next
  case (3 a)
  let ?n = "unat a * 65536"
  have "?n div 262144 < 64" using three_bytes(1) [OF byte_bound, of 0 0 a] by simp
  moreover have "unat a div 4 * 64 + 16 * unat a mod 64 = 16 * unat a" using sextets(3) [of ?n] by simp
  ultimately show ?case by (simp add: Let_def)
qed simp

text \<open>Decoding what the encoder produced gives the audio back, for every sequence of bytes.\<close>

theorem base64_roundtrip: "DecodeString (EncodeToString p) = Some p"
  by (simp add: DecodeString_def EncodeToString_plain decode_encode_quanta)

end
