(* ===== verification/Decode.thy ===== *)
theory Decode
  imports Json Types Audio Base64
begin

text \<open>
  \<^verbatim>\<open>internal/protocol/decode.go\<close>: strict decoding of client events. A frame is what
  \<^verbatim>\<open>encoding/json\<close> makes of its bytes, \<^term>\<open>None\<close> when they are not JSON. An error is the profile
  code with the dotted path it names (message texts are not modelled). A Go map is ranged over in no
  fixed order; the model ranges in document order, and since each object is ranged over by at most one
  loop that can stop at one of several keys, a document with its entries in another order shows every
  other outcome. The conversion of a float64 outside the range of \<open>int\<close> depends on the platform: it is
  the parameter \<open>oor\<close>.
\<close>

section \<open>Errors\<close>

record wireErr =
  weCode :: string
  weParam :: string

definition invalidEvent :: "string \<Rightarrow> wireErr" where
  "invalidEvent p = \<lparr>weCode = ''invalid_event'', weParam = p\<rparr>"

definition invalidValue :: "string \<Rightarrow> wireErr" where
  "invalidValue p = \<lparr>weCode = ''invalid_value'', weParam = p\<rparr>"

text \<open>The five kinds of \<open>invalid_value\<close> differ in their message only.\<close>

abbreviation "unknownParam \<equiv> invalidValue"
abbreviation "unsupportedParam \<equiv> invalidValue"
abbreviation "missingParam \<equiv> invalidValue"
abbreviation "wrongType \<equiv> invalidValue"
abbreviation "unsupportedValue \<equiv> invalidValue"

text \<open>Sequencing: \<open>if err != nil { return err }\<close>.\<close>

definition ebind :: "'e + 'a \<Rightarrow> ('a \<Rightarrow> 'e + 'b) \<Rightarrow> 'e + 'b" where
  "ebind m f = (case m of Inl e \<Rightarrow> Inl e | Inr x \<Rightarrow> f x)"

definition require :: "bool \<Rightarrow> 'e \<Rightarrow> 'e + unit" where
  "require b e = (if b then Inr () else Inl e)"

lemma ebind_simps [simp]: "ebind (Inl e) f = Inl e" "ebind (Inr x) f = f x"
  by (simp_all add: ebind_def)

lemma ebind_Inr: "ebind m f = Inr y \<longleftrightarrow> (\<exists>x. m = Inr x \<and> f x = Inr y)"
  by (cases m) (auto simp: ebind_def)

lemma require_Inr [simp]: "require b e = Inr u \<longleftrightarrow> b"
  by (simp add: require_def)

section \<open>Objects being validated\<close>

record obj =
  oPath :: string
  oM :: "(string \<times> json) list"

text \<open>Decoding into a map: a repeated key takes its last value.\<close>

fun last_wins :: "(string \<times> json) list \<Rightarrow> (string \<times> json) list" where
  "last_wins [] = []"
| "last_wins ((k, v) # r) = (if k \<in> fst ` set r then last_wins r else (k, v) # last_wins r)"

definition parseObject :: "json \<Rightarrow> string \<Rightarrow> wireErr + obj" where
  "parseObject j p = (case j of JObj kvs \<Rightarrow> Inr \<lparr>oPath = p, oM = last_wins kvs\<rparr> | _ \<Rightarrow> Inl (wrongType p))"

definition pathOf :: "obj \<Rightarrow> string \<Rightarrow> string" where
  "pathOf ob k = (if oPath ob = [] then k else oPath ob @ ''.'' @ k)"

definition allow :: "string list \<Rightarrow> obj \<Rightarrow> wireErr + unit" where
  "allow ks ob = (case find (\<lambda>kv. fst kv \<notin> set ks) (oM ob) of
     None \<Rightarrow> Inr () | Some (k, _) \<Rightarrow> Inl (unknownParam (pathOf ob k)))"

definition o_has :: "obj \<Rightarrow> string \<Rightarrow> bool" where
  "o_has ob k \<longleftrightarrow> map_of (oM ob) k \<noteq> None"

definition o_null :: "obj \<Rightarrow> string \<Rightarrow> bool" where
  "o_null ob k \<longleftrightarrow> map_of (oM ob) k = Some JNull"

text \<open>The typed readers return \<^term>\<open>None\<close> for an absent key.\<close>

definition o_read :: "(json \<Rightarrow> 'a option) \<Rightarrow> obj \<Rightarrow> string \<Rightarrow> wireErr + 'a option" where
  "o_read f ob k = (case map_of (oM ob) k of None \<Rightarrow> Inr None
     | Some j \<Rightarrow> (case f j of None \<Rightarrow> Inl (wrongType (pathOf ob k)) | Some v \<Rightarrow> Inr (Some v)))"

definition o_str :: "obj \<Rightarrow> string \<Rightarrow> wireErr + string option" where "o_str = o_read json_string"
definition o_float :: "obj \<Rightarrow> string \<Rightarrow> wireErr + f64 option" where "o_float = o_read json_float"
definition o_boolean :: "obj \<Rightarrow> string \<Rightarrow> wireErr + bool option" where "o_boolean = o_read json_bool"

definition go_int :: "(f64 \<Rightarrow> int) \<Rightarrow> f64 \<Rightarrow> int" where
  "go_int oor f = (if in_i64 (f64_to_int f) then f64_to_int f else oor f)"

definition o_integer :: "(f64 \<Rightarrow> int) \<Rightarrow> obj \<Rightarrow> string \<Rightarrow> wireErr + int option" where
  "o_integer oor ob k = ebind (o_float ob k) (\<lambda>v.
     case v of None \<Rightarrow> Inr None
     | Some f \<Rightarrow> if f \<noteq> of_int (f64_to_int f) then Inl (wrongType (pathOf ob k)) else Inr (Some (go_int oor f)))"

definition o_object :: "obj \<Rightarrow> string \<Rightarrow> wireErr + obj option" where
  "o_object ob k = (case map_of (oM ob) k of None \<Rightarrow> Inr None
     | Some j \<Rightarrow> ebind (parseObject j (pathOf ob k)) (\<lambda>c. Inr (Some c)))"

definition o_array :: "obj \<Rightarrow> string \<Rightarrow> wireErr + json list option" where
  "o_array = o_read (\<lambda>j. case j of JArr xs \<Rightarrow> Some xs | _ \<Rightarrow> None)"

definition indexed :: "string \<Rightarrow> nat \<Rightarrow> string" where
  "indexed p i = p @ ''['' @ nat_str i @ '']''"

fun strings_from :: "string \<Rightarrow> nat \<Rightarrow> json list \<Rightarrow> wireErr + string list" where
  "strings_from p i [] = Inr []"
| "strings_from p i (j # js) = (case json_string j of
     None \<Rightarrow> Inl (wrongType (indexed p i))
   | Some s \<Rightarrow> ebind (strings_from p (Suc i) js) (\<lambda>ss. Inr (s # ss)))"

definition o_strings :: "obj \<Rightarrow> string \<Rightarrow> wireErr + string list option" where
  "o_strings ob k = ebind (o_array ob k) (\<lambda>a.
     case a of None \<Rightarrow> Inr None | Some js \<Rightarrow> ebind (strings_from (pathOf ob k) 0 js) (\<lambda>ss. Inr (Some ss)))"

text \<open>A required string.\<close>

definition need_str :: "obj \<Rightarrow> string \<Rightarrow> wireErr + string" where
  "need_str ob k = ebind (o_str ob k) (\<lambda>v. case v of None \<Rightarrow> Inl (missingParam (pathOf ob k)) | Some s \<Rightarrow> Inr s)"

text \<open>The first of the listed keys that is present is refused.\<close>

definition refuse :: "string list \<Rightarrow> obj \<Rightarrow> wireErr + unit" where
  "refuse ks ob = (case find (o_has ob) ks of None \<Rightarrow> Inr () | Some k \<Rightarrow> Inl (unknownParam (pathOf ob k)))"

section \<open>Envelope\<close>

record envelope =
  envTyp :: string
  envEventID :: string
  envBody :: obj

definition eventIDMaxLen :: nat where "eventIDMaxLen = 512"

text \<open>The event id is known to the caller also when the rest is rejected.\<close>

definition decodeEnvelope :: "json option \<Rightarrow> string \<times> (wireErr + envelope)" where
  "decodeEnvelope frame =
     (case (case frame of None \<Rightarrow> Inl (wrongType []) | Some j \<Rightarrow> parseObject j []) of
        Inl _ \<Rightarrow> ([], Inl (invalidEvent []))
      | Inr body \<Rightarrow>
          (case (if o_has body ''event_id'' then o_str body ''event_id'' else Inr None) of
             Inl e \<Rightarrow> ([], Inl e)
           | Inr v \<Rightarrow>
               let i = (case v of None \<Rightarrow> [] | Some s \<Rightarrow> s) in
               if eventIDMaxLen < length i then ([], Inl (invalidValue ''event_id''))
               else (i, if \<not> o_has body ''type'' then Inl (invalidEvent [])
                        else (case o_str body ''type'' of
                                Inr (Some t) \<Rightarrow> Inr \<lparr>envTyp = t, envEventID = i, envBody = body\<rparr>
                              | _ \<Rightarrow> Inl (invalidEvent ''type'')))))"

section \<open>Shared pieces\<close>

definition decodeMaxTokens :: "obj \<Rightarrow> string \<Rightarrow> wireErr + MaxOutputTokens option" where
  "decodeMaxTokens ob k = (case map_of (oM ob) k of None \<Rightarrow> Inr None
     | Some j \<Rightarrow> (case MaxOutputTokens_Unmarshal j of
          None \<Rightarrow> Inl (invalidValue (pathOf ob k)) | Some m \<Rightarrow> Inr (Some m)))"

definition decodeFormat :: "(f64 \<Rightarrow> int) \<Rightarrow> obj \<Rightarrow> wireErr + unit" where
  "decodeFormat oor ob =
     ebind (allow [''type'', ''rate''] ob) (\<lambda>_.
     ebind (o_str ob ''type'') (\<lambda>t.
     ebind (require (t = None \<or> t = Some AudioFormatPCM) (unsupportedValue (pathOf ob ''type''))) (\<lambda>_.
     ebind (o_integer oor ob ''rate'') (\<lambda>r.
     require (r = None \<or> r = Some AudioSampleRate) (unsupportedValue (pathOf ob ''rate''))))))"

text \<open>A nested object, decoded when it is present.\<close>

definition sub_object :: "obj \<Rightarrow> string \<Rightarrow> 'a \<Rightarrow> (obj \<Rightarrow> wireErr + 'a) \<Rightarrow> wireErr + 'a" where
  "sub_object ob k absent f = ebind (o_object ob k) (\<lambda>c. case c of None \<Rightarrow> Inr absent | Some x \<Rightarrow> f x)"

definition decodeToolChoice :: "obj \<Rightarrow> string \<Rightarrow> wireErr + ToolChoice" where
  "decodeToolChoice ob k =
     (let p = pathOf ob k in
      case o_str ob k of
        Inr (Some v) \<Rightarrow>
          if v \<in> {ToolChoiceAuto, ToolChoiceNone, ToolChoiceRequired} then Inr \<lparr>tcMode = v, tcName = []\<rparr>
          else Inl (unsupportedValue p)
      | _ \<Rightarrow>
        (case o_object ob k of
           Inr (Some sub) \<Rightarrow>
             if o_str sub ''type'' \<noteq> Inr (Some ToolChoiceFunction) then Inl (unsupportedValue (p @ ''.type''))
             else ebind (allow [''type'', ''name''] sub) (\<lambda>_.
                  ebind (o_str sub ''name'') (\<lambda>n.
                  case n of None \<Rightarrow> Inl (missingParam (p @ ''.name''))
                  | Some s \<Rightarrow> Inr \<lparr>tcMode = ToolChoiceFunction, tcName = s\<rparr>))
         | _ \<Rightarrow> Inl (invalidValue p)))"

definition decodeTool :: "string \<Rightarrow> json \<Rightarrow> wireErr + Tool" where
  "decodeTool p j =
     ebind (parseObject j p) (\<lambda>t.
     ebind (need_str t ''type'') (\<lambda>typ.
     ebind (require (typ = ToolTypeFunction) (unsupportedValue (pathOf t ''type''))) (\<lambda>_.
     ebind (allow [''type'', ''name'', ''description'', ''parameters''] t) (\<lambda>_.
     ebind (need_str t ''name'') (\<lambda>name.
     ebind (o_str t ''description'') (\<lambda>desc.
     Inr \<lparr>toolType = typ, toolName = name, toolDescription = (case desc of None \<Rightarrow> [] | Some d \<Rightarrow> d),
          toolParameters = (if o_null t ''parameters'' then None else map_of (oM t) ''parameters'')\<rparr>))))))"

fun decodeTools_from :: "string \<Rightarrow> nat \<Rightarrow> json list \<Rightarrow> wireErr + Tool list" where
  "decodeTools_from p i [] = Inr []"
| "decodeTools_from p i (j # js) =
     ebind (decodeTool (indexed p i) j) (\<lambda>t. ebind (decodeTools_from p (Suc i) js) (\<lambda>ts. Inr (t # ts)))"

definition decodeTools :: "obj \<Rightarrow> wireErr + Tool list" where
  "decodeTools sess = ebind (o_array sess ''tools'') (\<lambda>a.
     decodeTools_from (pathOf sess ''tools'') 0 (case a of None \<Rightarrow> [] | Some js \<Rightarrow> js))"

definition checkDefaultedFields :: "obj \<Rightarrow> wireErr + unit" where
  "checkDefaultedFields sess =
     ebind (case o_str sess ''truncation'' of
              Inl _ \<Rightarrow> Inl (unsupportedParam (pathOf sess ''truncation''))
            | Inr v \<Rightarrow> require (v = None \<or> v = Some ''auto'') (unsupportedValue (pathOf sess ''truncation''))) (\<lambda>_.
     ebind (case find (\<lambda>k. o_has sess k \<and> \<not> o_null sess k) [''prompt'', ''tracing''] of
              None \<Rightarrow> Inr () | Some k \<Rightarrow> Inl (unsupportedParam (pathOf sess k))) (\<lambda>_.
     ebind (require (\<not> o_has sess ''include'' \<or> o_null sess ''include'' \<or> o_array sess ''include'' = Inr (Some []))
              (unsupportedParam (pathOf sess ''include''))) (\<lambda>_.
     refuse [''parallel_tool_calls'', ''reasoning''] sess)))"

definition decodeTurnDetection :: "(f64 \<Rightarrow> int) \<Rightarrow> obj \<Rightarrow> wireErr + TurnDetection" where
  "decodeTurnDetection oor td =
     ebind (need_str td ''type'') (\<lambda>typ.
     ebind (if typ = TurnDetectionServerVAD then
              ebind (allow [''type'', ''threshold'', ''prefix_padding_ms'', ''silence_duration_ms'', ''create_response'',
                            ''interrupt_response'', ''idle_timeout_ms''] td) (\<lambda>_.
              ebind (require (\<not> o_has td ''idle_timeout_ms'' \<or> o_null td ''idle_timeout_ms'')
                      (unsupportedParam (pathOf td ''idle_timeout_ms''))) (\<lambda>_.
              ebind (o_float td ''threshold'') (\<lambda>th.
              ebind (o_integer oor td ''prefix_padding_ms'') (\<lambda>pp.
              ebind (o_integer oor td ''silence_duration_ms'') (\<lambda>sd.
              Inr \<lparr>tdType = typ, tdThreshold = th, tdPrefixPaddingMs = pp, tdSilenceDurationMs = sd, tdEagerness = None,
                   tdCreateResponse = True, tdInterruptResponse = True\<rparr>)))))
            else if typ = TurnDetectionSemanticVAD then
              ebind (allow [''type'', ''eagerness'', ''create_response'', ''interrupt_response''] td) (\<lambda>_.
              ebind (o_str td ''eagerness'') (\<lambda>ea.
              Inr \<lparr>tdType = typ, tdThreshold = None, tdPrefixPaddingMs = None, tdSilenceDurationMs = None,
                   tdEagerness = ea, tdCreateResponse = True, tdInterruptResponse = True\<rparr>))
            else Inl (unsupportedValue (pathOf td ''type''))) (\<lambda>out.
     ebind (o_boolean td ''create_response'') (\<lambda>cr.
     ebind (o_boolean td ''interrupt_response'') (\<lambda>ir.
     Inr (out\<lparr>tdCreateResponse := (case cr of None \<Rightarrow> True | Some b \<Rightarrow> b),
              tdInterruptResponse := (case ir of None \<Rightarrow> True | Some b \<Rightarrow> b)\<rparr>)))))"

section \<open>session.update\<close>

record sessionUpdate =
  suPatch :: SessionPatch
  suModel :: "string option"

definition empty_patch :: SessionPatch where
  "empty_patch = \<lparr>pInstructions = None, pOutputModalities = None, pVoice = None, pSpeed = None, pMaxOutputTokens = None,
     pTranscription = \<lparr>nSet = False, nValue = None\<rparr>, pTurnDetection = \<lparr>nSet = False, nValue = None\<rparr>,
     pTools = None, pToolChoice = None\<rparr>"

definition decodeTranscription :: "obj \<Rightarrow> wireErr + Transcription" where
  "decodeTranscription tr =
     ebind (allow [''model'', ''language'', ''prompt''] tr) (\<lambda>_.
     ebind (o_str tr ''model'') (\<lambda>m.
     ebind (o_str tr ''language'') (\<lambda>l.
     ebind (o_str tr ''prompt'') (\<lambda>p.
     Inr \<lparr>trModel = (case m of None \<Rightarrow> [] | Some s \<Rightarrow> s), trLanguage = (case l of None \<Rightarrow> [] | Some s \<Rightarrow> s),
          trPrompt = (case p of None \<Rightarrow> [] | Some s \<Rightarrow> s)\<rparr>))))"

text \<open>A key that may be null: absent, null, or an object to decode.\<close>

definition nullable :: "obj \<Rightarrow> string \<Rightarrow> (obj \<Rightarrow> wireErr + 'a) \<Rightarrow> wireErr + 'a Nullable" where
  "nullable ob k f =
     (if \<not> o_has ob k then Inr \<lparr>nSet = False, nValue = None\<rparr>
      else if o_null ob k then Inr \<lparr>nSet = True, nValue = None\<rparr>
      else ebind (o_object ob k) (\<lambda>c. case c of None \<Rightarrow> Inr \<lparr>nSet = False, nValue = None\<rparr>
             | Some x \<Rightarrow> ebind (f x) (\<lambda>v. Inr \<lparr>nSet = True, nValue = Some v\<rparr>)))"

definition decodeAudioInput :: "(f64 \<Rightarrow> int) \<Rightarrow> SessionPatch \<Rightarrow> obj \<Rightarrow> wireErr + SessionPatch" where
  "decodeAudioInput oor patch inp =
     ebind (allow [''format'', ''transcription'', ''turn_detection'', ''noise_reduction''] inp) (\<lambda>_.
     ebind (sub_object inp ''format'' () (decodeFormat oor)) (\<lambda>_.
     ebind (nullable inp ''transcription'' decodeTranscription) (\<lambda>tr.
     ebind (nullable inp ''turn_detection'' (decodeTurnDetection oor)) (\<lambda>td.
     ebind (require (\<not> o_has inp ''noise_reduction'' \<or> o_null inp ''noise_reduction'')
             (unsupportedParam (pathOf inp ''noise_reduction''))) (\<lambda>_.
     Inr (patch\<lparr>pTranscription := tr, pTurnDetection := td\<rparr>))))))"

definition decodeAudioOutput :: "(f64 \<Rightarrow> int) \<Rightarrow> SessionPatch \<Rightarrow> obj \<Rightarrow> wireErr + SessionPatch" where
  "decodeAudioOutput oor patch out =
     ebind (allow [''format'', ''voice'', ''speed''] out) (\<lambda>_.
     ebind (sub_object out ''format'' () (decodeFormat oor)) (\<lambda>_.
     ebind (o_str out ''voice'') (\<lambda>v.
     ebind (o_float out ''speed'') (\<lambda>sp.
     Inr (patch\<lparr>pVoice := v, pSpeed := sp\<rparr>)))))"

definition decodeAudio :: "(f64 \<Rightarrow> int) \<Rightarrow> obj \<Rightarrow> SessionPatch \<Rightarrow> wireErr + SessionPatch" where
  "decodeAudio oor aud patch =
     ebind (allow [''input'', ''output''] aud) (\<lambda>_.
     ebind (sub_object aud ''input'' patch (decodeAudioInput oor patch)) (\<lambda>p1.
     sub_object aud ''output'' p1 (decodeAudioOutput oor p1)))"

definition betaFields :: "string list" where
  "betaFields = [''modalities'', ''voice'', ''turn_detection'', ''input_audio_format'', ''output_audio_format'',
     ''input_audio_transcription'', ''temperature'', ''max_response_output_tokens'', ''input_audio_noise_reduction'']"

definition sessionKeys :: "string list" where
  "sessionKeys = [''type'', ''model'', ''instructions'', ''output_modalities'', ''audio'', ''max_output_tokens'', ''tools'',
     ''tool_choice'', ''parallel_tool_calls'', ''reasoning'', ''prompt'', ''tracing'', ''truncation'', ''include'']"

definition no_beta :: "obj \<Rightarrow> wireErr + unit" where
  "no_beta ob = (case find (\<lambda>kv. fst kv \<in> set betaFields) (oM ob) of
     None \<Rightarrow> Inr () | Some (k, _) \<Rightarrow> Inl (invalidValue (pathOf ob k)))"

definition sessionTypeGA :: string where "sessionTypeGA = ''realtime''"

definition decodeSession :: "(f64 \<Rightarrow> int) \<Rightarrow> obj \<Rightarrow> wireErr + sessionUpdate" where
  "decodeSession oor sess =
     ebind (no_beta sess) (\<lambda>_.
     ebind (allow sessionKeys sess) (\<lambda>_.
     ebind (need_str sess ''type'') (\<lambda>typ.
     ebind (require (typ = sessionTypeGA) (unsupportedValue (pathOf sess ''type''))) (\<lambda>_.
     ebind (o_str sess ''model'') (\<lambda>model.
     ebind (o_str sess ''instructions'') (\<lambda>ins.
     ebind (o_strings sess ''output_modalities'') (\<lambda>mods.
     ebind (decodeMaxTokens sess ''max_output_tokens'') (\<lambda>mt.
     ebind (let p = empty_patch\<lparr>pInstructions := ins, pOutputModalities := mods, pMaxOutputTokens := mt\<rparr>
            in sub_object sess ''audio'' p (\<lambda>aud. decodeAudio oor aud p)) (\<lambda>p1.
     ebind (if o_has sess ''tools'' \<and> \<not> o_null sess ''tools''
            then ebind (decodeTools sess) (\<lambda>ts. Inr (p1\<lparr>pTools := Some ts\<rparr>)) else Inr p1) (\<lambda>p2.
     ebind (if o_has sess ''tool_choice'' \<and> \<not> o_null sess ''tool_choice''
            then ebind (decodeToolChoice sess ''tool_choice'') (\<lambda>tc. Inr (p2\<lparr>pToolChoice := Some tc\<rparr>)) else Inr p2) (\<lambda>p3.
     ebind (checkDefaultedFields sess) (\<lambda>_.
     Inr \<lparr>suPatch = p3, suModel = model\<rparr>))))))))))))"

definition decodeSessionUpdate :: "(f64 \<Rightarrow> int) \<Rightarrow> envelope \<Rightarrow> wireErr + sessionUpdate" where
  "decodeSessionUpdate oor env =
     ebind (allow [''type'', ''event_id'', ''session''] (envBody env)) (\<lambda>_.
     ebind (o_object (envBody env) ''session'') (\<lambda>s.
     case s of None \<Rightarrow> Inl (missingParam ''session'') | Some sess \<Rightarrow> decodeSession oor sess))"

section \<open>input\_audio\_buffer\<close>

definition decodeAudioAppend :: "envelope \<Rightarrow> wireErr + pcm" where
  "decodeAudioAppend env =
     ebind (allow [''type'', ''event_id'', ''audio''] (envBody env)) (\<lambda>_.
     ebind (o_str (envBody env) ''audio'') (\<lambda>s.
     case s of None \<Rightarrow> Inl (missingParam ''audio'')
     | Some a \<Rightarrow> (case DecodeString a of
          None \<Rightarrow> Inl (invalidValue ''audio'')
        | Some p \<Rightarrow> if go_rem (int (length p)) BytesPerSample \<noteq> 0 then Inl (invalidValue ''audio'') else Inr p)))"

definition decodeBare :: "envelope \<Rightarrow> wireErr + unit" where
  "decodeBare env = allow [''type'', ''event_id''] (envBody env)"

section \<open>conversation.item\<close>

record itemCreate =
  icSpec :: ItemSpec
  icPrevious :: string
  icHasPrev :: bool
  icCallID :: string

definition empty_spec :: ItemSpec where
  "empty_spec = \<lparr>spRole = [], spContent = ContentUnset, spText = [], spClientID = [], spCallItem = 0\<rparr>"

text \<open>An \<open>id\<close> the client may choose, but not leave empty.\<close>

definition decodeClientID :: "obj \<Rightarrow> wireErr + string" where
  "decodeClientID it = ebind (o_str it ''id'') (\<lambda>i. case i of None \<Rightarrow> Inr []
     | Some s \<Rightarrow> if s = [] then Inl (invalidValue (pathOf it ''id'')) else Inr s)"

definition decodeToolOutputItem :: "obj \<Rightarrow> itemCreate \<Rightarrow> wireErr + itemCreate" where
  "decodeToolOutputItem it out =
     ebind (refuse [''role'', ''content'', ''name'', ''arguments''] it) (\<lambda>_.
     ebind (decodeClientID it) (\<lambda>cid.
     ebind (o_str it ''call_id'') (\<lambda>call.
     ebind (require (call \<noteq> None \<and> call \<noteq> Some []) (missingParam (pathOf it ''call_id''))) (\<lambda>_.
     ebind (need_str it ''output'') (\<lambda>ou.
     Inr (out\<lparr>icSpec := (icSpec out)\<lparr>spClientID := cid, spContent := ContentToolOutput, spText := ou\<rparr>,
              icCallID := the call\<rparr>))))))"

definition decodeMessageItem :: "obj \<Rightarrow> itemCreate \<Rightarrow> wireErr + itemCreate" where
  "decodeMessageItem it out =
     ebind (refuse [''call_id'', ''name'', ''arguments'', ''output''] it) (\<lambda>_.
     ebind (decodeClientID it) (\<lambda>cid.
     ebind (need_str it ''role'') (\<lambda>role.
     ebind (require (role \<in> {RoleUser, RoleAssistant, RoleSystem}) (unsupportedValue (pathOf it ''role''))) (\<lambda>_.
     ebind (o_array it ''content'') (\<lambda>content.
     ebind (require (content \<noteq> None \<and> content \<noteq> Some []) (missingParam (pathOf it ''content''))) (\<lambda>_.
     ebind (require (length (the content) = 1) (invalidValue (pathOf it ''content''))) (\<lambda>_.
     ebind (parseObject (hd (the content)) (pathOf it ''content'' @ ''[0]'')) (\<lambda>part.
     ebind (allow [''type'', ''text'', ''audio'', ''transcript'', ''image_url'', ''detail'', ''id''] part) (\<lambda>_.
     ebind (need_str part ''type'') (\<lambda>ptype.
     ebind (require (if role = RoleAssistant then ptype = ''output_text'' \<or> ptype = ''text'' else ptype = ''input_text'')
             (unsupportedValue (pathOf part ''type''))) (\<lambda>_.
     ebind (refuse [''audio'', ''transcript'', ''image_url'', ''detail'', ''id''] part) (\<lambda>_.
     ebind (need_str part ''text'') (\<lambda>txt.
     Inr (out\<lparr>icSpec := (icSpec out)\<lparr>spClientID := cid, spRole := role, spText := txt\<rparr>\<rparr>))))))))))))))"

definition itemKeys :: "string list" where
  "itemKeys = [''id'', ''object'', ''type'', ''role'', ''status'', ''content'', ''call_id'', ''name'', ''arguments'', ''output'']"

definition decodeItemCreate :: "envelope \<Rightarrow> wireErr + itemCreate" where
  "decodeItemCreate env =
     ebind (allow [''type'', ''event_id'', ''item'', ''previous_item_id''] (envBody env)) (\<lambda>_.
     ebind (o_str (envBody env) ''previous_item_id'') (\<lambda>prev.
     let out = \<lparr>icSpec = empty_spec, icPrevious = (case prev of None \<Rightarrow> [] | Some p \<Rightarrow> p), icHasPrev = (prev \<noteq> None),
                icCallID = []\<rparr> in
     ebind (o_object (envBody env) ''item'') (\<lambda>it0.
     case it0 of None \<Rightarrow> Inl (missingParam ''item'')
     | Some it \<Rightarrow>
         ebind (allow itemKeys it) (\<lambda>_.
         ebind (need_str it ''type'') (\<lambda>typ.
         if typ = ''message'' then decodeMessageItem it out
         else if typ = ''function_call_output'' then decodeToolOutputItem it out
         else Inl (unsupportedValue (pathOf it ''type'')))))))"

definition decodeItemID :: "envelope \<Rightarrow> wireErr + string" where
  "decodeItemID env =
     ebind (allow [''type'', ''event_id'', ''item_id''] (envBody env)) (\<lambda>_. need_str (envBody env) ''item_id'')"

record itemTruncate =
  itrItemID :: string
  itrContentIndex :: int
  itrAudioEndMs :: int

definition need_int :: "(f64 \<Rightarrow> int) \<Rightarrow> obj \<Rightarrow> string \<Rightarrow> wireErr + int" where
  "need_int oor ob k = ebind (o_integer oor ob k) (\<lambda>v. case v of None \<Rightarrow> Inl (missingParam (pathOf ob k)) | Some i \<Rightarrow> Inr i)"

definition decodeItemTruncate :: "(f64 \<Rightarrow> int) \<Rightarrow> envelope \<Rightarrow> wireErr + itemTruncate" where
  "decodeItemTruncate oor env =
     ebind (allow [''type'', ''event_id'', ''item_id'', ''content_index'', ''audio_end_ms''] (envBody env)) (\<lambda>_.
     ebind (need_str (envBody env) ''item_id'') (\<lambda>i.
     ebind (need_int oor (envBody env) ''content_index'') (\<lambda>ci.
     ebind (need_int oor (envBody env) ''audio_end_ms'') (\<lambda>ms.
     Inr \<lparr>itrItemID = i, itrContentIndex = ci, itrAudioEndMs = ms\<rparr>))))"

section \<open>response\<close>

definition metadataMaxPairs :: nat where "metadataMaxPairs = 16"
definition metadataKeyMaxLen :: nat where "metadataKeyMaxLen = 64"
definition metadataValMaxLen :: nat where "metadataValMaxLen = 512"

fun metadata_from :: "obj \<Rightarrow> (string \<times> json) list \<Rightarrow> wireErr + (string \<times> string) list" where
  "metadata_from md [] = Inr []"
| "metadata_from md ((k, j) # r) =
     (case json_string j of
        None \<Rightarrow> Inl (wrongType (pathOf md k))
      | Some v \<Rightarrow>
          if metadataKeyMaxLen < length k \<or> metadataValMaxLen < length v then Inl (invalidValue (pathOf md k))
          else ebind (metadata_from md r) (\<lambda>m. Inr ((k, v) # m)))"

definition decodeMetadata :: "obj \<Rightarrow> wireErr + (string \<times> string) list" where
  "decodeMetadata r =
     (if \<not> o_has r ''metadata'' \<or> o_null r ''metadata'' then Inr []
      else ebind (o_object r ''metadata'') (\<lambda>c. case c of None \<Rightarrow> Inr []
        | Some md \<Rightarrow> if metadataMaxPairs < length (oM md) then Inl (invalidValue (oPath md)) else metadata_from md (oM md)))"

definition decodeResponseVoice :: "(f64 \<Rightarrow> int) \<Rightarrow> obj \<Rightarrow> wireErr + string option" where
  "decodeResponseVoice oor aud =
     ebind (allow [''output''] aud) (\<lambda>_.
     sub_object aud ''output'' None (\<lambda>out.
       ebind (allow [''format'', ''voice''] out) (\<lambda>_.
       ebind (sub_object out ''format'' () (decodeFormat oor)) (\<lambda>_.
       o_str out ''voice''))))"

definition responseKeys :: "string list" where
  "responseKeys = [''instructions'', ''output_modalities'', ''max_output_tokens'', ''audio'', ''conversation'', ''input'',
     ''metadata'', ''tools'', ''tool_choice'', ''parallel_tool_calls'', ''prompt'', ''reasoning'']"

definition decodeResponseCreate :: "(f64 \<Rightarrow> int) \<Rightarrow> envelope \<Rightarrow> wireErr + ResponseOverrides" where
  "decodeResponseCreate oor env =
     ebind (allow [''type'', ''event_id'', ''response''] (envBody env)) (\<lambda>_.
     sub_object (envBody env) ''response'' no_overrides (\<lambda>r.
       ebind (allow responseKeys r) (\<lambda>_.
       ebind (refuse [''input'', ''tools'', ''tool_choice'', ''parallel_tool_calls'', ''prompt'', ''reasoning''] r) (\<lambda>_.
       ebind (o_str r ''instructions'') (\<lambda>ins.
       ebind (o_strings r ''output_modalities'') (\<lambda>mods.
       ebind (decodeMaxTokens r ''max_output_tokens'') (\<lambda>mt.
       ebind (o_str r ''conversation'') (\<lambda>cv.
       ebind (require (cv = None \<or> cv = Some ''auto'') (unsupportedValue (pathOf r ''conversation''))) (\<lambda>_.
       ebind (sub_object r ''audio'' None (decodeResponseVoice oor)) (\<lambda>voice.
       ebind (decodeMetadata r) (\<lambda>md.
       Inr \<lparr>ovInstructions = ins, ovOutputModalities = mods, ovMaxOutputTokens = mt, ovVoice = voice,
            ovMetadata = md\<rparr>)))))))))))"

definition decodeResponseCancel :: "envelope \<Rightarrow> wireErr + string" where
  "decodeResponseCancel env =
     ebind (allow [''type'', ''event_id'', ''response_id''] (envBody env)) (\<lambda>_.
     ebind (o_str (envBody env) ''response_id'') (\<lambda>i. Inr (case i of None \<Rightarrow> [] | Some s \<Rightarrow> s)))"

end
