(* ===== verification/Wire.thy ===== *)
theory Wire
  imports Decode
begin

text \<open>
  \<^verbatim>\<open>internal/protocol/wire.go\<close>: the objects and server events of the wire. A struct is a record or a
  constructor; a server event is its id, its type string and its body. The session object, which clients
  also send back, is rendered to JSON as \<open>json.Marshal\<close> renders the struct; \<open>fmt\<close> is the float64
  formatting of the standard library. Constant fields (\<open>object\<close>, content index 0) are left out of the
  other bodies.
\<close>

section \<open>The session object\<close>

definition jint :: "int \<Rightarrow> json" where "jint i = JNum (int_str i)"

text \<open>A string field with \<open>omitempty\<close>.\<close>

definition opt_str :: "string \<Rightarrow> string \<Rightarrow> (string \<times> json) list" where
  "opt_str k s = (if s = [] then [] else [(k, JStr s)])"

definition pcmFormat :: json where
  "pcmFormat = JObj [(''type'', JStr AudioFormatPCM), (''rate'', jint AudioSampleRate)]"

definition deref :: "'a option \<Rightarrow> 'a \<Rightarrow> 'a" where
  "deref p d = (case p of None \<Rightarrow> d | Some v \<Rightarrow> v)"

definition turnDetectionObject :: "(f64 \<Rightarrow> string) \<Rightarrow> TurnDetection option \<Rightarrow> json" where
  "turnDetectionObject fmt td0 =
     (case td0 of None \<Rightarrow> JNull
      | Some td \<Rightarrow>
          if tdType td = TurnDetectionServerVAD then
            JObj [(''type'', JStr (tdType td)),
                  (''threshold'', JNum (fmt (deref (tdThreshold td) DefaultVADThreshold))),
                  (''prefix_padding_ms'', jint (deref (tdPrefixPaddingMs td) DefaultVADPrefixPaddingMs)),
                  (''silence_duration_ms'', jint (deref (tdSilenceDurationMs td) DefaultVADSilenceDurationMs)),
                  (''create_response'', JBool (tdCreateResponse td)),
                  (''interrupt_response'', JBool (tdInterruptResponse td)), (''idle_timeout_ms'', JNull)]
          else if tdType td = TurnDetectionSemanticVAD then
            JObj [(''type'', JStr (tdType td)), (''eagerness'', JStr (deref (tdEagerness td) ''auto'')),
                  (''create_response'', JBool (tdCreateResponse td)),
                  (''interrupt_response'', JBool (tdInterruptResponse td))]
          else JNull)"

definition toolObject :: "Tool \<Rightarrow> json" where
  "toolObject t =
     JObj ([(''type'', JStr (toolType t)), (''name'', JStr (toolName t))] @ opt_str ''description'' (toolDescription t) @
           (case toolParameters t of None \<Rightarrow> [] | Some p \<Rightarrow> [(''parameters'', p)]))"

definition toolObjects :: "Tool list \<Rightarrow> json" where
  "toolObjects ts = JArr (map toolObject ts)"

definition transcriptionObject :: "Transcription option \<Rightarrow> json" where
  "transcriptionObject tr = (case tr of None \<Rightarrow> JNull
     | Some t \<Rightarrow> JObj (opt_str ''model'' (trModel t) @ opt_str ''language'' (trLanguage t) @ opt_str ''prompt'' (trPrompt t)))"

definition audioObject :: "(f64 \<Rightarrow> string) \<Rightarrow> SessionDefaults \<Rightarrow> json" where
  "audioObject fmt cfg =
     JObj [(''input'', JObj [(''format'', pcmFormat),
                             (''transcription'', transcriptionObject (aiTranscription (sdAudioInput cfg))),
                             (''turn_detection'', turnDetectionObject fmt (aiTurnDetection (sdAudioInput cfg))),
                             (''noise_reduction'', JNull)]),
           (''output'', JObj [(''format'', pcmFormat), (''voice'', JStr (aoVoice (sdAudioOutput cfg))),
                              (''speed'', JNum (fmt (aoSpeed (sdAudioOutput cfg))))])]"

text \<open>The fields after \<open>id\<close> and \<open>object\<close>, which only the server writes.\<close>

definition sessionFields :: "(f64 \<Rightarrow> string) \<Rightarrow> string \<Rightarrow> SessionDefaults \<Rightarrow> (string \<times> json) list" where
  "sessionFields fmt model cfg =
     [(''type'', JStr sessionTypeGA), (''model'', JStr model), (''instructions'', JStr (sdInstructions cfg)),
      (''output_modalities'', JArr (map JStr (sdOutputModalities cfg))), (''audio'', audioObject fmt cfg),
      (''max_output_tokens'', MaxOutputTokens_Marshal (sdMaxOutputTokens cfg)), (''tools'', toolObjects (sdTools cfg)),
      (''tool_choice'', ToolChoice_Marshal (sdToolChoice cfg)), (''truncation'', JStr ''auto''), (''tracing'', JNull),
      (''prompt'', JNull)]"

definition sessionObject :: "(f64 \<Rightarrow> string) \<Rightarrow> string \<Rightarrow> string \<Rightarrow> SessionDefaults \<Rightarrow> json" where
  "sessionObject fmt i model cfg =
     JObj ((''id'', JStr i) # (''object'', JStr ''realtime.session'') # sessionFields fmt model cfg)"

section \<open>Items\<close>

datatype wirePart = InputText string | OutputText string | InputAudio "string option" | OutputAudio string

fun status_str :: "ItemStatus \<Rightarrow> string" where
  "status_str ItemInProgress = ''in_progress''"
| "status_str ItemCompleted = ''completed''"
| "status_str ItemIncomplete = ''incomplete''"

datatype wireItem =
    WireMessage string string string wirePart
  | WireToolCall string string string string string
  | WireToolOutput string string string string

definition itemObject :: "string \<Rightarrow> Item \<Rightarrow> wireItem" where
  "itemObject i it =
     WireMessage i (itRole it) (status_str (itStatus it))
       (if itRole it = RoleAssistant \<and> itContent it = ContentAudio then OutputAudio (itText it)
        else if itRole it = RoleAssistant then OutputText (itText it)
        else if itContent it = ContentAudio then InputAudio (if itTranscriptDone it then Some (itText it) else None)
        else InputText (itText it))"

definition anyItem :: "string \<Rightarrow> string \<Rightarrow> Item \<Rightarrow> wireItem" where
  "anyItem i call it =
     (case itContent it of
        ContentToolCall \<Rightarrow> WireToolCall i (itName it) call (itText it) (status_str (itStatus it))
      | ContentToolOutput \<Rightarrow> WireToolOutput i call (itText it) (status_str (itStatus it))
      | _ \<Rightarrow> itemObject i it)"

section \<open>Responses and server events\<close>

record wireStatusDetails =
  wsdType :: string
  wsdReason :: string
  wsdError :: "(string \<times> string) option"

record wireUsage =
  wuTotal :: int
  wuInput :: int
  wuOutput :: int

record wireResponse =
  wrID :: string
  wrStatus :: string
  wrStatusDetails :: "wireStatusDetails option"
  wrOutput :: "wireItem list"
  wrUsage :: "wireUsage option"
  wrConversationID :: string
  wrOutputModalities :: "string list"
  wrVoice :: string
  wrMaxOutputTokens :: MaxOutputTokens
  wrMetadata :: "(string \<times> string) list"

datatype contentPart = PartAudio string | PartText string

text \<open>Arguments in the order of the struct's fields; a delta and a done of output text or audio carry
  their output index, which the adapter leaves at its zero value.\<close>

datatype body =
    SessionBody json
  | ConversationBody string
  | ErrorBody string string "string option" "string option"
  | BareBody
  | ItemBody "string option" wireItem
  | ItemIDBody string
  | TruncatedBody string int int
  | CommittedBody "string option" string
  | SpeechStartedBody int string
  | SpeechStoppedBody int string
  | TranscriptDeltaBody string string
  | TranscriptCompletedBody string string f64
  | ResponseBody wireResponse
  | OutputItemBody string nat wireItem
  | ToolArgumentsBody string string nat string string string string
  | ContentPartBody string string nat contentPart
  | OutputDeltaBody string string nat string
  | OutputDoneBody string string nat "string option" "string option"

record frame =
  frID :: string
  frType :: string
  frBody :: body

end
