(* ===== verification/Adapter.thy ===== *)
theory Adapter
  imports Wire
begin

text \<open>
  \<^verbatim>\<open>internal/protocol/adapter.go\<close> and \<^verbatim>\<open>ids.go\<close>: the stateful translation between the wire and the
  session of one connection. The id tables are maps; an \<open>itemState\<close> or \<open>respState\<close> behind a pointer is
  the entry of its table. Random ids are drawn from \<open>rnd\<close>, the successive results of \<open>crypto/rand\<close>;
  \<open>adDraws\<close> counts them. What the adapter hands to the session is returned as a list of posts, since it
  ignores what posting returns. \<^term>\<open>None\<close> is a nil dereference: an event of a response that was never
  announced.
\<close>

section \<open>State\<close>

record itemState =
  isID :: string
  isPrev :: "string option"
  isAudioMs :: int
  isCallID :: string
  isName :: string

record respState =
  rsID :: string
  rsItemID :: string
  rsTextOnly :: bool
  rsModal :: "string list"
  rsVoice :: string
  rsMaxTokens :: MaxOutputTokens
  rsMetadata :: "(string \<times> string) list"
  rsOutputIndex :: "ItemRef \<rightharpoonup> nat"
  rsNextIndex :: nat

record adapter =
  adSessionID :: string
  adConvID :: string
  adModel :: string
  adCfg :: SessionDefaults
  adEventPrefix :: string
  adEventSeq :: nat
  adItems :: "ItemRef \<rightharpoonup> itemState"
  adItemByID :: "string \<rightharpoonup> ItemRef"
  adCallByID :: "string \<rightharpoonup> ItemRef"
  adCallWire :: "string \<rightharpoonup> string"
  adResps :: "ResponseRef \<rightharpoonup> respState"
  adRespByID :: "string \<rightharpoonup> ResponseRef"
  adDraws :: nat

datatype post = PostCommand Command | PostPcm pcm

section \<open>Identifiers\<close>

definition idAlphabet :: string where "idAlphabet = ''abcdefghijklmnopqrstuvwxyz0123456789''"

definition newID :: "(nat \<Rightarrow> 8 word list) \<Rightarrow> string \<Rightarrow> adapter \<Rightarrow> adapter \<times> string" where
  "newID rnd prefix a =
     (a\<lparr>adDraws := Suc (adDraws a)\<rparr>, prefix @ map (\<lambda>b. idAlphabet ! (unat b mod 36)) (rnd (adDraws a)))"

text \<open>\<open>%06d\<close>\<close>

definition six :: "nat \<Rightarrow> string" where
  "six n = replicate (6 - length (nat_str n)) CHR ''0'' @ nat_str n"

definition event_id :: "adapter \<Rightarrow> string" where
  "event_id a = ''event_'' @ adEventPrefix a @ six (adEventSeq a)"

text \<open>A frame with the next event id.\<close>

definition server_event :: "string \<Rightarrow> body \<Rightarrow> adapter \<Rightarrow> adapter \<times> frame" where
  "server_event typ b a =
     (let a1 = a\<lparr>adEventSeq := Suc (adEventSeq a)\<rparr> in (a1, \<lparr>frID = event_id a1, frType = typ, frBody = b\<rparr>))"

text \<open>\<open>frames\<close>: several events, built in the order they are sent.\<close>

fun frames :: "(string \<times> body) list \<Rightarrow> adapter \<Rightarrow> adapter \<times> frame list" where
  "frames [] a = (a, [])"
| "frames ((t, b) # r) a = (let (a1, f) = server_event t b a; (a2, fs) = frames r a1 in (a2, f # fs))"

section \<open>Construction\<close>

definition adapter_New :: "(nat \<Rightarrow> 8 word list) \<Rightarrow> string \<Rightarrow> string \<Rightarrow> SessionDefaults \<Rightarrow> adapter" where
  "adapter_New rnd sid model cfg =
     (let a0 = \<lparr>adSessionID = sid, adConvID = [], adModel = (if model = [] then ''cascade'' else model), adCfg = cfg,
                adEventPrefix = [], adEventSeq = 0, adItems = Map.empty, adItemByID = Map.empty, adCallByID = Map.empty,
                adCallWire = Map.empty, adResps = Map.empty, adRespByID = Map.empty, adDraws = 0\<rparr>;
          (a1, conv) = newID rnd ''conv_'' a0;
          (a2, pre) = newID rnd [] a1;
          (a3, sess) = (if sid = [] then newID rnd ''sess_'' a2 else (a2, sid))
      in a3\<lparr>adConvID := conv, adEventPrefix := take 6 pre, adSessionID := sess\<rparr>)"

definition Hello :: "(f64 \<Rightarrow> string) \<Rightarrow> adapter \<Rightarrow> adapter \<times> frame list" where
  "Hello fmt a =
     frames [(''session.created'', SessionBody (sessionObject fmt (adSessionID a) (adModel a) (adCfg a))),
             (''conversation.created'', ConversationBody (adConvID a))] a"

section \<open>Errors\<close>

definition opt_of :: "string \<Rightarrow> string option" where
  "opt_of s = (if s = [] then None else Some s)"

definition errorBody :: "string \<Rightarrow> string \<Rightarrow> string \<Rightarrow> string \<Rightarrow> body" where
  "errorBody typ code param clientEventID = ErrorBody typ code (opt_of param) (opt_of clientEventID)"

definition reject :: "string \<Rightarrow> wireErr \<Rightarrow> adapter \<Rightarrow> adapter \<times> frame list" where
  "reject cid e a = frames [(''error'', errorBody ''invalid_request_error'' (weCode e) (weParam e) cid)] a"

definition Reject :: "adapter \<Rightarrow> adapter \<times> frame list" where
  "Reject a = reject [] (invalidEvent []) a"

fun code_str :: "ErrCode \<Rightarrow> string" where
  "code_str ErrCodeInvalidSession = ''invalid_session_update''"
| "code_str ErrCodeBufferEmpty = ''input_audio_buffer_commit_empty''"
| "code_str ErrCodeBufferOverflow = ''input_audio_buffer_overflow''"
| "code_str ErrCodeInputQueueOverflow = ''input_queue_overflow''"
| "code_str ErrCodeItemNotFound = ''item_not_found''"
| "code_str ErrCodeItemNotTruncatable = ''item_not_truncatable''"
| "code_str ErrCodeInvalidItem = ''invalid_item''"
| "code_str ErrCodeResponseInProgress = ''response_in_progress''"
| "code_str ErrCodeResponseFailed = ''response_failed''"
| "code_str ErrCodeProviderError = ''provider_error''"
| "code_str ErrCodeInvalidOverrides = ''invalid_response_overrides''"
| "code_str ErrCodeTranscriptTimeout = ''transcript_timeout''"
| "code_str ErrCodeResponseCancelNotActive = ''response_cancel_not_active''"
| "code_str ErrCodeTruncateOutOfRange = ''item_truncate_out_of_range''"
| "code_str ErrCodeVoiceLocked = ''voice_locked''"

definition mapErrorCode :: "ErrCode \<Rightarrow> string \<Rightarrow> string \<times> string" where
  "mapErrorCode code param =
     (if code \<in> {ErrCodeInvalidSession, ErrCodeInvalidItem, ErrCodeItemNotFound, ErrCodeItemNotTruncatable,
                 ErrCodeInvalidOverrides, ErrCodeTruncateOutOfRange, ErrCodeVoiceLocked}
      then (''invalid_request_error'', ''invalid_value'')
      else if code \<in> {ErrCodeBufferEmpty, ErrCodeResponseInProgress} then (''invalid_request_error'', ''invalid_event'')
      else if code = ErrCodeResponseCancelNotActive
      then (''invalid_request_error'', if param \<noteq> [] then ''invalid_value'' else ''invalid_event'')
      else (''server_error'', code_str code))"

section \<open>Inbound\<close>

definition lookupItem :: "adapter \<Rightarrow> string \<Rightarrow> wireErr + ItemRef" where
  "lookupItem a i = (case adItemByID a i of None \<Rightarrow> Inl (invalidValue ''item_id'') | Some ref \<Rightarrow> Inr ref)"

text \<open>The command of a \<open>conversation.item.create\<close>, with its references resolved.\<close>

definition create_command :: "adapter \<Rightarrow> string \<Rightarrow> itemCreate \<Rightarrow> wireErr + Command" where
  "create_command a tag ic =
     ebind (if icCallID ic = [] then Inr 0
            else (case adCallByID a (icCallID ic) of None \<Rightarrow> Inl (invalidValue ''item.call_id'') | Some ref \<Rightarrow> Inr ref)) (\<lambda>call.
     ebind (require (spClientID (icSpec ic) = [] \<or> adItemByID a (spClientID (icSpec ic)) = None) (invalidValue ''item.id'')) (\<lambda>_.
     ebind (if \<not> icHasPrev ic then Inr (0, False)
            else if icPrevious ic = ''root'' then Inr (0, True)
            else (case adItemByID a (icPrevious ic) of
                    None \<Rightarrow> Inl (invalidValue ''previous_item_id'') | Some ref \<Rightarrow> Inr (ref, False))) (\<lambda>(prev, atRoot).
     Inr (CmdCreateItem tag (if icCallID ic = [] then icSpec ic else (icSpec ic)\<lparr>spCallItem := call\<rparr>) prev atRoot))))"

text \<open>\<open>dispatch\<close>: the posts it makes; \<open>session.update\<close> may also set the model.\<close>

definition dispatch :: "(f64 \<Rightarrow> int) \<Rightarrow> envelope \<Rightarrow> adapter \<Rightarrow> adapter \<times> (wireErr + post list)" where
  "dispatch oor env a =
     (let tag = envEventID env; typ = envTyp env; cmd = (\<lambda>c. Inr [PostCommand c]) in
      if typ = ''session.update'' then
        (case decodeSessionUpdate oor env of
           Inl e \<Rightarrow> (a, Inl e)
         | Inr u \<Rightarrow> (case suModel u of None \<Rightarrow> a | Some m \<Rightarrow> a\<lparr>adModel := m\<rparr>, cmd (CmdUpdateSession tag (suPatch u))))
      else (a,
        if typ = ''input_audio_buffer.append'' then ebind (decodeAudioAppend env) (\<lambda>p. Inr [PostPcm p])
        else if typ = ''input_audio_buffer.commit'' then ebind (decodeBare env) (\<lambda>_. cmd (CmdCommitAudio tag))
        else if typ = ''input_audio_buffer.clear'' then ebind (decodeBare env) (\<lambda>_. cmd (CmdClearAudio tag))
        else if typ = ''conversation.item.create'' then
          ebind (decodeItemCreate env) (\<lambda>ic. ebind (create_command a tag ic) cmd)
        else if typ = ''conversation.item.delete'' then
          ebind (decodeItemID env) (\<lambda>i. ebind (lookupItem a i) (\<lambda>ref. cmd (CmdDeleteItem tag ref)))
        else if typ = ''conversation.item.truncate'' then
          ebind (decodeItemTruncate oor env) (\<lambda>tr. ebind (lookupItem a (itrItemID tr)) (\<lambda>ref.
            cmd (CmdTruncateItem tag ref (itrContentIndex tr) (itrAudioEndMs tr))))
        else if typ = ''conversation.item.retrieve'' then
          ebind (decodeItemID env) (\<lambda>_. Inl (invalidEvent ''type''))
        else if typ = ''response.create'' then
          ebind (decodeResponseCreate oor env) (\<lambda>ov. cmd (CmdCreateResponse tag ov))
        else if typ = ''response.cancel'' then
          ebind (decodeResponseCancel env) (\<lambda>i.
            if i = [] then cmd (CmdCancelResponse tag 0)
            else (case adRespByID a i of None \<Rightarrow> Inl (invalidValue ''response_id'') | Some ref \<Rightarrow> cmd (CmdCancelResponse tag ref)))
        else if typ \<in> {''output_audio_buffer.clear'', ''transcription_session.update''} then Inl (invalidEvent ''type'')
        else Inl (invalidValue ''type'')))"

definition Inbound :: "(f64 \<Rightarrow> int) \<Rightarrow> json option \<Rightarrow> adapter \<Rightarrow> adapter \<times> frame list \<times> post list" where
  "Inbound oor msg a =
     (case decodeEnvelope msg of
        (i, Inl e) \<Rightarrow> (let (a1, fs) = reject i e a in (a1, fs, []))
      | (i, Inr env) \<Rightarrow>
          (case dispatch oor env a of
             (a1, Inl e) \<Rightarrow> (let (a2, fs) = reject i e a1 in (a2, fs, []))
           | (a1, Inr ps) \<Rightarrow> (a1, [], ps)))"

section \<open>The tables\<close>

text \<open>\<open>item\<close>: the state of a reference, with a new id on first sight.\<close>

definition get_item :: "(nat \<Rightarrow> 8 word list) \<Rightarrow> ItemRef \<Rightarrow> adapter \<Rightarrow> adapter \<times> itemState" where
  "get_item rnd ref a =
     (case adItems a ref of Some st \<Rightarrow> (a, st)
      | None \<Rightarrow>
          let (a1, i) = newID rnd ''item_'' a;
              st = \<lparr>isID = i, isPrev = None, isAudioMs = 0, isCallID = [], isName = []\<rparr>
          in (a1\<lparr>adItems := (adItems a1)(ref \<mapsto> st), adItemByID := (adItemByID a1)(i \<mapsto> ref)\<rparr>, st))"

definition itemFor :: "(nat \<Rightarrow> 8 word list) \<Rightarrow> Item \<Rightarrow> adapter \<Rightarrow> adapter \<times> itemState" where
  "itemFor rnd it a =
     (case adItems a (itRef it) of Some st \<Rightarrow> (a, st)
      | None \<Rightarrow>
          if itClientID it \<noteq> [] then
            let st = \<lparr>isID = itClientID it, isPrev = None, isAudioMs = 0, isCallID = [], isName = []\<rparr>
            in (a\<lparr>adItems := (adItems a)(itRef it \<mapsto> st), adItemByID := (adItemByID a)(itClientID it \<mapsto> itRef it)\<rparr>, st)
          else get_item rnd (itRef it) a)"

definition optID :: "(nat \<Rightarrow> 8 word list) \<Rightarrow> ItemRef \<Rightarrow> adapter \<Rightarrow> adapter \<times> string option" where
  "optID rnd ref a = (if ref = 0 then (a, None) else let (a1, st) = get_item rnd ref a in (a1, Some (isID st)))"

text \<open>A write through an \<open>itemState\<close> pointer; the new value is returned.\<close>

definition set_item :: "ItemRef \<Rightarrow> (itemState \<Rightarrow> itemState) \<Rightarrow> itemState \<Rightarrow> adapter \<Rightarrow> adapter \<times> itemState" where
  "set_item ref f st a = (a\<lparr>adItems := (adItems a)(ref \<mapsto> f st)\<rparr>, f st)"

definition itemBody :: "(nat \<Rightarrow> 8 word list) \<Rightarrow> itemState \<Rightarrow> Item \<Rightarrow> adapter \<Rightarrow> adapter \<times> itemState \<times> wireItem" where
  "itemBody rnd st it a =
     (if isCallID st = [] \<and> (itContent it = ContentToolCall \<or> itContent it = ContentToolOutput) then
        let (a1, wire) = (case adCallWire a (itCallID it) of
                            Some w \<Rightarrow> (a, w)
                          | None \<Rightarrow> (let (b, w) = newID rnd ''call_'' a in (b\<lparr>adCallWire := (adCallWire b)(itCallID it \<mapsto> w)\<rparr>, w)));
            a2 = (if itContent it = ContentToolCall then a1\<lparr>adCallByID := (adCallByID a1)(wire \<mapsto> itRef it)\<rparr> else a1);
            (a3, st') = set_item (itRef it) (\<lambda>s. s\<lparr>isCallID := wire, isName := itName it\<rparr>) st a2
        in (a3, st', anyItem (isID st') wire it)
      else (a, st, anyItem (isID st) (isCallID st) it))"

definition out_index :: "ItemRef \<Rightarrow> respState \<Rightarrow> respState \<times> nat" where
  "out_index ref rs =
     (case rsOutputIndex rs ref of Some i \<Rightarrow> (rs, i)
      | None \<Rightarrow> (rs\<lparr>rsOutputIndex := (rsOutputIndex rs)(ref \<mapsto> rsNextIndex rs), rsNextIndex := Suc (rsNextIndex rs)\<rparr>,
                 rsNextIndex rs))"

definition set_resp :: "ResponseRef \<Rightarrow> respState \<Rightarrow> adapter \<Rightarrow> adapter" where
  "set_resp r rs a = a\<lparr>adResps := (adResps a)(r \<mapsto> rs)\<rparr>"

section \<open>Responses\<close>

fun resp_status_str :: "ResponseStatus \<Rightarrow> string" where
  "resp_status_str ResponseInProgress = ''in_progress''"
| "resp_status_str ResponseCompleted = ''completed''"
| "resp_status_str ResponseCancelled = ''cancelled''"
| "resp_status_str ResponseIncomplete = ''incomplete''"
| "resp_status_str ResponseFailed = ''failed''"

fun reason_str :: "StatusReason \<Rightarrow> string" where
  "reason_str ReasonNone = []"
| "reason_str ReasonTurnDetected = ''turn_detected''"
| "reason_str ReasonClientCancelled = ''client_cancelled''"
| "reason_str ReasonMaxOutputTokens = ''max_output_tokens''"
| "reason_str ReasonContentFilter = ''content_filter''"

definition statusDetails :: "ResponseStatus \<Rightarrow> StatusReason \<Rightarrow> ErrCode option \<Rightarrow> wireStatusDetails option" where
  "statusDetails status reason code =
     (if status \<in> {ResponseCancelled, ResponseIncomplete}
      then Some \<lparr>wsdType = resp_status_str status, wsdReason = reason_str reason, wsdError = None\<rparr>
      else if status = ResponseFailed
      then Some \<lparr>wsdType = resp_status_str status, wsdReason = [],
                 wsdError = Some (''server_error'', case code of None \<Rightarrow> [] | Some c \<Rightarrow> code_str c)\<rparr>
      else None)"

definition responseObject ::
    "adapter \<Rightarrow> respState \<Rightarrow> ResponseStatus \<Rightarrow> wireStatusDetails option \<Rightarrow> wireItem list \<Rightarrow> wireUsage option \<Rightarrow> wireResponse" where
  "responseObject a rs status details output usage =
     \<lparr>wrID = rsID rs, wrStatus = resp_status_str status, wrStatusDetails = details, wrOutput = output, wrUsage = usage,
      wrConversationID = adConvID a, wrOutputModalities = rsModal rs, wrVoice = rsVoice rs,
      wrMaxOutputTokens = rsMaxTokens rs, wrMetadata = rsMetadata rs\<rparr>"

section \<open>Outbound\<close>

text \<open>Frames about one item: the item is looked up, its id goes into the bodies.\<close>

definition about :: "(nat \<Rightarrow> 8 word list) \<Rightarrow> ItemRef \<Rightarrow> (string \<Rightarrow> string \<times> body) \<Rightarrow> adapter \<Rightarrow> (adapter \<times> frame list) option" where
  "about rnd ref mk a = (let (a1, st) = get_item rnd ref a in Some (frames [mk (isID st)] a1))"

text \<open>A frame of a response about one of its items.\<close>

definition resp_frame ::
    "(nat \<Rightarrow> 8 word list) \<Rightarrow> ResponseRef \<Rightarrow> ItemRef \<Rightarrow> (string \<Rightarrow> string \<Rightarrow> string \<times> body) \<Rightarrow> adapter \<Rightarrow> (adapter \<times> frame list) option" where
  "resp_frame rnd r ref mk a =
     do { rs \<leftarrow> adResps a r; about rnd ref (mk (rsID rs)) a }"

definition out_item_added ::
    "(nat \<Rightarrow> 8 word list) \<Rightarrow> ResponseRef \<Rightarrow> Item \<Rightarrow> ItemRef \<Rightarrow> adapter \<Rightarrow> (adapter \<times> frame list) option" where
  "out_item_added rnd r it previous a =
     do { rs \<leftarrow> adResps a r;
          let (a1, st0) = itemFor rnd it a;
              (a2, prev) = optID rnd previous a1;
              (a3, st1) = set_item (itRef it) (\<lambda>s. s\<lparr>isPrev := prev\<rparr>) st0 a2;
              (rs1, idx) = out_index (itRef it) rs;
              (a4, st2, w) = itemBody rnd st1 it a3;
              added = [(''response.output_item.added'', OutputItemBody (rsID rs) idx w),
                       (''conversation.item.added'', ItemBody (isPrev st2) w)]
          in if itContent it = ContentToolCall then Some (frames added (set_resp r rs1 a4))
             else Some (frames (added @ [(''response.content_part.added'', ContentPartBody (rsID rs) (isID st2) idx
                                           (if rsTextOnly rs then PartText [] else PartAudio []))])
                     (set_resp r (rs1\<lparr>rsItemID := isID st2\<rparr>) a4)) }"

definition out_item_done ::
    "(nat \<Rightarrow> 8 word list) \<Rightarrow> ResponseRef \<Rightarrow> Item \<Rightarrow> adapter \<Rightarrow> (adapter \<times> frame list) option" where
  "out_item_done rnd r it a =
     do { rs \<leftarrow> adResps a r;
          let (a1, st0) = itemFor rnd it a;
              (rs1, idx) = out_index (itRef it) rs;
              (a2, st, w) = itemBody rnd st0 it a1;
              ended = [(''response.output_item.done'', OutputItemBody (rsID rs) idx w),
                       (''conversation.item.done'', ItemBody (isPrev st) w)]
          in if itContent it = ContentToolCall then Some (frames ended (set_resp r rs1 a2))
             else Some (frames ((''response.content_part.done'', ContentPartBody (rsID rs) (isID st) idx
                                   (if rsTextOnly rs then PartText (itText it) else PartAudio (itText it))) # ended)
                     (set_resp r rs1 a2)) }"

definition tool_arguments ::
    "(nat \<Rightarrow> 8 word list) \<Rightarrow> ResponseRef \<Rightarrow> ItemRef \<Rightarrow> string \<Rightarrow> adapter \<Rightarrow> (adapter \<times> frame list) option" where
  "tool_arguments rnd r ref args a =
     do { rs \<leftarrow> adResps a r;
          let (a1, st) = get_item rnd ref a; (rs1, idx) = out_index ref rs
          in Some (frames
               [(''response.function_call_arguments.delta'', ToolArgumentsBody (rsID rs) (isID st) idx (isCallID st) args [] []),
                (''response.function_call_arguments.done'', ToolArgumentsBody (rsID rs) (isID st) idx (isCallID st) [] (isName st) args)]
               (set_resp r rs1 a1)) }"

definition response_created ::
    "(nat \<Rightarrow> 8 word list) \<Rightarrow> ResponseRef \<Rightarrow> string list \<Rightarrow> string \<Rightarrow> MaxOutputTokens \<Rightarrow> (string \<times> string) list \<Rightarrow> adapter \<Rightarrow>
     (adapter \<times> frame list) option" where
  "response_created rnd r modal voice mt md a =
     (let (a1, i) = newID rnd ''resp_'' a;
          rs = \<lparr>rsID = i, rsItemID = [], rsTextOnly = (modal = [ModalityText]), rsModal = modal, rsVoice = voice,
                rsMaxTokens = mt, rsMetadata = md, rsOutputIndex = Map.empty, rsNextIndex = 0\<rparr>;
          a2 = (set_resp r rs a1)\<lparr>adRespByID := (adRespByID a1)(i \<mapsto> r)\<rparr>
      in Some (frames [(''response.created'', ResponseBody (responseObject a2 rs ResponseInProgress None [] None))] a2))"

fun item_bodies :: "(nat \<Rightarrow> 8 word list) \<Rightarrow> Item list \<Rightarrow> adapter \<Rightarrow> adapter \<times> wireItem list" where
  "item_bodies rnd [] a = (a, [])"
| "item_bodies rnd (it # its) a =
     (let (a1, st) = itemFor rnd it a; (a2, _, w) = itemBody rnd st it a1; (a3, ws) = item_bodies rnd its a2
      in (a3, w # ws))"

definition response_finished ::
    "(nat \<Rightarrow> 8 word list) \<Rightarrow> ResponseRef \<Rightarrow> ResponseStatus \<Rightarrow> StatusReason \<Rightarrow> ErrCode option \<Rightarrow> Usage \<Rightarrow> Item list \<Rightarrow> adapter \<Rightarrow>
     (adapter \<times> frame list) option" where
  "response_finished rnd r status reason code u output a =
     do { rs \<leftarrow> adResps a r;
          let (a1, ws) = item_bodies rnd output a;
              usage = \<lparr>wuTotal = i64 (InputTokens u + OutputTokens u), wuInput = InputTokens u, wuOutput = OutputTokens u\<rparr>
          in Some (frames [(''response.done'',
               ResponseBody (responseObject a1 rs status (statusDetails status reason code) ws (Some usage)))] a1) }"

definition item_event :: "(nat \<Rightarrow> 8 word list) \<Rightarrow> string \<Rightarrow> Item \<Rightarrow> ItemRef option \<Rightarrow> adapter \<Rightarrow> (adapter \<times> frame list) option" where
  "item_event rnd typ it previous a =
     (let (a1, st0) = itemFor rnd it a;
          (a2, st1) = (case previous of None \<Rightarrow> (a1, st0)
             | Some p \<Rightarrow> (let (b, prev) = optID rnd p a1 in set_item (itRef it) (\<lambda>s. s\<lparr>isPrev := prev\<rparr>) st0 b));
          (a3, st2) = set_item (itRef it) (\<lambda>s. s\<lparr>isAudioMs := itAudioMs it\<rparr>) st1 a2;
          (a4, st3, w) = itemBody rnd st2 it a3
      in Some (frames [(typ, ItemBody (isPrev st3) w)] a4))"

fun Outbound :: "(nat \<Rightarrow> 8 word list) \<Rightarrow> (f64 \<Rightarrow> string) \<Rightarrow> Event \<Rightarrow> adapter \<Rightarrow> (adapter \<times> frame list) option" where
  "Outbound rnd fmt (EvSessionUpdated cfg) a =
     (let a1 = a\<lparr>adCfg := cfg\<rparr>
      in Some (frames [(''session.updated'', SessionBody (sessionObject fmt (adSessionID a1) (adModel a1) cfg))] a1))"
| "Outbound rnd fmt (EvError tag code param fat) a =
     (let (typ, c) = mapErrorCode code param in Some (frames [(''error'', errorBody typ c param tag)] a))"
| "Outbound rnd fmt (EvAudioBufferCommitted ref previous) a =
     (let (a1, st0) = get_item rnd ref a; (a2, prev) = optID rnd previous a1;
          (a3, st) = set_item ref (\<lambda>s. s\<lparr>isPrev := prev\<rparr>) st0 a2
      in Some (frames [(''input_audio_buffer.committed'', CommittedBody (isPrev st) (isID st))] a3))"
| "Outbound rnd fmt EvAudioBufferCleared a = Some (frames [(''input_audio_buffer.cleared'', BareBody)] a)"
| "Outbound rnd fmt (EvSpeechStarted ms ref) a =
     about rnd ref (\<lambda>i. (''input_audio_buffer.speech_started'', SpeechStartedBody ms i)) a"
| "Outbound rnd fmt (EvSpeechStopped ms ref) a =
     about rnd ref (\<lambda>i. (''input_audio_buffer.speech_stopped'', SpeechStoppedBody ms i)) a"
| "Outbound rnd fmt (EvItemAdded it previous) a = item_event rnd ''conversation.item.added'' it (Some previous) a"
| "Outbound rnd fmt (EvItemDone it) a = item_event rnd ''conversation.item.done'' it None a"
| "Outbound rnd fmt (EvItemDeleted ref) a =
     (let (a1, st) = get_item rnd ref a;
          a2 = a1\<lparr>adItems := (adItems a1)(ref := None), adItemByID := (adItemByID a1)(isID st := None)\<rparr>
      in Some (frames [(''conversation.item.deleted'', ItemIDBody (isID st))] a2))"
| "Outbound rnd fmt (EvItemTruncated ref ci ms) a =
     about rnd ref (\<lambda>i. (''conversation.item.truncated'', TruncatedBody i ci ms)) a"
| "Outbound rnd fmt (EvInputTranscriptDelta ref d) a =
     about rnd ref (\<lambda>i. (''conversation.item.input_audio_transcription.delta'', TranscriptDeltaBody i d)) a"
| "Outbound rnd fmt (EvInputTranscriptDone ref t) a =
     (let (a1, st) = get_item rnd ref a
      in Some (frames [(''conversation.item.input_audio_transcription.completed'',
           TranscriptCompletedBody (isID st) t (fdiv (f64_of_int (isAudioMs st)) 1000))] a1))"
| "Outbound rnd fmt (EvResponseCreated r modal voice mt md) a = response_created rnd r modal voice mt md a"
| "Outbound rnd fmt (EvOutputItemAdded r it previous) a = out_item_added rnd r it previous a"
| "Outbound rnd fmt (EvToolCallArguments r ref args) a = tool_arguments rnd r ref args a"
| "Outbound rnd fmt (EvOutputTextDelta r ref d) a =
     resp_frame rnd r ref (\<lambda>ri i. (''response.output_text.delta'', OutputDeltaBody ri i 0 d)) a"
| "Outbound rnd fmt (EvOutputAudioTranscriptDelta r ref d) a =
     resp_frame rnd r ref (\<lambda>ri i. (''response.output_audio_transcript.delta'', OutputDeltaBody ri i 0 d)) a"
| "Outbound rnd fmt (EvOutputAudioDelta r ref p) a =
     resp_frame rnd r ref (\<lambda>ri i. (''response.output_audio.delta'', OutputDeltaBody ri i 0 (EncodeToString p))) a"
| "Outbound rnd fmt (EvOutputTextDone r ref t) a =
     resp_frame rnd r ref (\<lambda>ri i. (''response.output_text.done'', OutputDoneBody ri i 0 (Some t) None)) a"
| "Outbound rnd fmt (EvOutputAudioTranscriptDone r ref t) a =
     resp_frame rnd r ref (\<lambda>ri i. (''response.output_audio_transcript.done'', OutputDoneBody ri i 0 None (Some t))) a"
| "Outbound rnd fmt (EvOutputAudioDone r ref) a =
     resp_frame rnd r ref (\<lambda>ri i. (''response.output_audio.done'', OutputDoneBody ri i 0 None None)) a"
| "Outbound rnd fmt (EvOutputItemDone r it) a = out_item_done rnd r it a"
| "Outbound rnd fmt (EvResponseDone r status reason code err u output) a =
     response_finished rnd r status reason code u output a"
| "Outbound rnd fmt (EvSessionClosed reason) a = Some (a, [])"

text \<open>The outbound side of a connection: one event after the other.\<close>

fun outbound_all :: "(nat \<Rightarrow> 8 word list) \<Rightarrow> (f64 \<Rightarrow> string) \<Rightarrow> Event list \<Rightarrow> adapter \<Rightarrow> (adapter \<times> frame list) option" where
  "outbound_all rnd fmt [] a = Some (a, [])"
| "outbound_all rnd fmt (ev # evs) a =
     do { (a1, fs) \<leftarrow> Outbound rnd fmt ev a; (a2, gs) \<leftarrow> outbound_all rnd fmt evs a1; Some (a2, fs @ gs) }"

end
