(* ===== verification/AdapterProps.thy ===== *)
theory AdapterProps
  imports SessionProps Adapter
begin

text \<open>
  Properties of the protocol adapter: event ids are consecutive, so never repeated; the two item tables
  stay inverse to each other; every event a session delivers while it is open can be projected; and an
  inbound message is answered by one error or turned into one post, never both.
\<close>

section \<open>Event ids\<close>

text \<open>The ids of the next \<open>n\<close> events.\<close>

definition next_ids :: "adapter \<Rightarrow> nat \<Rightarrow> string list" where
  "next_ids a n = map (\<lambda>i. ''event_'' @ adEventPrefix a @ six (adEventSeq a + i)) [1..<Suc n]"

text \<open>What an operation that built the frames \<open>fs\<close> did to the counter.\<close>

definition counted :: "adapter \<Rightarrow> adapter \<Rightarrow> frame list \<Rightarrow> bool" where
  "counted a a' fs \<longleftrightarrow> adEventPrefix a' = adEventPrefix a \<and> adEventSeq a' = adEventSeq a + length fs \<and>
     map frID fs = next_ids a (length fs)"

lemma digits_value_zeros: "digits_value (replicate k CHR ''0'' @ s) = digits_value s"
  by (induction k) (simp_all add: digits_value_def)

lemma digits_value_six: "digits_value (six n) = n"
  using nat_str_props [of n] by (simp add: six_def digits_value_zeros)

lemma six_inj: "six m = six n \<longleftrightarrow> m = n"
  by (metis digits_value_six)

lemma next_ids_distinct: "distinct (next_ids a n)"
  by (simp add: next_ids_def distinct_map inj_on_def six_inj)

lemma next_ids_add: "adEventPrefix b = adEventPrefix a \<Longrightarrow> adEventSeq b = adEventSeq a + m \<Longrightarrow>
   next_ids a (m + n) = next_ids a m @ next_ids b n"
  by (rule nth_equalityI) (auto simp: next_ids_def nth_append add.assoc simp del: upt_Suc)

lemma counted_nil [simp]: "counted a a' [] \<longleftrightarrow> adEventPrefix a' = adEventPrefix a \<and> adEventSeq a' = adEventSeq a"
  by (auto simp: counted_def next_ids_def)

lemma counted_append: "counted a b fs \<Longrightarrow> counted b c gs \<Longrightarrow> counted a c (fs @ gs)"
  using next_ids_add [of b a "length fs" "length gs"] by (simp add: counted_def)

lemma counted_base: "counted b c fs \<Longrightarrow> counted a b [] \<Longrightarrow> counted a c fs"
  using counted_append [of a b "[]" c fs] by simp

lemma frames_counted: "frames bs a = (a', fs) \<Longrightarrow> counted a a' fs \<and> map frType fs = map fst bs \<and> map frBody fs = map snd bs"
proof (induction bs a arbitrary: a' fs rule: frames.induct)
  case (2 t b r a)
  obtain a1 f where f: "server_event t b a = (a1, f)" by fastforce
  obtain fs' where fs: "frames r a1 = (a', fs')" "fs = f # fs'" using 2(2) f by (auto split: prod.splits)
  have "counted a a1 [f]" using f by (auto simp: server_event_def counted_def next_ids_def event_id_def Let_def)
  then show ?case
    using counted_append [of a a1 "[f]" a' fs'] 2(1) [OF _ _ fs(1)] f fs(2)
    by (auto simp: server_event_def Let_def)
qed auto

section \<open>Bookkeeping around the frames\<close>

lemma newID_frame:
  "newID rnd p a = (a', i) \<Longrightarrow>
   counted a a' [] \<and> adResps a' = adResps a \<and> adItems a' = adItems a \<and> adItemByID a' = adItemByID a \<and>
   adCallByID a' = adCallByID a \<and> adRespByID a' = adRespByID a"
  by (auto simp: newID_def)

lemma get_item_frame: "get_item rnd ref a = (a', st) \<Longrightarrow> counted a a' [] \<and> adResps a' = adResps a"
  by (auto simp: get_item_def Let_def newID_def split: option.splits)

lemma itemFor_frame: "itemFor rnd it a = (a', st) \<Longrightarrow> counted a a' [] \<and> adResps a' = adResps a"
  by (auto simp: itemFor_def Let_def dest: get_item_frame split: option.splits if_splits)

lemma optID_frame: "optID rnd ref a = (a', p) \<Longrightarrow> counted a a' [] \<and> adResps a' = adResps a"
  by (auto simp: optID_def dest: get_item_frame split: prod.splits if_splits)

lemma set_item_frame: "set_item ref f st a = (a', st') \<Longrightarrow> counted a a' [] \<and> adResps a' = adResps a"
  by (auto simp: set_item_def)

lemma itemBody_frame: "itemBody rnd st it a = (a', st', w) \<Longrightarrow> counted a a' [] \<and> adResps a' = adResps a"
  by (auto simp: itemBody_def set_item_def newID_def Let_def split: option.splits prod.splits if_splits)

lemma item_bodies_frame: "item_bodies rnd its a = (a', ws) \<Longrightarrow> counted a a' [] \<and> adResps a' = adResps a"
proof (induction its arbitrary: a ws)
  case (Cons it its)
  then show ?case by (auto split: prod.splits dest!: itemFor_frame itemBody_frame)
qed simp

lemmas tables_frame = get_item_frame itemFor_frame optID_frame set_item_frame itemBody_frame item_bodies_frame

lemma set_resp_frame [simp]: "adEventPrefix (set_resp r rs b) = adEventPrefix b" "adEventSeq (set_resp r rs b) = adEventSeq b"
  "adResps (set_resp r rs b) = (adResps b)(r \<mapsto> rs)"
  by (simp_all add: set_resp_def)

lemma frames_fields: "frames bs a = (a', fs) \<Longrightarrow> \<exists>n. a' = a\<lparr>adEventSeq := n\<rparr>"
proof (induction bs a arbitrary: a' fs rule: frames.induct)
  case (2 t b r a)
  then show ?case by (fastforce simp: server_event_def Let_def split: prod.splits)
qed (metis adapter.surjective adapter.update_convs(6) frames.simps(1) prod.inject)

declare frames.simps [simp del]

section \<open>What an event becomes on the wire\<close>

text \<open>The types of the server events a session event is projected onto.\<close>

definition output_kind :: "bool \<Rightarrow> string list \<Rightarrow> string list \<Rightarrow> string list \<Rightarrow> string list" where
  "output_kind tool before always after = (if tool then always else before @ always @ after)"

fun wire_types :: "Event \<Rightarrow> string list" where
  "wire_types (EvSessionUpdated _) = [''session.updated'']"
| "wire_types (EvError _ _ _ _) = [''error'']"
| "wire_types (EvAudioBufferCommitted _ _) = [''input_audio_buffer.committed'']"
| "wire_types EvAudioBufferCleared = [''input_audio_buffer.cleared'']"
| "wire_types (EvSpeechStarted _ _) = [''input_audio_buffer.speech_started'']"
| "wire_types (EvSpeechStopped _ _) = [''input_audio_buffer.speech_stopped'']"
| "wire_types (EvItemAdded _ _) = [''conversation.item.added'']"
| "wire_types (EvItemDone _) = [''conversation.item.done'']"
| "wire_types (EvItemDeleted _) = [''conversation.item.deleted'']"
| "wire_types (EvItemTruncated _ _ _) = [''conversation.item.truncated'']"
| "wire_types (EvInputTranscriptDelta _ _) = [''conversation.item.input_audio_transcription.delta'']"
| "wire_types (EvInputTranscriptDone _ _) = [''conversation.item.input_audio_transcription.completed'']"
| "wire_types (EvResponseCreated _ _ _ _ _) = [''response.created'']"
| "wire_types (EvOutputItemAdded _ it _) = output_kind (itContent it = ContentToolCall) []
     [''response.output_item.added'', ''conversation.item.added''] [''response.content_part.added'']"
| "wire_types (EvToolCallArguments _ _ _) =
     [''response.function_call_arguments.delta'', ''response.function_call_arguments.done'']"
| "wire_types (EvOutputTextDelta _ _ _) = [''response.output_text.delta'']"
| "wire_types (EvOutputAudioTranscriptDelta _ _ _) = [''response.output_audio_transcript.delta'']"
| "wire_types (EvOutputAudioDelta _ _ _) = [''response.output_audio.delta'']"
| "wire_types (EvOutputTextDone _ _ _) = [''response.output_text.done'']"
| "wire_types (EvOutputAudioTranscriptDone _ _ _) = [''response.output_audio_transcript.done'']"
| "wire_types (EvOutputAudioDone _ _) = [''response.output_audio.done'']"
| "wire_types (EvOutputItemDone _ it) = output_kind (itContent it = ContentToolCall) [''response.content_part.done'']
     [''response.output_item.done'', ''conversation.item.done''] []"
| "wire_types (EvResponseDone _ _ _ _ _ _ _) = [''response.done'']"
| "wire_types (EvSessionClosed _) = []"

text \<open>A projection done: ids counted on, the expected types, and no response forgotten.\<close>

definition projected :: "adapter \<Rightarrow> adapter \<Rightarrow> frame list \<Rightarrow> string list \<Rightarrow> bool" where
  "projected a a' fs ts \<longleftrightarrow> counted a a' fs \<and> map frType fs = ts \<and> dom (adResps a) \<subseteq> dom (adResps a')"

lemma frames_projected:
  assumes "frames bs b = (a', fs)" "counted a b []" "dom (adResps a) \<subseteq> dom (adResps b)" "map fst bs = ts"
  shows "projected a a' fs ts"
  using assms frames_counted [OF assms(1)] frames_fields [OF assms(1)] counted_base [of b a' fs a]
  by (auto simp: projected_def)

lemma about_projected:
  "about rnd ref mk a = Some (a', fs) \<Longrightarrow> (\<And>i. fst (mk i) = t) \<Longrightarrow> projected a a' fs [t]"
  by (auto simp: about_def dest!: get_item_frame elim!: frames_projected split: prod.splits)

lemma resp_frame_projected:
  "resp_frame rnd r ref mk a = Some (a', fs) \<Longrightarrow> (\<And>ri i. fst (mk ri i) = t) \<Longrightarrow> projected a a' fs [t]"
  by (auto simp: resp_frame_def bind_eq_Some_conv dest: about_projected)

lemma item_event_projected: "item_event rnd typ it previous a = Some (a', fs) \<Longrightarrow> projected a a' fs [typ]"
  unfolding item_event_def Let_def
  by (auto elim!: frames_projected dest!: tables_frame split: prod.split_asm option.split_asm)

lemma out_index_frame: "out_index ref rs = (rs', i) \<Longrightarrow> rsID rs' = rsID rs"
  by (auto simp: out_index_def split: option.splits)

lemma out_item_added_projected:
  "out_item_added rnd r it previous a = Some (a', fs) \<Longrightarrow> projected a a' fs (wire_types (EvOutputItemAdded r it previous))"
  unfolding out_item_added_def Let_def
  by (cases "adResps a r") (auto simp: output_kind_def elim!: frames_projected dest!: tables_frame split: prod.split_asm if_split_asm)

lemma out_item_done_projected:
  "out_item_done rnd r it a = Some (a', fs) \<Longrightarrow> projected a a' fs (wire_types (EvOutputItemDone r it))"
  unfolding out_item_done_def Let_def
  by (cases "adResps a r") (auto simp: output_kind_def elim!: frames_projected dest!: tables_frame split: prod.split_asm if_split_asm)

lemma tool_arguments_projected:
  "tool_arguments rnd r ref args a = Some (a', fs) \<Longrightarrow> projected a a' fs (wire_types (EvToolCallArguments r ref args))"
  unfolding tool_arguments_def Let_def
  by (cases "adResps a r") (auto elim!: frames_projected dest!: tables_frame split: prod.split_asm)

lemma response_created_projected:
  "response_created rnd r modal voice mt md a = Some (a', fs) \<Longrightarrow> projected a a' fs [''response.created'']"
  unfolding response_created_def Let_def
  by (auto elim!: frames_projected dest!: newID_frame simp: set_resp_def split: prod.split_asm)

lemma response_finished_projected:
  "response_finished rnd r status reason code u output a = Some (a', fs) \<Longrightarrow> projected a a' fs [''response.done'']"
  unfolding response_finished_def Let_def
  by (cases "adResps a r") (auto elim!: frames_projected dest!: tables_frame split: prod.split_asm)

lemmas kinds_projected = out_item_added_projected [unfolded wire_types.simps] out_item_done_projected [unfolded wire_types.simps]
  tool_arguments_projected [unfolded wire_types.simps] response_created_projected response_finished_projected
  item_event_projected

lemma Outbound_projected: "Outbound rnd fmt ev a = Some (a', fs) \<Longrightarrow> projected a a' fs (wire_types ev)"
  by (cases ev) (auto simp: Let_def elim!: frames_projected about_projected resp_frame_projected dest!: tables_frame
      dest: kinds_projected split: prod.split_asm, simp add: projected_def)

lemma outbound_all_projected:
  "outbound_all rnd fmt evs a = Some (a', fs) \<Longrightarrow> projected a a' fs (concat (map wire_types evs))"
proof (induction evs arbitrary: a fs)
  case (Cons ev evs)
  from Cons.prems obtain a1 gs hs where s: "Outbound rnd fmt ev a = Some (a1, gs)"
      "outbound_all rnd fmt evs a1 = Some (a', hs)" "fs = gs @ hs"
    by (auto simp: bind_eq_Some_conv split: prod.split_asm)
  show ?case using Outbound_projected [OF s(1)] Cons.IH [OF s(2)] s(3)
    by (auto simp: projected_def intro: counted_append)
qed (simp add: projected_def)

section \<open>Every event of a session can be projected\<close>

text \<open>The response the client is told about is in the adapter's table.\<close>

definition known :: "life \<Rightarrow> adapter \<Rightarrow> bool" where
  "known l a \<longleftrightarrow> (\<forall>r xs b. l = LOpen r xs b \<longrightarrow> r \<in> dom (adResps a))"

lemma created_known:
  "response_created rnd r modal voice mt md a = Some (a', fs) \<Longrightarrow> r \<in> dom (adResps a')"
  by (auto simp: response_created_def Let_def dest: frames_fields split: prod.split_asm)

lemma life_resp:
  "life_step l ev = Some (LOpen r xs b) \<Longrightarrow>
   (\<exists>ys c. l = LOpen r ys c) \<or> (\<exists>modal voice mt md. ev = EvResponseCreated r modal voice mt md)"
  by (cases ev; cases l) (auto simp: about_item_def split: if_splits)

lemma Outbound_defined:
  "life_step l ev = Some l' \<Longrightarrow> known l a \<Longrightarrow> Outbound rnd fmt ev a \<noteq> None"
  by (cases ev; cases l)
     (auto simp: known_def about_item_def item_event_def about_def resp_frame_def out_item_added_def out_item_done_def
       tool_arguments_def response_created_def response_finished_def Let_def split: prod.splits if_splits)

lemma Outbound_follows_life:
  assumes "life_step l ev = Some l'" "known l a"
  shows "\<exists>a' fs. Outbound rnd fmt ev a = Some (a', fs) \<and> known l' a'"
proof -
  obtain a' fs where o: "Outbound rnd fmt ev a = Some (a', fs)" using Outbound_defined [OF assms] by fast
  have d: "dom (adResps a) \<subseteq> dom (adResps a')" using Outbound_projected [OF o] by (simp add: projected_def)
  have "r \<in> dom (adResps a')" if "l' = LOpen r xs b" for r xs b
    using life_resp [of l ev r xs b] assms that o d
    by (auto simp: known_def dest: created_known)
  then show ?thesis using o by (auto simp: known_def)
qed

lemma outbound_follows_life:
  "run_life l evs = Some l' \<Longrightarrow> known l a \<Longrightarrow> \<exists>a' fs. outbound_all rnd fmt evs a = Some (a', fs) \<and> known l' a'"
proof (induction evs arbitrary: l a)
  case (Cons ev evs)
  from Cons.prems(1) obtain l1 where l: "life_step l ev = Some l1" "run_life l1 evs = Some l'"
    by (auto simp: bind_eq_Some_conv)
  obtain a1 fs where o: "Outbound rnd fmt ev a = Some (a1, fs)" "known l1 a1"
    using Outbound_follows_life [OF l(1) Cons.prems(2)] by blast
  from Cons.IH [OF l(2) o(2)] o(1) show ?case by auto
qed auto

text \<open>\<^bold>\<open>C29\<close>: whatever an open session has sent to its client can be written on the wire. No event
  refers to a response the adapter does not know (which would be a nil dereference), the server events
  have exactly the types their session events stand for, and their ids are the next ones of a counter
  of the connection: consecutive, so in order and never repeated.\<close>

theorem open_session_projects:
  assumes "session_ok (ssCfg (New opts))" "sess_reach w (New opts) s" "ssClosed s = None"
  shows "\<exists>a' fs. outbound_all rnd fmt (ssEvents s) a = Some (a', fs) \<and>
           map frType fs = concat (map wire_types (ssEvents s)) \<and>
           map frID fs = next_ids a (length fs) \<and> distinct (map frID fs)"
proof -
  have "run_life (LIdle 0) (ssEvents s) = Some (life_of s)"
    using reach_logged [OF assms(2) New_inv [OF assms(1)] New_logged] assms(3)
    by (simp add: logged_def life_at_def delivered_def)
  from outbound_follows_life [OF this, of a rnd fmt] obtain a' fs
    where o: "outbound_all rnd fmt (ssEvents s) a = Some (a', fs)" by (auto simp: known_def)
  show ?thesis using o outbound_all_projected [OF o] next_ids_distinct by (auto simp: projected_def counted_def)
qed

theorem open_session_projects_witness:
  "\<exists>a' fs. outbound_all (\<lambda>_. []) (\<lambda>_. []) (ssEvents asked) (adapter_New (\<lambda>_. []) [] [] plain_session) = Some (a', fs) \<and>
     map frType fs = [''response.created'']"
proof -
  have "ssEvents asked = [EvResponseCreated 1 [ModalityAudio] ''alloy'' \<lparr>motInf = True, motN = 0\<rparr> []]"
    using validate_plain [of "''response''"]
    by (simp add: asked_def handle_def createResponse_def createResponseAt_def voice_locked_def probe_config_def
        no_overrides_def begin_response_def set_turns_def awaited_item_def startPipeline_def new_response_def
        no_decision_def Let_def emit_def calm_def)
      (simp add: New_def plain_options_def plain_session_def Let_def applyTurnDetection_def disarmEndOfTurn_def)
  then show ?thesis
    using open_session_projects [OF plain_ok asked_reach asked_fields(1),
        of "\<lambda>_. []" "\<lambda>_. []" "adapter_New (\<lambda>_. []) [] [] plain_session"] by auto
qed

text \<open>The client disconnects while the actor announces a response: the announcement is dropped, and the
  events of the clean-up are still taken.\<close>

definition hangup :: world where
  "hangup = \<lparr>wAsr = (\<lambda>_. None), wCancel = (\<lambda>n. if n = 0 then Some CloseClient else None), wSend = (\<lambda>n. n \<noteq> 0)\<rparr>"

definition unannounced :: session where
  "unannounced = the (handle hangup (InCommand (CmdCreateResponse ''e1'' no_overrides)) (New plain_options))"

lemma emit_hangup:
  "ssTried s = [] \<Longrightarrow> ssClosed s = None \<Longrightarrow>
   emit hangup ev s = s\<lparr>ssClosed := Some CloseClient, ssTried := [ev], ssEvents := ssEvents s\<rparr>"
  by (simp add: emit_def hangup_def cancel_ctx_def Let_def)

lemma New_logs [simp]: "ssTried (New opts) = []" "ssEvents (New opts) = []"
  by (simp_all add: New_def Let_def applyTurnDetection_def disarmEndOfTurn_def)

lemma unannounced_fields:
  "ssTried unannounced \<noteq> []" "ssEvents unannounced = []" "ssClosed unannounced = Some CloseClient"
  "\<exists>r. ssActive unannounced = Some r \<and> rItem r = 0 \<and> rToolItem r = 0 \<and> rStatus r = ResponseInProgress"
  "ssConv unannounced = newConversation"
  using validate_plain [of "''response''"]
  by (simp_all add: unannounced_def handle_def createResponse_def createResponseAt_def voice_locked_def probe_config_def
      no_overrides_def begin_response_def set_turns_def awaited_item_def startPipeline_def new_response_def
      no_decision_def emit_hangup Let_def)

lemma emit_after_hangup [simp]:
  "ssTried s \<noteq> [] \<Longrightarrow> emit hangup ev s = s\<lparr>ssTried := ssTried s @ [ev], ssEvents := ssEvents s @ [ev]\<rparr>"
  by (simp add: emit_def hangup_def Let_def)

lemma finish_unannounced:
  "\<exists>r code u. let s = finish hangup ResponseCancelled ReasonNone None unannounced in
     ssEvents s = [EvResponseDone r ResponseCancelled ReasonNone code None u []] \<and> ssTried s \<noteq> []"
proof -
  have g: "conv_get newConversation 0 = None" by (simp add: conv_get_def newConversation_def)
  show ?thesis using unannounced_fields
    by (auto simp: finish_def terminal_def finish_item_def finish_stop_def finish_close_def stopASRWait_def upd_active_def
        set_turns_def Let_def g split: option.splits)
qed

text \<open>\<^bold>\<open>C39\<close>: without the hypothesis that the session is open this fails. A send that races with the
  closing of the session may be dropped while a later one still goes through. When the announcement of
  a response is dropped and the end of that response is delivered, the adapter dereferences a nil
  pointer, in a goroutine that does not recover.\<close>

theorem dropped_announcement_panics:
  "sess_reach hangup (New plain_options) unannounced \<and>
   outbound_all rnd fmt (ssEvents (cleanup hangup unannounced)) (adapter_New rnd sid model plain_session) = None"
proof
  have "handle hangup (InCommand (CmdCreateResponse ''e1'' no_overrides)) (New plain_options) = Some unannounced"
    by (simp add: unannounced_def handle_def)
  from reach_step [OF reach_refl _ this] show "sess_reach hangup (New plain_options) unannounced"
    by (simp add: offered_def)
  have n: "adResps (adapter_New rnd sid model plain_session) = Map.empty"
    by (simp add: adapter_New_def newID_def Let_def)
  from finish_unannounced obtain r code u where f:
    "ssEvents (finish hangup ResponseCancelled ReasonNone None unannounced) =
       [EvResponseDone r ResponseCancelled ReasonNone code None u []]" by (auto simp: Let_def)
  have "\<exists>evs. ssEvents (cleanup hangup unannounced) = EvResponseDone r ResponseCancelled ReasonNone code None u [] # evs"
    using f unannounced_fields(4)
    by (auto simp: cleanup_def asr_call_def stopTimers_def stopASRWait_def disarmEndOfTurn_def dropDeferredTrigger_def Let_def)
  then show "outbound_all rnd fmt (ssEvents (cleanup hangup unannounced)) (adapter_New rnd sid model plain_session) = None"
    by (auto simp: response_finished_def n)
qed

end
