(* ===== verification/AdapterTables.thy ===== *)
theory AdapterTables
  imports AdapterProps
begin

text \<open>
  The id tables of the adapter. Clients name items by wire ids, the session by references; the two
  tables are inverse to each other as long as no id is given twice. Server ids are random, so this
  rests on the generator not repeating itself; client ids are checked against the table when the
  client asks for an item, but entered only when the session has created it.
\<close>

section \<open>The invariant\<close>

definition item_id :: "(nat \<Rightarrow> 8 word list) \<Rightarrow> nat \<Rightarrow> string" where
  "item_id rnd n = ''item_'' @ map (\<lambda>b. idAlphabet ! (unat b mod 36)) (rnd n)"

definition inverse_tables :: "adapter \<Rightarrow> bool" where
  "inverse_tables a \<longleftrightarrow> (\<forall>i ref. adItemByID a i = Some ref \<longleftrightarrow> (\<exists>st. adItems a ref = Some st \<and> isID st = i))"

definition tables_ok :: "(nat \<Rightarrow> 8 word list) \<Rightarrow> adapter \<Rightarrow> bool" where
  "tables_ok rnd a \<longleftrightarrow> inverse_tables a \<and> (\<forall>n. adDraws a \<le> n \<longrightarrow> adItemByID a (item_id rnd n) = None)"

text \<open>The table has this id for an item.\<close>

definition holds :: "adapter \<Rightarrow> ItemRef \<Rightarrow> itemState \<Rightarrow> bool" where
  "holds a ref st \<longleftrightarrow> (\<exists>st0. adItems a ref = Some st0 \<and> isID st0 = isID st)"

text \<open>An operation that kept the tables in order and renamed or forgot no item.\<close>

definition grows :: "(nat \<Rightarrow> 8 word list) \<Rightarrow> adapter \<Rightarrow> adapter \<Rightarrow> bool" where
  "grows rnd a b \<longleftrightarrow> tables_ok rnd b \<and> adDraws a \<le> adDraws b \<and> (\<forall>r st. holds a r st \<longrightarrow> holds b r st)"

lemma grows_trans: "grows rnd a b \<Longrightarrow> grows rnd b c \<Longrightarrow> grows rnd a c"
  by (auto simp: grows_def)

lemma grows_ok: "grows rnd a b \<Longrightarrow> tables_ok rnd b"
  by (simp add: grows_def)

lemma grows_holds: "grows rnd a b \<Longrightarrow> holds a r st \<Longrightarrow> holds b r st"
  by (simp add: grows_def)

lemma tables_cong:
  "tables_ok rnd a \<Longrightarrow> adItems b = adItems a \<Longrightarrow> adItemByID b = adItemByID a \<Longrightarrow> adDraws a \<le> adDraws b \<Longrightarrow> tables_ok rnd b"
  by (simp add: tables_ok_def inverse_tables_def)

lemma grows_same:
  "tables_ok rnd a \<Longrightarrow> adItems b = adItems a \<Longrightarrow> adItemByID b = adItemByID a \<Longrightarrow> adDraws a \<le> adDraws b \<Longrightarrow> grows rnd a b"
  using tables_cong [of rnd a b] by (simp add: grows_def holds_def)

lemma enter_ok:
  assumes "tables_ok rnd a" "adItems a ref = None" "adItemByID a i = None" "\<forall>n. m \<le> n \<longrightarrow> i \<noteq> item_id rnd n"
    "isID st = i" "adDraws a \<le> m"
  shows "tables_ok rnd (a\<lparr>adItems := (adItems a)(ref \<mapsto> st), adItemByID := (adItemByID a)(i \<mapsto> ref), adDraws := m\<rparr>)"
proof -
  have inv: "adItemByID a j = Some r \<longleftrightarrow> (\<exists>s. adItems a r = Some s \<and> isID s = j)" for j r
    using assms(1) by (simp add: tables_ok_def inverse_tables_def)
  have new: "adItems a r = Some s \<Longrightarrow> isID s \<noteq> i" for r s using inv [of i r] assms(3) by auto
  have "(((adItemByID a)(i \<mapsto> ref)) j = Some r) = (\<exists>s. ((adItems a)(ref \<mapsto> st)) r = Some s \<and> isID s = j)" for j r
    using inv [of j r] inv [of j ref] new [of r] assms(2,5) by auto
  moreover have "\<forall>n. m \<le> n \<longrightarrow> ((adItemByID a)(i \<mapsto> ref)) (item_id rnd n) = None"
    using assms(1,4,6) by (auto simp: tables_ok_def)
  ultimately show ?thesis by (simp add: tables_ok_def inverse_tables_def)
qed

lemma set_item_ok:
  assumes "set_item ref f st a = (b, st')" "tables_ok rnd a" "holds a ref st" "\<And>x. isID (f x) = isID x"
  shows "grows rnd a b \<and> holds b ref st'"
proof -
  obtain st0 where st0: "adItems a ref = Some st0" "isID st0 = isID st" using assms(3) by (auto simp: holds_def)
  have b: "b = a\<lparr>adItems := (adItems a)(ref \<mapsto> f st)\<rparr>" "st' = f st" using assms(1) by (auto simp: set_item_def)
  have same: "(\<exists>s. ((adItems a)(ref \<mapsto> f st)) r = Some s \<and> isID s = j) = (\<exists>s. adItems a r = Some s \<and> isID s = j)" for r j
    using st0 assms(4) by auto
  have "tables_ok rnd b"
    using assms(2) by (simp add: tables_ok_def inverse_tables_def b same del: fun_upd_apply)
  then show ?thesis using st0 assms(4) by (auto simp: grows_def holds_def b)
qed

lemma get_item_ok:
  assumes "get_item rnd ref a = (b, st)" "tables_ok rnd a" "inj (item_id rnd)"
  shows "grows rnd a b \<and> holds b ref st"
proof (cases "adItems a ref")
  case None
  define i where "i = item_id rnd (adDraws a)"
  have st: "isID st = i" and
    b: "b = a\<lparr>adItems := (adItems a)(ref \<mapsto> st), adItemByID := (adItemByID a)(i \<mapsto> ref), adDraws := Suc (adDraws a)\<rparr>"
    using assms(1) None by (auto simp: get_item_def newID_def item_id_def i_def Let_def)
  have "tables_ok rnd b"
    unfolding b by (rule enter_ok [OF assms(2) None _ _ st])
      (use assms(2) assms(3) in \<open>auto simp: i_def tables_ok_def inj_eq\<close>)
  then show ?thesis using None by (auto simp: grows_def holds_def b)
qed (use assms in \<open>auto simp: get_item_def grows_def holds_def\<close>)

lemma optID_ok:
  "optID rnd ref a = (b, p) \<Longrightarrow> tables_ok rnd a \<Longrightarrow> inj (item_id rnd) \<Longrightarrow> grows rnd a b"
  using get_item_ok [of rnd ref a] by (auto simp: optID_def grows_same split: if_splits prod.splits)

text \<open>A client id may be entered: the item is known already, or the id is new.\<close>

definition client_new :: "(nat \<Rightarrow> 8 word list) \<Rightarrow> adapter \<Rightarrow> Item \<Rightarrow> bool" where
  "client_new rnd a it \<longleftrightarrow> itClientID it = [] \<or> adItems a (itRef it) \<noteq> None \<or>
     (adItemByID a (itClientID it) = None \<and> (\<forall>n. adDraws a \<le> n \<longrightarrow> itClientID it \<noteq> item_id rnd n))"

lemma itemFor_ok:
  assumes "itemFor rnd it a = (b, st)" "tables_ok rnd a" "inj (item_id rnd)" "client_new rnd a it"
  shows "grows rnd a b \<and> holds b (itRef it) st"
proof (cases "adItems a (itRef it) = None \<and> itClientID it \<noteq> []")
  case True
  then have st: "isID st = itClientID it" and
    b: "b = a\<lparr>adItems := (adItems a)(itRef it \<mapsto> st), adItemByID := (adItemByID a)(itClientID it \<mapsto> itRef it), adDraws := adDraws a\<rparr>"
    using assms(1) by (auto simp: itemFor_def Let_def)
  have "tables_ok rnd b"
    unfolding b by (rule enter_ok [OF assms(2) _ _ _ st]) (use True assms(4) in \<open>auto simp: client_new_def\<close>)
  then show ?thesis using True by (auto simp: grows_def holds_def b)
next
  case False
  then show ?thesis using assms get_item_ok [of rnd "itRef it" a b st]
    by (auto simp: itemFor_def grows_same holds_def split: option.splits if_splits)
qed

lemma itemBody_ok:
  assumes "itemBody rnd st it a = (b, st', w)" "tables_ok rnd a" "holds a (itRef it) st"
  shows "grows rnd a b \<and> holds b (itRef it) st'"
proof (cases "isCallID st = [] \<and> (itContent it = ContentToolCall \<or> itContent it = ContentToolOutput)")
  case True
  then obtain c wire where c: "set_item (itRef it) (\<lambda>s. s\<lparr>isCallID := wire, isName := itName it\<rparr>) st c = (b, st')"
      "adItems c = adItems a" "adItemByID c = adItemByID a" "adDraws a \<le> adDraws c"
    using assms(1) by (auto simp: itemBody_def newID_def Let_def split: option.split_asm prod.split_asm if_split_asm)
  have g: "grows rnd a c" by (rule grows_same [OF assms(2)]) (simp_all add: c)
  have "grows rnd c b \<and> holds b (itRef it) st'"
    by (rule set_item_ok [OF c(1) grows_ok [OF g] grows_holds [OF g assms(3)]]) simp
  then show ?thesis using grows_trans [OF g] by blast
next
  case False
  then show ?thesis using assms by (auto simp: itemBody_def grows_same)
qed

section \<open>Events\<close>

lemma frames_ok: "frames bs a = (b, fs) \<Longrightarrow> tables_ok rnd b = tables_ok rnd a"
  by (drule frames_fields) (auto simp: tables_ok_def inverse_tables_def)

lemma set_resp_ok [simp]: "tables_ok rnd (set_resp r rs a) = tables_ok rnd a"
  by (simp add: set_resp_def tables_ok_def inverse_tables_def)

lemma item_bodies_ok:
  "item_bodies rnd its a = (b, ws) \<Longrightarrow> tables_ok rnd a \<Longrightarrow> inj (item_id rnd) \<Longrightarrow>
   \<forall>it\<in>set its. itClientID it = [] \<or> adItems a (itRef it) \<noteq> None \<Longrightarrow> tables_ok rnd b"
proof (induction its arbitrary: a ws)
  case (Cons it its)
  obtain a1 st where f: "itemFor rnd it a = (a1, st)" by fastforce
  obtain a2 st' w where g: "itemBody rnd st it a1 = (a2, st', w)" by (metis prod_cases3)
  obtain ws' where h: "item_bodies rnd its a2 = (b, ws')" using Cons.prems(1) f g by (auto split: prod.splits)
  have 1: "grows rnd a a1" "holds a1 (itRef it) st"
    using itemFor_ok [OF f Cons.prems(2,3)] Cons.prems(4) by (auto simp: client_new_def)
  have 2: "grows rnd a1 a2" using itemBody_ok [OF g grows_ok [OF 1(1)] 1(2)] by simp
  have "holds a2 r s" if "adItems a r = Some s" for r s
    using grows_holds [OF 2 grows_holds [OF 1(1)]] that by (auto simp: holds_def)
  then have "\<forall>it\<in>set its. itClientID it = [] \<or> adItems a2 (itRef it) \<noteq> None"
    using Cons.prems(4) by (fastforce simp: holds_def)
  from Cons.IH [OF h grows_ok [OF 2] Cons.prems(3) this] show ?case .
qed simp

lemma previous_ok:
  assumes "holds a ref st" "tables_ok rnd a" "inj (item_id rnd)"
    "optID rnd p a = (b, prev)" "set_item ref (\<lambda>s. s\<lparr>isPrev := prev\<rparr>) st b = (c, st')"
  shows "grows rnd a c \<and> holds c ref st'"
proof -
  have g: "grows rnd a b" by (rule optID_ok [OF assms(4,2,3)])
  have "grows rnd b c \<and> holds c ref st'"
    by (rule set_item_ok [OF assms(5) grows_ok [OF g] grows_holds [OF g assms(1)]]) simp
  then show ?thesis using grows_trans [OF g] by blast
qed

lemma item_event_ok:
  assumes "item_event rnd typ it previous a = Some (b, fs)" "tables_ok rnd a" "inj (item_id rnd)" "client_new rnd a it"
  shows "tables_ok rnd b"
proof -
  obtain a1 st0 where 1: "itemFor rnd it a = (a1, st0)" by fastforce
  have h1: "tables_ok rnd a1" "holds a1 (itRef it) st0"
    using itemFor_ok [OF 1 assms(2,3,4)] by (auto dest: grows_ok)
  obtain a2 st1 where 2: "(case previous of None \<Rightarrow> (a1, st0)
      | Some p \<Rightarrow> (let (b, prev) = optID rnd p a1 in set_item (itRef it) (\<lambda>s. s\<lparr>isPrev := prev\<rparr>) st0 b)) = (a2, st1)" by fastforce
  have h2: "tables_ok rnd a2 \<and> holds a2 (itRef it) st1"
    using 2 h1 previous_ok [OF h1(2,1) assms(3)] grows_ok by (fastforce split: option.splits prod.splits)
  obtain a3 st2 where 3: "set_item (itRef it) (\<lambda>s. s\<lparr>isAudioMs := itAudioMs it\<rparr>) st1 a2 = (a3, st2)" by fastforce
  have h3: "grows rnd a2 a3 \<and> holds a3 (itRef it) st2" by (rule set_item_ok [OF 3]) (use h2 in auto)
  obtain a4 st3 w where 4: "itemBody rnd st2 it a3 = (a4, st3, w)" by (metis prod_cases3)
  have h4: "tables_ok rnd a4" using itemBody_ok [OF 4] h3 by (auto dest: grows_ok)
  show ?thesis using assms(1) 1 2 3 4 h4 by (auto simp: item_event_def Let_def dest: frames_ok [of _ _ _ _ rnd])
qed

lemma out_item_added_ok:
  assumes "out_item_added rnd r it previous a = Some (b, fs)" "tables_ok rnd a" "inj (item_id rnd)" "client_new rnd a it"
  shows "tables_ok rnd b"
proof -
  obtain rs where rs: "adResps a r = Some rs" using assms(1) by (auto simp: out_item_added_def bind_eq_Some_conv)
  obtain a1 st0 where 1: "itemFor rnd it a = (a1, st0)" by fastforce
  have h1: "tables_ok rnd a1" "holds a1 (itRef it) st0"
    using itemFor_ok [OF 1 assms(2,3,4)] by (auto dest: grows_ok)
  obtain a2 prev where 2: "optID rnd previous a1 = (a2, prev)" by fastforce
  obtain a3 st1 where 3: "set_item (itRef it) (\<lambda>s. s\<lparr>isPrev := prev\<rparr>) st0 a2 = (a3, st1)" by fastforce
  have h3: "grows rnd a1 a3 \<and> holds a3 (itRef it) st1" by (rule previous_ok [OF h1(2,1) assms(3) 2 3])
  obtain a4 st2 w where 4: "itemBody rnd st1 it a3 = (a4, st2, w)" by (metis prod_cases3)
  have h4: "tables_ok rnd a4" using itemBody_ok [OF 4] h3 by (auto dest: grows_ok)
  show ?thesis using assms(1) rs 1 2 3 4 h4
    by (auto simp: out_item_added_def Let_def dest: frames_ok [of _ _ _ _ rnd] split: prod.split_asm if_split_asm)
qed

lemma out_item_done_ok:
  assumes "out_item_done rnd r it a = Some (b, fs)" "tables_ok rnd a" "inj (item_id rnd)" "client_new rnd a it"
  shows "tables_ok rnd b"
proof -
  obtain rs where rs: "adResps a r = Some rs" using assms(1) by (auto simp: out_item_done_def bind_eq_Some_conv)
  obtain a1 st0 where 1: "itemFor rnd it a = (a1, st0)" by fastforce
  have h1: "tables_ok rnd a1" "holds a1 (itRef it) st0"
    using itemFor_ok [OF 1 assms(2,3,4)] by (auto dest: grows_ok)
  obtain a2 st w where 2: "itemBody rnd st0 it a1 = (a2, st, w)" by (metis prod_cases3)
  have h2: "tables_ok rnd a2" using itemBody_ok [OF 2 h1] by (auto dest: grows_ok)
  show ?thesis using assms(1) rs 1 2 h2
    by (auto simp: out_item_done_def Let_def dest: frames_ok [of _ _ _ _ rnd] split: prod.split_asm if_split_asm)
qed

lemma about_ok:
  "about rnd ref mk a = Some (b, fs) \<Longrightarrow> tables_ok rnd a \<Longrightarrow> inj (item_id rnd) \<Longrightarrow> tables_ok rnd b"
  by (auto simp: about_def dest!: get_item_ok frames_ok [of _ _ _ _ rnd] dest: grows_ok split: prod.split_asm)

lemma resp_frame_ok:
  "resp_frame rnd r ref mk a = Some (b, fs) \<Longrightarrow> tables_ok rnd a \<Longrightarrow> inj (item_id rnd) \<Longrightarrow> tables_ok rnd b"
  by (cases "adResps a r") (auto simp: resp_frame_def dest: about_ok)

lemma tool_arguments_ok:
  "tool_arguments rnd r ref args a = Some (b, fs) \<Longrightarrow> tables_ok rnd a \<Longrightarrow> inj (item_id rnd) \<Longrightarrow> tables_ok rnd b"
  by (cases "adResps a r")
     (auto simp: tool_arguments_def dest!: get_item_ok frames_ok [of _ _ _ _ rnd] dest: grows_ok split: prod.split_asm)

lemma response_created_ok:
  "response_created rnd r modal voice mt md a = Some (b, fs) \<Longrightarrow> tables_ok rnd a \<Longrightarrow> tables_ok rnd b"
  by (auto simp: response_created_def newID_def Let_def tables_ok_def inverse_tables_def set_resp_def dest!: frames_fields)

lemma response_finished_ok:
  "response_finished rnd r status reason code u output a = Some (b, fs) \<Longrightarrow> tables_ok rnd a \<Longrightarrow> inj (item_id rnd) \<Longrightarrow>
   \<forall>it\<in>set output. itClientID it = [] \<or> adItems a (itRef it) \<noteq> None \<Longrightarrow> tables_ok rnd b"
  by (cases "adResps a r")
     (auto simp: response_finished_def Let_def dest!: frames_ok [of _ _ _ _ rnd] dest: item_bodies_ok split: prod.split_asm)

lemma deleted_ok:
  assumes "tables_ok rnd a" "holds a ref st"
  shows "tables_ok rnd (a\<lparr>adItems := (adItems a)(ref := None), adItemByID := (adItemByID a)(isID st := None)\<rparr>)"
proof -
  have inv: "adItemByID a j = Some r \<longleftrightarrow> (\<exists>s. adItems a r = Some s \<and> isID s = j)" for j r
    using assms(1) by (simp add: tables_ok_def inverse_tables_def)
  have "adItemByID a (isID st) = Some ref" using inv assms(2) by (auto simp: holds_def)
  then have "(((adItemByID a)(isID st := None)) j = Some r) = (\<exists>s. ((adItems a)(ref := None)) r = Some s \<and> isID s = j)" for j r
    using inv [of j r] inv [of "isID st" r] assms(2) by (auto simp: holds_def)
  then show ?thesis using assms(1) by (simp add: tables_ok_def inverse_tables_def)
qed

text \<open>The client ids an event may bring.\<close>

fun admitted :: "(nat \<Rightarrow> 8 word list) \<Rightarrow> adapter \<Rightarrow> Event \<Rightarrow> bool" where
  "admitted rnd a (EvItemAdded it _) = client_new rnd a it"
| "admitted rnd a (EvItemDone it) = client_new rnd a it"
| "admitted rnd a (EvOutputItemAdded _ it _) = client_new rnd a it"
| "admitted rnd a (EvOutputItemDone _ it) = client_new rnd a it"
| "admitted rnd a (EvResponseDone _ _ _ _ _ _ output) = list_all (\<lambda>it. itClientID it = [] \<or> adItems a (itRef it) \<noteq> None) output"
| "admitted rnd a _ = True"

lemma Outbound_tables:
  assumes "Outbound rnd fmt ev a = Some (b, fs)" "tables_ok rnd a" "inj (item_id rnd)" "admitted rnd a ev"
  shows "tables_ok rnd b"
proof (cases ev)
  case (EvAudioBufferCommitted ref p)
  obtain a1 st0 where 1: "get_item rnd ref a = (a1, st0)" by fastforce
  obtain a2 prev where 2: "optID rnd p a1 = (a2, prev)" by fastforce
  obtain a3 st where 3: "set_item ref (\<lambda>s. s\<lparr>isPrev := prev\<rparr>) st0 a2 = (a3, st)" by fastforce
  have "tables_ok rnd a3"
    using previous_ok [OF _ _ assms(3) 2 3] get_item_ok [OF 1 assms(2,3)] by (auto dest: grows_ok)
  then show ?thesis using EvAudioBufferCommitted assms(1) 1 2 3 by (auto dest: frames_ok [of _ _ _ _ rnd])
next
  case (EvItemDeleted ref)
  obtain a1 st where 1: "get_item rnd ref a = (a1, st)" by fastforce
  have "tables_ok rnd (a1\<lparr>adItems := (adItems a1)(ref := None), adItemByID := (adItemByID a1)(isID st := None)\<rparr>)"
    using get_item_ok [OF 1 assms(2,3)] by (auto intro: deleted_ok dest: grows_ok)
  then show ?thesis using EvItemDeleted assms(1) 1 by (auto dest: frames_ok [of _ _ _ _ rnd])
next
  case (EvSessionUpdated cfg)
  then show ?thesis using assms(1,2)
    by (auto simp: tables_ok_def inverse_tables_def dest!: frames_fields)
next
  case (EvInputTranscriptDone ref t)
  then show ?thesis using assms(1,2,3)
    by (auto dest!: get_item_ok frames_ok [of _ _ _ _ rnd] dest: grows_ok split: prod.split_asm)
next
  case (EvResponseDone r status reason code err u its)
  then show ?thesis using assms by (auto simp: list_all_iff dest: response_finished_ok)
qed (use assms in \<open>auto intro: item_event_ok out_item_added_ok out_item_done_ok about_ok resp_frame_ok
       tool_arguments_ok response_created_ok dest: frames_ok [of _ _ _ _ rnd] split: prod.split_asm\<close>)

section \<open>Inbound\<close>

fun post_tag :: "post \<Rightarrow> string option" where
  "post_tag (PostCommand c) = Some (CommandTag c)"
| "post_tag (PostPcm p) = None"

text \<open>What posting one thing for the client's event \<open>i\<close> looks like.\<close>

definition posts_one :: "string \<Rightarrow> wireErr + post list \<Rightarrow> bool" where
  "posts_one i r \<longleftrightarrow> (\<forall>ps. r = Inr ps \<longrightarrow> (\<exists>p. ps = [p] \<and> (post_tag p = None \<or> post_tag p = Some i)))"

lemma posts_one_simps [simp]:
  "posts_one i (Inl e)" "posts_one i (Inr [PostPcm q])" "posts_one i (Inr [PostCommand c]) \<longleftrightarrow> CommandTag c = i"
  by (auto simp: posts_one_def)

lemma posts_one_bind: "(\<And>x. m = Inr x \<Longrightarrow> posts_one i (f x)) \<Longrightarrow> posts_one i (ebind m f)"
  by (cases m) auto

lemma create_command_tag: "create_command a tag ic = Inr c \<Longrightarrow> CommandTag c = tag"
  by (auto simp: create_command_def ebind_Inr split: prod.splits)

lemma posts_one_if: "posts_one i x \<Longrightarrow> posts_one i y \<Longrightarrow> posts_one i (if c then x else y)"
  by simp

lemma posts_one_option: "posts_one i x \<Longrightarrow> (\<And>v. posts_one i (y v)) \<Longrightarrow> posts_one i (case m of None \<Rightarrow> x | Some v \<Rightarrow> y v)"
  by (cases m) auto

lemma dispatch_not_update:
  "envTyp env \<noteq> ''session.update'' \<Longrightarrow> fst (dispatch oor env a) = a \<and> posts_one (envEventID env) (snd (dispatch oor env a))"
  unfolding dispatch_def Let_def
  by (simp only: if_False fst_conv snd_conv simp_thms)
     (intro posts_one_if posts_one_bind posts_one_option posts_one_simps; simp add: create_command_tag)

lemma same_model: "\<exists>m. a = a\<lparr>adModel := m\<rparr>"
  by (rule exI [of _ "adModel a"]) simp

lemma dispatch_update:
  assumes "envTyp env = ''session.update''"
  shows "(\<exists>m. fst (dispatch oor env a) = a\<lparr>adModel := m\<rparr>) \<and> posts_one (envEventID env) (snd (dispatch oor env a))"
proof (cases "decodeSessionUpdate oor env")
  case (Inl e)
  then show ?thesis using assms same_model by (simp add: dispatch_def)
next
  case (Inr u)
  then show ?thesis using assms same_model by (cases "suModel u") (auto simp: dispatch_def)
qed

lemma dispatch_frame:
  "(\<exists>m. fst (dispatch oor env a) = a\<lparr>adModel := m\<rparr>) \<and> posts_one (envEventID env) (snd (dispatch oor env a))"
proof (cases "envTyp env = ''session.update''")
  case False
  then show ?thesis using dispatch_not_update [OF False] same_model by simp
qed (rule dispatch_update)

lemma envelope_id: "decodeEnvelope msg = (i, Inr env) \<Longrightarrow> envEventID env = i"
  by (auto simp: decodeEnvelope_def Let_def split: sum.splits option.splits if_splits)

text \<open>The two ways a message can go.\<close>

definition refused :: "adapter \<Rightarrow> string \<Rightarrow> adapter \<times> frame list \<times> post list \<Rightarrow> bool" where
  "refused a i r \<longleftrightarrow> (\<exists>f c p. fst (snd r) = [f] \<and> snd (snd r) = [] \<and> frType f = ''error'' \<and>
     frBody f = ErrorBody ''invalid_request_error'' c p (opt_of i) \<and> [frID f] = next_ids a 1)"

definition accepted :: "string \<Rightarrow> adapter \<times> frame list \<times> post list \<Rightarrow> bool" where
  "accepted i r \<longleftrightarrow> (\<exists>q. fst (snd r) = [] \<and> snd (snd r) = [q] \<and> (post_tag q = None \<or> post_tag q = Some i))"

definition untouched :: "adapter \<Rightarrow> adapter \<Rightarrow> bool" where
  "untouched a b \<longleftrightarrow> adItems b = adItems a \<and> adItemByID b = adItemByID a \<and> adCallByID b = adCallByID a \<and>
     adResps b = adResps a \<and> adRespByID b = adRespByID a \<and> adDraws b = adDraws a"

lemma reject_refused:
  "reject i e (a\<lparr>adModel := m\<rparr>) = (b, fs) \<Longrightarrow> refused a i (b, fs, []) \<and> untouched a b"
  by (auto simp: reject_def frames.simps server_event_def Let_def refused_def untouched_def errorBody_def next_ids_def event_id_def)

lemma Inbound_cases:
  "(refused a (fst (decodeEnvelope msg)) (Inbound oor msg a) \<or> accepted (fst (decodeEnvelope msg)) (Inbound oor msg a)) \<and>
   untouched a (fst (Inbound oor msg a))"
proof -
  obtain i r where e: "decodeEnvelope msg = (i, r)" by fastforce
  show ?thesis
  proof (cases r)
    case (Inl err)
    then show ?thesis using e reject_refused [of i err "adModel a" a]
      by (auto simp: Inbound_def split: prod.splits)
  next
    case (Inr env)
    obtain m where m: "fst (dispatch oor env a) = a\<lparr>adModel := m\<rparr>" using dispatch_frame by blast
    have p: "posts_one i (snd (dispatch oor env a))" using dispatch_frame envelope_id e Inr by blast
    show ?thesis
    proof (cases "snd (dispatch oor env a)")
      case (Inl err)
      then have "dispatch oor env a = (a\<lparr>adModel := m\<rparr>, Inl err)" using m by (simp add: prod_eq_iff)
      then show ?thesis using e Inr reject_refused [of i err m a] by (auto simp: Inbound_def split: prod.splits)
    next
      case (Inr ps)
      then have "dispatch oor env a = (a\<lparr>adModel := m\<rparr>, Inr ps)" using m by (simp add: prod_eq_iff)
      then show ?thesis using e \<open>r = Inr env\<close> p Inr
        by (auto simp: Inbound_def accepted_def untouched_def posts_one_def)
    qed
  qed
qed


section \<open>Connections\<close>

text \<open>Everything that can happen to the adapter of a connection, as long as the items the session creates
  bring ids that are still unused.\<close>

inductive wired :: "(nat \<Rightarrow> 8 word list) \<Rightarrow> adapter \<Rightarrow> bool" for rnd where
  wired_new: "wired rnd (adapter_New rnd sid model cfg)"
| wired_hello: "wired rnd a \<Longrightarrow> wired rnd (fst (Hello fmt a))"
| wired_in: "wired rnd a \<Longrightarrow> wired rnd (fst (Inbound oor msg a))"
| wired_reject: "wired rnd a \<Longrightarrow> wired rnd (fst (Reject a))"
| wired_out: "wired rnd a \<Longrightarrow> admitted rnd a ev \<Longrightarrow> Outbound rnd fmt ev a = Some (b, fs) \<Longrightarrow> wired rnd b"

lemma untouched_ok: "untouched a b \<Longrightarrow> tables_ok rnd a \<Longrightarrow> tables_ok rnd b"
  by (simp add: untouched_def tables_ok_def inverse_tables_def)

lemma frames_untouched: "untouched a (fst (frames bs a))"
proof -
  obtain b fs where "frames bs a = (b, fs)" by fastforce
  then show ?thesis using frames_fields [of bs a b fs] by (auto simp: untouched_def)
qed

lemma frames_tables: "tables_ok rnd a \<Longrightarrow> tables_ok rnd (fst (frames bs a))"
  using untouched_ok [OF frames_untouched] .

lemma wired_tables: "wired rnd a \<Longrightarrow> inj (item_id rnd) \<Longrightarrow> tables_ok rnd a"
proof (induction rule: wired.induct)
  case (wired_new sid model cfg)
  then show ?case by (auto simp: adapter_New_def newID_def Let_def tables_ok_def inverse_tables_def)
next
  case (wired_hello a fmt)
  then show ?case by (simp add: Hello_def frames_tables)
next
  case (wired_in a oor msg)
  then show ?case using Inbound_cases untouched_ok by blast
next
  case (wired_reject a)
  then show ?case by (simp add: Reject_def reject_def frames_tables)
next
  case (wired_out a ev fmt b fs)
  then show ?case by (blast intro: Outbound_tables)
qed


text \<open>A generator that does not repeat itself: it writes the number of the draw in unary.\<close>

definition unary :: "nat \<Rightarrow> 8 word list" where "unary n = replicate n 0"

lemma unary_inj: "inj (item_id unary)"
proof (rule injI)
  fix m n assume "item_id unary m = item_id unary n"
  then have "length (item_id unary m) = length (item_id unary n)" by simp
  then show "m = n" by (simp add: item_id_def unary_def)
qed

definition fresh_adapter :: adapter where
  "fresh_adapter = adapter_New unary ''sess_1'' [] plain_session"

definition first_speech :: adapter where
  "first_speech = fst (the (Outbound unary (\<lambda>_. []) (EvSpeechStarted 0 7) fresh_adapter))"


section \<open>Ids that are not unique\<close>

text \<open>A client that asks twice for an item with the id \<open>x\<close>, without waiting for the first answer.\<close>

definition dup_message :: "json option" where
  "dup_message = Some (JObj [(''type'', JStr ''conversation.item.create''),
     (''item'', JObj [(''id'', JStr ''x''), (''type'', JStr ''message''), (''role'', JStr ''user''),
        (''content'', JArr [JObj [(''type'', JStr ''input_text''), (''text'', JStr ''hi'')]])])])"

definition dup_command :: Command where
  "dup_command = CmdCreateItem [] (empty_spec\<lparr>spClientID := ''x'', spRole := RoleUser, spText := ''hi''\<rparr>) 0 False"

lemma dup_accepted: "adItemByID a ''x'' = None \<Longrightarrow> Inbound oor dup_message a = (a, [], [PostCommand dup_command])"
  by (simp add: dup_message_def dup_command_def Inbound_def decodeEnvelope_def parseObject_def o_has_def o_str_def o_read_def
     json_string_def dispatch_def decodeItemCreate_def allow_def o_object_def pathOf_def itemKeys_def need_str_def
     decodeMessageItem_def refuse_def decodeClientID_def require_def o_array_def create_command_def Let_def empty_spec_def)

definition dup_item :: "ItemRef \<Rightarrow> Item" where
  "dup_item r = snapshot (blank_item\<lparr>itRef := r, itClientID := ''x'', itRole := RoleUser, itContent := ContentText,
     itStatus := ItemCompleted, itText := ''hi'', itTranscriptDone := True\<rparr>)"

definition dup_session :: session where
  "dup_session = the (handle calm (InCommand dup_command) (the (handle calm (InCommand dup_command) (New plain_options))))"

lemma dup_events:
  "ssEvents dup_session = [EvItemAdded (dup_item 1) 0, EvItemDone (dup_item 1), EvItemAdded (dup_item 2) 1, EvItemDone (dup_item 2)]"
  by (simp add: dup_session_def dup_item_def handle_def dup_command_def createItem_def newClientItem_def empty_spec_def
     conv_insert_def newConversation_def insert_pos_def newRef_def Let_def emit_def calm_def blank_item_def numeral_2_eq_2)

definition dup_adapter :: "(nat \<Rightarrow> 8 word list) \<Rightarrow> adapter \<Rightarrow> adapter" where
  "dup_adapter rnd a = fst (the (outbound_all rnd (\<lambda>_. []) (ssEvents dup_session) a))"

lemma dup_fields [simp]:
  "itRef (dup_item r) = r" "itClientID (dup_item r) = ''x''" "itContent (dup_item r) = ContentText" "itAudioMs (dup_item r) = 0"
  by (simp_all add: dup_item_def snapshot_def Item.truncate_def blank_item_def)

lemma dup_tables:
  assumes "adItems a = Map.empty" "adItemByID a = Map.empty"
  shows "map_option isID (adItems (dup_adapter rnd a) 1) = Some ''x'' \<and>
         map_option isID (adItems (dup_adapter rnd a) 2) = Some ''x'' \<and> adItemByID (dup_adapter rnd a) ''x'' = Some 2"
  by (simp add: dup_adapter_def dup_events item_event_def itemFor_def optID_def get_item_def set_item_def itemBody_def
      frames.simps server_event_def assms Let_def)

text \<open>The check that a client id is unused can be passed twice. Two requests for an item with the
  same id, sent before the session has created the first, are both accepted and both carried out; the
  two items then carry the same id, which resolves to the second, so the client can no longer name the
  first.\<close>

theorem duplicate_client_id:
  "let a = adapter_New rnd sid model cfg; b = dup_adapter rnd a in
     Inbound oor dup_message a = (a, [], [PostCommand dup_command]) \<and>
     ssEvents dup_session = [EvItemAdded (dup_item 1) 0, EvItemDone (dup_item 1), EvItemAdded (dup_item 2) 1, EvItemDone (dup_item 2)] \<and>
     map_option isID (adItems b 1) = Some ''x'' \<and> map_option isID (adItems b 2) = Some ''x'' \<and> lookupItem b ''x'' = Inr 2"
proof -
  define a where "a = adapter_New rnd sid model cfg"
  have e: "adItems a = Map.empty" "adItemByID a = Map.empty" by (simp_all add: a_def adapter_New_def newID_def Let_def)
  show ?thesis using dup_accepted [of a oor] dup_events dup_tables [OF e, of rnd] e
    unfolding Let_def a_def [symmetric] by (simp add: lookupItem_def)
qed

end
