(* ===== verification/SessionEcho.thy ===== *)
theory SessionEcho
  imports AdapterTables
begin

text \<open>
  The session object the gateway sends can be sent back: decoding it gives an update that sets every
  field of the session to the value it was rendered from.
\<close>

section \<open>Reading what was rendered\<close>

lemma o_str_value: "map_of m k = Some (JStr s) \<Longrightarrow> o_str \<lparr>oPath = p, oM = m\<rparr> k = Inr (Some s)"
  by (simp add: o_str_def o_read_def json_string_def)

lemma o_boolean_value: "map_of m k = Some (JBool b) \<Longrightarrow> o_boolean \<lparr>oPath = p, oM = m\<rparr> k = Inr (Some b)"
  by (simp add: o_boolean_def o_read_def json_bool_def)

lemma o_absent: "map_of m k = None \<Longrightarrow> o_str \<lparr>oPath = p, oM = m\<rparr> k = Inr None"
  by (simp add: o_str_def o_read_def)

lemma o_float_value: "map_of m k = Some j \<Longrightarrow> json_float j = Some x \<Longrightarrow> o_float \<lparr>oPath = p, oM = m\<rparr> k = Inr (Some x)"
  by (simp add: o_float_def o_read_def)

lemma o_integer_value:
  assumes "map_of m k = Some (jint n)" "0 \<le> n" "n \<le> 2 ^ 53"
  shows "o_integer oor \<lparr>oPath = p, oM = m\<rparr> k = Inr (Some n)"
proof -
  have "(of_int n :: rat) \<le> of_int (2 ^ 53)" using assms(3) by (simp only: of_int_le_iff)
  also have "\<dots> < 2 ^ 1024" by (simp del: of_int_power) 
  finally have "json_float (jint n) = Some (of_int n)"
    using assms(2) by (simp add: json_float_def jint_def num_value_int_str f64_round_int [OF assms(2,3)])
  moreover have "in_i64 n" using assms(2,3) by (simp add: in_i64_def)
  ultimately show ?thesis using assms(1) by (simp add: o_integer_def o_float_value go_int_def f64_to_int_def)
qed

lemmas o_values = o_str_value o_boolean_value o_float_value o_integer_value o_absent

lemma allow_keys: "fst ` set m \<subseteq> set ks \<Longrightarrow> allow ks \<lparr>oPath = p, oM = m\<rparr> = Inr ()"
proof -
  assume "fst ` set m \<subseteq> set ks"
  then have "find (\<lambda>kv. fst kv \<notin> set ks) m = None" by (auto simp: find_None_iff)
  then show ?thesis by (simp add: allow_def)
qed

lemma last_wins_distinct: "distinct (map fst m) \<Longrightarrow> last_wins m = m"
  by (induction m rule: last_wins.induct) auto

section \<open>The parts of the object\<close>

lemma sub_object_value:
  "map_of m k = Some (JObj kvs) \<Longrightarrow>
   sub_object \<lparr>oPath = p, oM = m\<rparr> k x f = f \<lparr>oPath = pathOf \<lparr>oPath = p, oM = m\<rparr> k, oM = last_wins kvs\<rparr>"
  by (simp add: sub_object_def o_object_def parseObject_def)

lemma format_echo: "map_of m k = Some pcmFormat \<Longrightarrow> sub_object \<lparr>oPath = p, oM = m\<rparr> k () (decodeFormat oor) = Inr ()"
  by (simp add: sub_object_value pcmFormat_def decodeFormat_def allow_keys o_values require_def)

lemma turn_detection_echo:
  assumes "turn_detection_ok td" "\<And>x. tdThreshold td = Some x \<Longrightarrow> json_float (JNum (fmt x)) = Some x"
    "\<And>n. tdPrefixPaddingMs td = Some n \<Longrightarrow> n \<le> 2 ^ 53" "\<And>n. tdSilenceDurationMs td = Some n \<Longrightarrow> n \<le> 2 ^ 53"
  shows "\<exists>m. turnDetectionObject fmt (Some td) = JObj m \<and> distinct (map fst m) \<and>
           decodeTurnDetection oor \<lparr>oPath = p, oM = m\<rparr> = Inr td"
proof (cases "tdType td = ''server_vad''")
  case True
  then obtain x n d where v: "tdThreshold td = Some x" "tdPrefixPaddingMs td = Some n" "tdSilenceDurationMs td = Some d"
      "0 \<le> n" "0 < d" "tdEagerness td = None"
    using assms(1) by (auto simp: turn_detection_ok_def split: option.splits)
  then show ?thesis using True assms(2) [OF v(1)] assms(3) [OF v(2)] assms(4) [OF v(3)]
    by (cases td) (auto simp: turnDetectionObject_def deref_def decodeTurnDetection_def need_str_def allow_keys o_values require_def o_null_def)
next
  case False
  then show ?thesis using assms(1)
    by (cases td) (auto simp: turn_detection_ok_def turnDetectionObject_def deref_def decodeTurnDetection_def need_str_def
        allow_keys o_values split: option.splits)
qed

lemma transcription_echo:
  "\<exists>m. transcriptionObject (Some t) = JObj m \<and> distinct (map fst m) \<and> decodeTranscription \<lparr>oPath = p, oM = m\<rparr> = Inr t"
  by (cases t) (simp add: transcriptionObject_def opt_str_def decodeTranscription_def allow_keys o_values)

lemma tool_object:
  "\<exists>m. toolObject t = JObj m \<and> last_wins m = m \<and> fst ` set m \<subseteq> set [''type'', ''name'', ''description'', ''parameters''] \<and>
     map_of m ''type'' = Some (JStr (toolType t)) \<and> map_of m ''name'' = Some (JStr (toolName t)) \<and>
     map_of m ''description'' = (if toolDescription t = [] then None else Some (JStr (toolDescription t))) \<and>
     map_of m ''parameters'' = toolParameters t"
  by (cases "toolParameters t") (simp_all add: toolObject_def opt_str_def)

lemma tool_echo:
  assumes "tool_ok t"
  shows "decodeTool p (toolObject t) = Inr t"
proof -
  obtain m where m: "toolObject t = JObj m" "last_wins m = m" "allow [''type'', ''name'', ''description'', ''parameters''] \<lparr>oPath = p, oM = m\<rparr> = Inr ()"
      "map_of m ''type'' = Some (JStr (toolType t))" "map_of m ''name'' = Some (JStr (toolName t))"
      "map_of m ''description'' = (if toolDescription t = [] then None else Some (JStr (toolDescription t)))"
      "map_of m ''parameters'' = toolParameters t"
    using tool_object [of t] allow_keys by metis
  have n: "toolParameters t \<noteq> Some JNull" "toolType t = ''function''"
    using assms by (auto simp: tool_ok_def isJSONObject_def split: option.splits)
  have d: "o_str \<lparr>oPath = p, oM = m\<rparr> ''description'' = Inr (if toolDescription t = [] then None else Some (toolDescription t))"
    using m(6) by (simp add: o_values)
  show ?thesis
    by (simp add: decodeTool_def m parseObject_def need_str_def o_values d n require_def o_null_def)
qed

lemma tools_echo: "list_all tool_ok ts \<Longrightarrow> decodeTools_from p i (map toolObject ts) = Inr ts"
  by (induction ts arbitrary: i) (simp_all add: tool_echo)

text \<open>A tool choice as the gateway keeps it: a mode has no name, and the empty mode is spelled out.\<close>

definition plain_choice :: "ToolChoice \<Rightarrow> bool" where
  "plain_choice tc \<longleftrightarrow> tcMode tc \<noteq> [] \<and> (tcMode tc \<noteq> ToolChoiceFunction \<longrightarrow> tcName tc = [])"

lemma tool_choice_echo:
  assumes "tool_choice_ok tc ts" "plain_choice tc" "map_of m k = Some (ToolChoice_Marshal tc)"
  shows "decodeToolChoice \<lparr>oPath = p, oM = m\<rparr> k = Inr tc"
proof (cases "tcMode tc = ToolChoiceFunction")
  case True
  then show ?thesis using assms
    by (cases tc) (simp add: decodeToolChoice_def o_str_def o_read_def o_object_def json_string_def ToolChoice_Marshal_def
        parseObject_def allow_keys Let_def)
next
  case False
  then show ?thesis using assms
    by (cases tc) (auto simp: decodeToolChoice_def o_values ToolChoice_Marshal_def tool_choice_ok_def plain_choice_def Let_def)
qed

lemma nullable_null: "map_of m k = Some JNull \<Longrightarrow> nullable \<lparr>oPath = p, oM = m\<rparr> k f = Inr \<lparr>nSet = True, nValue = None\<rparr>"
  by (simp add: nullable_def o_has_def o_null_def)

lemma nullable_object:
  assumes "map_of m k = Some (JObj kvs)" "distinct (map fst kvs)" "\<And>q. f \<lparr>oPath = q, oM = kvs\<rparr> = Inr v"
  shows "nullable \<lparr>oPath = p, oM = m\<rparr> k f = Inr \<lparr>nSet = True, nValue = Some v\<rparr>"
  using assms by (simp add: nullable_def o_has_def o_null_def o_object_def parseObject_def last_wins_distinct)

text \<open>The configurations whose rendering loses nothing: valid ones in the form the gateway keeps them in,
  with millisecond counts that a float64 holds exactly, and numbers the formatting renders exactly.\<close>

definition echoable :: "(f64 \<Rightarrow> string) \<Rightarrow> SessionDefaults \<Rightarrow> bool" where
  "echoable fmt cfg \<longleftrightarrow>
     session_ok cfg \<and> plain_choice (sdToolChoice cfg) \<and> (motInf (sdMaxOutputTokens cfg) \<longrightarrow> motN (sdMaxOutputTokens cfg) = 0) \<and>
     json_float (JNum (fmt (aoSpeed (sdAudioOutput cfg)))) = Some (aoSpeed (sdAudioOutput cfg)) \<and>
     (\<forall>td. aiTurnDetection (sdAudioInput cfg) = Some td \<longrightarrow>
        (\<forall>x. tdThreshold td = Some x \<longrightarrow> json_float (JNum (fmt x)) = Some x) \<and>
        (\<forall>n. tdPrefixPaddingMs td = Some n \<longrightarrow> n \<le> 2 ^ 53) \<and> (\<forall>n. tdSilenceDurationMs td = Some n \<longrightarrow> n \<le> 2 ^ 53))"

lemma nullable_transcription:
  "map_of m k = Some (transcriptionObject tr) \<Longrightarrow>
   nullable \<lparr>oPath = p, oM = m\<rparr> k decodeTranscription = Inr \<lparr>nSet = True, nValue = tr\<rparr>"
proof (cases tr)
  case (Some t)
  assume a: "map_of m k = Some (transcriptionObject tr)"
  have "\<exists>kvs. transcriptionObject (Some t) = JObj kvs \<and> distinct (map fst kvs) \<and> (\<forall>q. decodeTranscription \<lparr>oPath = q, oM = kvs\<rparr> = Inr t)"
    using transcription_echo [of t] by (metis json.inject(5))
  then show ?thesis using a Some by (auto intro: nullable_object)
qed (simp add: transcriptionObject_def nullable_null)

lemma nullable_turn_detection:
  assumes "map_of m k = Some (turnDetectionObject fmt tdo)" "echoable fmt cfg" "aiTurnDetection (sdAudioInput cfg) = tdo"
  shows "nullable \<lparr>oPath = p, oM = m\<rparr> k (decodeTurnDetection oor) = Inr \<lparr>nSet = True, nValue = tdo\<rparr>"
proof (cases tdo)
  case (Some td)
  have "turn_detection_ok td" using assms(2,3) Some by (simp add: echoable_def session_ok_def)
  then have "\<exists>kvs. turnDetectionObject fmt (Some td) = JObj kvs \<and> distinct (map fst kvs) \<and>
      (\<forall>q. decodeTurnDetection oor \<lparr>oPath = q, oM = kvs\<rparr> = Inr td)"
    using turn_detection_echo [of td fmt oor] assms(2,3) Some by (simp add: echoable_def) (metis json.inject(5))
  then show ?thesis using assms(1) Some by (auto intro: nullable_object)
qed (use assms(1) in \<open>simp add: turnDetectionObject_def nullable_null\<close>)

lemma audio_echo:
  assumes "echoable fmt cfg" "audioObject fmt cfg = JObj m"
  shows "decodeAudio oor \<lparr>oPath = p, oM = last_wins m\<rparr> patch =
    Inr (patch\<lparr>pTranscription := \<lparr>nSet = True, nValue = aiTranscription (sdAudioInput cfg)\<rparr>,
               pTurnDetection := \<lparr>nSet = True, nValue = aiTurnDetection (sdAudioInput cfg)\<rparr>,
               pVoice := Some (aoVoice (sdAudioOutput cfg)), pSpeed := Some (aoSpeed (sdAudioOutput cfg))\<rparr>)"
proof -
  have sp: "json_float (JNum (fmt (aoSpeed (sdAudioOutput cfg)))) = Some (aoSpeed (sdAudioOutput cfg))"
    using assms(1) by (simp add: echoable_def)
  have i: "sub_object \<lparr>oPath = p, oM = last_wins m\<rparr> ''input'' patch (decodeAudioInput oor patch) =
    Inr (patch\<lparr>pTranscription := \<lparr>nSet = True, nValue = aiTranscription (sdAudioInput cfg)\<rparr>,
               pTurnDetection := \<lparr>nSet = True, nValue = aiTurnDetection (sdAudioInput cfg)\<rparr>\<rparr>)"
    using assms by (auto simp: audioObject_def sub_object_value decodeAudioInput_def allow_keys format_echo
        nullable_transcription nullable_turn_detection [OF _ assms(1)] require_def o_null_def)
  have o: "sub_object \<lparr>oPath = p, oM = last_wins m\<rparr> ''output'' q (decodeAudioOutput oor q) =
    Inr (q\<lparr>pVoice := Some (aoVoice (sdAudioOutput cfg)), pSpeed := Some (aoSpeed (sdAudioOutput cfg))\<rparr>)" for q
    using assms(2) by (auto simp: audioObject_def sub_object_value decodeAudioOutput_def allow_keys format_echo
        o_values sp)
  have "allow [''input'', ''output''] \<lparr>oPath = p, oM = last_wins m\<rparr> = Inr ()"
    using assms(2) by (intro allow_keys) (auto simp: audioObject_def)
  then show ?thesis by (simp add: decodeAudio_def i o)
qed

section \<open>The whole object\<close>

text \<open>The update that sets every field.\<close>

definition full_patch :: "SessionDefaults \<Rightarrow> SessionPatch" where
  "full_patch cfg =
     \<lparr>pInstructions = Some (sdInstructions cfg), pOutputModalities = Some (sdOutputModalities cfg),
      pVoice = Some (aoVoice (sdAudioOutput cfg)), pSpeed = Some (aoSpeed (sdAudioOutput cfg)),
      pMaxOutputTokens = Some (sdMaxOutputTokens cfg),
      pTranscription = \<lparr>nSet = True, nValue = aiTranscription (sdAudioInput cfg)\<rparr>,
      pTurnDetection = \<lparr>nSet = True, nValue = aiTurnDetection (sdAudioInput cfg)\<rparr>,
      pTools = Some (sdTools cfg), pToolChoice = Some (sdToolChoice cfg)\<rparr>"

lemma ApplyDefaults_ok: "turn_detection_ok td \<Longrightarrow> ApplyDefaults td = td"
  by (auto simp: turn_detection_ok_def ApplyDefaults_def or_default_def split: option.splits)

lemma full_patch_sets:
  assumes "session_ok cfg" "session_ok c"
  shows "patched_config (full_patch cfg) c = cfg"
proof -
  have "map_option ApplyDefaults (aiTurnDetection (sdAudioInput cfg)) = aiTurnDetection (sdAudioInput cfg)"
    using assms(1) by (auto simp: session_ok_def ApplyDefaults_ok split: option.splits)
  then show ?thesis using assms
    by (simp add: patched_config_def full_patch_def session_ok_def Let_def)
qed

lemma strings_echo: "strings_from p i (map JStr ss) = Inr ss"
  by (induction ss arbitrary: i) (simp_all add: json_string_def)

lemma max_tokens_echo:
  "echoable fmt cfg \<Longrightarrow> map_of m k = Some (MaxOutputTokens_Marshal (sdMaxOutputTokens cfg)) \<Longrightarrow>
   decodeMaxTokens \<lparr>oPath = p, oM = m\<rparr> k = Inr (Some (sdMaxOutputTokens cfg))"
  by (cases "sdMaxOutputTokens cfg")
     (auto simp: decodeMaxTokens_def echoable_def session_ok_def tokens_ok_def in_i64_def max_tokens_roundtrip)

lemma fields_map:
  "map_of (sessionFields fmt model cfg) ''type'' = Some (JStr ''realtime'')"
  "map_of (sessionFields fmt model cfg) ''model'' = Some (JStr model)"
  "map_of (sessionFields fmt model cfg) ''instructions'' = Some (JStr (sdInstructions cfg))"
  "map_of (sessionFields fmt model cfg) ''output_modalities'' = Some (JArr (map JStr (sdOutputModalities cfg)))"
  "map_of (sessionFields fmt model cfg) ''audio'' = Some (audioObject fmt cfg)"
  "map_of (sessionFields fmt model cfg) ''max_output_tokens'' = Some (MaxOutputTokens_Marshal (sdMaxOutputTokens cfg))"
  "map_of (sessionFields fmt model cfg) ''tools'' = Some (JArr (map toolObject (sdTools cfg)))"
  "map_of (sessionFields fmt model cfg) ''tool_choice'' = Some (ToolChoice_Marshal (sdToolChoice cfg))"
  "map_of (sessionFields fmt model cfg) ''truncation'' = Some (JStr ''auto'')"
  "map_of (sessionFields fmt model cfg) ''prompt'' = Some JNull" "map_of (sessionFields fmt model cfg) ''tracing'' = Some JNull"
  "map_of (sessionFields fmt model cfg) ''include'' = None" "map_of (sessionFields fmt model cfg) ''parallel_tool_calls'' = None"
  "map_of (sessionFields fmt model cfg) ''reasoning'' = None"
  by (simp_all add: sessionFields_def sessionTypeGA_def toolObjects_def)

lemma fields_keys:
  "no_beta \<lparr>oPath = p, oM = sessionFields fmt model cfg\<rparr> = Inr ()"
  "allow sessionKeys \<lparr>oPath = p, oM = sessionFields fmt model cfg\<rparr> = Inr ()"
  "distinct (map fst (sessionFields fmt model cfg))"
  by (simp_all add: no_beta_def betaFields_def allow_def sessionKeys_def sessionFields_def)

lemma defaulted_echo: "checkDefaultedFields \<lparr>oPath = p, oM = sessionFields fmt model cfg\<rparr> = Inr ()"
  by (simp add: checkDefaultedFields_def o_str_value [OF fields_map(9)] o_has_def o_null_def fields_map require_def refuse_def)

lemma choice_not_null: "ToolChoice_Marshal tc \<noteq> JNull"
  by (simp add: ToolChoice_Marshal_def)

lemma session_decode_echo:
  assumes "echoable fmt cfg"
  shows "decodeSession oor \<lparr>oPath = p, oM = sessionFields fmt model cfg\<rparr> = Inr \<lparr>suPatch = full_patch cfg, suModel = Some model\<rparr>"
proof -
  obtain m where m: "audioObject fmt cfg = JObj m" by (simp add: audioObject_def)
  have aud: "sub_object \<lparr>oPath = p, oM = sessionFields fmt model cfg\<rparr> ''audio'' q (\<lambda>aud. decodeAudio oor aud q) =
      Inr (q\<lparr>pTranscription := \<lparr>nSet = True, nValue = aiTranscription (sdAudioInput cfg)\<rparr>,
               pTurnDetection := \<lparr>nSet = True, nValue = aiTurnDetection (sdAudioInput cfg)\<rparr>,
               pVoice := Some (aoVoice (sdAudioOutput cfg)), pSpeed := Some (aoSpeed (sdAudioOutput cfg))\<rparr>)" for q
    using fields_map(5) [of fmt model cfg] m by (simp add: sub_object_value audio_echo [OF assms m])
  have mods: "o_strings \<lparr>oPath = p, oM = sessionFields fmt model cfg\<rparr> ''output_modalities'' = Inr (Some (sdOutputModalities cfg))"
    by (simp add: o_strings_def o_array_def o_read_def fields_map(4) strings_echo)
  have tools: "decodeTools \<lparr>oPath = p, oM = sessionFields fmt model cfg\<rparr> = Inr (sdTools cfg)"
    using assms by (simp add: decodeTools_def o_array_def o_read_def fields_map(7) tools_echo echoable_def session_ok_def)
  have tc: "decodeToolChoice \<lparr>oPath = p, oM = sessionFields fmt model cfg\<rparr> ''tool_choice'' = Inr (sdToolChoice cfg)"
    using assms by (auto simp: echoable_def session_ok_def intro: tool_choice_echo [OF _ _ fields_map(8)])
  show ?thesis
    by (simp add: decodeSession_def fields_keys need_str_def o_str_value [OF fields_map(1)] o_str_value [OF fields_map(2)]
        o_str_value [OF fields_map(3)] sessionTypeGA_def require_def mods max_tokens_echo [OF assms fields_map(6)] aud tools tc
        o_has_def o_null_def fields_map(7,8) choice_not_null defaulted_echo full_patch_def empty_patch_def Let_def)
qed


definition vad_session :: SessionDefaults where
  "vad_session = plain_session
     \<lparr>sdAudioInput := \<lparr>aiFormat = pcm24k, aiTranscription = Some \<lparr>trModel = ''m'', trLanguage = [], trPrompt = []\<rparr>,
        aiTurnDetection = Some \<lparr>tdType = ''server_vad'', tdThreshold = Some 1, tdPrefixPaddingMs = Some 300,
          tdSilenceDurationMs = Some 500, tdEagerness = None, tdCreateResponse = True, tdInterruptResponse = False\<rparr>\<rparr>,
      sdTools := [\<lparr>toolType = ''function'', toolName = ''f'', toolDescription = [], toolParameters = Some (JObj [])\<rparr>],
      sdToolChoice := \<lparr>tcMode = ''function'', tcName = ''f''\<rparr>\<rparr>"

lemma plain_session_ok: "session_ok plain_session"
  by (simp add: plain_session_def session_ok_def modalities_ok_def tool_choice_ok_def tokens_ok_def)


section \<open>Audio\<close>

text \<open>Audio sent in base64 arrives unchanged: an append event that carries the encoding of some bytes
  posts exactly those bytes when they are whole 16-bit samples, and is refused with an error about
  \<open>audio\<close> when they are not.\<close>

theorem audio_append_roundtrip:
  "Inbound oor (Some (JObj [(''type'', JStr ''input_audio_buffer.append''), (''audio'', JStr (EncodeToString p))])) a =
     (if even (length p) then (a, [], [PostPcm p])
      else (let (b, fs) = reject [] (invalidValue ''audio'') a in (b, fs, [])))"
proof -
  have "go_rem (int (length p)) BytesPerSample \<noteq> 0 \<longleftrightarrow> odd (length p)"
    by (simp add: go_rem_def BytesPerSample_def) presburger
  then show ?thesis
    by (simp add: Inbound_def decodeEnvelope_def parseObject_def o_has_def o_str_value eventIDMaxLen_def dispatch_def
        decodeAudioAppend_def allow_keys base64_roundtrip)
qed

end
