(* ===== verification/SilenceGate.thy ===== *)
theory SilenceGate
  imports Vad
begin

text \<open>
  The silence gate of \<^verbatim>\<open>internal/provider/openai/realtime_tts.go\<close>: it trims the padding a conversational
  model puts around the speech of one segment, while the audio streams through it in pieces of any size.
  The reference at the end says which frames of a whole segment it keeps.
\<close>

section \<open>The gate\<close>

definition gateFrame :: nat where "gateFrame = 960"
definition gateThreshold :: f64 where "gateThreshold = 200"
definition gateLeadKeep :: nat where "gateLeadKeep = 3"
definition gateGapKeep :: nat where "gateGapKeep = 15"
definition gateTailKeep :: nat where "gateTailKeep = 5"

definition frameRMS :: "pcm \<Rightarrow> f64" where
  "frameRMS f =
     (let n = length f div 2
      in fsqrt (fdiv (foldl (\<lambda>sum i. let v = f64_of_int (sint (the (Sample f i))) in fadd sum (fmul v v)) 0 [0..<n]) (f64_of_int (int n))))"

definition is_speech :: "pcm \<Rightarrow> bool" where
  "is_speech f \<longleftrightarrow> gateThreshold \<le> frameRMS f"

record silenceGate =
  gPart :: pcm
  gHeld :: pcm
  gStarted :: bool

definition new_gate :: silenceGate where
  "new_gate = \<lparr>gPart = [], gHeld = [], gStarted = False\<rparr>"

definition gate_keep :: "silenceGate \<Rightarrow> nat" where
  "gate_keep g = (if gStarted g then gateGapKeep else gateLeadKeep)"

text \<open>One iteration of the loop of \<open>push\<close>, on the frame it cuts off.\<close>

definition gate_frame :: "pcm \<Rightarrow> silenceGate \<Rightarrow> pcm \<times> silenceGate" where
  "gate_frame f g =
     (if is_speech f then (gHeld g @ f, g\<lparr>gHeld := [], gStarted := True\<rparr>)
      else if length (gHeld g) < gate_keep g * gateFrame then ([], g\<lparr>gHeld := gHeld g @ f\<rparr>)
      else if \<not> gStarted g then ([], g\<lparr>gHeld := drop gateFrame (gHeld g) @ f\<rparr>)
      else ([], g))"

function gate_loop :: "silenceGate \<Rightarrow> pcm \<Rightarrow> pcm \<times> silenceGate" where
  "gate_loop g out =
     (if length (gPart g) < gateFrame then (out, g)
      else let (o', g') = gate_frame (take gateFrame (gPart g)) g
           in gate_loop (g'\<lparr>gPart := drop gateFrame (gPart g)\<rparr>) (out @ o'))"
  by pat_completeness auto
termination
  by (relation "measure (\<lambda>(g, _). length (gPart g))") (auto simp: gateFrame_def)

definition gate_push :: "pcm \<Rightarrow> silenceGate \<Rightarrow> pcm \<times> silenceGate" where
  "gate_push pcm g = gate_loop (g\<lparr>gPart := gPart g @ pcm\<rparr>) []"

definition gate_finish :: "silenceGate \<Rightarrow> pcm \<times> silenceGate" where
  "gate_finish g =
     (if gStarted g then take (min (length (gHeld g)) (gateTailKeep * gateFrame)) (gHeld g) else [], new_gate)"

text \<open>A whole segment: what comes out for the pieces that go in.\<close>

fun gate_pushes :: "pcm list \<Rightarrow> silenceGate \<Rightarrow> pcm \<times> silenceGate" where
  "gate_pushes [] g = ([], g)"
| "gate_pushes (p # ps) g = (let (o1, g1) = gate_push p g; (o2, g2) = gate_pushes ps g1 in (o1 @ o2, g2))"

definition gate_segment :: "pcm list \<Rightarrow> pcm" where
  "gate_segment ps = (let (o1, g) = gate_pushes ps new_gate in o1 @ fst (gate_finish g))"

section \<open>The reference\<close>

text \<open>The whole frames of a segment, without a remainder.\<close>

function frames_of :: "pcm \<Rightarrow> pcm list" where
  "frames_of p = (if length p < gateFrame then [] else take gateFrame p # frames_of (drop gateFrame p))"
  by pat_completeness auto
termination
  by (relation "measure length") (auto simp: gateFrame_def)

abbreviation quiet_frame :: "pcm \<Rightarrow> bool" where "quiet_frame f \<equiv> \<not> is_speech f"

definition last_n :: "nat \<Rightarrow> 'a list \<Rightarrow> 'a list" where
  "last_n n xs = drop (length xs - n) xs"

text \<open>From the first speech on: speech is kept, a pause is cut to 300 ms, the end to 100 ms.\<close>

function spoken_frames :: "pcm list \<Rightarrow> pcm list" where
  "spoken_frames fs =
     (if fs = [] then []
      else let r = dropWhile is_speech fs; q = takeWhile quiet_frame r; s = dropWhile quiet_frame r
           in takeWhile is_speech fs @ (if s = [] then take gateTailKeep q else take gateGapKeep q @ spoken_frames s))"
  by pat_completeness auto
termination
proof (relation "measure length", simp, unfold in_measure)
  fix fs r q s
  assume "fs \<noteq> []" "r = dropWhile is_speech fs" "s = dropWhile quiet_frame r" "s \<noteq> []"
  then show "length s < length fs"
    by (cases fs) (auto simp: le_imp_less_Suc length_dropWhile_le intro: order.trans [OF length_dropWhile_le] le_less_trans [OF length_dropWhile_le])
qed

definition trimmed :: "pcm list \<Rightarrow> pcm list" where
  "trimmed fs = (let s = dropWhile quiet_frame fs in if s = [] then [] else last_n gateLeadKeep (takeWhile quiet_frame fs) @ spoken_frames s)"

section \<open>The gate keeps what the reference says\<close>

lemmas gate_consts = gateFrame_def gateLeadKeep_def gateGapKeep_def gateTailKeep_def

declare gate_loop.simps [simp del] frames_of.simps [simp del] spoken_frames.simps [simp del]

text \<open>The incomplete frame at the end of a segment.\<close>

function rest_of :: "pcm \<Rightarrow> pcm" where
  "rest_of p = (if length p < gateFrame then p else rest_of (drop gateFrame p))"
  by pat_completeness auto
termination
  by (relation "measure length") (auto simp: gateFrame_def)

declare rest_of.simps [simp del]

definition whole_frames :: "pcm list \<Rightarrow> bool" where
  "whole_frames fs \<longleftrightarrow> list_all (\<lambda>f. length f = gateFrame) fs"

lemma whole_simps [simp]:
  "whole_frames []"
  "whole_frames (f # fs) \<longleftrightarrow> length f = gateFrame \<and> whole_frames fs"
  "whole_frames (fs @ gs) \<longleftrightarrow> whole_frames fs \<and> whole_frames gs"
  by (auto simp: whole_frames_def)

lemma whole_part: "whole_frames fs \<Longrightarrow> whole_frames (take n fs)" "whole_frames fs \<Longrightarrow> whole_frames (drop n fs)"
  by (auto simp: whole_frames_def list_all_iff dest: in_set_takeD in_set_dropD)

lemma whole_frames_of: "whole_frames (frames_of p)"
  by (induction p rule: frames_of.induct) (subst frames_of.simps, auto)

lemma length_whole: "whole_frames fs \<Longrightarrow> length (concat fs) = length fs * gateFrame"
  by (induction fs) auto

lemma take_whole: "whole_frames fs \<Longrightarrow> take (n * gateFrame) (concat fs) = concat (take n fs)"
proof (induction fs arbitrary: n)
  case (Cons f fs)
  then show ?case by (cases n) auto
qed simp

lemma rest_of_short: "length (rest_of q) < gateFrame"
  by (induction q rule: rest_of.induct) (subst rest_of.simps, simp)

lemma frames_of_append: "frames_of (p @ q) = frames_of p @ frames_of (rest_of p @ q)"
proof (induction p rule: frames_of.induct)
  case (1 p)
  show ?case
  proof (cases "length p < gateFrame")
    case True
    then show ?thesis by (simp add: rest_of.simps [of p] frames_of.simps [of p])
  next
    case False
    then have "frames_of (p @ q) = take gateFrame p # frames_of (drop gateFrame p @ q)"
      by (subst frames_of.simps) simp
    with False 1 show ?thesis by (simp add: rest_of.simps [of p] frames_of.simps [of p])
  qed
qed

lemma rest_of_append: "rest_of (p @ q) = rest_of (rest_of p @ q)"
proof (induction p rule: rest_of.induct)
  case (1 p)
  show ?case
  proof (cases "length p < gateFrame")
    case True
    then show ?thesis by (simp add: rest_of.simps [of p])
  next
    case False
    then have "rest_of (p @ q) = rest_of (drop gateFrame p @ q)"
      by (subst rest_of.simps) simp
    with False 1 show ?thesis by (simp add: rest_of.simps [of p])
  qed
qed

text \<open>The gate on a list of frames; \<open>push\<close> runs it on the frames it can cut.\<close>

fun gate_frames :: "pcm list \<Rightarrow> silenceGate \<Rightarrow> pcm \<times> silenceGate" where
  "gate_frames [] g = ([], g)"
| "gate_frames (f # fs) g = (let (o1, g1) = gate_frame f g; (o2, g2) = gate_frames fs g1 in (o1 @ o2, g2))"

lemma gate_frames_append:
  "gate_frames (fs @ gs) g =
     (let (o1, g1) = gate_frames fs g; (o2, g2) = gate_frames gs g1 in (o1 @ o2, g2))"
  by (induction fs arbitrary: g) (auto split: prod.splits)

lemma gate_frame_part:
  "gate_frame f (g\<lparr>gPart := p\<rparr>) = (case gate_frame f g of (o', g') \<Rightarrow> (o', g'\<lparr>gPart := p\<rparr>))"
  by (simp add: gate_frame_def gate_keep_def)

lemma gate_frames_part:
  "gate_frames fs (g\<lparr>gPart := p\<rparr>) = (case gate_frames fs g of (o', g') \<Rightarrow> (o', g'\<lparr>gPart := p\<rparr>))"
  by (induction fs arbitrary: g) (auto simp: gate_frame_part split: prod.splits)

lemma gate_loop_frames:
  "gate_loop g out =
     (let (o', g') = gate_frames (frames_of (gPart g)) g in (out @ o', g'\<lparr>gPart := rest_of (gPart g)\<rparr>))"
proof (induction g out rule: gate_loop.induct)
  case (1 g out)
  show ?case
  proof (cases "length (gPart g) < gateFrame")
    case True
    then show ?thesis by (simp add: gate_loop.simps [of g] frames_of.simps [of "gPart g"] rest_of.simps [of "gPart g"])
  next
    case False
    obtain o' g' where f: "gate_frame (take gateFrame (gPart g)) g = (o', g')" by fastforce
    with 1 [OF False f [symmetric] refl] False show ?thesis
      by (simp add: gate_loop.simps [of g] frames_of.simps [of "gPart g"] rest_of.simps [of "gPart g"] gate_frames_part
          split: prod.splits)
  qed
qed

lemma gate_push_frames:
  "gate_push p g =
     (let (o', g') = gate_frames (frames_of (gPart g @ p)) g in (o', g'\<lparr>gPart := rest_of (gPart g @ p)\<rparr>))"
  by (simp add: gate_push_def gate_loop_frames gate_frames_part split: prod.splits)

lemma gate_pushes_frames:
  assumes "length (gPart g) < gateFrame"
  shows "gate_pushes ps g =
     (let (o', g') = gate_frames (frames_of (gPart g @ concat ps)) g in (o', g'\<lparr>gPart := rest_of (gPart g @ concat ps)\<rparr>))"
  using assms
proof (induction ps arbitrary: g)
  case Nil
  then show ?case by (simp add: frames_of.simps [of "gPart g"] rest_of.simps [of "gPart g"])
next
  case (Cons p ps)
  show ?case
    by (auto simp: gate_push_frames Cons.IH rest_of_short gate_frames_part gate_frames_append
        frames_of_append [of "gPart g @ p" "concat ps", simplified] rest_of_append [of "gPart g @ p" "concat ps", simplified]
        split: prod.splits)
qed

text \<open>What the gate still gives for the frames to come, at the end of the segment.\<close>

definition gate_gives :: "pcm list \<Rightarrow> silenceGate \<Rightarrow> pcm" where
  "gate_gives fs g = (let (o1, g1) = gate_frames fs g in o1 @ fst (gate_finish g1))"

lemma gate_gives_simps:
  "gate_gives [] g = fst (gate_finish g)"
  "gate_gives (f # fs) g = fst (gate_frame f g) @ gate_gives fs (snd (gate_frame f g))"
  by (auto simp: gate_gives_def split: prod.splits)

lemma gate_segment_gives: "gate_segment ps = gate_gives (frames_of (concat ps)) new_gate"
  by (simp add: gate_segment_def gate_gives_def gate_pushes_frames new_gate_def gate_finish_def gate_consts split: prod.splits)

definition pause :: "pcm list \<Rightarrow> pcm list \<Rightarrow> pcm list" where
  "pause qs fs =
     (let q = qs @ takeWhile quiet_frame fs; s = dropWhile quiet_frame fs
      in if s = [] then take gateTailKeep q else take gateGapKeep q @ spoken_frames s)"

lemma spoken_loud: "is_speech f \<Longrightarrow> spoken_frames (f # fs) = f # pause [] fs"
proof (cases fs)
  case (Cons g gs)
  assume "is_speech f"
  then show ?thesis unfolding Cons
    by (cases "is_speech g")
       (simp_all add: pause_def Let_def spoken_frames.simps [of "f # g # gs"] spoken_frames.simps [of "g # gs"])
qed (simp add: pause_def spoken_frames.simps)

lemma pause_simps:
  "pause qs [] = take gateTailKeep qs"
  "quiet_frame f \<Longrightarrow> pause qs (f # fs) = pause (qs @ [f]) fs"
  "is_speech f \<Longrightarrow> pause qs (f # fs) = take gateGapKeep qs @ f # pause [] fs"
  by (simp_all add: pause_def spoken_loud) (simp add: pause_def)?

lemma gives_started:
  assumes "whole_frames qs" "whole_frames fs" "gStarted g" "gHeld g = concat (take gateGapKeep qs)"
  shows "gate_gives fs g = concat (pause qs fs)"
  using assms
proof (induction fs arbitrary: qs g)
  case Nil
  have "take (min (length (gHeld g)) (gateTailKeep * gateFrame)) (gHeld g) = take (gateTailKeep * gateFrame) (gHeld g)"
    by (simp add: min_def)
  with Nil show ?case
    by (simp add: gate_gives_simps gate_finish_def pause_simps take_whole whole_part gate_consts(3,4) min_def del: take_all_iff)
next
  case (Cons f fs)
  have len: "length (gHeld g) = min (length qs) gateGapKeep * gateFrame"
    using Cons.prems by (simp add: length_whole whole_part)
  show ?case
  proof (cases "is_speech f")
    case True
    with Cons.prems show ?thesis
      by (simp add: gate_gives_simps gate_frame_def pause_simps Cons.IH [of "[]"])
  next
    case False
    have "gHeld (snd (gate_frame f g)) = concat (take gateGapKeep (qs @ [f]))"
      using Cons.prems False len
      by (cases "length qs < gateGapKeep") (auto simp: gate_frame_def gate_keep_def gate_consts)
    with Cons.prems False show ?thesis
      by (subst gate_gives_simps, subst Cons.IH [of "qs @ [f]"]) (auto simp: gate_frame_def pause_simps)
  qed
qed

definition lead :: "pcm list \<Rightarrow> pcm list \<Rightarrow> pcm list" where
  "lead qs fs =
     (let s = dropWhile quiet_frame fs
      in if s = [] then [] else last_n gateLeadKeep (qs @ takeWhile quiet_frame fs) @ spoken_frames s)"

lemma lead_simps:
  "lead qs [] = []"
  "quiet_frame f \<Longrightarrow> lead qs (f # fs) = lead (qs @ [f]) fs"
  "is_speech f \<Longrightarrow> lead qs (f # fs) = last_n gateLeadKeep qs @ f # pause [] fs"
  by (simp_all add: lead_def spoken_loud)

lemma drop_whole: "whole_frames fs \<Longrightarrow> drop gateFrame (concat fs) = concat (drop 1 fs)"
  by (cases fs) auto

lemma gives_leading:
  assumes "whole_frames qs" "whole_frames fs" "\<not> gStarted g" "gHeld g = concat (last_n gateLeadKeep qs)"
  shows "gate_gives fs g = concat (lead qs fs)"
  using assms
proof (induction fs arbitrary: qs g)
  case Nil
  then show ?case by (simp add: gate_gives_simps gate_finish_def lead_simps)
next
  case (Cons f fs)
  have len: "length (gHeld g) = min (length qs) gateLeadKeep * gateFrame"
    using Cons.prems by (simp add: length_whole whole_part last_n_def min_def)
  show ?case
  proof (cases "is_speech f")
    case True
    with Cons.prems show ?thesis
      by (simp add: gate_gives_simps gate_frame_def lead_simps gives_started [of "[]"])
  next
    case False
    have held: "gHeld (snd (gate_frame f g)) = concat (last_n gateLeadKeep (qs @ [f]))"
    proof (cases "length qs < gateLeadKeep")
      case True
      with Cons.prems False len show ?thesis
        by (simp add: gate_frame_def gate_keep_def gate_consts last_n_def)
    next
      case long: False
      then have "last_n gateLeadKeep (qs @ [f]) = drop 1 (last_n gateLeadKeep qs) @ [f]"
        using Suc_diff_Suc [of 2 "length qs"] by (simp add: last_n_def gate_consts numeral_eq_Suc)
      with Cons.prems False len long show ?thesis
        by (simp add: gate_frame_def gate_keep_def drop_whole whole_part last_n_def min_absorb2)
    qed
    have "\<not> gStarted (snd (gate_frame f g))" using Cons.prems False by (simp add: gate_frame_def)
    with held Cons.prems False show ?thesis
      by (subst gate_gives_simps, subst Cons.IH [of "qs @ [f]"]) (auto simp: gate_frame_def lead_simps)
  qed
qed

lemma gate_segment_trimmed: "gate_segment ps = concat (trimmed (frames_of (concat ps)))"
  using gives_leading [of "[]" "frames_of (concat ps)" new_gate]
  by (simp add: gate_segment_gives whole_frames_of new_gate_def last_n_def lead_def trimmed_def)

text \<open>Speech is never lost: the gate drops quiet frames only.\<close>

lemma filter_takeWhile_quiet: "filter is_speech (takeWhile quiet_frame fs) = []"
  by (auto simp: filter_empty_conv dest: set_takeWhileD)

lemma filter_pieces:
  "filter is_speech (take n (takeWhile quiet_frame fs)) = []" "filter is_speech (last_n n (takeWhile quiet_frame fs)) = []"
  by (auto simp: filter_empty_conv last_n_def dest!: in_set_takeD in_set_dropD dest: set_takeWhileD)

lemma filter_dropWhile_quiet: "filter is_speech (dropWhile quiet_frame fs) = filter is_speech fs"
  by (induction fs) auto

lemma filter_spoken: "filter is_speech (spoken_frames fs) = filter is_speech fs"
proof (induction fs rule: spoken_frames.induct)
  case (1 fs)
  show ?case
  proof (cases "fs = []")
    case True
    then show ?thesis by (simp add: spoken_frames.simps)
  next
    case False
    let ?r = "dropWhile is_speech fs"
    have fs: "filter is_speech fs = filter is_speech (takeWhile is_speech fs) @ filter is_speech (dropWhile quiet_frame ?r)"
      by (simp add: filter_dropWhile_quiet flip: filter_append)
    show ?thesis
    proof (cases "dropWhile quiet_frame ?r = []")
      case True
      with False fs show ?thesis by (simp add: spoken_frames.simps [of fs] Let_def filter_pieces)
    next
      case more: False
      with False fs 1 [OF False refl refl refl more] show ?thesis
        by (simp add: spoken_frames.simps [of fs] Let_def filter_pieces del: dropWhile_eq_Nil_conv)
    qed
  qed
qed

lemma filter_trimmed: "filter is_speech (trimmed fs) = filter is_speech fs"
proof (cases "dropWhile quiet_frame fs = []")
  case True
  with filter_dropWhile_quiet [of fs] show ?thesis by (simp add: trimmed_def)
next
  case False
  then show ?thesis by (simp add: trimmed_def Let_def filter_pieces filter_spoken filter_dropWhile_quiet)
qed

text \<open>The memory the gate holds on to is bounded, whatever the segment is.\<close>

definition gate_ok :: "silenceGate \<Rightarrow> bool" where
  "gate_ok g \<longleftrightarrow> length (gPart g) < gateFrame \<and> length (gHeld g) \<le> gate_keep g * gateFrame \<and> length (gHeld g) mod gateFrame = 0"

lemma gate_frame_ok:
  assumes "length f = gateFrame" "gate_ok g"
  shows "gate_ok (snd (gate_frame f g))"
proof -
  have step: "n + gateFrame \<le> k * gateFrame" if "n < k * gateFrame" "n mod gateFrame = 0" for n k
  proof -
    from \<open>n mod gateFrame = 0\<close> obtain m where n: "n = gateFrame * m" by (auto simp: mod_eq_0_iff_dvd)
    with \<open>n < k * gateFrame\<close> have "m < k" by (simp add: gateFrame_def)
    then have "Suc m * gateFrame \<le> k * gateFrame" by (intro mult_le_mono1) simp
    with n show ?thesis by (simp add: algebra_simps)
  qed
  show ?thesis
    using assms step [of "length (gHeld g)" "gate_keep g"]
    by (auto simp: gate_frame_def gate_ok_def gate_keep_def gate_consts mod_eq_0_iff_dvd dvd_diff_nat le_mod_geq)
qed

lemma gate_frames_ok: "whole_frames fs \<Longrightarrow> gate_ok g \<Longrightarrow> gate_ok (snd (gate_frames fs g))"
proof (induction fs arbitrary: g)
  case (Cons f fs)
  then show ?case
    using Cons.IH [of "snd (gate_frame f g)"] gate_frame_ok [of f g] by (simp add: case_prod_beta)
qed simp

lemma gate_push_ok:
  assumes "gate_ok g"
  shows "gate_ok (snd (gate_push p g))"
  using gate_frames_ok [OF whole_frames_of [of "gPart g @ p"] assms] rest_of_short [of "gPart g @ p"]
  by (simp add: gate_push_frames case_prod_beta gate_ok_def gate_keep_def)

lemma gate_pushes_ok: "gate_ok g \<Longrightarrow> gate_ok (snd (gate_pushes ps g))"
  by (induction ps arbitrary: g) (simp_all add: case_prod_beta gate_push_ok)

lemma gate_memory:
  "length (gPart (snd (gate_pushes ps new_gate))) < gateFrame"
  "length (gHeld (snd (gate_pushes ps new_gate))) \<le> gateGapKeep * gateFrame"
proof -
  have "gate_ok (snd (gate_pushes ps new_gate))"
    by (rule gate_pushes_ok) (simp add: gate_ok_def new_gate_def gate_consts)
  then show "length (gPart (snd (gate_pushes ps new_gate))) < gateFrame"
    "length (gHeld (snd (gate_pushes ps new_gate))) \<le> gateGapKeep * gateFrame"
    by (auto simp: gate_ok_def gate_keep_def gate_consts split: if_splits)
qed

text \<open>\<^bold>\<open>C17\<close>: the streaming gate gives, for every segment and however its audio is cut into pieces, the whole frames
  of the segment with the leading silence cut to its last 60 ms, every pause to its first 300 ms and the
  trailing silence to 100 ms (nothing at all for a segment without speech). Every frame with speech is
  among them, in order. What the gate holds back meanwhile never exceeds one frame and 300 ms.\<close>

theorem silence_gate:
  "gate_segment ps = concat (trimmed (frames_of (concat ps)))
   \<and> filter is_speech (trimmed (frames_of (concat ps))) = filter is_speech (frames_of (concat ps))
   \<and> length (gPart (snd (gate_pushes ps new_gate))) < gateFrame
   \<and> length (gHeld (snd (gate_pushes ps new_gate))) \<le> gateGapKeep * gateFrame"
  using gate_memory by (simp add: gate_segment_trimmed filter_trimmed)

end
