(* ===== verification/Runtime.thy ===== *)
theory Runtime
  imports Json Config Utf8 "HOL-Library.AList" "HOL-Library.List_Lexorder" "HOL-Library.Char_ord"
begin

text \<open>
  \<^verbatim>\<open>internal/config/runtime.go\<close>, the runtime part of \<^verbatim>\<open>validate.go\<close> and the placeholder expansion of
  \<^verbatim>\<open>load.go\<close>: provider instances, profiles and settings. A Go map is an association list with distinct
  keys; ranging over its sorted names is ranging over the sorted keys. A nil \<open>ProviderLookup\<close> is
  \<^term>\<open>None\<close>. Cloning is the identity here, since values are not shared.
\<close>

section \<open>Data\<close>

record ProviderInstance =
  piName :: string
  piType :: string
  piAPIKey :: string
  piOptions :: "json option"

record Profile =
  prName :: string
  prASR :: string
  prLLM :: string
  prTTS :: string
  prInstructions :: string
  prTemperature :: "f64 option"
  prMaxOutputTokens :: MaxOutputTokens
  prOutputModalities :: "string list"
  prVoice :: string
  prSpeed :: f64
  prASRLanguage :: string
  prASRModel :: string
  prTranscription :: "Transcription option"
  prTurnDetection :: "TurnDetection option"
  prToolChoice :: ToolChoice

record RuntimeConfig =
  rcProviders :: "(string \<times> ProviderInstance) list"
  rcProfiles :: "(string \<times> Profile) list"
  rcDefaultProfile :: string

type_synonym ProviderLookup = "(string \<Rightarrow> string \<Rightarrow> bool) option"

definition TemperatureMin :: f64 where "TemperatureMin = 0"
definition TemperatureMax :: f64 where "TemperatureMax = 2"

definition DefaultProfile :: Profile where
  "DefaultProfile =
     \<lparr>prName = [], prASR = [], prLLM = [], prTTS = [], prInstructions = ''You are a helpful assistant.'', prTemperature = None,
      prMaxOutputTokens = \<lparr>motInf = True, motN = 0\<rparr>, prOutputModalities = [ModalityAudio], prVoice = ''alloy'', prSpeed = 1,
      prASRLanguage = [], prASRModel = [], prTranscription = Some \<lparr>trModel = [], trLanguage = [], trPrompt = []\<rparr>,
      prTurnDetection = Some \<lparr>tdType = TurnDetectionServerVAD, tdThreshold = None, tdPrefixPaddingMs = None,
        tdSilenceDurationMs = None, tdEagerness = None, tdCreateResponse = True, tdInterruptResponse = True\<rparr>,
      prToolChoice = \<lparr>tcMode = ToolChoiceAuto, tcName = []\<rparr>\<rparr>"

text \<open>The session snapshot a profile stands for.\<close>

definition Profile_SessionDefaults :: "Profile \<Rightarrow> SessionDefaults" where
  "Profile_SessionDefaults p =
     \<lparr>sdInstructions = prInstructions p, sdOutputModalities = prOutputModalities p,
      sdAudioInput = \<lparr>aiFormat = \<lparr>afType = AudioFormatPCM, afRate = AudioSampleRate\<rparr>,
        aiTranscription = map_option (\<lambda>t. \<lparr>trModel = prASRModel p, trLanguage = prASRLanguage p, trPrompt = trPrompt t\<rparr>) (prTranscription p),
        aiTurnDetection = prTurnDetection p\<rparr>,
      sdAudioOutput = \<lparr>aoFormat = \<lparr>afType = AudioFormatPCM, afRate = AudioSampleRate\<rparr>, aoVoice = prVoice p, aoSpeed = prSpeed p\<rparr>,
      sdMaxOutputTokens = prMaxOutputTokens p, sdTools = [], sdToolChoice = prToolChoice p\<rparr>"

definition ProviderNames :: "RuntimeConfig \<Rightarrow> string list" where
  "ProviderNames c = sort (map fst (rcProviders c))"

definition ProfileNames :: "RuntimeConfig \<Rightarrow> string list" where
  "ProfileNames c = sort (map fst (rcProfiles c))"

section \<open>Validation\<close>

definition providerKinds :: "string list" where "providerKinds = [''asr'', ''llm'', ''tts'']"

definition ProviderInstance_validate :: "string \<Rightarrow> string \<Rightarrow> ProviderLookup \<Rightarrow> ProviderInstance \<Rightarrow> field_error option" where
  "ProviderInstance_validate field key known p =
     (if piName p \<noteq> key then Some (FieldError (field @ ''.name'') (NameMismatch key (piName p)))
      else if piType p = [] then Some (FieldError (field @ ''.type'') MustNotBeEmpty)
      else if (case known of None \<Rightarrow> False | Some k \<Rightarrow> \<not> list_ex (\<lambda>kind. k kind (piType p)) providerKinds)
      then Some (FieldError (field @ ''.type'') (UnknownType (piType p)))
      else if piAPIKey p = [] then Some (FieldError (field @ ''.api_key'') MustNotBeEmpty)
      else None)"

definition Profile_validate :: "string \<Rightarrow> string \<Rightarrow> Profile \<Rightarrow> field_error option" where
  "Profile_validate field key p =
     err_or (if prName p \<noteq> key then Some (FieldError (field @ ''.name'') (NameMismatch key (prName p))) else None)
     (err_or (validateModalities (field @ ''.output_modalities'') (prOutputModalities p))
     (err_or (validateMaxOutputTokens (field @ ''.max_output_tokens'') (prMaxOutputTokens p))
     (err_or (validateSpeed (field @ ''.speed'') (prSpeed p))
     (err_or (if prVoice p = [] then Some (FieldError (field @ ''.voice'') MustNotBeEmpty) else None)
     (err_or (if tcMode (prToolChoice p) \<in> {ToolChoiceAuto, ToolChoiceNone, ToolChoiceRequired} then None
              else if tcMode (prToolChoice p) = ToolChoiceFunction then Some (FieldError (field @ ''.tool_choice'') NotConfigurableHere)
              else Some (FieldError (field @ ''.tool_choice'') NotOneOf))
     (err_or (case prTemperature p of None \<Rightarrow> None
              | Some t \<Rightarrow> if t < TemperatureMin \<or> TemperatureMax < t then Some (FieldError (field @ ''.temperature'') OutOfRange) else None)
     (err_or (case prTranscription p of None \<Rightarrow> None
              | Some t \<Rightarrow> if trLanguage t \<noteq> [] then Some (FieldError (field @ ''.transcription.language'') NotConfigurableHere)
                          else if trModel t \<noteq> [] then Some (FieldError (field @ ''.transcription.model'') NotConfigurableHere)
                          else None)
     (case prTurnDetection p of None \<Rightarrow> None | Some td \<Rightarrow> TurnDetection_validate (field @ ''.turn_detection'') td))))))))"

definition validateRef :: "string \<Rightarrow> string \<Rightarrow> string \<Rightarrow> ProviderLookup \<Rightarrow> RuntimeConfig \<Rightarrow> field_error option" where
  "validateRef field kind inst known c =
     (if inst = [] then Some (FieldError field MustNotBeEmpty)
      else case map_of (rcProviders c) inst of
        None \<Rightarrow> Some (FieldError field (UnknownInstance inst))
      | Some p \<Rightarrow> (case known of None \<Rightarrow> None
          | Some k \<Rightarrow> if k kind (piType p) then None else Some (FieldError field (WrongKind (piType p) kind))))"

text \<open>A loop that stops at the first error.\<close>

fun first_err :: "('a \<Rightarrow> field_error option) \<Rightarrow> 'a list \<Rightarrow> field_error option" where
  "first_err f [] = None"
| "first_err f (x # xs) = err_or (f x) (first_err f xs)"

definition profile_refs :: "Profile \<Rightarrow> (string \<times> string) list" where
  "profile_refs p = [(''asr'', prASR p), (''llm'', prLLM p), (''tts'', prTTS p)]"

definition RuntimeConfig_validate :: "string \<Rightarrow> ProviderLookup \<Rightarrow> RuntimeConfig \<Rightarrow> field_error option" where
  "RuntimeConfig_validate prefix known c =
     err_or (first_err (\<lambda>name. case map_of (rcProviders c) name of None \<Rightarrow> None
               | Some p \<Rightarrow> ProviderInstance_validate (prefix @ ''providers.'' @ name) name known p) (ProviderNames c))
     (err_or (first_err (\<lambda>name. case map_of (rcProfiles c) name of None \<Rightarrow> None
               | Some p \<Rightarrow> let field = prefix @ ''profiles.'' @ name in
                   err_or (Profile_validate field name p)
                     (first_err (\<lambda>(kind, inst). validateRef (field @ ''.'' @ kind) kind inst known c) (profile_refs p))) (ProfileNames c))
     (if rcDefaultProfile c \<noteq> [] \<and> map_of (rcProfiles c) (rcDefaultProfile c) = None
      then Some (FieldError (prefix @ ''settings.default_profile'') (UnknownProfile (rcDefaultProfile c))) else None))"

section \<open>Placeholders\<close>

definition name_start :: "char \<Rightarrow> bool" where
  "name_start c \<longleftrightarrow> (65 \<le> byte c \<and> byte c \<le> 90) \<or> (97 \<le> byte c \<and> byte c \<le> 122) \<or> c = CHR ''_''"

definition name_char :: "char \<Rightarrow> bool" where
  "name_char c \<longleftrightarrow> name_start c \<or> is_digit c"

text \<open>A placeholder \<open>{env.NAME}\<close> at the head of a string: its name and what follows it.\<close>

definition placeholder :: "string \<Rightarrow> (string \<times> string) option" where
  "placeholder s =
     (if take 5 s \<noteq> ''{env.'' then None
      else let r = drop 5 s; name = takeWhile name_char r; rest = drop (length name) r
           in if name \<noteq> [] \<and> name_start (hd name) \<and> rest \<noteq> [] \<and> hd rest = CHR ''}''
              then Some (name, tl rest) else None)"

lemma placeholder_shorter: "placeholder s = Some (n, r) \<Longrightarrow> length r < length s"
  by (auto simp: placeholder_def Let_def split: if_splits)

text \<open>The replacement and the names it could not resolve, in order.\<close>

function expand_string :: "(string \<Rightarrow> string option) \<Rightarrow> string \<Rightarrow> string \<times> string list" where
  "expand_string lookup s =
     (case s of [] \<Rightarrow> ([], [])
      | c # cs \<Rightarrow>
          (case placeholder s of
             Some (name, rest) \<Rightarrow>
               (let (t, miss) = expand_string lookup rest
                in (case lookup name of None \<Rightarrow> (t, name # miss) | Some v \<Rightarrow> (v @ t, miss)))
           | None \<Rightarrow> (let (t, miss) = expand_string lookup cs in (c # t, miss))))"
  by pat_completeness auto
termination
  by (relation "measure (\<lambda>(_, s). length s)") (auto dest: placeholder_shorter)

definition ExpandEnv :: "string \<Rightarrow> string \<Rightarrow> (string \<Rightarrow> string option) \<Rightarrow> field_error + string" where
  "ExpandEnv field s lookup =
     (case expand_string lookup s of
        (t, []) \<Rightarrow> Inr t
      | (t, name # _) \<Rightarrow> Inl (FieldError field (UnsetVariable name)))"

text \<open>The walk over the tree of a configuration file, in which objects are Go maps (distinct keys, and which
  of several unset variables is reported depends on the iteration). The top-level \<open>bootstrap\<close> block is
  passed over.\<close>

definition joinPath :: "string \<Rightarrow> string \<Rightarrow> string" where
  "joinPath base key = (if base = [] then key else base @ ''.'' @ key)"

definition bootstrapKey :: string where "bootstrapKey = ''bootstrap''"

fun expandEnv :: "(string \<Rightarrow> string option) \<Rightarrow> string \<Rightarrow> json \<Rightarrow> field_error + json"
  and expand_members :: "(string \<Rightarrow> string option) \<Rightarrow> string \<Rightarrow> (string \<times> json) list \<Rightarrow> field_error + (string \<times> json) list"
  and expand_elems :: "(string \<Rightarrow> string option) \<Rightarrow> string \<Rightarrow> nat \<Rightarrow> json list \<Rightarrow> field_error + json list" where
  "expandEnv lookup path (JObj ms) = (case expand_members lookup path ms of Inl e \<Rightarrow> Inl e | Inr ms' \<Rightarrow> Inr (JObj ms'))"
| "expandEnv lookup path (JArr js) = (case expand_elems lookup path 0 js of Inl e \<Rightarrow> Inl e | Inr js' \<Rightarrow> Inr (JArr js'))"
| "expandEnv lookup path (JStr s) = (case ExpandEnv path s lookup of Inl e \<Rightarrow> Inl e | Inr t \<Rightarrow> Inr (JStr t))"
| "expandEnv lookup path JNull = Inr JNull"
| "expandEnv lookup path (JBool b) = Inr (JBool b)"
| "expandEnv lookup path (JNum l) = Inr (JNum l)"
| "expand_members lookup path [] = Inr []"
| "expand_members lookup path ((k, j) # ms) =
     (case (if path = [] \<and> k = bootstrapKey then Inr j else expandEnv lookup (joinPath path k) j) of
        Inl e \<Rightarrow> Inl e
      | Inr j' \<Rightarrow> (case expand_members lookup path ms of Inl e \<Rightarrow> Inl e | Inr ms' \<Rightarrow> Inr ((k, j') # ms')))"
| "expand_elems lookup path i [] = Inr []"
| "expand_elems lookup path i (j # js) =
     (case expandEnv lookup (path @ ''['' @ nat_str i @ '']'') j of
        Inl e \<Rightarrow> Inl e
      | Inr j' \<Rightarrow> (case expand_elems lookup path (Suc i) js of Inl e \<Rightarrow> Inl e | Inr js' \<Rightarrow> Inr (j' # js')))"

declare expand_string.simps [simp del]

section \<open>What a valid runtime configuration is\<close>

definition provider_ok :: "ProviderLookup \<Rightarrow> string \<Rightarrow> ProviderInstance \<Rightarrow> bool" where
  "provider_ok known name p \<longleftrightarrow> piName p = name \<and> piType p \<noteq> [] \<and> piAPIKey p \<noteq> [] \<and>
     (\<forall>k. known = Some k \<longrightarrow> (\<exists>kind \<in> set providerKinds. k kind (piType p)))"

definition profile_ok :: "string \<Rightarrow> Profile \<Rightarrow> bool" where
  "profile_ok name p \<longleftrightarrow> prName p = name \<and> modalities_ok (prOutputModalities p) \<and> tokens_ok (prMaxOutputTokens p) \<and>
     1 / 4 \<le> prSpeed p \<and> prSpeed p \<le> 3 / 2 \<and> prVoice p \<noteq> [] \<and>
     tcMode (prToolChoice p) \<in> {ToolChoiceAuto, ToolChoiceNone, ToolChoiceRequired} \<and>
     (\<forall>t. prTemperature p = Some t \<longrightarrow> 0 \<le> t \<and> t \<le> 2) \<and>
     (\<forall>t. prTranscription p = Some t \<longrightarrow> trLanguage t = [] \<and> trModel t = []) \<and>
     (\<forall>td. prTurnDetection p = Some td \<longrightarrow> turn_detection_ok td)"

definition ref_ok :: "ProviderLookup \<Rightarrow> RuntimeConfig \<Rightarrow> string \<times> string \<Rightarrow> bool" where
  "ref_ok known c ref \<longleftrightarrow> snd ref \<noteq> [] \<and>
     (\<exists>q. map_of (rcProviders c) (snd ref) = Some q \<and> (\<forall>k. known = Some k \<longrightarrow> k (fst ref) (piType q)))"

definition runtime_ok :: "ProviderLookup \<Rightarrow> RuntimeConfig \<Rightarrow> bool" where
  "runtime_ok known c \<longleftrightarrow>
     (\<forall>name p. map_of (rcProviders c) name = Some p \<longrightarrow> provider_ok known name p) \<and>
     (\<forall>name p. map_of (rcProfiles c) name = Some p \<longrightarrow> profile_ok name p \<and> list_all (ref_ok known c) (profile_refs p)) \<and>
     (rcDefaultProfile c \<noteq> [] \<longrightarrow> rcDefaultProfile c \<in> dom (map_of (rcProfiles c)))"

lemma first_err_None: "first_err f xs = None \<longleftrightarrow> (\<forall>x \<in> set xs. f x = None)"
  by (induction xs) auto

lemma ProviderInstance_validate_None: "ProviderInstance_validate field key known p = None \<longleftrightarrow> provider_ok known key p"
  by (auto simp: ProviderInstance_validate_def provider_ok_def providerKinds_def split: option.splits)

lemma Profile_validate_None: "Profile_validate field key p = None \<longleftrightarrow> profile_ok key p"
  by (auto simp: Profile_validate_def profile_ok_def TemperatureMin_def TemperatureMax_def split: option.splits)

lemma validateRef_None: "validateRef field kind inst known c = None \<longleftrightarrow> ref_ok known c (kind, inst)"
  by (auto simp: validateRef_def ref_ok_def split: option.splits)

lemma names_dom:
  "set (ProviderNames c) = dom (map_of (rcProviders c))" "set (ProfileNames c) = dom (map_of (rcProfiles c))"
  by (simp_all add: ProviderNames_def ProfileNames_def dom_map_of_conv_image_fst)

text \<open>Ranging over the names of a map is ranging over its entries.\<close>

lemma range_entries:
  "(\<forall>x \<in> dom m. (case m x of None \<Rightarrow> None | Some q \<Rightarrow> f x q) = None) \<longleftrightarrow> (\<forall>x q. m x = Some q \<longrightarrow> f x q = None)"
  by (force split: option.splits)

lemma runtime_validate_None: "RuntimeConfig_validate prefix known c = None \<longleftrightarrow> runtime_ok known c"
proof -
  have refs: "(\<forall>x \<in> set (profile_refs p). (case x of (kind, inst) \<Rightarrow> validateRef (f kind) kind inst known c) = None)
      \<longleftrightarrow> list_all (ref_ok known c) (profile_refs p)" for f p
    by (auto simp: validateRef_None list_all_iff)
  show ?thesis
    unfolding RuntimeConfig_validate_def err_or_None first_err_None Let_def names_dom range_entries refs
      ProviderInstance_validate_None Profile_validate_None runtime_ok_def
    by (auto simp: dom_def)
qed

text \<open>Validation accepts exactly the runtime configurations in which every resource carries its own
  name and valid values, every profile refers to existing instances of types that can fill the role, and
  the default profile, if any, exists.\<close>

theorem runtime_validate_iff: "RuntimeConfig_validate prefix known c = None \<longleftrightarrow> runtime_ok known c"
  by (rule runtime_validate_None)

text \<open>The session a valid profile stands for is valid.\<close>

lemma profile_session_ok: "profile_ok name p \<Longrightarrow> session_ok (Profile_SessionDefaults p)"
  by (auto simp: profile_ok_def session_ok_def Profile_SessionDefaults_def pcm24k_def tool_choice_ok_def split: option.splits)

section \<open>Expansion\<close>

lemma expand_step:
  "expand_string lookup (c # cs) = (case placeholder (c # cs) of
     Some (name, rest) \<Rightarrow> (let (t, miss) = expand_string lookup rest
                in (case lookup name of None \<Rightarrow> (t, name # miss) | Some v \<Rightarrow> (v @ t, miss)))
   | None \<Rightarrow> (let (t, miss) = expand_string lookup cs in (c # t, miss)))"
  by (subst expand_string.simps) simp

text \<open>A secret that holds no placeholder is used as it is written.\<close>

lemma expand_verbatim: "(\<And>i. placeholder (drop i s) = None) \<Longrightarrow> expand_string lookup s = (s, [])"
proof (induction s)
  case Nil
  show ?case by (subst expand_string.simps) simp
next
  case (Cons c cs)
  have "placeholder (drop i cs) = None" for i using Cons.prems [of "Suc i"] by simp
  then show ?case using Cons.IH Cons.prems [of 0] by (simp add: expand_step)
qed

text \<open>The variable an error names is one that is not set.\<close>

lemma expand_missing: "expand_string lookup s = (t, miss) \<Longrightarrow> n \<in> set miss \<Longrightarrow> lookup n = None"
proof (induction "length s" arbitrary: s t miss rule: less_induct)
  case less
  show ?case
  proof (cases s)
    case Nil
    then show ?thesis using less.prems by (simp add: expand_string.simps)
  next
    case (Cons c cs)
    show ?thesis
    proof (cases "placeholder s")
      case None
      then show ?thesis using less.prems less.hyps [of cs] Cons by (auto simp: expand_step split: prod.splits)
    next
      case (Some nr)
      then obtain name rest where nr: "placeholder s = Some (name, rest)" by (cases nr) simp
      then show ?thesis using less.prems less.hyps [OF placeholder_shorter [OF nr]] Cons
        by (auto simp: expand_step split: prod.splits option.splits)
    qed
  qed
qed

lemma expand_error: "ExpandEnv field s lookup = Inl e \<Longrightarrow> \<exists>n. e = FieldError field (UnsetVariable n) \<and> lookup n = None"
  by (auto simp: ExpandEnv_def split: prod.splits list.splits dest: expand_missing)

lemma expand_error_env: "expandEnv lookup path j = Inl e \<Longrightarrow> \<exists>p n. e = FieldError p (UnsetVariable n) \<and> lookup n = None"
  and expand_error_members: "expand_members lookup path ms = Inl e \<Longrightarrow> \<exists>p n. e = FieldError p (UnsetVariable n) \<and> lookup n = None"
  and expand_error_elems: "expand_elems lookup path i js = Inl e \<Longrightarrow> \<exists>p n. e = FieldError p (UnsetVariable n) \<and> lookup n = None"
  by (induction lookup path j and lookup path ms and lookup path i js rule: expandEnv_expand_members_expand_elems.induct)
    (auto split: sum.splits if_splits dest: expand_error)

lemma expand_members_bootstrap:
  "expand_members lookup [] ms = Inr ms' \<Longrightarrow> map fst ms' = map fst ms \<and> map_of ms' bootstrapKey = map_of ms bootstrapKey"
proof (induction ms arbitrary: ms')
  case (Cons m ms)
  then show ?case by (cases m) (auto split: sum.splits if_splits)
qed simp

text \<open>Expanding the configuration file keeps its top-level fields, leaves the \<open>bootstrap\<close> block
  verbatim (so secrets reach the state file as the placeholders the operator wrote) and fails only for a
  variable that is not set.\<close>

theorem expand_keeps_bootstrap:
  "case expandEnv lookup [] (JObj ms) of
     Inr j \<Rightarrow> \<exists>ms'. j = JObj ms' \<and> map fst ms' = map fst ms \<and> map_of ms' bootstrapKey = map_of ms bootstrapKey
   | Inl e \<Rightarrow> \<exists>p n. e = FieldError p (UnsetVariable n) \<and> lookup n = None"
  by (cases "expand_members lookup [] ms") (auto dest: expand_members_bootstrap expand_error_members)

end
