(* ===== verification/RuntimeDecode.thy ===== *)
theory RuntimeDecode
  imports Runtime
begin

text \<open>
  \<^verbatim>\<open>internal/config/decode.go\<close>: reading and writing runtime configuration documents. What \<^verbatim>\<open>encoding/json\<close>
  does with a struct is written out over the decoded tree: keys match up to case, an unknown key is an
  error, null leaves a scalar alone and makes a pointer, slice or map nil, an object is read into the
  value that is already there, and a key that comes twice is read twice. A failure inside the struct is
  reported at the root of the document (the sub-path of \<open>decodeError\<close> is not modelled). Strings are valid
  UTF-8, as the parser makes them. \<open>fmt\<close> is the float64 formatting of the encoder.
\<close>

section \<open>Documents\<close>

text \<open>A request body or file: its first JSON value, if there is one, and what the decoder's next token is.\<close>

datatype next_token = AtEOF | SomeToken | SyntaxError

record document =
  docTree :: "json option"
  docTail :: next_token

definition orRoot :: "string \<Rightarrow> string" where
  "orRoot field = (if field = [] then ''(root)'' else field)"

section \<open>Reading values into Go variables\<close>

definition into_string :: "json \<Rightarrow> string \<Rightarrow> string option" where
  "into_string j old = (case j of JStr s \<Rightarrow> Some s | JNull \<Rightarrow> Some old | _ \<Rightarrow> None)"

definition into_bool :: "json \<Rightarrow> bool \<Rightarrow> bool option" where
  "into_bool j old = (case j of JBool b \<Rightarrow> Some b | JNull \<Rightarrow> Some old | _ \<Rightarrow> None)"

definition into_float :: "json \<Rightarrow> f64 \<Rightarrow> f64 option" where
  "into_float j old = (case j of JNull \<Rightarrow> Some old | JNum l \<Rightarrow> json_float (JNum l) | _ \<Rightarrow> None)"

definition into_int :: "json \<Rightarrow> int \<Rightarrow> int option" where
  "into_int j old = (case j of JNull \<Rightarrow> Some old | JNum l \<Rightarrow> Atoi l | _ \<Rightarrow> None)"

definition into_ptr :: "(json \<Rightarrow> 'a \<Rightarrow> 'a option) \<Rightarrow> 'a \<Rightarrow> json \<Rightarrow> 'a option \<Rightarrow> 'a option option" where
  "into_ptr into zero j old =
     (if j = JNull then Some None
      else map_option Some (into j (case old of None \<Rightarrow> zero | Some x \<Rightarrow> x)))"

fun into_elems :: "json list \<Rightarrow> string list \<Rightarrow> string list option" where
  "into_elems [] old = Some []"
| "into_elems (j # js) old =
     (case into_string j (case old of [] \<Rightarrow> [] | s # _ \<Rightarrow> s) of None \<Rightarrow> None
      | Some s \<Rightarrow> map_option ((#) s) (into_elems js (tl old)))"

definition into_strings :: "json \<Rightarrow> string list \<Rightarrow> string list option" where
  "into_strings j old = (case j of JNull \<Rightarrow> Some [] | JArr js \<Rightarrow> into_elems js old | _ \<Rightarrow> None)"

text \<open>A map of raw messages: a repeated key, or a repeated map, overwrites.\<close>

fun put_all :: "(string \<times> 'a) list \<Rightarrow> (string \<times> 'a) list \<Rightarrow> (string \<times> 'a) list" where
  "put_all [] m = m"
| "put_all ((k, v) # kvs) m = put_all kvs (AList.update k v m)"

definition into_raw_map :: "json \<Rightarrow> (string \<times> json) list \<Rightarrow> (string \<times> json) list option" where
  "into_raw_map j old = (case j of JNull \<Rightarrow> Some [] | JObj kvs \<Rightarrow> Some (put_all kvs old) | _ \<Rightarrow> None)"

text \<open>A struct is given by its fields: for each name, how a value is read into the struct.\<close>

type_synonym 'r fields = "(string \<times> (json \<Rightarrow> 'r \<Rightarrow> 'r option)) list"

definition find_field :: "'r fields \<Rightarrow> string \<Rightarrow> (json \<Rightarrow> 'r \<Rightarrow> 'r option) option" where
  "find_field fs k = (case map_of fs k of Some d \<Rightarrow> Some d
     | None \<Rightarrow> map_option snd (find (\<lambda>(n, _). same_field n k) fs))"

fun into_fields :: "'r fields \<Rightarrow> (string \<times> json) list \<Rightarrow> 'r \<Rightarrow> 'r option" where
  "into_fields fs [] r = Some r"
| "into_fields fs ((k, j) # kvs) r =
     (case find_field fs k of None \<Rightarrow> None
      | Some d \<Rightarrow> (case d j r of None \<Rightarrow> None | Some r' \<Rightarrow> into_fields fs kvs r'))"

definition into_struct :: "'r fields \<Rightarrow> json \<Rightarrow> 'r \<Rightarrow> 'r option" where
  "into_struct fs j r = (case j of JNull \<Rightarrow> Some r | JObj kvs \<Rightarrow> into_fields fs kvs r | _ \<Rightarrow> None)"

text \<open>A field of a struct, by how it is read, its selector and its update.\<close>

definition field_of :: "(json \<Rightarrow> 'a \<Rightarrow> 'a option) \<Rightarrow> ('r \<Rightarrow> 'a) \<Rightarrow> (('a \<Rightarrow> 'a) \<Rightarrow> 'r \<Rightarrow> 'r) \<Rightarrow> json \<Rightarrow> 'r \<Rightarrow> 'r option" where
  "field_of into get upd j r = map_option (\<lambda>v. upd (\<lambda>_. v) r) (into j (get r))"

definition strictDecode :: "document \<Rightarrow> string \<Rightarrow> 'r fields \<Rightarrow> 'r \<Rightarrow> field_error + 'r" where
  "strictDecode raw field fs r =
     (case docTree raw of
        None \<Rightarrow> Inl (FieldError (orRoot field) InvalidJSON)
      | Some tree \<Rightarrow>
          if docTail raw = SomeToken then Inl (FieldError (orRoot field) TrailingData)
          else case tree of
            JObj kvs \<Rightarrow> (case into_fields fs kvs r of
                None \<Rightarrow> Inl (FieldError (orRoot field) (Undecodable []))
              | Some r' \<Rightarrow> Inr r')
          | _ \<Rightarrow> Inl (FieldError (orRoot field) MustBeObject))"

section \<open>The struct types\<close>

definition Transcription_fields :: "Transcription fields" where
  "Transcription_fields =
     [(''model'', field_of into_string trModel trModel_update),
      (''language'', field_of into_string trLanguage trLanguage_update),
      (''prompt'', field_of into_string trPrompt trPrompt_update)]"

definition TurnDetection_fields :: "TurnDetection fields" where
  "TurnDetection_fields =
     [(''type'', field_of into_string tdType tdType_update),
      (''threshold'', field_of (into_ptr into_float 0) tdThreshold tdThreshold_update),
      (''prefix_padding_ms'', field_of (into_ptr into_int 0) tdPrefixPaddingMs tdPrefixPaddingMs_update),
      (''silence_duration_ms'', field_of (into_ptr into_int 0) tdSilenceDurationMs tdSilenceDurationMs_update),
      (''eagerness'', field_of (into_ptr into_string []) tdEagerness tdEagerness_update),
      (''create_response'', field_of into_bool tdCreateResponse tdCreateResponse_update),
      (''interrupt_response'', field_of into_bool tdInterruptResponse tdInterruptResponse_update)]"

definition zero_transcription :: Transcription where
  "zero_transcription = \<lparr>trModel = [], trLanguage = [], trPrompt = []\<rparr>"

definition zero_turn_detection :: TurnDetection where
  "zero_turn_detection = \<lparr>tdType = [], tdThreshold = None, tdPrefixPaddingMs = None, tdSilenceDurationMs = None,
     tdEagerness = None, tdCreateResponse = False, tdInterruptResponse = False\<rparr>"

text \<open>The two unions have their own \<open>UnmarshalJSON\<close>, which is called for null too; so has a raw message.\<close>

definition Profile_fields :: "Profile fields" where
  "Profile_fields =
     [(''name'', field_of into_string prName prName_update),
      (''asr'', field_of into_string prASR prASR_update),
      (''llm'', field_of into_string prLLM prLLM_update),
      (''tts'', field_of into_string prTTS prTTS_update),
      (''instructions'', field_of into_string prInstructions prInstructions_update),
      (''temperature'', field_of (into_ptr into_float 0) prTemperature prTemperature_update),
      (''max_output_tokens'', field_of (\<lambda>j _. MaxOutputTokens_Unmarshal j) prMaxOutputTokens prMaxOutputTokens_update),
      (''output_modalities'', field_of into_strings prOutputModalities prOutputModalities_update),
      (''voice'', field_of into_string prVoice prVoice_update),
      (''speed'', field_of into_float prSpeed prSpeed_update),
      (''asr_language'', field_of into_string prASRLanguage prASRLanguage_update),
      (''asr_model'', field_of into_string prASRModel prASRModel_update),
      (''transcription'', field_of (into_ptr (into_struct Transcription_fields) zero_transcription) prTranscription prTranscription_update),
      (''turn_detection'', field_of (into_ptr (into_struct TurnDetection_fields) zero_turn_detection) prTurnDetection prTurnDetection_update),
      (''tool_choice'', field_of (\<lambda>j _. ToolChoice_Unmarshal j) prToolChoice prToolChoice_update)]"

definition ProviderInstance_fields :: "ProviderInstance fields" where
  "ProviderInstance_fields =
     [(''name'', field_of into_string piName piName_update),
      (''type'', field_of into_string piType piType_update),
      (''api_key'', field_of into_string piAPIKey piAPIKey_update),
      (''options'', field_of (\<lambda>j _. Some (Some j)) piOptions piOptions_update)]"

definition Settings_fields :: "string fields" where
  "Settings_fields = [(''default_profile'', into_string)]"

record raw_config =
  rawProviders :: "(string \<times> json) list"
  rawProfiles :: "(string \<times> json) list"
  rawSettings :: string

definition raw_config_fields :: "raw_config fields" where
  "raw_config_fields =
     [(''providers'', field_of into_raw_map rawProviders rawProviders_update),
      (''profiles'', field_of into_raw_map rawProfiles rawProfiles_update),
      (''settings'', field_of (into_struct Settings_fields) rawSettings rawSettings_update)]"

section \<open>The decoders\<close>

definition sub_document :: "json \<Rightarrow> document" where
  "sub_document j = \<lparr>docTree = Some j, docTail = AtEOF\<rparr>"

definition DecodeProviderInstance :: "document \<Rightarrow> string \<Rightarrow> string \<Rightarrow> field_error + ProviderInstance" where
  "DecodeProviderInstance raw field name =
     (case strictDecode raw field ProviderInstance_fields \<lparr>piName = [], piType = [], piAPIKey = [], piOptions = None\<rparr> of
        Inl e \<Rightarrow> Inl e
      | Inr p \<Rightarrow> Inr (if piName p = [] then p\<lparr>piName := name\<rparr> else p))"

definition DecodeProfile :: "document \<Rightarrow> string \<Rightarrow> string \<Rightarrow> field_error + Profile" where
  "DecodeProfile raw field name =
     (case strictDecode raw field Profile_fields DefaultProfile of
        Inl e \<Rightarrow> Inl e
      | Inr p \<Rightarrow> (let q = (if prName p = [] then p\<lparr>prName := name\<rparr> else p)
                  in Inr (q\<lparr>prTurnDetection := map_option ApplyDefaults (prTurnDetection q)\<rparr>)))"

definition DecodeSettings :: "document \<Rightarrow> string \<Rightarrow> field_error + string" where
  "DecodeSettings raw field = strictDecode raw field Settings_fields []"

text \<open>A loop over a map that decodes each entry and stops at the first error.\<close>

fun decode_each :: "(string \<Rightarrow> json \<Rightarrow> field_error + 'a) \<Rightarrow> (string \<times> json) list \<Rightarrow> field_error + (string \<times> 'a) list" where
  "decode_each d [] = Inr []"
| "decode_each d ((name, body) # rest) =
     (case d name body of Inl e \<Rightarrow> Inl e
      | Inr v \<Rightarrow> (case decode_each d rest of Inl e \<Rightarrow> Inl e | Inr vs \<Rightarrow> Inr ((name, v) # vs)))"

definition DecodeRuntimeConfig :: "document \<Rightarrow> string \<Rightarrow> field_error + RuntimeConfig" where
  "DecodeRuntimeConfig raw field =
     (case strictDecode raw field raw_config_fields \<lparr>rawProviders = [], rawProfiles = [], rawSettings = []\<rparr> of
        Inl e \<Rightarrow> Inl e
      | Inr doc \<Rightarrow>
         (case decode_each (\<lambda>name body. DecodeProviderInstance (sub_document body) (joinPath field (''providers.'' @ name)) name) (rawProviders doc) of
            Inl e \<Rightarrow> Inl e
          | Inr ps \<Rightarrow>
             (case decode_each (\<lambda>name body. DecodeProfile (sub_document body) (joinPath field (''profiles.'' @ name)) name) (rawProfiles doc) of
                Inl e \<Rightarrow> Inl e
              | Inr qs \<Rightarrow> Inr \<lparr>rcProviders = ps, rcProfiles = qs, rcDefaultProfile = rawSettings doc\<rparr>)))"

section \<open>The encoder\<close>

text \<open>\<open>json.MarshalIndent\<close> on the structs: fields in order, \<open>omitempty\<close> fields left out when empty. Go sorts the
  keys of a map.\<close>

definition omit :: "string \<Rightarrow> json option \<Rightarrow> (string \<times> json) list" where
  "omit k v = (case v of None \<Rightarrow> [] | Some j \<Rightarrow> [(k, j)])"

definition omit_str :: "string \<Rightarrow> string \<Rightarrow> (string \<times> json) list" where
  "omit_str k s = (if s = [] then [] else [(k, JStr s)])"

definition Transcription_json :: "Transcription \<Rightarrow> json" where
  "Transcription_json t = JObj (omit_str ''model'' (trModel t) @ omit_str ''language'' (trLanguage t) @ omit_str ''prompt'' (trPrompt t))"

definition TurnDetection_json :: "(f64 \<Rightarrow> string) \<Rightarrow> TurnDetection \<Rightarrow> json" where
  "TurnDetection_json fmt td =
     JObj ((''type'', JStr (tdType td)) # omit ''threshold'' (map_option (\<lambda>x. JNum (fmt x)) (tdThreshold td)) @
       omit ''prefix_padding_ms'' (map_option (\<lambda>n. JNum (int_str n)) (tdPrefixPaddingMs td)) @
       omit ''silence_duration_ms'' (map_option (\<lambda>n. JNum (int_str n)) (tdSilenceDurationMs td)) @
       omit ''eagerness'' (map_option JStr (tdEagerness td)) @
       [(''create_response'', JBool (tdCreateResponse td)), (''interrupt_response'', JBool (tdInterruptResponse td))])"

definition or_null :: "json option \<Rightarrow> json" where
  "or_null v = (case v of None \<Rightarrow> JNull | Some j \<Rightarrow> j)"

definition Profile_json :: "(f64 \<Rightarrow> string) \<Rightarrow> Profile \<Rightarrow> json" where
  "Profile_json fmt p =
     JObj ([(''name'', JStr (prName p)), (''asr'', JStr (prASR p)), (''llm'', JStr (prLLM p)), (''tts'', JStr (prTTS p)),
        (''instructions'', JStr (prInstructions p))] @
       omit ''temperature'' (map_option (\<lambda>x. JNum (fmt x)) (prTemperature p)) @
       [(''max_output_tokens'', MaxOutputTokens_Marshal (prMaxOutputTokens p)),
        (''output_modalities'', JArr (map JStr (prOutputModalities p))),
        (''voice'', JStr (prVoice p)), (''speed'', JNum (fmt (prSpeed p))),
        (''asr_language'', JStr (prASRLanguage p)), (''asr_model'', JStr (prASRModel p)),
        (''transcription'', or_null (map_option Transcription_json (prTranscription p))),
        (''turn_detection'', or_null (map_option (TurnDetection_json fmt) (prTurnDetection p))),
        (''tool_choice'', ToolChoice_Marshal (prToolChoice p))])"

definition ProviderInstance_json :: "ProviderInstance \<Rightarrow> json" where
  "ProviderInstance_json p =
     JObj ([(''name'', JStr (piName p)), (''type'', JStr (piType p)), (''api_key'', JStr (piAPIKey p))] @
       omit ''options'' (piOptions p))"

definition map_json :: "('a \<Rightarrow> json) \<Rightarrow> (string \<times> 'a) list \<Rightarrow> json" where
  "map_json enc m = JObj (map (\<lambda>(k, v). (k, enc v)) (sort_key fst m))"

definition MarshalRuntimeConfig :: "(f64 \<Rightarrow> string) \<Rightarrow> RuntimeConfig \<Rightarrow> document" where
  "MarshalRuntimeConfig fmt c = sub_document (JObj
     [(''providers'', map_json ProviderInstance_json (rcProviders c)),
      (''profiles'', map_json (Profile_json fmt) (rcProfiles c)),
      (''settings'', JObj [(''default_profile'', JStr (rcDefaultProfile c))])])"

section \<open>Round trips\<close>

text \<open>What the encoder leaves out: the name of a tool choice that is a mode. What it sorts: the keys.\<close>

definition normal_profile :: "Profile \<Rightarrow> Profile" where
  "normal_profile p =
     (if tcMode (prToolChoice p) = ToolChoiceFunction then p else p\<lparr>prToolChoice := (prToolChoice p)\<lparr>tcName := []\<rparr>\<rparr>)"

definition normal_config :: "RuntimeConfig \<Rightarrow> RuntimeConfig" where
  "normal_config c = c\<lparr>rcProviders := sort_key fst (rcProviders c),
     rcProfiles := map (map_prod id normal_profile) (sort_key fst (rcProfiles c))\<rparr>"

text \<open>Values that are what decoding makes them: integers fit 64 bits, defaults are filled in, and the formatting
  renders the numbers exactly.\<close>

definition float_exact :: "(f64 \<Rightarrow> string) \<Rightarrow> f64 \<Rightarrow> bool" where
  "float_exact fmt x \<longleftrightarrow> json_float (JNum (fmt x)) = Some x"

definition storable_td :: "(f64 \<Rightarrow> string) \<Rightarrow> TurnDetection \<Rightarrow> bool" where
  "storable_td fmt td \<longleftrightarrow> ApplyDefaults td = td \<and> pred_option (float_exact fmt) (tdThreshold td) \<and>
     pred_option in_i64 (tdPrefixPaddingMs td) \<and> pred_option in_i64 (tdSilenceDurationMs td)"

definition storable_profile :: "(f64 \<Rightarrow> string) \<Rightarrow> Profile \<Rightarrow> bool" where
  "storable_profile fmt p \<longleftrightarrow> float_exact fmt (prSpeed p) \<and> pred_option (float_exact fmt) (prTemperature p) \<and>
     in_i64 (motN (prMaxOutputTokens p)) \<and> (motInf (prMaxOutputTokens p) \<longrightarrow> motN (prMaxOutputTokens p) = 0) \<and>
     pred_option (storable_td fmt) (prTurnDetection p)"

definition distinct_names :: "RuntimeConfig \<Rightarrow> bool" where
  "distinct_names c \<longleftrightarrow> distinct (map fst (rcProviders c)) \<and> distinct (map fst (rcProfiles c))"

definition storable :: "(f64 \<Rightarrow> string) \<Rightarrow> RuntimeConfig \<Rightarrow> bool" where
  "storable fmt c \<longleftrightarrow> distinct_names c \<and> list_all (storable_profile fmt \<circ> snd) (rcProfiles c)"

lemma into_fields_append:
  "into_fields fs (xs @ ys) r = Option.bind (into_fields fs xs r) (into_fields fs ys)"
  by (induction xs arbitrary: r) (auto split: option.splits)

lemma find_field_exact: "map_of fs k = Some d \<Longrightarrow> find_field fs k = Some d"
  by (simp add: find_field_def)

lemma into_elems_strings: "into_elems (map JStr xs) old = Some xs"
  by (induction xs arbitrary: old) (auto simp: into_string_def)

lemma into_float_exact: "float_exact fmt x \<Longrightarrow> into_float (JNum (fmt x)) old = Some x"
  by (simp add: into_float_def float_exact_def)

lemmas into_values = into_string_def into_bool_def into_strings_def into_elems_strings into_ptr_def into_int_def
  into_float_exact field_of_def Atoi_int_str

lemma transcription_roundtrip:
  "into_struct Transcription_fields (Transcription_json t) zero_transcription = Some t"
  by (simp add: into_struct_def Transcription_json_def omit_str_def Transcription_fields_def find_field_def into_values
      zero_transcription_def)

text \<open>Reading the object of a struct member by member.\<close>

lemma into_member:
  "find_field fs k = Some d \<Longrightarrow> d j r = Some r' \<Longrightarrow> into_fields fs ((k, j) # kvs) r = into_fields fs kvs r'"
  by simp

lemma into_omit:
  "find_field fs k = Some (field_of into get upd) \<Longrightarrow>
   into_fields fs (omit k v @ kvs) r =
     (case v of None \<Rightarrow> into_fields fs kvs r
      | Some j \<Rightarrow> (case into j (get r) of None \<Rightarrow> None | Some x \<Rightarrow> into_fields fs kvs (upd (\<lambda>_. x) r)))"
  by (auto simp: omit_def field_of_def split: option.splits)

lemma turn_detection_field:
  "find_field TurnDetection_fields ''type'' = Some (field_of into_string tdType tdType_update)"
  "find_field TurnDetection_fields ''threshold'' = Some (field_of (into_ptr into_float 0) tdThreshold tdThreshold_update)"
  "find_field TurnDetection_fields ''prefix_padding_ms'' = Some (field_of (into_ptr into_int 0) tdPrefixPaddingMs tdPrefixPaddingMs_update)"
  "find_field TurnDetection_fields ''silence_duration_ms'' = Some (field_of (into_ptr into_int 0) tdSilenceDurationMs tdSilenceDurationMs_update)"
  "find_field TurnDetection_fields ''eagerness'' = Some (field_of (into_ptr into_string []) tdEagerness tdEagerness_update)"
  "find_field TurnDetection_fields ''create_response'' = Some (field_of into_bool tdCreateResponse tdCreateResponse_update)"
  "find_field TurnDetection_fields ''interrupt_response'' = Some (field_of into_bool tdInterruptResponse tdInterruptResponse_update)"
  by (simp_all add: find_field_def TurnDetection_fields_def)

lemma turn_detection_roundtrip:
  assumes "storable_td fmt td" "tdThreshold old = None" "tdPrefixPaddingMs old = None" "tdSilenceDurationMs old = None" "tdEagerness old = None"
  shows "into_struct TurnDetection_fields (TurnDetection_json fmt td) old = Some td"
  using assms
  by (auto simp: into_struct_def TurnDetection_json_def turn_detection_field into_omit into_values storable_td_def
      split: option.splits)

lemma profile_field:
  "find_field Profile_fields ''name'' = Some (field_of into_string prName prName_update)"
  "find_field Profile_fields ''asr'' = Some (field_of into_string prASR prASR_update)"
  "find_field Profile_fields ''llm'' = Some (field_of into_string prLLM prLLM_update)"
  "find_field Profile_fields ''tts'' = Some (field_of into_string prTTS prTTS_update)"
  "find_field Profile_fields ''instructions'' = Some (field_of into_string prInstructions prInstructions_update)"
  "find_field Profile_fields ''temperature'' = Some (field_of (into_ptr into_float 0) prTemperature prTemperature_update)"
  "find_field Profile_fields ''max_output_tokens'' = Some (field_of (\<lambda>j _. MaxOutputTokens_Unmarshal j) prMaxOutputTokens prMaxOutputTokens_update)"
  "find_field Profile_fields ''output_modalities'' = Some (field_of into_strings prOutputModalities prOutputModalities_update)"
  "find_field Profile_fields ''voice'' = Some (field_of into_string prVoice prVoice_update)"
  "find_field Profile_fields ''speed'' = Some (field_of into_float prSpeed prSpeed_update)"
  "find_field Profile_fields ''asr_language'' = Some (field_of into_string prASRLanguage prASRLanguage_update)"
  "find_field Profile_fields ''asr_model'' = Some (field_of into_string prASRModel prASRModel_update)"
  "find_field Profile_fields ''transcription'' =
     Some (field_of (into_ptr (into_struct Transcription_fields) zero_transcription) prTranscription prTranscription_update)"
  "find_field Profile_fields ''turn_detection'' =
     Some (field_of (into_ptr (into_struct TurnDetection_fields) zero_turn_detection) prTurnDetection prTurnDetection_update)"
  "find_field Profile_fields ''tool_choice'' = Some (field_of (\<lambda>j _. ToolChoice_Unmarshal j) prToolChoice prToolChoice_update)"
  by (simp_all add: find_field_def Profile_fields_def)

text \<open>The members that are structs, pointers or unions, each read over what \<^const>\<open>DefaultProfile\<close> has there.\<close>

lemma nullable_roundtrip:
  "(\<And>x. v = Some x \<Longrightarrow> into (enc x) (case old of None \<Rightarrow> zero | Some y \<Rightarrow> y) = Some x \<and> enc x \<noteq> JNull) \<Longrightarrow>
   into_ptr into zero (or_null (map_option enc v)) old = Some v"
  by (cases v) (auto simp: into_ptr_def or_null_def)

lemma default_transcription: "prTranscription DefaultProfile = Some zero_transcription"
  by (simp add: DefaultProfile_def zero_transcription_def)

lemma tokens_member:
  "in_i64 (motN m) \<Longrightarrow> (motInf m \<longrightarrow> motN m = 0) \<Longrightarrow> MaxOutputTokens_Unmarshal (MaxOutputTokens_Marshal m) = Some m"
  by (cases m) (auto simp: max_tokens_roundtrip)

lemma transcription_member:
  "into_ptr (into_struct Transcription_fields) zero_transcription (or_null (map_option Transcription_json t)) (Some zero_transcription) = Some t"
  by (rule nullable_roundtrip) (simp add: transcription_roundtrip, simp add: Transcription_json_def)

lemma turn_detection_member:
  "pred_option (storable_td fmt) td \<Longrightarrow>
   into_ptr (into_struct TurnDetection_fields) zero_turn_detection (or_null (map_option (TurnDetection_json fmt) td)) (prTurnDetection DefaultProfile) = Some td"
  by (rule nullable_roundtrip)
    (simp add: turn_detection_roundtrip DefaultProfile_def, simp add: TurnDetection_json_def)

lemma tool_choice_member:
  "tcMode tc \<in> {ToolChoiceAuto, ToolChoiceNone, ToolChoiceRequired} \<Longrightarrow>
   ToolChoice_Unmarshal (ToolChoice_Marshal tc) = Some (tc\<lparr>tcName := []\<rparr>)"
  by (cases tc) (auto simp: ToolChoice_Unmarshal_def ToolChoice_Marshal_def)

lemma temperature_member:
  "pred_option (float_exact fmt) v \<Longrightarrow> v = Some x \<Longrightarrow> into_ptr into_float 0 (JNum (fmt x)) old = Some (Some x)"
  by (simp add: into_ptr_def into_float_exact)

lemma profile_members:
  assumes "storable_profile fmt p" "tcMode (prToolChoice p) \<in> {ToolChoiceAuto, ToolChoiceNone, ToolChoiceRequired}"
  shows "\<exists>kvs. Profile_json fmt p = JObj kvs \<and> into_fields Profile_fields kvs DefaultProfile = Some (normal_profile p)"
proof -
  have fresh: "prTemperature DefaultProfile = None" by (simp add: DefaultProfile_def)
  have eq: "normal_profile p = p\<lparr>prToolChoice := (prToolChoice p)\<lparr>tcName := []\<rparr>\<rparr>"
    using assms(2) by (auto simp: normal_profile_def)
  have s: "float_exact fmt (prSpeed p)" "pred_option (float_exact fmt) (prTemperature p)"
      "MaxOutputTokens_Unmarshal (MaxOutputTokens_Marshal (prMaxOutputTokens p)) = Some (prMaxOutputTokens p)"
      "pred_option (storable_td fmt) (prTurnDetection p)"
    using assms(1) by (simp_all add: storable_profile_def tokens_member)
  note members = profile_field into_omit into_string_def into_strings_def into_elems_strings field_of_def
    into_float_exact [OF s(1)] s(3) default_transcription transcription_member turn_detection_member [OF s(4)]
    tool_choice_member [OF assms(2)]
  show ?thesis
    by (cases "prTemperature p")
      (simp_all add: Profile_json_def members fresh eq temperature_member [OF s(2)])
qed

lemma decode_profile_roundtrip:
  assumes "profile_ok name p" "storable_profile fmt p"
  shows "DecodeProfile (sub_document (Profile_json fmt p)) field name = Inr (normal_profile p)"
proof -
  obtain kvs where "Profile_json fmt p = JObj kvs" "into_fields Profile_fields kvs DefaultProfile = Some (normal_profile p)"
    using profile_members [of fmt p] assms by (auto simp: profile_ok_def)
  moreover have "prName (normal_profile p) = name" "prTurnDetection (normal_profile p) = prTurnDetection p"
    using assms(1) by (simp_all add: normal_profile_def profile_ok_def)
  moreover have "map_option ApplyDefaults (prTurnDetection p) = prTurnDetection p"
    using assms(2) by (cases "prTurnDetection p") (simp_all add: storable_profile_def storable_td_def)
  moreover have "q\<lparr>prTurnDetection := prTurnDetection q\<rparr> = q" for q :: Profile by simp
  moreover have "q\<lparr>prName := prName q\<rparr> = q" for q :: Profile by simp
  ultimately show ?thesis
    by (auto simp: DecodeProfile_def strictDecode_def sub_document_def Let_def)
qed

lemma decode_provider_roundtrip:
  "piName p = name \<Longrightarrow> DecodeProviderInstance (sub_document (ProviderInstance_json p)) field name = Inr p"
  by (cases "piOptions p")
    (auto simp: DecodeProviderInstance_def strictDecode_def sub_document_def ProviderInstance_json_def ProviderInstance_fields_def
      find_field_def field_of_def into_string_def omit_def)

lemma decode_each_roundtrip:
  "(\<And>k v. (k, v) \<in> set m \<Longrightarrow> d k (enc v) = Inr (nf v)) \<Longrightarrow>
   decode_each d (map (\<lambda>(k, v). (k, enc v)) m) = Inr (map (map_prod id nf) m)"
  by (induction m) auto

lemma put_all_fresh: "distinct (map fst kvs) \<Longrightarrow> fst ` set kvs \<inter> fst ` set m = {} \<Longrightarrow> put_all kvs m = m @ kvs"
proof (induction kvs arbitrary: m)
  case (Cons kv kvs)
  obtain k v where kv: "kv = (k, v)" by (cases kv)
  have "AList.update k v m = m @ [(k, v)]" using Cons.prems kv by (induction m) auto
  then show ?case using Cons.IH [of "m @ [(k, v)]"] Cons.prems kv by auto
qed simp

lemma sorted_names:
  "distinct (map fst m) \<Longrightarrow> distinct (map fst (sort_key fst m))"
  by (simp add: distinct_map inj_on_def)

lemma map_of_sort_key: "distinct (map fst m) \<Longrightarrow> map_of (sort_key fst m) = map_of m"
  by (rule map_of_inject_set [THEN iffD2]) (simp_all add: sorted_names)

lemma raw_config_field:
  "find_field raw_config_fields ''providers'' = Some (field_of into_raw_map rawProviders rawProviders_update)"
  "find_field raw_config_fields ''profiles'' = Some (field_of into_raw_map rawProfiles rawProfiles_update)"
  "find_field raw_config_fields ''settings'' = Some (field_of (into_struct Settings_fields) rawSettings rawSettings_update)"
  by (simp_all add: find_field_def raw_config_fields_def)

lemma settings_member: "into_struct Settings_fields (JObj [(''default_profile'', JStr s)]) old = Some s"
  by (simp add: into_struct_def Settings_fields_def find_field_def into_string_def)

lemma raw_map_member:
  "distinct (map fst m) \<Longrightarrow> into_raw_map (map_json enc m) [] = Some (map (\<lambda>(k, v). (k, enc v)) (sort_key fst m))"
  using sorted_names [of m] by (simp add: into_raw_map_def map_json_def put_all_fresh case_prod_unfold comp_def)

lemma decode_marshal:
  assumes "runtime_ok known c" "storable fmt c"
  shows "DecodeRuntimeConfig (MarshalRuntimeConfig fmt c) field = Inr (normal_config c)"
proof -
  have d: "distinct (map fst (rcProviders c))" "distinct (map fst (rcProfiles c))"
    using assms(2) by (simp_all add: storable_def distinct_names_def)
  have p: "DecodeProviderInstance (sub_document (ProviderInstance_json v)) f k = Inr (id v)" if "(k, v) \<in> set (sort_key fst (rcProviders c))" for k v f
    using that assms(1) d by (auto simp: runtime_ok_def provider_ok_def intro!: decode_provider_roundtrip)
  have q: "DecodeProfile (sub_document (Profile_json fmt v)) f k = Inr (normal_profile v)" if "(k, v) \<in> set (sort_key fst (rcProfiles c))" for k v f
    using that assms d by (auto simp: runtime_ok_def storable_def list_all_iff intro!: decode_profile_roundtrip)
  have "strictDecode (MarshalRuntimeConfig fmt c) field raw_config_fields \<lparr>rawProviders = [], rawProfiles = [], rawSettings = []\<rparr> =
      Inr \<lparr>rawProviders = map (\<lambda>(k, v). (k, ProviderInstance_json v)) (sort_key fst (rcProviders c)),
           rawProfiles = map (\<lambda>(k, v). (k, Profile_json fmt v)) (sort_key fst (rcProfiles c)), rawSettings = rcDefaultProfile c\<rparr>"
    using d by (simp add: MarshalRuntimeConfig_def strictDecode_def sub_document_def raw_config_field field_of_def raw_map_member settings_member)
  moreover have "decode_each (\<lambda>name body. DecodeProviderInstance (sub_document body) (f name) name)
      (map (\<lambda>(k, v). (k, ProviderInstance_json v)) (sort_key fst (rcProviders c))) = Inr (sort_key fst (rcProviders c))" for f
    by (subst decode_each_roundtrip [where nf = id]) (simp_all add: p [simplified] prod.map_id0)
  moreover have "decode_each (\<lambda>name body. DecodeProfile (sub_document body) (f name) name)
      (map (\<lambda>(k, v). (k, Profile_json fmt v)) (sort_key fst (rcProfiles c))) =
      Inr (map (map_prod id normal_profile) (sort_key fst (rcProfiles c)))" for f
    by (rule decode_each_roundtrip) (rule q)
  ultimately show ?thesis by (simp add: DecodeRuntimeConfig_def normal_config_def)
qed

text \<open>The state file round-trips. Decoding what the encoder writes for a valid configuration gives that
  configuration back, with its resources sorted by name.\<close>

theorem state_file_roundtrip:
  assumes "runtime_ok known c" "storable fmt c"
  shows "DecodeRuntimeConfig (MarshalRuntimeConfig fmt c) field = Inr (normal_config c)"
  using assms by (rule decode_marshal)

text \<open>A small configuration: one instance that fills the three roles of one profile.\<close>

definition demo_profile :: Profile where
  "demo_profile = DefaultProfile\<lparr>prName := ''support'', prASR := ''acme'', prLLM := ''acme'', prTTS := ''acme'',
     prTurnDetection := Some \<lparr>tdType = TurnDetectionServerVAD, tdThreshold = Some 1, tdPrefixPaddingMs = Some 300,
       tdSilenceDurationMs = Some 500, tdEagerness = None, tdCreateResponse = True, tdInterruptResponse = True\<rparr>\<rparr>"

definition demo_config :: RuntimeConfig where
  "demo_config = \<lparr>rcProviders = [(''acme'', \<lparr>piName = ''acme'', piType = ''mock'', piAPIKey = ''{env.KEY}'', piOptions = None\<rparr>)],
     rcProfiles = [(''support'', demo_profile)], rcDefaultProfile = ''support''\<rparr>"

definition demo_fmt :: "f64 \<Rightarrow> string" where
  "demo_fmt x = ''1''"

lemma demo_config_ok: "runtime_ok None demo_config"
  unfolding runtime_validate_None [symmetric, where prefix = "[]"] by code_simp

lemma demo_config_storable: "storable demo_fmt demo_config"
  by (simp add: storable_def distinct_names_def demo_config_def storable_profile_def demo_profile_def DefaultProfile_def
      float_exact_def demo_fmt_def json_float_one
      in_i64_def storable_td_def ApplyDefaults_def or_default_def)

theorem state_file_roundtrip_witness:
  "runtime_ok None demo_config \<and> storable demo_fmt demo_config \<and>
   DecodeRuntimeConfig (MarshalRuntimeConfig demo_fmt demo_config) [] = Inr (normal_config demo_config)"
  using state_file_roundtrip [OF demo_config_ok demo_config_storable] demo_config_ok demo_config_storable by simp

text \<open>A profile that says nothing of transcription and turn detection has both: transcription is enabled
  and the server detects turns with its default tuning.\<close>

theorem omitted_profile_fields:
  "\<exists>p. DecodeProfile (sub_document (JObj [])) field name = Inr p \<and> prTranscription p = Some zero_transcription \<and>
     prTurnDetection p = Some \<lparr>tdType = TurnDetectionServerVAD, tdThreshold = Some DefaultVADThreshold,
       tdPrefixPaddingMs = Some DefaultVADPrefixPaddingMs, tdSilenceDurationMs = Some DefaultVADSilenceDurationMs,
       tdEagerness = None, tdCreateResponse = True, tdInterruptResponse = True\<rparr>"
  by (simp add: DecodeProfile_def strictDecode_def sub_document_def DefaultProfile_def ApplyDefaults_def or_default_def zero_transcription_def)

text \<open>A document is refused for what follows it only when that is a JSON token; text that is not JSON at
  all is passed over.\<close>

theorem trailing_text:
  "DecodeSettings \<lparr>docTree = Some (JObj []), docTail = t\<rparr> field =
     (if t = SomeToken then Inl (FieldError (orRoot field) TrailingData) else Inr [])"
  by (simp add: DecodeSettings_def strictDecode_def)

end
