(* ===== verification/Sentencer.thy ===== *)
theory Sentencer
  imports Turn
begin

text \<open>
  \<^verbatim>\<open>internal/session/sentencer.go\<close>: the streaming splitter that cuts generated text into sentences
  for speech synthesis. Text is bytes, boundaries are found by decoding runes; the loops of the
  source are functions with termination proofs. \<open>unicode.IsLetter\<close> above ASCII is the parameter \<open>ul\<close>.
\<close>

section \<open>State and operations\<close>

definition minSentenceRunes :: nat where "minSentenceRunes = 6"

record sentence =
  snText :: string
  snStart :: nat
  snEnd :: nat

record sentencer =
  sBuf :: string
  sBase :: nat
  sScan :: nat

definition newSentencer :: sentencer where
  "newSentencer = \<lparr>sBuf = [], sBase = 0, sScan = 0\<rparr>"

definition sentencer_take :: "sentencer \<Rightarrow> nat \<Rightarrow> sentencer \<times> sentence" where
  "sentencer_take s e =
     (\<lparr>sBuf = drop e (sBuf s), sBase = sBase s + e, sScan = 0\<rparr>,
      \<lparr>snText = take e (sBuf s), snStart = sBase s, snEnd = sBase s + e\<rparr>)"

definition sentencer_flush :: "sentencer \<Rightarrow> sentencer \<times> sentence option" where
  "sentencer_flush s =
     (if sBuf s = [] then (s, None)
      else let (s', x) = sentencer_take s (length (sBuf s)) in (s', Some x))"

text \<open>\<open>r == utf8.RuneError && size == 1 && !utf8.FullRune(b)\<close>: the chunk ends inside a rune.\<close>

definition incomplete :: "string \<Rightarrow> bool" where
  "incomplete b \<longleftrightarrow> decode_rune b = (RuneError, 1) \<and> \<not> full_rune b"

definition abbreviations :: "string set" where
  "abbreviations = {''dr'', ''mr'', ''mrs'', ''ms'', ''prof'', ''st'', ''vs''}"

text \<open>\<open>strings.ToLower\<close>. No rune outside ASCII lowers to a letter of an abbreviation, so the ASCII
  letters are all that the lookup can see.\<close>

definition ascii_lower :: "string \<Rightarrow> string" where
  "ascii_lower w = map (\<lambda>c. if 65 \<le> byte c \<and> byte c \<le> 90 then char_of (byte c + 32) else c) w"

text \<open>The start of the trailing run of letters of \<open>b[:start]\<close>.\<close>

function word_start :: "(rune \<Rightarrow> bool) \<Rightarrow> string \<Rightarrow> nat \<Rightarrow> nat" where
  "word_start ul b start =
     (if 0 < start \<and> take start b \<noteq> [] \<and> is_letter ul (fst (decode_last_rune (take start b)))
      then word_start ul b (start - snd (decode_last_rune (take start b)))
      else start)"
  by pat_completeness auto
termination
proof (relation "measure (\<lambda>(ul, b, start). start)")
  show "((ul, b, start - snd (decode_last_rune (take start b))), ul, b, start) \<in> measure (\<lambda>(ul, b, start). start)"
    if "0 < start \<and> take start b \<noteq> [] \<and> is_letter ul (fst (decode_last_rune (take start b)))" for ul b start
    using that decode_last_rune_size [of "take start b"] by auto
qed simp

declare word_start.simps [simp del]

definition isAbbreviation :: "(rune \<Rightarrow> bool) \<Rightarrow> string \<Rightarrow> bool" where
  "isAbbreviation ul b =
     (let word = drop (word_start ul b (length b)) b in
      if word = [] then False
      else if rune_count word = 1 then True
      else ascii_lower word \<in> abbreviations)"

definition cjkInRun :: "string \<Rightarrow> bool" where
  "cjkInRun b \<longleftrightarrow> (\<exists>r \<in> set (runes b). isCJKTerminator r)"

text \<open>The inner loop: the end of the run of terminators and closing quotes from \<open>j\<close>;
  \<^term>\<open>None\<close> when the chunk ends inside a rune.\<close>

function scan_run :: "string \<Rightarrow> nat \<Rightarrow> nat option" where
  "scan_run b j =
     (if j < length b then
        (if incomplete (drop j b) then None
         else if isTerminator (fst (decode_rune (drop j b))) \<or> isClosingQuote (fst (decode_rune (drop j b)))
         then scan_run b (j + snd (decode_rune (drop j b)))
         else Some j)
      else Some j)"
  by pat_completeness auto
termination
proof (relation "measure (\<lambda>(b, j). length b - j)")
  show "((b, j + snd (decode_rune (drop j b))), b, j) \<in> measure (\<lambda>(b, j). length b - j)"
    if "j < length b" for b j
    using that decode_rune_size [of "drop j b"] by auto
qed simp

declare scan_run.simps [simp del]

lemma scan_run_ge: "scan_run b j = Some k \<Longrightarrow> j \<le> k"
proof (induction b j arbitrary: k rule: scan_run.induct)
  case (1 b j)
  show ?case using 1(2) 1(1) by (subst (asm) scan_run.simps) (fastforce split: if_splits)
qed

text \<open>The outer loop from \<open>i\<close>: the new value of \<open>s.scan\<close> and the boundary, if one was found.\<close>

function find_from :: "(rune \<Rightarrow> bool) \<Rightarrow> string \<Rightarrow> nat \<Rightarrow> nat \<Rightarrow> nat \<times> nat option" where
  "find_from ul b scan i =
     (if i < length b then
        (let (r, size) = decode_rune (drop i b) in
         if incomplete (drop i b) then (scan, None)
         else if r = 10 then (i + size, Some (i + size))
         else if \<not> isTerminator r then find_from ul b scan (i + size)
         else
           (case scan_run b (i + size) of
              None \<Rightarrow> (scan, None)
            | Some j \<Rightarrow>
                (if isCJKTerminator r \<or> cjkInRun (take (j - i) (drop i b)) then (j, Some j)
                 else if length b \<le> j then (scan, None)
                 else if is_space (fst (decode_rune (drop j b))) \<and> \<not> isAbbreviation ul (take i b)
                 then (j, Some j)
                 else find_from ul b scan j)))
      else (i, None))"
  by pat_completeness auto
termination
proof (relation "measure (\<lambda>(ul, b, scan, i). length b - i)", simp, goal_cases)
  case (1 ul b scan i x r size)
  then have "size = snd (decode_rune (drop i b))" by (metis snd_conv)
  then show ?case using 1 decode_rune_size [of "drop i b"] by auto
next
  case (2 ul b scan i x r size j)
  then have "size = snd (decode_rune (drop i b))" by (metis snd_conv)
  then show ?case using 2 decode_rune_size [of "drop i b"] scan_run_ge [of b "i + size" j] by auto
qed

declare find_from.simps [simp del]

definition findBoundary :: "(rune \<Rightarrow> bool) \<Rightarrow> sentencer \<Rightarrow> sentencer \<times> nat option" where
  "findBoundary ul s =
     (let (sc, e) = find_from ul (sBuf s) (sScan s) (sScan s) in (s\<lparr>sScan := sc\<rparr>, e))"

section \<open>Boundaries\<close>

text \<open>A boundary ends a newline, terminator or closing quote that starts at or after the scan point.\<close>

definition boundary_rune :: "rune \<Rightarrow> bool" where
  "boundary_rune r \<longleftrightarrow> r = 10 \<or> isTerminator r \<or> isClosingQuote r"

definition boundary_at :: "string \<Rightarrow> nat \<Rightarrow> nat \<Rightarrow> bool" where
  "boundary_at b lo e \<longleftrightarrow>
     (\<exists>k r. lo \<le> k \<and> k < length b \<and> decode_rune (drop k b) = (r, e - k) \<and> k < e \<and> e \<le> length b \<and> boundary_rune r)"

lemma rune_end:
  assumes "k < length b" "decode_rune (drop k b) = (r, n)"
  shows "k < k + n \<and> k + n \<le> length b"
  using assms decode_rune_size [of "drop k b"] by auto

lemma scan_run_boundary:
  "scan_run b j = Some e \<Longrightarrow> boundary_at b lo j \<Longrightarrow> boundary_at b lo e"
proof (induction b j arbitrary: e rule: scan_run.induct)
  case (1 b j)
  obtain r n where d: "decode_rune (drop j b) = (r, n)" by (cases "decode_rune (drop j b)")
  show ?case
  proof (cases "j < length b \<and> \<not> incomplete (drop j b) \<and> (isTerminator r \<or> isClosingQuote r)")
    case True
    have "lo \<le> j" using 1(3) by (auto simp: boundary_at_def)
    then have "boundary_at b lo (j + n)"
      unfolding boundary_at_def using True d rune_end [of j b r n]
      by (intro exI [of _ j] exI [of _ r]) (auto simp: boundary_rune_def)
    then show ?thesis using 1(1) [of e] True d 1(2) by (simp add: scan_run.simps [of b j])
  next
    case False
    then show ?thesis using 1(2,3) d by (subst (asm) scan_run.simps) (auto split: if_splits)
  qed
qed

lemma find_from_boundary:
  "find_from ul b scan i = (sc, Some e) \<Longrightarrow> boundary_at b i e"
proof (induction ul b scan i arbitrary: sc e rule: find_from.induct)
  case (1 ul b scan i)
  obtain r n where d: "decode_rune (drop i b) = (r, n)" by (cases "decode_rune (drop i b)")
  note step = 1(3) [unfolded find_from.simps [of ul b scan i]]
  have i: "i < length b" using step by (auto split: if_splits)
  have at: "boundary_at b i (i + n)" if "boundary_rune r"
    using that i d rune_end [OF i d] by (auto simp: boundary_at_def)
  have weaken: "boundary_at b j e \<Longrightarrow> i \<le> j \<Longrightarrow> boundary_at b i e" for j
    unfolding boundary_at_def using order.trans by blast
  show ?case
  proof (cases "scan_run b (i + n)")
    case None
    then show ?thesis using step 1(1) [OF i refl d [symmetric]] i d at weaken [of "i + n"]
      by (auto simp: boundary_rune_def split: if_splits)
  next
    case (Some j)
    have "i \<le> j" using scan_run_ge [OF Some] by simp
    moreover have "isTerminator r \<Longrightarrow> boundary_at b i j"
      using at scan_run_boundary [OF Some] by (simp add: boundary_rune_def)
    ultimately show ?thesis
      using step 1(1) [OF i refl d [symmetric]] 1(2) [OF i refl d [symmetric]] Some i d at weaken [of "i + n"] weaken [of j]
      by (auto simp: boundary_rune_def split: if_splits)
  qed
qed

lemma findBoundary_found:
  assumes "findBoundary ul s = (s', Some e)"
  shows "boundary_at (sBuf s) (sScan s) e" "sScan s < e" "e \<le> length (sBuf s)"
    "sBuf s' = sBuf s" "sBase s' = sBase s"
  using assms find_from_boundary [of ul "sBuf s" "sScan s" "sScan s"]
  by (auto simp: findBoundary_def boundary_at_def split: prod.splits)

lemma findBoundary_frame:
  "findBoundary ul s = (s', e) \<Longrightarrow> sBuf s' = sBuf s \<and> sBase s' = sBase s"
  by (auto simp: findBoundary_def split: prod.splits)


section \<open>Pushing chunks\<close>

function push_loop :: "(rune \<Rightarrow> bool) \<Rightarrow> sentencer \<Rightarrow> sentencer \<times> sentence list" where
  "push_loop ul s =
     (case findBoundary ul s of
        (s1, None) \<Rightarrow> (s1, [])
      | (s1, Some e) \<Rightarrow>
          (if rune_count (take e (sBuf s1)) < minSentenceRunes then push_loop ul (s1\<lparr>sScan := e\<rparr>)
           else let (s2, x) = sentencer_take s1 e; (s3, xs) = push_loop ul s2 in (s3, x # xs)))"
  by pat_completeness auto
termination
proof (relation "measures [\<lambda>(ul, s :: sentencer). length (sBuf s), \<lambda>(ul, s). length (sBuf s) - sScan s]", simp, goal_cases)
  case (1 ul s s1 o' e)
  then have "findBoundary ul s = (s1, Some e)" by simp
  from findBoundary_found [OF this] show ?case by auto
next
  case (2 ul s s1 o' e q s2 x)
  then have "findBoundary ul s = (s1, Some e)" by simp
  from findBoundary_found [OF this] 2 show ?case by (auto simp: sentencer_take_def)
qed

declare push_loop.simps [simp del]

definition sentencer_push :: "(rune \<Rightarrow> bool) \<Rightarrow> sentencer \<Rightarrow> string \<Rightarrow> sentencer \<times> sentence list" where
  "sentencer_push ul s chunk = push_loop ul (s\<lparr>sBuf := sBuf s @ chunk\<rparr>)"

section \<open>Tiling\<close>

text \<open>Consecutive sentences tile the text from offset \<open>a\<close>: each starts where the one before it ends,
  and its offsets are those of its bytes.\<close>

fun tiles :: "nat \<Rightarrow> sentence list \<Rightarrow> nat \<Rightarrow> bool" where
  "tiles a [] b \<longleftrightarrow> a = b"
| "tiles a (x # xs) b \<longleftrightarrow> snStart x = a \<and> snEnd x = a + length (snText x) \<and> snText x \<noteq> [] \<and> tiles (snEnd x) xs b"

lemma tiles_append: "tiles a (xs @ ys) b \<longleftrightarrow> (\<exists>m. tiles a xs m \<and> tiles m ys b)"
  by (induction xs arbitrary: a) auto

definition tiling :: "string \<Rightarrow> sentence list \<Rightarrow> bool" where
  "tiling full xs \<longleftrightarrow> concat (map snText xs) = full \<and> tiles 0 xs (length full)"

fun push_all :: "('s \<Rightarrow> string \<Rightarrow> 's \<times> sentence list) \<Rightarrow> 's \<Rightarrow> string list \<Rightarrow> 's \<times> sentence list" where
  "push_all push s [] = (s, [])"
| "push_all push s (c # cs) = (let (s1, xs) = push s c; (s2, ys) = push_all push s1 cs in (s2, xs @ ys))"

text \<open>
  The contract of a streaming splitter, as the synthesis stage relies on it: what a push returns
  and what it keeps is what it had and was given. Whatever the chunks are, the sentences of a whole
  stream then tile its text.
\<close>

locale splitter =
  fixes push :: "'s \<Rightarrow> string \<Rightarrow> 's \<times> sentence list"
    and flush :: "'s \<Rightarrow> 's \<times> sentence option"
    and rest :: "'s \<Rightarrow> string"
    and pos :: "'s \<Rightarrow> nat"
  assumes push_keeps: "push s c = (s', xs) \<Longrightarrow>
            tiles (pos s) xs (pos s') \<and> rest s @ c = concat (map snText xs) @ rest s'"
    and flush_keeps: "flush s = (s', x) \<Longrightarrow>
            rest s' = [] \<and> (case x of None \<Rightarrow> rest s = [] | Some y \<Rightarrow> snText y = rest s \<and> tiles (pos s) [y] (pos s'))"
begin

lemma push_all_keeps:
  "push_all push s cs = (s', xs) \<Longrightarrow> tiles (pos s) xs (pos s') \<and> rest s @ concat cs = concat (map snText xs) @ rest s'"
proof (induction cs arbitrary: s xs)
  case (Cons c cs)
  obtain s1 ys zs where p: "push s c = (s1, ys)" "push_all push s1 cs = (s', zs)" "xs = ys @ zs"
    using Cons.prems by (auto split: prod.splits)
  have "rest s @ c @ concat cs = concat (map snText ys) @ rest s1 @ concat cs"
    using push_keeps [OF p(1)] by (metis append.assoc)
  then show ?case using push_keeps [OF p(1)] Cons.IH [OF p(2)] p(3) by (auto simp: tiles_append)
qed simp

lemma tiles_length: "tiles a xs b \<Longrightarrow> b = a + length (concat (map snText xs))"
proof (induction xs arbitrary: a)
  case (Cons x xs)
  from Cons.prems have "tiles (snEnd x) xs b" unfolding tiles.simps by blast
  from Cons.IH [OF this] Cons.prems show ?case by auto
qed simp

lemma stream_tiling:
  assumes "rest s = []" "pos s = 0" "push_all push s cs = (s1, xs)" "flush s1 = (s2, y)"
  shows "tiling (concat cs) (xs @ (case y of None \<Rightarrow> [] | Some z \<Rightarrow> [z]))"
proof -
  let ?all = "xs @ (case y of None \<Rightarrow> [] | Some z \<Rightarrow> [z])"
  have "\<exists>b. tiles 0 ?all b" and "concat (map snText ?all) = concat cs"
    using push_all_keeps [OF assms(3)] flush_keeps [OF assms(4)] assms(1,2)
    by (auto simp: tiles_append split: option.splits)
  then show ?thesis using tiles_length by (fastforce simp: tiling_def)
qed

end

definition long_enough :: "sentence \<Rightarrow> bool" where
  "long_enough x \<longleftrightarrow> minSentenceRunes \<le> rune_count (snText x)"

definition ends_at_boundary :: "sentence \<Rightarrow> bool" where
  "ends_at_boundary x \<longleftrightarrow> (\<exists>k r. k < length (snText x) \<and> boundary_rune r \<and>
     decode_rune (drop k (snText x)) = (r, length (snText x) - k))"

lemma decode_rune_take:
  assumes "decode_rune s = (r, n)" "r \<noteq> RuneError"
  shows "decode_rune (take n s) = (r, n)"
proof (cases s)
  case Nil
  then show ?thesis using assms by simp
next
  case (Cons c t)
  then show ?thesis using assms
    by (cases t; cases "drop 1 t"; cases "drop 2 t")
       (auto simp: decode_rune_def lead_info_def Let_def split: if_splits option.splits list.splits)
qed

lemma boundary_at_sentence:
  assumes "boundary_at b lo e"
  shows "ends_at_boundary \<lparr>snText = take e b, snStart = p, snEnd = q\<rparr>"
proof -
  obtain k r where k: "k < length b" "k < e" "e \<le> length b" "decode_rune (drop k b) = (r, e - k)" "boundary_rune r"
    using assms by (auto simp: boundary_at_def)
  have "r \<noteq> RuneError"
    using k(5) by (auto simp: boundary_rune_def isTerminator_def isCJKTerminator_def isClosingQuote_def RuneError_def)
  then have "decode_rune (take (e - k) (drop k b)) = (r, e - k)" using decode_rune_take [OF k(4)] by simp
  then show ?thesis using k by (auto simp: ends_at_boundary_def drop_take)
qed

lemma push_loop_props:
  "push_loop ul s = (s', xs) \<Longrightarrow>
     tiles (sBase s) xs (sBase s') \<and> sBuf s = concat (map snText xs) @ sBuf s' \<and>
     list_all long_enough xs \<and> list_all ends_at_boundary xs"
proof (induction ul s arbitrary: s' xs rule: push_loop.induct)
  case (1 ul s)
  obtain s1 e where f: "findBoundary ul s = (s1, e)" by (cases "findBoundary ul s")
  show ?case
  proof (cases e)
    case None
    then show ?thesis using 1(3) f findBoundary_frame [OF f] by (simp add: push_loop.simps [of ul s])
  next
    case (Some k)
    note found = findBoundary_found [OF f [unfolded Some]]
    show ?thesis
    proof (cases "rune_count (take k (sBuf s1)) < minSentenceRunes")
      case True
      then show ?thesis using 1(1) [OF f [symmetric] Some True, of s' xs] 1(3) f Some found
        by (simp add: push_loop.simps [of ul s])
    next
      case False
      obtain s2 x where t: "sentencer_take s1 k = (s2, x)" by (cases "sentencer_take s1 k")
      obtain s3 ys where p: "push_loop ul s2 = (s3, ys)" by (cases "push_loop ul s2")
      have xs: "xs = x # ys" "s' = s3"
        using 1(3) f Some False t p by (simp_all add: push_loop.simps [of ul s])
      have "ends_at_boundary x" using boundary_at_sentence [OF found(1)] t found(4) by (auto simp: sentencer_take_def)
      moreover have "long_enough x" using False t by (auto simp: long_enough_def sentencer_take_def)
      moreover have "x = \<lparr>snText = take k (sBuf s), snStart = sBase s, snEnd = sBase s + k\<rparr>"
          and "sBuf s2 = drop k (sBuf s)" "sBase s2 = sBase s + k"
        using t found by (auto simp: sentencer_take_def)
      moreover have "take k (sBuf s) @ drop k (sBuf s) = sBuf s" by simp
      ultimately show ?thesis
        using 1(2) [OF f [symmetric] Some False t [symmetric] refl p] xs found
        by (auto simp: append_take_drop_id simp del: append_take_drop_id)
    qed
  qed
qed

interpretation sentences: splitter "sentencer_push ul" sentencer_flush sBuf sBase for ul
proof unfold_locales
  fix s c s' xs assume "sentencer_push ul s c = (s', xs)"
  then show "tiles (sBase s) xs (sBase s') \<and> sBuf s @ c = concat (map snText xs) @ sBuf s'"
    using push_loop_props [of ul "s\<lparr>sBuf := sBuf s @ c\<rparr>" s' xs] by (simp add: sentencer_push_def)
next
  fix s s' x assume "sentencer_flush s = (s', x)"
  then show "sBuf s' = [] \<and> (case x of None \<Rightarrow> sBuf s = [] | Some y \<Rightarrow> snText y = sBuf s \<and> tiles (sBase s) [y] (sBase s'))"
    by (auto simp: sentencer_flush_def sentencer_take_def split: if_splits)
qed


section \<open>Properties\<close>

text \<open>The whole life of a sentencer: chunks pushed one by one, then a flush. The sentences emitted
  while streaming, and the final remainder.\<close>

definition split_stream :: "(rune \<Rightarrow> bool) \<Rightarrow> string list \<Rightarrow> sentence list \<times> sentence option" where
  "split_stream ul cs =
     (let (s, xs) = push_all (sentencer_push ul) newSentencer cs in (xs, snd (sentencer_flush s)))"

definition all_sentences :: "sentence list \<times> sentence option \<Rightarrow> sentence list" where
  "all_sentences p = fst p @ (case snd p of None \<Rightarrow> [] | Some x \<Rightarrow> [x])"

lemma push_all_streamed:
  "push_all (sentencer_push ul) s cs = (s', xs) \<Longrightarrow> list_all (\<lambda>x. long_enough x \<and> ends_at_boundary x) xs"
proof (induction cs arbitrary: s xs)
  case (Cons c cs)
  obtain s1 ys zs where p: "sentencer_push ul s c = (s1, ys)" "push_all (sentencer_push ul) s1 cs = (s', zs)"
      "xs = ys @ zs"
    using Cons.prems by (auto split: prod.splits)
  show ?case using push_loop_props [OF p(1) [unfolded sentencer_push_def]] Cons.IH [OF p(2)] p(3)
    by (auto simp: list_all_iff)
qed simp

text \<open>\<^bold>\<open>C25\<close>: however the generated text is cut into chunks (inside a rune, inside a run of
  punctuation), the sentences handed to speech synthesis tile it: concatenated they are the text, and
  each one's offsets start where the previous one ended.\<close>

theorem sentences_tile: "tiling (concat cs) (all_sentences (split_stream ul cs))"
proof -
  obtain s xs where p: "push_all (sentencer_push ul) newSentencer cs = (s, xs)"
    by (cases "push_all (sentencer_push ul) newSentencer cs")
  obtain s2 y where f: "sentencer_flush s = (s2, y)" by (cases "sentencer_flush s")
  have "tiling (concat cs) (xs @ (case y of None \<Rightarrow> [] | Some z \<Rightarrow> [z]))"
    using sentences.stream_tiling [OF _ _ p f] by (simp add: newSentencer_def)
  then show ?thesis by (simp add: split_stream_def all_sentences_def p f)
qed

text \<open>Every sentence emitted before the flush has at least the minimum number of runes and
  ends right after a newline, a terminator or a closing quote, never inside a rune.\<close>

theorem sentences_cut_well: "list_all (\<lambda>x. long_enough x \<and> ends_at_boundary x) (fst (split_stream ul cs))"
  using push_all_streamed [of ul newSentencer cs]
  by (simp add: split_stream_def split: prod.splits)

end
