(* ===== verification/Pipeline.thy ===== *)
theory Pipeline
  imports SessionProps Sentencer
begin

text \<open>
  \<^verbatim>\<open>internal/session/pipeline.go\<close>: the goroutines of one response, LLM to sentencer to speech
  synthesis, as a machine whose state holds the program counter of each goroutine (the blocking point
  it stands at), the two bounded channels between them and the events sent to the actor. The context
  may be done at any moment; from then on every \<open>select\<close> between a channel and \<open>ctx.Done\<close> may take
  either branch, which is the argument \<open>ok\<close> of a step. The LLM and the TTS provider are the arguments
  that say what each call to them returned.
\<close>

section \<open>State\<close>

text \<open>\<open>errors.Is(err, context.Canceled)\<close>, or any other error with its message.\<close>

datatype perr = Canceled | Failed string

datatype LLMChunk = LLMTextDelta string | LLMToolCall ToolCall | LLMDone "FinishReason option" Usage | LLMError perr

record AudioChunk =
  chPCM :: pcm
  chAlignment :: "CharTiming list"

datatype read_result = ReadEOF | ReadErr perr | ReadAudio AudioChunk

definition textChunkQueue :: nat where "textChunkQueue = 16"
definition sentenceQueue :: nat where "sentenceQueue = 4"

datatype llm_pc = LChat | LRange | LPut string | LExit
datatype spl_pc = SRange | SEmit "sentence list" | SLast sentence | SExit

text \<open>The synthesis goroutine: draining only (text responses), one stream per sentence, or one stream
  for the whole response. Reading a stream is shared; the segment it belongs to is given when there is
  one stream per sentence.\<close>

datatype tts_pc =
    TDrain
  | TRange | TStart string audioSegment | TSynth string audioSegment | TSeg audioSegment
  | IStart | ISynth | IWait
  | TRead "audioSegment option" | TAudio "audioSegment option" pcm
  | TDone | TExit

datatype wr_pc = WOff | WRange | WDone "perr option"

text \<open>\<open>plFed\<close>, \<open>plTaken\<close> and \<open>plWritten\<close> log what went through the channels and to the provider.\<close>

record pipe =
  plStart :: pipeline_start
  plIncremental :: bool
  plDone :: bool
  plLlm :: llm_pc
  plChunks :: "string list"
  plSpl :: spl_pc
  plSentencer :: sentencer
  plSents :: "sentence list"
  plTts :: tts_pc
  plWriter :: wr_pc
  plPos :: nat
  plStarted :: bool
  plTotal :: nat
  plOut :: "PipeEvent list"
  plFed :: "string list"
  plTaken :: "sentence list"
  plWritten :: "string list"

text \<open>The goroutines as \<open>startPipeline\<close> launches them; \<open>ttsStage\<close> chooses by the provider's capability.\<close>

definition launch :: "pipeline_start \<Rightarrow> bool \<Rightarrow> pipe" where
  "launch ps incremental =
     \<lparr>plStart = ps, plIncremental = incremental, plDone = False, plLlm = LChat, plChunks = [], plSpl = SRange,
      plSentencer = newSentencer, plSents = [],
      plTts = (if psTextOnly ps then TDrain else if incremental then IStart else TRange), plWriter = WOff,
      plPos = 0, plStarted = False, plTotal = 0, plOut = [], plFed = [], plTaken = [], plWritten = []\<rparr>"

section \<open>Sending\<close>

definition send :: "bool \<Rightarrow> PipeEvent \<Rightarrow> pipe \<Rightarrow> pipe" where
  "send ok ev p = (if ok then p\<lparr>plOut := plOut p @ [ev]\<rparr> else p)"

abbreviation "gen p \<equiv> psGen (plStart p)"
abbreviation "resp p \<equiv> psResp (plStart p)"

definition fail_with :: "bool \<Rightarrow> string \<Rightarrow> perr \<Rightarrow> pipe \<Rightarrow> pipe" where
  "fail_with ok stage err p =
     (case err of Canceled \<Rightarrow> p | Failed e \<Rightarrow> send ok (PipeError (gen p) stage e) p)"

section \<open>The LLM stage\<close>

definition llm_chat :: "bool \<Rightarrow> perr option \<Rightarrow> pipe \<Rightarrow> pipe" where
  "llm_chat ok err p =
     (case err of Some e \<Rightarrow> (fail_with ok ''llm'' e p)\<lparr>plLlm := LExit\<rparr> | None \<Rightarrow> p\<lparr>plLlm := LRange\<rparr>)"

text \<open>The next item of the stream, or \<^term>\<open>None\<close> when it is closed.\<close>

definition llm_next :: "bool \<Rightarrow> LLMChunk option \<Rightarrow> pipe \<Rightarrow> pipe" where
  "llm_next ok c p =
     (case c of
        Some (LLMTextDelta t) \<Rightarrow>
          if ok then (send True (if psTextOnly (plStart p) then PipeTextDelta (gen p) (resp p) t
                                 else PipeAudioTranscriptDelta (gen p) (resp p) t) p)\<lparr>plLlm := LPut t\<rparr>
          else p\<lparr>plLlm := LExit\<rparr>
      | Some (LLMToolCall call) \<Rightarrow>
          if ok then send True (PipeToolCall (gen p) call) p else p\<lparr>plLlm := LExit\<rparr>
      | Some (LLMDone fin u) \<Rightarrow> (send ok (PipeLLMDone (gen p) fin u) p)\<lparr>plLlm := LExit\<rparr>
      | Some (LLMError e) \<Rightarrow> (fail_with ok ''llm'' e p)\<lparr>plLlm := LExit\<rparr>
      | None \<Rightarrow> (fail_with ok ''llm'' (Failed ''llm stream ended without a Done chunk'') p)\<lparr>plLlm := LExit\<rparr>)"

definition llm_put :: "bool \<Rightarrow> string \<Rightarrow> pipe \<Rightarrow> pipe" where
  "llm_put ok t p =
     (if ok then p\<lparr>plChunks := plChunks p @ [t], plFed := plFed p @ [t], plLlm := LRange\<rparr>
      else p\<lparr>plLlm := LExit\<rparr>)"

section \<open>The sentencer stage\<close>

text \<open>Receiving from \<open>chunks\<close>, which \<open>llmStage\<close> closes when it returns.\<close>

definition spl_range :: "(rune \<Rightarrow> bool) \<Rightarrow> pipe \<Rightarrow> pipe" where
  "spl_range ul p =
     (case plChunks p of
        c # cs \<Rightarrow> (let (s, xs) = sentencer_push ul (plSentencer p) c
                   in p\<lparr>plChunks := cs, plSentencer := s, plSpl := (if xs = [] then SRange else SEmit xs)\<rparr>)
      | [] \<Rightarrow>
          if plLlm p \<noteq> LExit then p
          else (case sentencer_flush (plSentencer p) of
                  (s, Some x) \<Rightarrow> p\<lparr>plSentencer := s, plSpl := SLast x\<rparr>
                | (s, None) \<Rightarrow> p\<lparr>plSentencer := s, plSpl := SExit\<rparr>))"

definition spl_emit :: "bool \<Rightarrow> sentence list \<Rightarrow> pipe \<Rightarrow> pipe" where
  "spl_emit ok xs p =
     (case xs of
        [] \<Rightarrow> p\<lparr>plSpl := SRange\<rparr>
      | x # xs' \<Rightarrow> if ok then p\<lparr>plSents := plSents p @ [x], plSpl := (if xs' = [] then SRange else SEmit xs')\<rparr>
                   else p\<lparr>plSpl := SExit\<rparr>)"

definition spl_last :: "bool \<Rightarrow> sentence \<Rightarrow> pipe \<Rightarrow> pipe" where
  "spl_last ok x p = (if ok then p\<lparr>plSents := plSents p @ [x], plSpl := SExit\<rparr> else p\<lparr>plSpl := SExit\<rparr>)"

section \<open>The synthesis stage\<close>

text \<open>Text responses: the sentences are drained.\<close>

definition tts_drain :: "pipe \<Rightarrow> pipe" where
  "tts_drain p =
     (case plSents p of x # xs \<Rightarrow> p\<lparr>plSents := xs, plTaken := plTaken p @ [x]\<rparr>
      | [] \<Rightarrow> if plSpl p = SExit then p\<lparr>plTts := TExit\<rparr> else p)"

text \<open>\<open>ttsPerSentence\<close>: the head of the loop.\<close>

definition tts_range :: "pipe \<Rightarrow> pipe" where
  "tts_range p =
     (case plSents p of
        x # xs \<Rightarrow>
          (let seg = \<lparr>textStart = int (snStart x), textEnd = int (snEnd x), audioStart = int (plPos p), audioEnd = 0\<rparr>;
               t = trim_space (snText x);
               p1 = p\<lparr>plSents := xs, plTaken := plTaken p @ [x]\<rparr>
           in if t = [] then p1\<lparr>plTts := TSeg (seg\<lparr>audioEnd := int (plPos p)\<rparr>)\<rparr>
              else if plStarted p then p1\<lparr>plTts := TSynth t seg\<rparr>
              else p1\<lparr>plStarted := True, plTts := TStart t seg\<rparr>)
      | [] \<Rightarrow> if plSpl p = SExit then p\<lparr>plTts := TDone\<rparr> else p)"

definition tts_start :: "bool \<Rightarrow> string \<Rightarrow> audioSegment \<Rightarrow> pipe \<Rightarrow> pipe" where
  "tts_start ok t seg p =
     (if ok then (send True (PipeTTSStart (gen p)) p)\<lparr>plTts := TSynth t seg\<rparr> else p\<lparr>plTts := TExit\<rparr>)"

text \<open>\<open>synthesizeOne\<close>: \<open>err\<close> is the first error of \<open>Synthesize\<close>, \<open>WriteText\<close> and \<open>EndInput\<close>.\<close>

definition synthesizeOne :: "bool \<Rightarrow> perr option \<Rightarrow> string \<Rightarrow> audioSegment \<Rightarrow> pipe \<Rightarrow> pipe" where
  "synthesizeOne ok err t seg p =
     (case err of
        Some e \<Rightarrow> (fail_with ok ''tts'' e p)\<lparr>plTts := TExit\<rparr>
      | None \<Rightarrow> p\<lparr>plWritten := plWritten p @ [t], plTotal := 0, plTts := TRead (Some seg)\<rparr>)"

text \<open>\<open>drain\<close>: one \<open>ReadAudio\<close>, the alignment it carried, then its audio.\<close>

definition drain_read :: "bool \<Rightarrow> read_result \<Rightarrow> audioSegment option \<Rightarrow> pipe \<Rightarrow> pipe" where
  "drain_read ok res sg p =
     (case res of
        ReadEOF \<Rightarrow>
          (case sg of
             Some seg \<Rightarrow> p\<lparr>plPos := plPos p + plTotal p, plTts := TSeg (seg\<lparr>audioEnd := int (plPos p + plTotal p)\<rparr>)\<rparr>
           | None \<Rightarrow> p\<lparr>plTts := IWait\<rparr>)
      | ReadErr e \<Rightarrow> (fail_with ok ''tts'' e p)\<lparr>plTts := TExit\<rparr>
      | ReadAudio c \<Rightarrow>
          if chAlignment c \<noteq> [] \<and> \<not> ok then p\<lparr>plTts := TExit\<rparr>
          else let p1 = (if chAlignment c \<noteq> [] then send True (PipeAlignment (gen p) (chAlignment c)) p else p)
               in if chPCM c = [] then p1
                  else p1\<lparr>plTts := TAudio sg (take (nat (AlignDown (int (length (chPCM c))))) (chPCM c))\<rparr>)"

definition drain_audio :: "bool \<Rightarrow> pcm \<Rightarrow> audioSegment option \<Rightarrow> pipe \<Rightarrow> pipe" where
  "drain_audio ok b sg p =
     (if ok then (send True (PipeAudioDelta (gen p) (resp p) b) p)\<lparr>plTotal := plTotal p + length b, plTts := TRead sg\<rparr>
      else p\<lparr>plTts := TExit\<rparr>)"

definition tts_segment :: "bool \<Rightarrow> audioSegment \<Rightarrow> pipe \<Rightarrow> pipe" where
  "tts_segment ok seg p =
     (if ok then (send True (PipeSegment (gen p) seg) p)\<lparr>plTts := TRange\<rparr> else p\<lparr>plTts := TExit\<rparr>)"

definition tts_done :: "bool \<Rightarrow> pipe \<Rightarrow> pipe" where
  "tts_done ok p = (send ok (PipeTTSDone (gen p)) p)\<lparr>plTts := TExit\<rparr>"

text \<open>\<open>ttsIncremental\<close> and its writer goroutine.\<close>

definition inc_start :: "bool \<Rightarrow> pipe \<Rightarrow> pipe" where
  "inc_start ok p = (if ok then (send True (PipeTTSStart (gen p)) p)\<lparr>plTts := ISynth\<rparr> else p\<lparr>plTts := TExit\<rparr>)"

definition inc_synth :: "bool \<Rightarrow> perr option \<Rightarrow> pipe \<Rightarrow> pipe" where
  "inc_synth ok err p =
     (case err of
        Some e \<Rightarrow> (fail_with ok ''tts'' e p)\<lparr>plTts := TExit\<rparr>
      | None \<Rightarrow> p\<lparr>plWriter := WRange, plTotal := 0, plTts := TRead None\<rparr>)"

text \<open>\<open>err\<close> is what \<open>WriteText\<close>, or \<open>EndInput\<close> after the last sentence, returned.\<close>

definition inc_write :: "perr option \<Rightarrow> pipe \<Rightarrow> pipe" where
  "inc_write err p =
     (case plSents p of
        x # xs \<Rightarrow>
          (let t = trim_space (snText x); p1 = p\<lparr>plSents := xs, plTaken := plTaken p @ [x]\<rparr>
           in if t = [] then p1
              else case err of Some e \<Rightarrow> p1\<lparr>plWriter := WDone (Some e)\<rparr>
                   | None \<Rightarrow> p1\<lparr>plWritten := plWritten p @ [t]\<rparr>)
      | [] \<Rightarrow> if plSpl p = SExit then p\<lparr>plWriter := WDone err\<rparr> else p)"

definition inc_finish :: "bool \<Rightarrow> perr option \<Rightarrow> pipe \<Rightarrow> pipe" where
  "inc_finish ok err p =
     (case err of Some e \<Rightarrow> (fail_with ok ''tts'' e p)\<lparr>plTts := TExit\<rparr> | None \<Rightarrow> p\<lparr>plTts := TDone\<rparr>)"

section \<open>The machine\<close>

text \<open>Any goroutine may move; a send that gives up needs a done context. Channels hold at most their
  capacity.\<close>

inductive pstep :: "(rune \<Rightarrow> bool) \<Rightarrow> pipe \<Rightarrow> pipe \<Rightarrow> bool" for ul where
  ctx_done: "pstep ul p (p\<lparr>plDone := True\<rparr>)"
| p_chat: "plLlm p = LChat \<Longrightarrow> ok \<or> plDone p \<Longrightarrow> pstep ul p (llm_chat ok err p)"
| p_next: "plLlm p = LRange \<Longrightarrow> ok \<or> plDone p \<Longrightarrow> pstep ul p (llm_next ok c p)"
| p_put: "plLlm p = LPut t \<Longrightarrow> ok \<and> length (plChunks p) < textChunkQueue \<or> \<not> ok \<and> plDone p \<Longrightarrow> pstep ul p (llm_put ok t p)"
| p_range: "plSpl p = SRange \<Longrightarrow> pstep ul p (spl_range ul p)"
| p_emit: "plSpl p = SEmit xs \<Longrightarrow> ok \<and> length (plSents p) < sentenceQueue \<or> \<not> ok \<and> plDone p \<Longrightarrow> pstep ul p (spl_emit ok xs p)"
| p_last: "plSpl p = SLast x \<Longrightarrow> ok \<and> length (plSents p) < sentenceQueue \<or> \<not> ok \<and> plDone p \<Longrightarrow> pstep ul p (spl_last ok x p)"
| p_drain: "plTts p = TDrain \<Longrightarrow> pstep ul p (tts_drain p)"
| p_sentence: "plTts p = TRange \<Longrightarrow> pstep ul p (tts_range p)"
| p_start: "plTts p = TStart t seg \<Longrightarrow> ok \<or> plDone p \<Longrightarrow> pstep ul p (tts_start ok t seg p)"
| p_synth: "plTts p = TSynth t seg \<Longrightarrow> ok \<or> plDone p \<Longrightarrow> pstep ul p (synthesizeOne ok err t seg p)"
| p_read: "plTts p = TRead sg \<Longrightarrow> ok \<or> plDone p \<Longrightarrow> pstep ul p (drain_read ok res sg p)"
| p_audio: "plTts p = TAudio sg b \<Longrightarrow> ok \<or> plDone p \<Longrightarrow> pstep ul p (drain_audio ok b sg p)"
| p_segment: "plTts p = TSeg seg \<Longrightarrow> ok \<or> plDone p \<Longrightarrow> pstep ul p (tts_segment ok seg p)"
| p_done: "plTts p = TDone \<Longrightarrow> ok \<or> plDone p \<Longrightarrow> pstep ul p (tts_done ok p)"
| p_istart: "plTts p = IStart \<Longrightarrow> ok \<or> plDone p \<Longrightarrow> pstep ul p (inc_start ok p)"
| p_isynth: "plTts p = ISynth \<Longrightarrow> ok \<or> plDone p \<Longrightarrow> pstep ul p (inc_synth ok err p)"
| p_iwrite: "plWriter p = WRange \<Longrightarrow> pstep ul p (inc_write err p)"
| p_iwait: "plTts p = IWait \<Longrightarrow> plWriter p = WDone err \<Longrightarrow> ok \<or> plDone p \<Longrightarrow> pstep ul p (inc_finish ok err p)"

inductive preach :: "(rune \<Rightarrow> bool) \<Rightarrow> pipe \<Rightarrow> pipe \<Rightarrow> bool" for ul p0 where
  preach_refl: "preach ul p0 p0"
| preach_step: "preach ul p0 p \<Longrightarrow> pstep ul p q \<Longrightarrow> preach ul p0 q"

inductive_cases pstep_cases: "pstep ul p q"

section \<open>What was sent\<close>

fun text_of :: "PipeEvent \<Rightarrow> string" where
  "text_of (PipeTextDelta _ _ d) = d"
| "text_of (PipeAudioTranscriptDelta _ _ d) = d"
| "text_of _ = []"

fun audio_of :: "PipeEvent \<Rightarrow> pcm" where
  "audio_of (PipeAudioDelta _ _ b) = b"
| "audio_of _ = []"

fun seg_of :: "PipeEvent \<Rightarrow> audioSegment list" where
  "seg_of (PipeSegment _ s) = [s]"
| "seg_of _ = []"

fun align_of :: "PipeEvent \<Rightarrow> CharTiming list" where
  "align_of (PipeAlignment _ ts) = ts"
| "align_of _ = []"

definition out_text :: "PipeEvent list \<Rightarrow> string" where "out_text out = concat (map text_of out)"
definition out_bytes :: "PipeEvent list \<Rightarrow> nat" where "out_bytes out = length (concat (map audio_of out))"
definition out_segs :: "PipeEvent list \<Rightarrow> audioSegment list" where "out_segs out = concat (map seg_of out)"
definition out_align :: "PipeEvent list \<Rightarrow> CharTiming list" where "out_align out = concat (map align_of out)"

lemma out_append [simp]:
  "out_text (xs @ ys) = out_text xs @ out_text ys" "out_bytes (xs @ ys) = out_bytes xs + out_bytes ys"
  "out_segs (xs @ ys) = out_segs xs @ out_segs ys" "out_align (xs @ ys) = out_align xs @ out_align ys"
  by (simp_all add: out_text_def out_bytes_def out_segs_def out_align_def)

lemma out_single [simp]:
  "out_text [] = []" "out_bytes [] = 0" "out_segs [] = []" "out_align [] = []"
  "out_text [e] = text_of e" "out_bytes [e] = length (audio_of e)" "out_segs [e] = seg_of e" "out_align [e] = align_of e"
  by (simp_all add: out_text_def out_bytes_def out_segs_def out_align_def)

lemmas stage_defs = send_def fail_with_def llm_chat_def llm_next_def llm_put_def spl_emit_def spl_last_def
  tts_drain_def tts_range_def tts_start_def synthesizeOne_def drain_read_def drain_audio_def tts_segment_def tts_done_def
  inc_start_def inc_synth_def inc_write_def inc_finish_def Let_def

section \<open>The path of the text\<close>

fun pending :: "spl_pc \<Rightarrow> sentence list" where
  "pending (SEmit xs) = xs"
| "pending (SLast x) = [x]"
| "pending _ = []"

text \<open>The text sent is what was fed to the sentencer, up to a delta given up when the context was done;
  what was fed is the sentences handed on, the sentencer's buffer and the queued chunks; a sentencer
  that ended without the context being done has handed on everything.\<close>

definition text_fed :: "pipe \<Rightarrow> string \<Rightarrow> bool" where
  "text_fed p lost \<longleftrightarrow> out_text (plOut p) = concat (plFed p) @ lost \<and>
     (plLlm p = LChat \<or> plLlm p = LRange \<longrightarrow> lost = []) \<and> (\<forall>t. plLlm p = LPut t \<longrightarrow> lost = t) \<and>
     (plLlm p = LExit \<and> \<not> plDone p \<longrightarrow> lost = [])"

definition handed :: "pipe \<Rightarrow> sentence list" where "handed p = plTaken p @ plSents p"

definition text_split :: "pipe \<Rightarrow> sentence list \<Rightarrow> bool" where
  "text_split p dropped \<longleftrightarrow>
     tiles 0 (handed p @ pending (plSpl p) @ dropped) (sBase (plSentencer p)) \<and>
     concat (plFed p) = concat (map snText (handed p @ pending (plSpl p) @ dropped)) @ sBuf (plSentencer p) @ concat (plChunks p) \<and>
     (dropped = [] \<or> plSpl p = SExit \<and> plDone p) \<and>
     ((\<exists>x. plSpl p = SLast x) \<or> plSpl p = SExit \<and> \<not> plDone p \<longrightarrow>
        plChunks p = [] \<and> sBuf (plSentencer p) = [] \<and> plLlm p = LExit)"

definition text_inv :: "pipe \<Rightarrow> bool" where
  "text_inv p \<longleftrightarrow> (\<exists>lost. text_fed p lost) \<and> (\<exists>dropped. text_split p dropped)"

lemma launch_text: "text_inv (launch ps inc)"
  by (simp add: text_inv_def text_fed_def text_split_def launch_def newSentencer_def handed_def)

text \<open>Steps of the synthesis stage only move sentences from the queue to the log and send no text.\<close>

lemma text_inv_cong:
  assumes "text_inv p" "out_text (plOut q) = out_text (plOut p)" "plFed q = plFed p" "plLlm q = plLlm p"
    "plDone q = plDone p" "plSpl q = plSpl p" "plSentencer q = plSentencer p" "plChunks q = plChunks p"
    "handed q = handed p"
  shows "text_inv q"
  using assms(1) unfolding text_inv_def text_fed_def text_split_def assms(2-9) .

lemma llm_chat_text: "plLlm p = LChat \<Longrightarrow> text_inv p \<Longrightarrow> text_inv (llm_chat ok err p)"
  by (auto simp: text_inv_def text_fed_def text_split_def handed_def stage_defs split: option.splits perr.splits spl_pc.splits)

lemma llm_next_text: "plLlm p = LRange \<Longrightarrow> ok \<or> plDone p \<Longrightarrow> text_inv p \<Longrightarrow> text_inv (llm_next ok c p)"
  by (auto simp: text_inv_def text_fed_def text_split_def handed_def stage_defs
      split: option.splits perr.splits spl_pc.splits LLMChunk.splits)

lemma llm_put_text: "plLlm p = LPut t \<Longrightarrow> ok \<or> plDone p \<Longrightarrow> text_inv p \<Longrightarrow> text_inv (llm_put ok t p)"
  by (auto simp: text_inv_def text_fed_def text_split_def handed_def stage_defs split: spl_pc.splits)

lemma spl_emit_text: "plSpl p = SEmit xs \<Longrightarrow> ok \<or> plDone p \<Longrightarrow> text_inv p \<Longrightarrow> text_inv (spl_emit ok xs p)"
  by (auto simp: text_inv_def text_fed_def text_split_def handed_def stage_defs split: list.splits)

lemma spl_last_text: "plSpl p = SLast x \<Longrightarrow> ok \<or> plDone p \<Longrightarrow> text_inv p \<Longrightarrow> text_inv (spl_last ok x p)"
  by (auto simp: text_inv_def text_fed_def text_split_def handed_def stage_defs)

lemma spl_range_text:
  assumes "plSpl p = SRange" "text_inv p"
  shows "text_inv (spl_range ul p)"
proof (cases "plChunks p")
  case Nil
  obtain s y where f: "sentencer_flush (plSentencer p) = (s, y)" by fastforce
  note k = sentences.flush_keeps [OF f]
  obtain lost dropped where *: "text_fed p lost" "text_split p dropped" using assms(2) by (auto simp: text_inv_def)
  have "dropped = []" using * assms(1) by (auto simp: text_split_def)
  show ?thesis
  proof (cases "plLlm p = LExit")
    case True
    have "text_fed (spl_range ul p) lost" using * True Nil f
      by (auto simp: text_fed_def spl_range_def split: option.splits)
    moreover have "text_split (spl_range ul p) []" using * True Nil f k assms(1) \<open>dropped = []\<close>
      by (auto simp: text_split_def spl_range_def handed_def tiles_append sentencer_flush_def split: option.splits if_splits)
    ultimately show ?thesis by (auto simp: text_inv_def)
  qed (use assms Nil in \<open>simp add: spl_range_def\<close>)
next
  case (Cons c cs)
  obtain s xs where f: "sentencer_push ul (plSentencer p) c = (s, xs)" by fastforce
  note k = sentences.push_keeps [OF f]
  obtain lost dropped where *: "text_fed p lost" "text_split p dropped" using assms(2) by (auto simp: text_inv_def)
  have "dropped = []" using * assms(1) by (auto simp: text_split_def)
  have fed: "sBuf (plSentencer p) @ c @ concat cs = concat (map snText xs) @ sBuf s @ concat cs"
    using k by (metis append.assoc)
  have "text_fed (spl_range ul p) lost" using * Cons f by (simp add: text_fed_def spl_range_def)
  moreover have "text_split (spl_range ul p) []" using * Cons f k fed assms(1) \<open>dropped = []\<close>
    by (auto simp: text_split_def spl_range_def handed_def tiles_append)
  ultimately show ?thesis by (auto simp: text_inv_def)
qed

lemma pstep_text: "pstep ul p q \<Longrightarrow> text_inv p \<Longrightarrow> text_inv q"
proof (induction rule: pstep.induct)
  case (ctx_done p)
  then show ?case by (auto simp: text_inv_def text_fed_def text_split_def handed_def split: llm_pc.splits spl_pc.splits)
next
  case (p_range p)
  then show ?case by (rule spl_range_text)
qed (blast intro: llm_chat_text llm_next_text llm_put_text spl_emit_text spl_last_text
     | (erule text_inv_cong; force simp: stage_defs handed_def split: option.splits perr.splits list.splits read_result.splits))+

section \<open>Runes stay whole\<close>

text \<open>When every delta is valid UTF-8, so is every sentence: the sentencer cuts only between runes.\<close>

definition rune_cut :: "string \<Rightarrow> nat \<Rightarrow> bool" where
  "rune_cut b i \<longleftrightarrow> i \<le> length b \<and> valid_utf8 (take i b) \<and> valid_utf8 (drop i b)"

lemma valid_append: "valid_utf8 a \<Longrightarrow> valid_utf8 b \<Longrightarrow> valid_utf8 (a @ b)"
  unfolding valid_utf8_iff by (metis list_all_append string_of_runes_append)

lemma valid_Nil [simp]: "valid_utf8 []"
  unfolding valid_utf8_iff by (rule exI [of _ "[]"]) (simp add: string_of_runes_def)

lemma valid_decode:
  assumes "valid_utf8 b" "b \<noteq> []" "decode_rune b = (r, n)"
  shows "valid_utf8 (take n b) \<and> valid_utf8 (drop n b)"
proof -
  obtain rs where rs: "list_all valid_rune rs" "b = string_of_runes rs" using assms(1) by (auto simp: valid_utf8_iff)
  then obtain x xs where x: "rs = x # xs" using assms(2) by (cases rs) (auto simp: string_of_runes_def)
  have b: "b = encode_rune x @ string_of_runes xs" using rs(2) x by (simp add: string_of_runes_def)
  then have "n = length (encode_rune x)" using assms(3) decode_encode [of x "string_of_runes xs"] rs(1) x by simp
  moreover have "valid_utf8 (string_of_runes [x])" "valid_utf8 (string_of_runes xs)"
    using rs(1) x unfolding valid_utf8_iff by (metis list.pred_inject)+
  ultimately show ?thesis using b by (simp add: string_of_runes_def)
qed

lemma rune_cut_next:
  assumes "rune_cut b i" "i < length b" "decode_rune (drop i b) = (r, n)"
  shows "rune_cut b (i + n)"
proof -
  have v: "valid_utf8 (take n (drop i b))" "valid_utf8 (drop n (drop i b))"
    using valid_decode [of "drop i b"] assms by (auto simp: rune_cut_def)
  moreover have "take (i + n) b = take i b @ take n (drop i b)" by (rule take_add)
  ultimately show ?thesis using assms rune_end [OF assms(2,3)] valid_append
    by (auto simp: rune_cut_def add.commute)
qed

lemma scan_run_cut: "rune_cut b j \<Longrightarrow> scan_run b j = Some k \<Longrightarrow> rune_cut b k"
proof (induction b j arbitrary: k rule: scan_run.induct)
  case (1 b j)
  obtain r n where d: "decode_rune (drop j b) = (r, n)" by (cases "decode_rune (drop j b)")
  show ?case using 1 d rune_cut_next [OF 1(2) _ d] by (subst (asm) (2) scan_run.simps) (auto split: if_splits)
qed

lemma find_from_cut:
  "find_from ul b scan i = (sc, res) \<Longrightarrow> rune_cut b scan \<Longrightarrow> rune_cut b i \<Longrightarrow>
     rune_cut b sc \<and> (\<forall>e. res = Some e \<longrightarrow> rune_cut b e)"
proof (induction ul b scan i arbitrary: sc res rule: find_from.induct)
  case (1 ul b scan i)
  obtain r n where d: "decode_rune (drop i b) = (r, n)" by (cases "decode_rune (drop i b)")
  note step = 1(3) [unfolded find_from.simps [of ul b scan i]]
  show ?case
  proof (cases "i < length b")
    case True
    note cut = rune_cut_next [OF 1(5) True d]
    show ?thesis
      using step 1(1) [OF True refl d [symmetric]] 1(2) [OF True refl d [symmetric]] True d cut 1(4) scan_run_cut [OF cut]
      by (auto split: if_splits option.splits)
  next
    case False
    then show ?thesis using step 1(5) by auto
  qed
qed

lemma push_loop_cut:
  "push_loop ul s = (s', xs) \<Longrightarrow> rune_cut (sBuf s) (sScan s) \<Longrightarrow>
     rune_cut (sBuf s') (sScan s') \<and> (\<forall>x \<in> set xs. valid_utf8 (snText x))"
proof (induction ul s arbitrary: s' xs rule: push_loop.induct)
  case (1 ul s)
  obtain s1 e where f: "findBoundary ul s = (s1, e)" by (cases "findBoundary ul s")
  have cut: "rune_cut (sBuf s) (sScan s1)" "\<forall>k. e = Some k \<longrightarrow> rune_cut (sBuf s) k" "sBuf s1 = sBuf s"
    using f find_from_cut [of ul "sBuf s" "sScan s" "sScan s"] 1(4)
    by (auto simp: findBoundary_def split: prod.splits)
  show ?case
  proof (cases e)
    case None
    then show ?thesis using 1(3) f cut by (simp add: push_loop.simps [of ul s])
  next
    case (Some k)
    have k: "rune_cut (sBuf s) k" using cut(2) Some by simp
    show ?thesis
    proof (cases "rune_count (take k (sBuf s1)) < minSentenceRunes")
      case True
      then show ?thesis using 1(1) [OF f [symmetric] Some True, of s' xs] 1(3) f Some k cut(3)
        by (simp add: push_loop.simps [of ul s])
    next
      case False
      obtain s2 x where t: "sentencer_take s1 k = (s2, x)" by (cases "sentencer_take s1 k")
      obtain s3 ys where p: "push_loop ul s2 = (s3, ys)" by (cases "push_loop ul s2")
      have "rune_cut (sBuf s2) (sScan s2)" "valid_utf8 (snText x)"
        using t k cut(3) by (auto simp: sentencer_take_def rune_cut_def)
      moreover have "xs = x # ys" "s' = s3"
        using 1(3) f Some False t p by (simp_all add: push_loop.simps [of ul s])
      ultimately show ?thesis using 1(2) [OF f [symmetric] Some False t [symmetric] refl p] by auto
    qed
  qed
qed

lemma push_cut:
  assumes "sentencer_push ul s c = (s', xs)" "rune_cut (sBuf s) (sScan s)" "valid_utf8 c"
  shows "rune_cut (sBuf s') (sScan s') \<and> (\<forall>x \<in> set xs. valid_utf8 (snText x))"
proof -
  have "rune_cut (sBuf s @ c) (sScan s)" using assms(2,3) valid_append by (auto simp: rune_cut_def)
  then show ?thesis using push_loop_cut [OF assms(1) [unfolded sentencer_push_def]] by simp
qed

text \<open>Every piece of text in the pipeline is valid, when every delta sent was.\<close>

definition deltas_valid :: "PipeEvent list \<Rightarrow> bool" where
  "deltas_valid out \<longleftrightarrow> list_all (\<lambda>e. valid_utf8 (text_of e)) out"

definition valid_inv :: "pipe \<Rightarrow> bool" where
  "valid_inv p \<longleftrightarrow> list_all valid_utf8 (plChunks p) \<and> rune_cut (sBuf (plSentencer p)) (sScan (plSentencer p)) \<and>
     list_all (\<lambda>x. valid_utf8 (snText x)) (plTaken p @ plSents p @ pending (plSpl p)) \<and>
     (\<forall>t. plLlm p = LPut t \<longrightarrow> valid_utf8 t)"

lemma valid_out: "deltas_valid out \<Longrightarrow> valid_utf8 (out_text out)"
  by (induction out) (auto simp: deltas_valid_def out_text_def valid_append)

lemma pstep_out: "pstep ul p q \<Longrightarrow> \<exists>more. plOut q = plOut p @ more"
  by (induction rule: pstep.induct)
     (auto simp: stage_defs spl_range_def split: option.splits perr.splits list.splits read_result.splits LLMChunk.splits
        prod.splits)

lemma spl_range_valid: "plSpl p = SRange \<Longrightarrow> valid_inv p \<Longrightarrow> valid_inv (spl_range ul p)"
  using push_cut [of ul "plSentencer p" "hd (plChunks p)"]
  by (auto simp: valid_inv_def spl_range_def sentencer_flush_def sentencer_take_def rune_cut_def list_all_iff valid_append
      dest: valid_append split: list.splits prod.splits option.splits if_splits)

lemma pstep_valid: "pstep ul p q \<Longrightarrow> deltas_valid (plOut q) \<Longrightarrow> valid_inv p \<Longrightarrow> valid_inv q"
proof (induction rule: pstep.induct)
  case (p_range p)
  then show ?case by (blast intro: spl_range_valid)
qed (force simp: valid_inv_def stage_defs deltas_valid_def
     split: option.splits perr.splits list.splits read_result.splits LLMChunk.splits if_splits)+

section \<open>The path of the audio\<close>

text \<open>Segments that give consecutive sentences consecutive stretches of audio, from \<open>a\<close> to \<open>b\<close>.\<close>

definition spans :: "audioSegment \<Rightarrow> sentence \<Rightarrow> bool" where
  "spans g x \<longleftrightarrow> textStart g = int (snStart x) \<and> textEnd g = int (snEnd x)"

fun seg_run :: "int \<Rightarrow> audioSegment list \<Rightarrow> sentence list \<Rightarrow> int \<Rightarrow> bool" where
  "seg_run a [] [] b \<longleftrightarrow> a = b"
| "seg_run a (g # gs) (x # xs) b \<longleftrightarrow> spans g x \<and> audioStart g = a \<and> a \<le> audioEnd g \<and> seg_run (audioEnd g) gs xs b"
| "seg_run a _ _ b \<longleftrightarrow> False"

lemma seg_run_snoc:
  "seg_run a gs xs m \<Longrightarrow> spans g x \<Longrightarrow> audioStart g = m \<Longrightarrow> m \<le> audioEnd g \<Longrightarrow>
   seg_run a (gs @ [g]) (xs @ [x]) (audioEnd g)"
  by (induction a gs xs m rule: seg_run.induct) auto

definition drained :: "pipe \<Rightarrow> bool" where "drained p \<longleftrightarrow> plSents p = [] \<and> plSpl p = SExit"

definition tts_finished :: "PipeEvent list \<Rightarrow> bool" where
  "tts_finished out \<longleftrightarrow> (\<exists>g. PipeTTSDone g \<in> set out)"

text \<open>One stream per sentence: what the segments sent cover, at each blocking point of the stage.\<close>

fun seg_at :: "tts_pc \<Rightarrow> audioSegment list \<Rightarrow> sentence list \<Rightarrow> nat \<Rightarrow> nat \<Rightarrow> nat \<Rightarrow> bool" where
  "seg_at TRange gs xs pos tot bytes \<longleftrightarrow> seg_run 0 gs xs (int pos) \<and> bytes = pos"
| "seg_at TDone gs xs pos tot bytes \<longleftrightarrow> seg_run 0 gs xs (int pos) \<and> bytes = pos"
| "seg_at (TStart t g) gs xs pos tot bytes \<longleftrightarrow>
     (\<exists>ys x. xs = ys @ [x] \<and> spans g x \<and> audioStart g = int pos \<and> seg_run 0 gs ys (int pos) \<and> bytes = pos)"
| "seg_at (TSynth t g) gs xs pos tot bytes \<longleftrightarrow>
     (\<exists>ys x. xs = ys @ [x] \<and> spans g x \<and> audioStart g = int pos \<and> seg_run 0 gs ys (int pos) \<and> bytes = pos)"
| "seg_at (TRead (Some g)) gs xs pos tot bytes \<longleftrightarrow>
     (\<exists>ys x. xs = ys @ [x] \<and> spans g x \<and> audioStart g = int pos \<and> seg_run 0 gs ys (int pos) \<and> bytes = pos + tot)"
| "seg_at (TAudio (Some g) b) gs xs pos tot bytes \<longleftrightarrow>
     (\<exists>ys x. xs = ys @ [x] \<and> spans g x \<and> audioStart g = int pos \<and> seg_run 0 gs ys (int pos) \<and> bytes = pos + tot)"
| "seg_at (TSeg g) gs xs pos tot bytes \<longleftrightarrow>
     (\<exists>ys x. xs = ys @ [x] \<and> spans g x \<and> audioStart g \<le> audioEnd g \<and> audioEnd g = int pos \<and>
             seg_run 0 gs ys (audioStart g) \<and> bytes = pos)"
| "seg_at TExit gs xs pos tot bytes \<longleftrightarrow>
     (\<exists>ys zs a. xs = ys @ zs \<and> seg_run 0 gs ys a \<and> a \<le> int bytes)"
| "seg_at _ gs xs pos tot bytes \<longleftrightarrow> False"

definition per_sentence :: "pipe \<Rightarrow> bool" where
  "per_sentence p \<longleftrightarrow> \<not> psTextOnly (plStart p) \<and> \<not> plIncremental p"

definition seg_inv_of :: "pipe \<Rightarrow> bool" where
  "seg_inv_of p \<longleftrightarrow> plWriter p = WOff \<and>
     seg_at (plTts p) (out_segs (plOut p)) (plTaken p) (plPos p) (plTotal p) (out_bytes (plOut p)) \<and>
     (plTts p = TDone \<longrightarrow> drained p) \<and>
     (tts_finished (plOut p) \<longrightarrow> plTts p = TExit \<and> drained p \<and>
        seg_run 0 (out_segs (plOut p)) (plTaken p) (int (out_bytes (plOut p))))"

lemma launch_segs: "per_sentence (launch ps inc) \<Longrightarrow> seg_inv_of (launch ps inc)"
  by (auto simp: per_sentence_def launch_def seg_inv_of_def tts_finished_def)

lemma pstep_start: "pstep ul p q \<Longrightarrow> plStart q = plStart p \<and> plIncremental q = plIncremental p"
  by (induction rule: pstep.induct)
     (auto simp: stage_defs spl_range_def split: option.splits perr.splits list.splits read_result.splits LLMChunk.splits
        prod.splits)

lemma tts_finished_simps [simp]:
  "tts_finished (xs @ ys) \<longleftrightarrow> tts_finished xs \<or> tts_finished ys" "\<not> tts_finished []"
  "tts_finished [e] \<longleftrightarrow> (\<exists>g. e = PipeTTSDone g)"
  by (auto simp: tts_finished_def)

text \<open>The other stages neither send audio nor take sentences.\<close>

lemma seg_inv_cong:
  assumes "seg_inv_of p" "plWriter q = plWriter p" "plTts q = plTts p" "out_segs (plOut q) = out_segs (plOut p)"
    "plTaken q = plTaken p" "plPos q = plPos p" "plTotal q = plTotal p" "out_bytes (plOut q) = out_bytes (plOut p)"
    "tts_finished (plOut q) \<longleftrightarrow> tts_finished (plOut p)" "drained p \<Longrightarrow> drained q"
  shows "seg_inv_of q"
  using assms unfolding seg_inv_of_def by metis

lemma llm_segs:
  "seg_inv_of p \<Longrightarrow> seg_inv_of (llm_chat ok err p)" "seg_inv_of p \<Longrightarrow> seg_inv_of (llm_next ok c p)"
  "seg_inv_of p \<Longrightarrow> seg_inv_of (llm_put ok t p)"
  by (erule seg_inv_cong; auto simp: stage_defs drained_def split: option.splits perr.splits LLMChunk.splits)+

lemma spl_segs:
  "seg_inv_of p \<Longrightarrow> plSpl p = SRange \<Longrightarrow> seg_inv_of (spl_range ul p)"
  "seg_inv_of p \<Longrightarrow> plSpl p = SEmit xs \<Longrightarrow> seg_inv_of (spl_emit ok xs p)"
  "seg_inv_of p \<Longrightarrow> plSpl p = SLast x \<Longrightarrow> seg_inv_of (spl_last ok x p)"
  by (erule seg_inv_cong; auto simp: stage_defs spl_range_def drained_def split: list.splits prod.splits option.splits)+

text \<open>The synthesis stage itself.\<close>

lemma seg_exit: "seg_run 0 gs ys a \<Longrightarrow> a \<le> int bytes \<Longrightarrow> xs = ys @ zs \<Longrightarrow> seg_at TExit gs xs pos tot bytes"
  by auto

lemma seg_at_exit:
  assumes "seg_at pc gs xs pos tot bytes"
  shows "seg_at TExit gs xs pos tot bytes"
proof -
  consider "seg_run 0 gs xs (int pos)" "bytes = pos"
    | ys x a where "xs = ys @ [x]" "seg_run 0 gs ys a" "a \<le> int bytes" | "pc = TExit"
    using assms by (induction pc gs xs pos tot bytes rule: seg_at.induct) auto
  then show ?thesis
  proof cases
    case 1
    then show ?thesis by (intro seg_exit [of gs xs "int pos" _ _ "[]"]) auto
  next
    case 2
    then show ?thesis using seg_exit by blast
  next
    case 3
    then show ?thesis using assms by simp
  qed
qed

lemma tts_give_up: "seg_inv_of p \<Longrightarrow> seg_inv_of (p\<lparr>plTts := TExit\<rparr>)"
  using seg_at_exit by (auto simp: seg_inv_of_def drained_def)

lemma tts_fail: "seg_inv_of p \<Longrightarrow> seg_inv_of ((fail_with ok st e p)\<lparr>plTts := TExit\<rparr>)"
  using tts_give_up [of p] by (auto simp: fail_with_def send_def seg_inv_of_def drained_def split: perr.splits)

lemma tts_range_segs:
  assumes "seg_inv_of p" "plTts p = TRange"
  shows "seg_inv_of (tts_range p)"
proof (cases "plSents p")
  case Nil
  then show ?thesis using assms by (auto simp: seg_inv_of_def tts_range_def drained_def)
next
  case (Cons x xs)
  then show ?thesis using assms by (auto simp: seg_inv_of_def tts_range_def spans_def drained_def Let_def)
qed

lemma tts_start_segs: "seg_inv_of p \<Longrightarrow> plTts p = TStart t g \<Longrightarrow> seg_inv_of (tts_start ok t g p)"
  using tts_give_up [of p] by (auto simp: tts_start_def send_def seg_inv_of_def drained_def)

lemma synthesizeOne_segs: "seg_inv_of p \<Longrightarrow> plTts p = TSynth t g \<Longrightarrow> seg_inv_of (synthesizeOne ok err t g p)"
  using tts_fail [of p] by (auto simp: synthesizeOne_def seg_inv_of_def drained_def split: option.splits)

lemma drain_read_segs:
  assumes "seg_inv_of p" "plTts p = TRead sg"
  shows "seg_inv_of (drain_read ok res sg p)"
proof (cases sg)
  case None
  then show ?thesis using assms by (simp add: seg_inv_of_def)
next
  case (Some g)
  show ?thesis
  proof (cases res)
    case ReadEOF
    then show ?thesis using assms Some by (auto simp: drain_read_def seg_inv_of_def drained_def spans_def)
  next
    case (ReadErr e)
    then show ?thesis using tts_fail [OF assms(1)] by (simp add: drain_read_def)
  next
    case (ReadAudio c)
    show ?thesis
    proof (cases "chAlignment c \<noteq> [] \<and> \<not> ok")
      case True
      then show ?thesis using ReadAudio tts_give_up [OF assms(1)] by (simp add: drain_read_def)
    next
      case False
      then show ?thesis using assms Some ReadAudio
        by (auto simp: drain_read_def send_def seg_inv_of_def drained_def Let_def)
    qed
  qed
qed

lemma drain_audio_segs:
  assumes "seg_inv_of p" "plTts p = TAudio sg b"
  shows "seg_inv_of (drain_audio ok b sg p)"
proof (cases sg)
  case None
  then show ?thesis using assms by (simp add: seg_inv_of_def)
next
  case (Some g)
  then show ?thesis using assms tts_give_up [OF assms(1)]
    by (auto simp: drain_audio_def send_def seg_inv_of_def drained_def)
qed

lemma tts_segment_segs: "seg_inv_of p \<Longrightarrow> plTts p = TSeg g \<Longrightarrow> seg_inv_of (tts_segment ok g p)"
  using tts_give_up [of p] by (auto simp: tts_segment_def send_def seg_inv_of_def drained_def dest: seg_run_snoc)

lemma tts_done_segs: "seg_inv_of p \<Longrightarrow> plTts p = TDone \<Longrightarrow> seg_inv_of (tts_done ok p)"
  using tts_give_up [of p] by (auto simp: tts_done_def send_def seg_inv_of_def drained_def)

lemma pstep_segs: "pstep ul p q \<Longrightarrow> seg_inv_of p \<Longrightarrow> seg_inv_of q"
proof (induction rule: pstep.induct)
  case (ctx_done p)
  then show ?case by (rule seg_inv_cong) (auto simp: drained_def)
qed (blast intro: llm_segs spl_segs tts_range_segs tts_start_segs synthesizeOne_segs drain_read_segs drain_audio_segs
       tts_segment_segs tts_done_segs | (simp add: seg_inv_of_def; fail))+

section \<open>Order and stamps\<close>

fun of_llm :: "PipeEvent \<Rightarrow> bool" where
  "of_llm (PipeTextDelta _ _ _) = True"
| "of_llm (PipeAudioTranscriptDelta _ _ _) = True"
| "of_llm (PipeToolCall _ _) = True"
| "of_llm (PipeLLMDone _ _ _) = True"
| "of_llm (PipeError _ stage _) = (stage = ''llm'')"
| "of_llm _ = False"

fun ends_stage :: "PipeEvent \<Rightarrow> bool" where
  "ends_stage (PipeLLMDone _ _ _) = True"
| "ends_stage (PipeTTSDone _) = True"
| "ends_stage (PipeError _ _ _) = True"
| "ends_stage _ = False"

text \<open>No event of a stage after the one that ended it.\<close>

definition follows :: "PipeEvent \<Rightarrow> PipeEvent \<Rightarrow> bool" where
  "follows e f \<longleftrightarrow> \<not> (ends_stage e \<and> of_llm e = of_llm f)"

definition order_inv :: "pipe \<Rightarrow> bool" where
  "order_inv p \<longleftrightarrow> sorted_wrt follows (plOut p) \<and> list_all (\<lambda>e. from_pipeline e (plStart p)) (plOut p) \<and>
     (\<forall>e \<in> set (plOut p). ends_stage e \<longrightarrow> (if of_llm e then plLlm p = LExit else plTts p = TExit))"

lemma send_order:
  assumes "order_inv p" "from_pipeline ev (plStart p)" "if of_llm ev then plLlm p \<noteq> LExit else plTts p \<noteq> TExit"
  shows "sorted_wrt follows (plOut p @ [ev])" "list_all (\<lambda>e. from_pipeline e (plStart p)) (plOut p @ [ev])"
  using assms by (auto simp: order_inv_def sorted_wrt_append follows_def split: if_splits)

lemma order_inv_cong:
  assumes "order_inv p" "plOut q = plOut p" "plStart q = plStart p"
    "plLlm p = LExit \<Longrightarrow> plLlm q = LExit" "plTts p = TExit \<Longrightarrow> plTts q = TExit"
  shows "order_inv q"
  using assms by (auto simp: order_inv_def)

lemma order_inv_send:
  assumes "order_inv p" "plOut q = plOut p @ [ev]" "plStart q = plStart p" "from_pipeline ev (plStart p)"
    "if of_llm ev then plLlm p \<noteq> LExit else plTts p \<noteq> TExit"
    "ends_stage ev \<Longrightarrow> if of_llm ev then plLlm q = LExit else plTts q = TExit"
    "plLlm p = LExit \<Longrightarrow> plLlm q = LExit" "plTts p = TExit \<Longrightarrow> plTts q = TExit"
  shows "order_inv q"
  using assms send_order [OF assms(1,4,5)] by (auto simp: order_inv_def)

lemma pstep_sends:
  "pstep ul p q \<Longrightarrow>
     plOut q = plOut p \<or>
     (\<exists>ev. plOut q = plOut p @ [ev] \<and> from_pipeline ev (plStart p) \<and>
        (if of_llm ev then plLlm p \<noteq> LExit else plTts p \<noteq> TExit) \<and>
        (ends_stage ev \<longrightarrow> (if of_llm ev then plLlm q = LExit else plTts q = TExit)))"
  by (induction rule: pstep.induct)
     (auto simp: stage_defs spl_range_def from_pipeline_def
        split: option.splits perr.splits list.splits read_result.splits LLMChunk.splits prod.splits)

lemma pstep_exits:
  "pstep ul p q \<Longrightarrow> (plLlm p = LExit \<longrightarrow> plLlm q = LExit) \<and> (plTts p = TExit \<longrightarrow> plTts q = TExit)"
  by (induction rule: pstep.induct)
     (auto simp: stage_defs spl_range_def split: option.splits perr.splits list.splits prod.splits read_result.splits
        LLMChunk.splits)

lemma pstep_order:
  assumes "pstep ul p q" "order_inv p"
  shows "order_inv q"
  using pstep_sends [OF assms(1)]
proof
  assume "plOut q = plOut p"
  then show ?thesis using order_inv_cong [OF assms(2)] pstep_start [OF assms(1)] pstep_exits [OF assms(1)] by blast
next
  assume "\<exists>ev. plOut q = plOut p @ [ev] \<and> from_pipeline ev (plStart p) \<and>
        (if of_llm ev then plLlm p \<noteq> LExit else plTts p \<noteq> TExit) \<and>
        (ends_stage ev \<longrightarrow> (if of_llm ev then plLlm q = LExit else plTts q = TExit))"
  then show ?thesis using order_inv_send [OF assms(2)] pstep_start [OF assms(1)] pstep_exits [OF assms(1)] by blast
qed

section \<open>Reachable pipelines\<close>

definition prun :: "(rune \<Rightarrow> bool) \<Rightarrow> pipeline_start \<Rightarrow> bool \<Rightarrow> pipe \<Rightarrow> bool" where
  "prun ul ps inc p \<longleftrightarrow> preach ul (launch ps inc) p"

lemma prun_induct [consumes 1, case_names launch step]:
  assumes "prun ul ps inc p" "P (launch ps inc)" "\<And>p q. prun ul ps inc p \<Longrightarrow> P p \<Longrightarrow> pstep ul p q \<Longrightarrow> P q"
  shows "P p"
  using assms(1) unfolding prun_def
  by (induction rule: preach.induct) (use assms(2,3) in \<open>auto simp: prun_def\<close>)

lemma prun_start: "prun ul ps inc p \<Longrightarrow> plStart p = ps \<and> plIncremental p = inc"
  by (induction rule: prun_induct) (auto simp: launch_def dest: pstep_start)

lemma prun_text: "prun ul ps inc p \<Longrightarrow> text_inv p"
  by (induction rule: prun_induct) (auto intro: launch_text pstep_text)

lemma launch_order: "order_inv (launch ps inc)"
  by (simp add: order_inv_def launch_def)

lemma prun_order: "prun ul ps inc p \<Longrightarrow> order_inv p"
  by (induction rule: prun_induct) (auto intro: launch_order pstep_order)

lemma prun_valid: "prun ul ps inc p \<Longrightarrow> deltas_valid (plOut p) \<Longrightarrow> valid_inv p"
proof (induction rule: prun_induct)
  case launch
  then show ?case by (simp add: valid_inv_def launch_def newSentencer_def rune_cut_def)
next
  case (step p q)
  have "deltas_valid (plOut p)"
    using pstep_out [OF \<open>pstep ul p q\<close>] \<open>deltas_valid (plOut q)\<close> by (auto simp: deltas_valid_def)
  then show ?case using step pstep_valid by blast
qed

lemma prun_segs: "prun ul ps False p \<Longrightarrow> \<not> psTextOnly ps \<Longrightarrow> seg_inv_of p"
proof (induction rule: prun_induct)
  case launch
  then have "per_sentence (launch ps False)" by (simp add: per_sentence_def launch_def)
  then show ?case by (rule launch_segs)
qed (blast intro: pstep_segs)

text \<open>The text sent starts with the text of the sentences taken.\<close>

lemma taken_text:
  assumes "text_inv p"
  shows "\<exists>rest m. out_text (plOut p) = concat (map snText (plTaken p)) @ rest \<and> tiles 0 (plTaken p) m"
  using assms by (auto simp: text_inv_def text_fed_def text_split_def handed_def tiles_append)

lemma segs_ok_run:
  "seg_run a gs xs b \<Longrightarrow> tiles n xs m \<Longrightarrow> txt = pre @ concat (map snText xs) @ post \<Longrightarrow> length pre = n \<Longrightarrow>
   list_all (\<lambda>x. valid_utf8 (snText x)) xs \<Longrightarrow> b \<le> 2 ^ 53 \<Longrightarrow> segs_ok txt (int n) a gs \<and> a \<le> b"
proof (induction gs arbitrary: a xs n pre)
  case Nil
  then show ?case by (cases xs) auto
next
  case (Cons g gs)
  then obtain x xs' where xs: "xs = x # xs'" by (cases xs) auto
  have "txt = (pre @ snText x) @ concat (map snText xs') @ post" using Cons.prems(3) xs by simp
  moreover have "length (pre @ snText x) = snEnd x" using Cons.prems(2,4) xs by simp
  ultimately have "segs_ok txt (int (snEnd x)) (audioEnd g) gs \<and> audioEnd g \<le> b"
    using Cons.IH [of "audioEnd g" xs' "snEnd x" "pre @ snText x"] Cons.prems xs by auto
  then show ?case using Cons.prems xs by (auto simp: spans_def)
qed

end
