(* ===== verification/ProviderCommon.thy ===== *)
theory ProviderCommon
  imports RuntimeDecode Pipeline
begin

text \<open>
  What the provider clients share: the normalized error of \<^verbatim>\<open>internal/provider/provider.go\<close>, the HTTP part of
  \<^verbatim>\<open>openai/common.go\<close>, the error classes of \<^verbatim>\<open>qwen/common.go\<close>, and reading a service message with
  \<^verbatim>\<open>encoding/json\<close>, which, unlike the strict reading of configuration documents, skips unknown keys. An
  error that wraps \<open>context.Canceled\<close> is \<^const>\<open>Canceled\<close>, any other one is its message.
\<close>

section \<open>Strings\<close>

fun contains_str :: "string \<Rightarrow> string \<Rightarrow> bool" where
  "contains_str [] sub \<longleftrightarrow> sub = []"
| "contains_str (c # s) sub \<longleftrightarrow> take (length sub) (c # s) = sub \<or> contains_str s sub"

text \<open>\<open>strings.ToLower\<close>, as far as a search for ASCII text can see: besides the ASCII capitals only the
  capital I with a dot and the Kelvin sign become ASCII letters. Other letters are left alone here.\<close>

definition lower_rune :: "rune \<Rightarrow> rune" where
  "lower_rune r = (if 65 \<le> r \<and> r \<le> 90 then r + 32 else if r = 0x130 then 105 else if r = 0x212A then 107 else r)"

definition to_lower :: "string \<Rightarrow> string" where
  "to_lower s = string_of_runes (map lower_rune (runes s))"

definition firstNonEmpty :: "string \<Rightarrow> string \<Rightarrow> string" where
  "firstNonEmpty a b = (if a \<noteq> [] then a else b)"

section \<open>The normalized error\<close>

datatype ErrorKind = ErrAuth | ErrRateLimit | ErrTransient | ErrFatal

fun ErrorKind_String :: "ErrorKind \<Rightarrow> string" where
  "ErrorKind_String ErrAuth = ''auth''"
| "ErrorKind_String ErrRateLimit = ''rate_limit''"
| "ErrorKind_String ErrTransient = ''transient''"
| "ErrorKind_String ErrFatal = ''fatal''"

record provider_error =
  peProvider :: string
  peKind :: ErrorKind
  peErr :: string

definition Error_Error :: "provider_error \<Rightarrow> string" where
  "Error_Error e = peProvider e @ '': '' @ ErrorKind_String (peKind e) @ '': '' @ peErr e"

abbreviation failed_with :: "provider_error \<Rightarrow> perr" where
  "failed_with e \<equiv> Failed (Error_Error e)"

text \<open>\<open>fatalf\<close> and \<open>transientf\<close>, on the formatted message.\<close>

definition fatalf :: "string \<Rightarrow> string \<Rightarrow> provider_error" where
  "fatalf name msg = \<lparr>peProvider = name, peKind = ErrFatal, peErr = msg\<rparr>"

definition transientf :: "string \<Rightarrow> string \<Rightarrow> provider_error" where
  "transientf name msg = \<lparr>peProvider = name, peKind = ErrTransient, peErr = msg\<rparr>"

definition status_kind :: "int \<Rightarrow> ErrorKind" where
  "status_kind status =
     (if status = 401 \<or> status = 403 then ErrAuth
      else if status = 429 then ErrRateLimit
      else if status \<ge> 500 \<or> status = 408 then ErrTransient
      else ErrFatal)"

definition ErrorFromStatus :: "string \<Rightarrow> int \<Rightarrow> string \<Rightarrow> provider_error" where
  "ErrorFromStatus name status body =
     (let body = if length body > 200 then take 200 body @ encode_rune 0x2026 else body
      in \<lparr>peProvider = name, peKind = status_kind status, peErr = ''http '' @ int_str status @ '': '' @ body\<rparr>)"

section \<open>HTTP requests\<close>

text \<open>What \<open>http.Client.Do\<close> did: an error, with the context done or not, or a response.\<close>

datatype http_do = DoError string bool | Response int string

text \<open>\<open>postJSON\<close>; \<open>bad_url\<close> is the error of \<open>http.NewRequest\<close>, if any. The result is the error, or
  nothing when the body of a successful response can be read.\<close>

definition postJSON :: "string \<Rightarrow> string option \<Rightarrow> http_do \<Rightarrow> perr option" where
  "postJSON name bad_url r =
     (case bad_url of
        Some e \<Rightarrow> Some (failed_with (fatalf name e))
      | None \<Rightarrow> (case r of
            DoError e ctx_done \<Rightarrow> Some (if ctx_done then Canceled else failed_with (transientf name e))
          | Response status body \<Rightarrow>
              if go_div status 100 \<noteq> 2
              then Some (failed_with (ErrorFromStatus name status (trim_space (take 4096 body))))
              else None))"

text \<open>A WebSocket dial that failed: with the status of the response, if there was one.\<close>

definition dial_error :: "string \<Rightarrow> int option \<Rightarrow> bool \<Rightarrow> string \<Rightarrow> perr" where
  "dial_error name status ctx_done e =
     (case status of
        Some st \<Rightarrow> failed_with (ErrorFromStatus name st e)
      | None \<Rightarrow> if ctx_done then Canceled else failed_with (transientf name e))"

section \<open>Options\<close>

record httpOptions =
  hoBaseURL :: string
  hoRequestTimeout :: int
  hoStreamIdleTimeout :: int

definition seconds :: "int \<Rightarrow> int" where "seconds n = n * 1000000000"

definition trim_slashes :: "string \<Rightarrow> string" where
  "trim_slashes = trim_right (\<lambda>r. r = 47)"

definition http_applyDefaults :: "httpOptions \<Rightarrow> httpOptions" where
  "http_applyDefaults ho =
     \<lparr>hoBaseURL = trim_slashes (if hoBaseURL ho = [] then ''https://api.openai.com/v1'' else hoBaseURL ho),
      hoRequestTimeout = (if hoRequestTimeout ho = 0 then seconds 30 else hoRequestTimeout ho),
      hoStreamIdleTimeout = (if hoStreamIdleTimeout ho = 0 then seconds 30 else hoStreamIdleTimeout ho)\<rparr>"

section \<open>DashScope\<close>

record inHeader =
  ihTaskID :: string
  ihEvent :: string
  ihErrorCode :: string
  ihErrorMessage :: string

definition classify :: "string \<Rightarrow> ErrorKind" where
  "classify code =
     (let c = to_lower code; has = list_ex (contains_str c)
      in if has [''throttling'', ''quota'', ''limit''] then ErrRateLimit
         else if has [''auth'', ''apikey'', ''forbidden'', ''accessdenied'', ''invalidapi''] then ErrAuth
         else if has [''server_error'', ''internal'', ''unavailable'', ''timeout''] then ErrTransient
         else ErrFatal)"

definition taskFailed :: "inHeader \<Rightarrow> provider_error" where
  "taskFailed h = \<lparr>peProvider = ''qwen'', peKind = classify (ihErrorCode h),
     peErr = ''task failed: '' @ ihErrorCode h @ '': '' @ ihErrorMessage h\<rparr>"

text \<open>The frames Cascade sends.\<close>

definition newOutHeader :: "string \<Rightarrow> string \<Rightarrow> json" where
  "newOutHeader action task =
     JObj [(''action'', JStr action), (''task_id'', JStr task), (''streaming'', JStr ''duplex'')]"

definition runFrame :: "string \<Rightarrow> string \<Rightarrow> string \<Rightarrow> string \<Rightarrow> json \<Rightarrow> json" where
  "runFrame task kind fn model params =
     JObj [(''header'', newOutHeader ''run-task'' task),
           (''payload'', JObj [(''task_group'', JStr ''audio''), (''task'', JStr kind), (''function'', JStr fn),
              (''model'', JStr model), (''parameters'', params), (''input'', JObj [])])]"

definition continueFrame :: "string \<Rightarrow> string \<Rightarrow> json" where
  "continueFrame task txt =
     JObj [(''header'', newOutHeader ''continue-task'' task),
           (''payload'', JObj [(''input'', JObj [(''text'', JStr txt)])])]"

definition finishFrame :: "string \<Rightarrow> json" where
  "finishFrame task =
     JObj [(''header'', newOutHeader ''finish-task'' task), (''payload'', JObj [(''input'', JObj [])])]"

section \<open>Reading service messages\<close>

text \<open>\<open>json.Unmarshal\<close> into a struct: a key no field matches is skipped.\<close>

fun lax_fields :: "'r fields \<Rightarrow> (string \<times> json) list \<Rightarrow> 'r \<Rightarrow> 'r option" where
  "lax_fields fs [] r = Some r"
| "lax_fields fs ((k, j) # kvs) r =
     (case find_field fs k of None \<Rightarrow> lax_fields fs kvs r
      | Some d \<Rightarrow> (case d j r of None \<Rightarrow> None | Some r' \<Rightarrow> lax_fields fs kvs r'))"

definition lax_struct :: "'r fields \<Rightarrow> json \<Rightarrow> 'r \<Rightarrow> 'r option" where
  "lax_struct fs j r = (case j of JNull \<Rightarrow> Some r | JObj kvs \<Rightarrow> lax_fields fs kvs r | _ \<Rightarrow> None)"

text \<open>A slice: an element is read into the one that is already there, or into a zero value.\<close>

fun into_items :: "(json \<Rightarrow> 'a \<Rightarrow> 'a option) \<Rightarrow> 'a \<Rightarrow> json list \<Rightarrow> 'a list \<Rightarrow> 'a list option" where
  "into_items into zero [] old = Some []"
| "into_items into zero (j # js) old =
     (case into j (case old of [] \<Rightarrow> zero | x # _ \<Rightarrow> x) of None \<Rightarrow> None
      | Some x \<Rightarrow> map_option ((#) x) (into_items into zero js (tl old)))"

definition into_slice :: "(json \<Rightarrow> 'a \<Rightarrow> 'a option) \<Rightarrow> 'a \<Rightarrow> json \<Rightarrow> 'a list \<Rightarrow> 'a list option" where
  "into_slice into zero j old = (case j of JNull \<Rightarrow> Some [] | JArr js \<Rightarrow> into_items into zero js old | _ \<Rightarrow> None)"

definition inHeader_fields :: "inHeader fields" where
  "inHeader_fields =
     [(''task_id'', field_of into_string ihTaskID ihTaskID_update),
      (''event'', field_of into_string ihEvent ihEvent_update),
      (''error_code'', field_of into_string ihErrorCode ihErrorCode_update),
      (''error_message'', field_of into_string ihErrorMessage ihErrorMessage_update)]"

definition zero_header :: inHeader where
  "zero_header = \<lparr>ihTaskID = [], ihEvent = [], ihErrorCode = [], ihErrorMessage = []\<rparr>"

end
