(* ===== verification/OpenaiSpeech.thy ===== *)
theory OpenaiSpeech
  imports SilenceGate ProviderCommon Base64
begin

text \<open>
  Speech synthesis with OpenAI: \<^verbatim>\<open>internal/provider/openai/tts.go\<close> (one HTTP request per sentence) and
  \<^verbatim>\<open>realtime_tts.go\<close> (one Realtime WebSocket per response). A goroutine is a function of what its reads
  returned, in order; \<open>ok n\<close> tells which branch the \<open>n\<close>-th \<open>select\<close> between the consumer and the context
  took. The consumer's end, \<open>ReadAudio\<close>, is the same for both.
\<close>

section \<open>The consumer's end\<close>

text \<open>The channels between the goroutine and \<open>ReadAudio\<close>. The result is \<^term>\<open>None\<close> while the call blocks; \<open>via_ctx\<close>
  says that the \<open>select\<close> took the branch of the done context.\<close>

record audio_source =
  asChunks :: "pcm list"
  asClosed :: bool
  asErrc :: "perr option option"
  asDone :: bool
  asFinal :: "perr option"

definition final_result :: "perr option \<Rightarrow> read_result" where
  "final_result err = (case err of None \<Rightarrow> ReadEOF | Some e \<Rightarrow> ReadErr e)"

definition ReadAudio_openai :: "bool \<Rightarrow> audio_source \<Rightarrow> (read_result \<times> audio_source) option" where
  "ReadAudio_openai via_ctx s =
     (if asDone s then Some (final_result (asFinal s), s)
      else if via_ctx then Some (ReadErr Canceled, s)
      else case asChunks s of
        c # cs \<Rightarrow> Some (ReadAudio \<lparr>chPCM = c, chAlignment = []\<rparr>, s\<lparr>asChunks := cs\<rparr>)
      | [] \<Rightarrow> if \<not> asClosed s then None
              else map_option (\<lambda>err. (final_result err, s\<lparr>asErrc := None, asDone := True, asFinal := err\<rparr>)) (asErrc s))"

section \<open>One request per sentence\<close>

definition NewTTS :: "string \<Rightarrow> string" where
  "NewTTS model = firstNonEmpty model ''gpt-realtime-2.1-mini''"

definition speechRequest :: "(f64 \<Rightarrow> string) \<Rightarrow> string \<Rightarrow> TTSConfig \<Rightarrow> string \<Rightarrow> json" where
  "speechRequest fmt model cfg txt =
     JObj ([(''model'', JStr model), (''input'', JStr txt), (''voice'', JStr (tcVoice cfg)), (''response_format'', JStr ''pcm'')] @
       omit ''speed'' (if tcSpeed cfg \<noteq> 0 \<and> tcSpeed cfg \<noteq> 1 then Some (JNum (fmt (tcSpeed cfg))) else None))"

record tts_input =
  tiText :: string
  tiEnded :: bool

text \<open>\<open>WriteText\<close> reports whether it was accepted; \<open>EndInput\<close> gives the text to fetch, the first time.\<close>

definition tts_WriteText :: "string \<Rightarrow> tts_input \<Rightarrow> bool \<times> tts_input" where
  "tts_WriteText t s = (if tiEnded s then (False, s) else (True, s\<lparr>tiText := tiText s @ t\<rparr>))"

definition tts_EndInput :: "tts_input \<Rightarrow> string option \<times> tts_input" where
  "tts_EndInput s = (if tiEnded s then (None, s) else (Some (tiText s), s\<lparr>tiEnded := True\<rparr>))"

text \<open>What \<open>io.ReadFull\<close> returned: the bytes, and the end of the body or an error with the context done or not.\<close>

datatype body_err = BodyEOF | BodyFailed string bool

type_synonym body_read = "pcm \<times> body_err option"

record fetch_run =
  ftSends :: nat
  ftOut :: "pcm list"
  ftCarry :: pcm

definition new_fetch :: fetch_run where
  "new_fetch = \<lparr>ftSends = 0, ftOut = [], ftCarry = []\<rparr>"

text \<open>Whole samples go out, an odd byte is carried over.\<close>

definition aligned :: "pcm \<Rightarrow> pcm \<Rightarrow> pcm \<times> pcm" where
  "aligned carry raw =
     (let p = carry @ raw; n = nat (AlignDown (int (length p))) in (take n p, drop n p))"

definition fetch_send :: "(nat \<Rightarrow> bool) \<Rightarrow> pcm \<Rightarrow> fetch_run \<Rightarrow> bool \<times> fetch_run" where
  "fetch_send ok p f =
     (if p = [] then (True, f)
      else (ok (ftSends f), f\<lparr>ftSends := Suc (ftSends f), ftOut := (if ok (ftSends f) then ftOut f @ [p] else ftOut f)\<rparr>))"

definition fetch_data :: "(nat \<Rightarrow> bool) \<Rightarrow> pcm \<Rightarrow> fetch_run \<Rightarrow> bool \<times> fetch_run" where
  "fetch_data ok d f =
     (if d = [] then (True, f)
      else let (p, rest) = aligned (ftCarry f) d in fetch_send ok p (f\<lparr>ftCarry := rest\<rparr>))"

text \<open>The outcome put into \<open>errc\<close>, or \<^term>\<open>None\<close> while the loop goes on.\<close>

definition fetch_step :: "(nat \<Rightarrow> bool) \<Rightarrow> body_read \<Rightarrow> fetch_run \<Rightarrow> perr option option \<times> fetch_run" where
  "fetch_step ok rd f =
     (let (sent, f) = fetch_data ok (fst rd) f in
      if \<not> sent then (Some (Some Canceled), f)
      else case snd rd of
        None \<Rightarrow> (None, f)
      | Some BodyEOF \<Rightarrow> (Some None, f)
      | Some (BodyFailed e ctx_done) \<Rightarrow>
          (Some (Some (if ctx_done then Canceled else failed_with (transientf ''openai'' e))), f))"

fun fetch_loop :: "(nat \<Rightarrow> bool) \<Rightarrow> body_read list \<Rightarrow> fetch_run \<Rightarrow> perr option option \<times> fetch_run" where
  "fetch_loop ok [] f = (None, f)"
| "fetch_loop ok (rd # rds) f =
     (case fetch_step ok rd f of (None, f) \<Rightarrow> fetch_loop ok rds f | (Some res, f) \<Rightarrow> (Some res, f))"

text \<open>\<open>fetch\<close>, as the consumer sees it when the goroutine has come this far.\<close>

definition fetch :: "(nat \<Rightarrow> bool) \<Rightarrow> perr option \<Rightarrow> body_read list \<Rightarrow> audio_source" where
  "fetch ok post rds =
     (let (res, f) = (case post of Some e \<Rightarrow> (Some (Some e), new_fetch) | None \<Rightarrow> fetch_loop ok rds new_fetch)
      in \<lparr>asChunks = ftOut f, asClosed = (res \<noteq> None), asErrc = res, asDone = False, asFinal = None\<rparr>)"

section \<open>The Realtime transport\<close>

definition isRealtimeModel :: "string \<Rightarrow> bool" where
  "isRealtimeModel model = contains_str (to_lower model) ''realtime''"

definition hex_digit :: "nat \<Rightarrow> char" where
  "hex_digit n = char_of (if n < 10 then 48 + n else 55 + n)"

definition QueryEscape :: "string \<Rightarrow> string" where
  "QueryEscape s = concat (map (\<lambda>c. let b = byte c in
     if (48 \<le> b \<and> b \<le> 57) \<or> (65 \<le> b \<and> b \<le> 90) \<or> (97 \<le> b \<and> b \<le> 122) \<or> b = 45 \<or> b = 95 \<or> b = 46 \<or> b = 126 then [c]
     else if b = 32 then ''+'' else CHR ''%'' # [hex_digit (b div 16), hex_digit (b mod 16)]) s)"

definition realtimeURL :: "string \<Rightarrow> string \<Rightarrow> string" where
  "realtimeURL base model =
     (if take 8 base = ''https://'' then ''wss://'' @ drop 8 base
      else if take 7 base = ''http://'' then ''ws://'' @ drop 7 base else base)
     @ ''/realtime?model='' @ QueryEscape model"

definition realtimeReadAloud :: string where
  "realtimeReadAloud = ''You are a text-to-speech engine. Read the text in the instructions aloud exactly as written, '' @
     ''verbatim, in the same language. Do not answer, translate, comment on, or add anything.''"

definition rtSessionUpdate :: "(f64 \<Rightarrow> string) \<Rightarrow> string \<Rightarrow> f64 \<Rightarrow> json" where
  "rtSessionUpdate fmt voice speed =
     JObj [(''type'', JStr ''session.update''), (''session'', JObj
       [(''type'', JStr ''realtime''), (''output_modalities'', JArr [JStr ''audio'']), (''instructions'', JStr realtimeReadAloud),
        (''reasoning'', JObj [(''effort'', JStr ''none'')]),
        (''audio'', JObj [(''output'', JObj
          ([(''format'', JObj [(''type'', JStr ''audio/pcm''), (''rate'', JNum (int_str SampleRate))]), (''voice'', JStr voice)] @
           omit ''speed'' (if speed = 0 then None else Some (JNum (fmt speed)))))])])]"

text \<open>The stream \<open>synthesizeRealtime\<close> sets up: its voice and speed.\<close>

definition rt_voice :: "TTSConfig \<Rightarrow> string" where
  "rt_voice cfg = firstNonEmpty (tcVoice cfg) ''marin''"

definition rt_speed :: "TTSConfig \<Rightarrow> f64" where
  "rt_speed cfg = (if tcSpeed cfg \<noteq> 0 \<and> tcSpeed cfg \<noteq> 1 then tcSpeed cfg else 0)"

definition rtResponseCreate :: "string \<Rightarrow> json" where
  "rtResponseCreate txt =
     JObj [(''type'', JStr ''response.create''), (''response'', JObj
       [(''conversation'', JStr ''none''), (''input'', JArr []), (''output_modalities'', JArr [JStr ''audio'']),
        (''instructions'', JStr (''Say exactly the following, verbatim, and nothing else:'' @ [CHR 10] @ txt))])]"

record rtError =
  reType :: string
  reCode :: string
  reMessage :: string

record rtEvent =
  evType :: string
  evDelta :: string
  evError :: "rtError option"
  evStatus :: string
  evReason :: string
  evStatusError :: "rtError option"

definition rtError_fields :: "rtError fields" where
  "rtError_fields =
     [(''type'', field_of into_string reType reType_update),
      (''code'', field_of into_string reCode reCode_update),
      (''message'', field_of into_string reMessage reMessage_update)]"

definition zero_rtError :: rtError where
  "zero_rtError = \<lparr>reType = [], reCode = [], reMessage = []\<rparr>"

definition into_rtError :: "json \<Rightarrow> rtError option \<Rightarrow> rtError option option" where
  "into_rtError = into_ptr (lax_struct rtError_fields) zero_rtError"

definition status_details_fields :: "rtEvent fields" where
  "status_details_fields =
     [(''reason'', field_of into_string evReason evReason_update),
      (''error'', field_of into_rtError evStatusError evStatusError_update)]"

definition rtResponse_fields :: "rtEvent fields" where
  "rtResponse_fields =
     [(''status'', field_of into_string evStatus evStatus_update),
      (''status_details'', lax_struct status_details_fields)]"

definition rtEvent_fields :: "rtEvent fields" where
  "rtEvent_fields =
     [(''type'', field_of into_string evType evType_update),
      (''delta'', field_of into_string evDelta evDelta_update),
      (''error'', field_of into_rtError evError evError_update),
      (''response'', lax_struct rtResponse_fields)]"

definition decode_rtEvent :: "json \<Rightarrow> rtEvent option" where
  "decode_rtEvent j = lax_struct rtEvent_fields j
     \<lparr>evType = [], evDelta = [], evError = None, evStatus = [], evReason = [], evStatusError = None\<rparr>"

definition rt_kind :: "rtError \<Rightarrow> ErrorKind" where
  "rt_kind e =
     (if reCode e = ''invalid_api_key'' \<or> reType e = ''authentication_error'' then ErrAuth
      else if contains_str (reCode e) ''rate_limit'' \<or> contains_str (reCode e) ''quota'' \<or> contains_str (reType e) ''rate_limit''
      then ErrRateLimit
      else if reType e = ''server_error'' then ErrTransient
      else ErrFatal)"

definition rtProviderError :: "rtError option \<Rightarrow> provider_error" where
  "rtProviderError err =
     (case err of
        None \<Rightarrow> transientf ''openai'' ''realtime error without details''
      | Some e \<Rightarrow> \<lparr>peProvider = ''openai'', peKind = rt_kind e,
                   peErr = ''realtime '' @ reType e @ ''/'' @ reCode e @ '': '' @ reMessage e\<rparr>)"

definition rtDoneError :: "rtEvent \<Rightarrow> provider_error option" where
  "rtDoneError ev =
     (if evStatus ev = [] \<or> evStatus ev = ''completed'' then None
      else if evStatus ev = ''failed'' then Some (rtProviderError (evStatusError ev))
      else if evStatus ev = ''incomplete'' then Some (fatalf ''openai'' (''realtime response incomplete: '' @ evReason ev))
      else Some (transientf ''openai'' (''realtime response '' @ evStatus ev)))"

text \<open>What reading a message gave: its tree (or the error of the parser), a passed deadline, or another error
  of the socket; and whether the stream's context was done by then. \<open>jerr\<close> and \<open>berr\<close> are the error texts
  of the JSON and the base64 decoder.\<close>

datatype ws_read = WsMessage json | WsMalformed string | WsDeadline | WsFailed string

definition readEvent :: "(json \<Rightarrow> string) \<Rightarrow> ws_read \<Rightarrow> (provider_error option \<times> string) + rtEvent" where
  "readEvent jerr rd =
     (case rd of
        WsDeadline \<Rightarrow> Inl (None, ''context deadline exceeded'')
      | WsFailed e \<Rightarrow> Inl (None, e)
      | WsMalformed e \<Rightarrow> Inl (Some (fatalf ''openai'' (''malformed realtime event: '' @ e)), [])
      | WsMessage j \<Rightarrow> (case decode_rtEvent j of
            None \<Rightarrow> Inl (Some (fatalf ''openai'' (''malformed realtime event: '' @ jerr j)), [])
          | Some ev \<Rightarrow> Inr ev))"

definition wsError :: "bool \<Rightarrow> provider_error option \<times> string \<Rightarrow> perr" where
  "wsError ctx_done err =
     (if ctx_done then Canceled
      else case fst err of Some e \<Rightarrow> failed_with e | None \<Rightarrow> failed_with (transientf ''openai'' (snd err)))"

text \<open>\<open>connect\<close>, after the dial: nothing is said before the session carries the read-aloud instructions.
  The result is \<^term>\<open>None\<close> while it waits.\<close>

fun connect_loop :: "(json \<Rightarrow> string) \<Rightarrow> (bool \<times> ws_read) list \<Rightarrow> perr option option" where
  "connect_loop jerr [] = None"
| "connect_loop jerr ((ctx_done, rd) # rds) =
     (case readEvent jerr rd of
        Inl e \<Rightarrow> Some (Some (wsError ctx_done e))
      | Inr ev \<Rightarrow>
          if evType ev = ''session.updated'' then Some None
          else if evType ev = ''error'' then Some (Some (failed_with (rtProviderError (evError ev))))
          else connect_loop jerr rds)"

text \<open>\<open>connect\<close> as a whole: what the dial gave, what writing the session update gave, and what was read.\<close>

definition rt_connect :: "(json \<Rightarrow> string) \<Rightarrow> (int option \<times> bool \<times> string) option \<Rightarrow> (bool \<times> string) option \<Rightarrow> (bool \<times> ws_read) list \<Rightarrow>
    perr option option" where
  "rt_connect jerr dial_err write_err rds =
     (case dial_err of
        Some (status, ctx_done, e) \<Rightarrow> Some (Some (dial_error ''openai'' status ctx_done e))
      | None \<Rightarrow> (case write_err of
            Some (ctx_done, e) \<Rightarrow> Some (Some (wsError ctx_done (None, e)))
          | None \<Rightarrow> connect_loop jerr rds))"

text \<open>The segments queued for the goroutine: \<^term>\<open>None\<close> while \<open>WriteText\<close> blocks.\<close>

record rt_input =
  riText :: "string list"
  riEnded :: bool

definition rt_WriteText :: "bool \<Rightarrow> string \<Rightarrow> rt_input \<Rightarrow> (bool \<times> rt_input) option" where
  "rt_WriteText ctx_done t s =
     (if riEnded s \<or> ctx_done then Some (False, s)
      else if length (riText s) < 32 then Some (True, s\<lparr>riText := riText s @ [t]\<rparr>)
      else None)"

definition rt_EndInput :: "rt_input \<Rightarrow> rt_input" where
  "rt_EndInput s = s\<lparr>riEnded := True\<rparr>"

text \<open>One turn of the loop of \<open>speak\<close>.\<close>

record rt_run =
  rtGate :: silenceGate
  rtFetch :: fetch_run

definition rt_emit :: "(nat \<Rightarrow> bool) \<Rightarrow> pcm \<times> silenceGate \<Rightarrow> rt_run \<Rightarrow> bool \<times> rt_run" where
  "rt_emit ok og s =
     (let (sent, f) = fetch_send ok (fst og) (rtFetch s) in (sent, s\<lparr>rtGate := snd og, rtFetch := f\<rparr>))"

definition speak_event :: "(string \<Rightarrow> string) \<Rightarrow> (nat \<Rightarrow> bool) \<Rightarrow> rtEvent \<Rightarrow> rt_run \<Rightarrow> perr option option \<times> rt_run" where
  "speak_event berr ok ev s =
     (if evType ev = ''response.output_audio.delta'' then
        (case DecodeString (evDelta ev) of
           None \<Rightarrow> (Some (Some (failed_with (fatalf ''openai'' (''malformed audio delta: '' @ berr (evDelta ev))))), s)
         | Some raw \<Rightarrow>
             (let (p, rest) = aligned (ftCarry (rtFetch s)) raw;
                  s = s\<lparr>rtFetch := (rtFetch s)\<lparr>ftCarry := rest\<rparr>\<rparr>;
                  (sent, s) = rt_emit ok (gate_push p (rtGate s)) s
              in (if sent then None else Some (Some Canceled), s)))
      else if evType ev = ''error'' then (Some (Some (failed_with (rtProviderError (evError ev)))), s)
      else if evType ev = ''response.done'' then
        (case rtDoneError ev of
           Some e \<Rightarrow> (Some (Some (failed_with e)), s)
         | None \<Rightarrow> (let (sent, s) = rt_emit ok (gate_finish (rtGate s)) s
                    in (Some (if sent then None else Some Canceled), s)))
      else (None, s))"

definition speak_step :: "(json \<Rightarrow> string) \<Rightarrow> (string \<Rightarrow> string) \<Rightarrow> (nat \<Rightarrow> bool) \<Rightarrow> bool \<times> ws_read \<Rightarrow> rt_run \<Rightarrow> perr option option \<times> rt_run" where
  "speak_step jerr berr ok rd s =
     (case readEvent jerr (snd rd) of
        Inl e \<Rightarrow> (Some (Some (if \<not> fst rd \<and> snd rd = WsDeadline
                              then failed_with (transientf ''openai'' ''stream idle timeout'') else wsError (fst rd) e)), s)
      | Inr ev \<Rightarrow> speak_event berr ok ev s)"

fun speak_loop :: "(json \<Rightarrow> string) \<Rightarrow> (string \<Rightarrow> string) \<Rightarrow> (nat \<Rightarrow> bool) \<Rightarrow> (bool \<times> ws_read) list \<Rightarrow> rt_run \<Rightarrow> perr option option \<times> rt_run" where
  "speak_loop jerr berr ok [] s = (None, s)"
| "speak_loop jerr berr ok (rd # rds) s =
     (case speak_step jerr berr ok rd s of (None, s) \<Rightarrow> speak_loop jerr berr ok rds s | (Some res, s) \<Rightarrow> (Some res, s))"

text \<open>A segment: what writing the request gave, and what was read afterwards.\<close>

definition speak :: "(json \<Rightarrow> string) \<Rightarrow> (string \<Rightarrow> string) \<Rightarrow> (nat \<Rightarrow> bool) \<Rightarrow> (bool \<times> string) option \<Rightarrow> (bool \<times> ws_read) list \<Rightarrow>
    fetch_run \<Rightarrow> perr option option \<times> fetch_run" where
  "speak jerr berr ok write_err rds f =
     (case write_err of
        Some (ctx_done, e) \<Rightarrow> (Some (Some (wsError ctx_done (None, e))), f)
      | None \<Rightarrow> map_prod id rtFetch (speak_loop jerr berr ok rds \<lparr>rtGate = new_gate, rtFetch = f\<rparr>))"

text \<open>\<open>run\<close>, once connected, on the segments it takes from the queue: blank ones are skipped. An error is
  replaced by the context's when that is done at the time (\<open>late\<close>).\<close>

type_synonym rt_segment = "string \<times> (bool \<times> string) option \<times> (bool \<times> ws_read) list"

definition rt_fail :: "bool \<Rightarrow> perr \<Rightarrow> perr" where
  "rt_fail late e = (if late then Canceled else e)"

fun rt_segments :: "(json \<Rightarrow> string) \<Rightarrow> (string \<Rightarrow> string) \<Rightarrow> (nat \<Rightarrow> bool) \<Rightarrow> bool \<Rightarrow> rt_segment list \<Rightarrow> fetch_run \<Rightarrow>
    perr option \<times> fetch_run" where
  "rt_segments jerr berr ok late [] f = (None, f)"
| "rt_segments jerr berr ok late ((txt, wr, rds) # segs) f =
     (if trim_space txt = [] then rt_segments jerr berr ok late segs f
      else case speak jerr berr ok wr rds f of
        (None, f) \<Rightarrow> (None, f)
      | (Some None, f) \<Rightarrow> rt_segments jerr berr ok late segs f
      | (Some (Some e), f) \<Rightarrow> (Some (rt_fail late e), f))"

end
