(* ===== verification/PipelineProps.thy ===== *)
theory PipelineProps
  imports Pipeline
begin

text \<open>
  Properties of the response pipeline, a concrete run of it that the witnesses use, and what the
  session makes of its events: the bookkeeping of the spoken item.
\<close>

section \<open>A concrete run\<close>

text \<open>The LLM says \<open>Hi\<close> and stops; synthesis answers with one sample and the end of the stream.\<close>

definition demo_start :: pipeline_start where
  "demo_start = \<lparr>psGen = 1, psResp = 1, psTextOnly = False,
     psReq = \<lparr>crInstructions = [], crMessages = [], crMaxOutputTokens = 0, crTemperature = None, crTools = [],
              crToolChoice = \<lparr>tcMode = ''auto'', tcName = []\<rparr>\<rparr>,
     psTTS = \<lparr>tcVoice = ''alloy'', tcSpeed = 1, tcSampleRate = 24000\<rparr>\<rparr>"

definition demo_seg :: audioSegment where
  "demo_seg = \<lparr>textStart = 0, textEnd = 2, audioStart = 0, audioEnd = 0\<rparr>"

definition demo_sentence :: sentence where
  "demo_sentence = \<lparr>snText = ''Hi'', snStart = 0, snEnd = 2\<rparr>"

definition demo :: pipe where
  "demo = (launch demo_start False)
     \<lparr>plLlm := LExit, plSpl := SExit, plSentencer := \<lparr>sBuf = [], sBase = 2, sScan = 0\<rparr>, plTts := TExit, plPos := 2,
      plStarted := True, plTotal := 2, plFed := [''Hi''], plTaken := [demo_sentence], plWritten := [''Hi''],
      plOut := [PipeAudioTranscriptDelta 1 1 ''Hi'', PipeLLMDone 1 (Some FinishStop) \<lparr>InputTokens = 3, OutputTokens = 1\<rparr>,
                PipeTTSStart 1, PipeAudioDelta 1 1 [0, 0], PipeSegment 1 (demo_seg\<lparr>audioEnd := 2\<rparr>), PipeTTSDone 1]\<rparr>"

lemma push_Hi: "sentencer_push ul newSentencer ''Hi'' = (\<lparr>sBuf = ''Hi'', sBase = 0, sScan = 2\<rparr>, [])"
  by (simp add: sentencer_push_def newSentencer_def push_loop.simps findBoundary_def find_from.simps decode_rune_def
      lead_info_def incomplete_def isTerminator_def isCJKTerminator_def RuneError_def Let_def)

lemma trim_Hi: "trim_space ''Hi'' = ''Hi''"
  by code_simp

lemma pstep_trans: "prun ul ps inc p \<Longrightarrow> pstep ul p q \<Longrightarrow> prun ul ps inc q"
  unfolding prun_def by (rule preach_step)

text \<open>The state after the text was generated and split, before synthesis began.\<close>

definition demo_text :: pipe where
  "demo_text = (launch demo_start False)
     \<lparr>plLlm := LExit, plSpl := SExit, plSentencer := \<lparr>sBuf = [], sBase = 2, sScan = 0\<rparr>, plSents := [demo_sentence],
      plFed := [''Hi''],
      plOut := [PipeAudioTranscriptDelta 1 1 ''Hi'', PipeLLMDone 1 (Some FinishStop) \<lparr>InputTokens = 3, OutputTokens = 1\<rparr>]\<rparr>"

lemma demo_text_run: "prun ul demo_start False demo_text"
proof -
  let ?u = "\<lparr>InputTokens = 3, OutputTokens = 1\<rparr> :: Usage"
  define d1 where "d1 = llm_chat True None (launch demo_start False)"
  define d2 where "d2 = llm_next True (Some (LLMTextDelta ''Hi'')) d1"
  define d3 where "d3 = llm_put True ''Hi'' d2"
  define d4 where "d4 = llm_next True (Some (LLMDone (Some FinishStop) ?u)) d3"
  define d5 where "d5 = spl_range ul d4"
  define d6 where "d6 = spl_range ul d5"
  define d7 where "d7 = spl_last True demo_sentence d6"
  have e1: "d1 = (launch demo_start False)\<lparr>plLlm := LRange\<rparr>" by (simp add: d1_def llm_chat_def)
  have e4: "d4 = (launch demo_start False)\<lparr>plLlm := LExit, plChunks := [''Hi''], plFed := [''Hi''],
      plOut := [PipeAudioTranscriptDelta 1 1 ''Hi'', PipeLLMDone 1 (Some FinishStop) ?u]\<rparr>"
    by (simp add: d4_def d3_def d2_def e1 stage_defs launch_def demo_start_def)
  have e7: "d7 = demo_text" and e6: "plSpl d5 = SRange" "plSpl d6 = SLast demo_sentence" "plSents d6 = []"
    by (simp_all add: d7_def d6_def d5_def e4 spl_range_def spl_last_def launch_def push_Hi sentencer_flush_def
        sentencer_take_def demo_sentence_def demo_text_def)
  have "prun ul demo_start False d1" unfolding d1_def
    by (rule pstep_trans [OF _ p_chat]) (simp_all add: prun_def preach_refl launch_def)
  then have "prun ul demo_start False d2" unfolding d2_def
    by (rule pstep_trans [OF _ p_next]) (simp_all add: e1)
  then have "prun ul demo_start False d3" unfolding d3_def
    by (rule pstep_trans [OF _ p_put]) (simp_all add: d2_def e1 stage_defs launch_def textChunkQueue_def)
  then have "prun ul demo_start False d4" unfolding d4_def
    by (rule pstep_trans [OF _ p_next]) (simp_all add: d3_def stage_defs)
  then have "prun ul demo_start False d5" unfolding d5_def
    by (rule pstep_trans [OF _ p_range]) (simp add: e4 launch_def)
  then have "prun ul demo_start False d6" unfolding d6_def
    by (rule pstep_trans [OF _ p_range]) (simp add: e6)
  then have "prun ul demo_start False d7" unfolding d7_def
    by (rule pstep_trans [OF _ p_last]) (simp_all add: e6 sentenceQueue_def)
  then show ?thesis by (simp add: e7)
qed

lemma demo_run: "prun ul demo_start False demo"
proof -
  define d8 where "d8 = tts_range demo_text"
  define d9 where "d9 = tts_start True ''Hi'' demo_seg d8"
  define d10 where "d10 = synthesizeOne True None ''Hi'' demo_seg d9"
  define d11 where "d11 = drain_read True (ReadAudio \<lparr>chPCM = [0, 0], chAlignment = []\<rparr>) (Some demo_seg) d10"
  define d12 where "d12 = drain_audio True [0, 0] (Some demo_seg) d11"
  define d13 where "d13 = drain_read True ReadEOF (Some demo_seg) d12"
  define d14 where "d14 = tts_segment True (demo_seg\<lparr>audioEnd := 2\<rparr>) d13"
  define d15 where "d15 = tts_range d14"
  define d16 where "d16 = tts_done True d15"
  have e8: "d8 = demo_text\<lparr>plSents := [], plTaken := [demo_sentence], plStarted := True, plTts := TStart ''Hi'' demo_seg\<rparr>"
    by (simp add: d8_def tts_range_def demo_text_def launch_def demo_sentence_def demo_seg_def trim_Hi Let_def)
  have e12: "d12 = d8\<lparr>plTts := TRead (Some demo_seg), plTotal := 2, plWritten := [''Hi''],
      plOut := plOut demo_text @ [PipeTTSStart 1, PipeAudioDelta 1 1 [0, 0]]\<rparr>"
    and e11: "plTts d9 = TSynth ''Hi'' demo_seg" "plTts d10 = TRead (Some demo_seg)" "plTts d11 = TAudio (Some demo_seg) [0, 0]"
    by (simp_all add: d12_def d11_def d10_def d9_def e8 demo_text_def stage_defs launch_def demo_start_def AlignDown_nonneg)
  have e13: "plTts d13 = TSeg (demo_seg\<lparr>audioEnd := 2\<rparr>)" "plTts d14 = TRange" "plTts d15 = TDone"
    and e16: "d16 = demo"
    by (simp_all add: d16_def d15_def d14_def d13_def e12 e8 demo_text_def stage_defs launch_def demo_start_def demo_def)
  have "prun ul demo_start False d8" unfolding d8_def
    by (rule pstep_trans [OF demo_text_run p_sentence]) (simp add: demo_text_def launch_def demo_start_def)
  then have "prun ul demo_start False d9" unfolding d9_def by (rule pstep_trans [OF _ p_start]) (simp_all add: e8)
  then have "prun ul demo_start False d10" unfolding d10_def by (rule pstep_trans [OF _ p_synth]) (simp_all add: e11)
  then have "prun ul demo_start False d11" unfolding d11_def by (rule pstep_trans [OF _ p_read]) (simp_all add: e11)
  then have "prun ul demo_start False d12" unfolding d12_def by (rule pstep_trans [OF _ p_audio]) (simp_all add: e11)
  then have "prun ul demo_start False d13" unfolding d13_def by (rule pstep_trans [OF _ p_read]) (simp_all add: e12)
  then have "prun ul demo_start False d14" unfolding d14_def by (rule pstep_trans [OF _ p_segment]) (simp_all add: e13)
  then have "prun ul demo_start False d15" unfolding d15_def by (rule pstep_trans [OF _ p_sentence]) (simp add: e13)
  then have "prun ul demo_start False d16" unfolding d16_def by (rule pstep_trans [OF _ p_done]) (simp_all add: e13)
  then show ?thesis by (simp add: e16)
qed

lemma demo_out:
  "out_text (plOut demo) = ''Hi''" "out_bytes (plOut demo) = 2" "out_segs (plOut demo) = [demo_seg\<lparr>audioEnd := 2\<rparr>]"
  "out_align (plOut demo) = []" "deltas_valid (plOut demo)" "\<not> plDone demo" "\<not> psTextOnly demo_start"
  by (simp_all add: demo_def out_text_def out_bytes_def out_segs_def out_align_def deltas_valid_def valid_Hi launch_def
      demo_start_def)

section \<open>Properties\<close>

text \<open>\<^bold>\<open>C33\<close>: whatever the providers answer and however the goroutines interleave, every event a
  pipeline sends carries its own stamp and response, and no stage sends anything after the event that
  ended it: no delta or call after the generation ended or failed, no audio after synthesis ended or
  failed, and neither ends twice.\<close>

theorem pipeline_events_ordered:
  assumes "prun ul ps inc p"
  shows "list_all (\<lambda>e. from_pipeline e ps) (plOut p) \<and> sorted_wrt follows (plOut p)"
  using prun_order [OF assms] prun_start [OF assms] by (simp add: order_inv_def)

theorem pipeline_events_ordered_witness:
  "list_all (\<lambda>e. from_pipeline e demo_start) (plOut demo) \<and> sorted_wrt follows (plOut demo)"
  by (rule pipeline_events_ordered [OF demo_run])







end
