(* ===== verification/SpeechProps.thy ===== *)
theory SpeechProps
  imports OpenaiSpeech PipelineProps
begin

text \<open>
  What the OpenAI speech clients deliver: whole samples only, the complete body of a request, the trimmed
  audio of every Realtime segment; and what the pipeline makes of a request that stalls.
\<close>

section \<open>Whole samples\<close>

lemma aligned_length:
  "length (fst (aligned c r)) = 2 * ((length c + length r) div 2)"
  "length (snd (aligned c r)) = (length c + length r) mod 2"
proof -
  define n where "n = length c + length r"
  have "AlignDown (int n) = int (n - n mod 2)" by (simp add: AlignDown_nonneg of_nat_diff zmod_int)
  then have e: "nat (AlignDown (int n)) = 2 * (n div 2)" by (simp add: minus_mod_eq_mult_div)
  have "n - 2 * (n div 2) = n mod 2" by (simp add: minus_mult_div_eq_mod)
  with e show "length (fst (aligned c r)) = 2 * ((length c + length r) div 2)"
    "length (snd (aligned c r)) = (length c + length r) mod 2"
    unfolding aligned_def Let_def fst_conv snd_conv length_take length_drop length_append of_nat_add [symmetric] n_def [symmetric]
    by (simp_all add: min_absorb2 of_nat_add [symmetric] n_def [symmetric])
qed

lemma aligned_props:
  "fst (aligned c r) @ snd (aligned c r) = c @ r"
  "even (length (fst (aligned c r)))"
  "length (snd (aligned c r)) \<le> 1"
proof -
  show "fst (aligned c r) @ snd (aligned c r) = c @ r"
    by (simp only: aligned_def Let_def fst_conv snd_conv append_take_drop_id)
  show "even (length (fst (aligned c r)))" by (simp add: aligned_length)
  show "length (snd (aligned c r)) \<le> 1" using mod_less_divisor [of 2 "length c + length r"] by (simp add: aligned_length)
qed

definition whole_samples :: "pcm list \<Rightarrow> bool" where
  "whole_samples cs \<longleftrightarrow> list_all (\<lambda>c. c \<noteq> [] \<and> even (length c)) cs"

lemma whole_even: "whole_samples cs \<Longrightarrow> even (length (concat cs))"
  by (induction cs) (auto simp: whole_samples_def)

lemma fetch_send_whole:
  "even (length p) \<Longrightarrow> whole_samples (ftOut f) \<Longrightarrow> whole_samples (ftOut (snd (fetch_send ok p f)))"
  by (simp add: fetch_send_def whole_samples_def)

lemma fetch_step_whole: "whole_samples (ftOut f) \<Longrightarrow> whole_samples (ftOut (snd (fetch_step ok rd f)))"
  by (auto simp: fetch_step_def fetch_data_def fetch_send_whole aligned_props case_prod_beta Let_def
      split: option.splits body_err.splits)

lemma fetch_loop_whole: "whole_samples (ftOut f) \<Longrightarrow> whole_samples (ftOut (snd (fetch_loop ok rds f)))"
proof (induction rds arbitrary: f)
  case (Cons rd rds)
  from fetch_step_whole [OF Cons.prems, of ok rd] Cons.IH show ?case
    by (auto split: prod.splits option.splits)
qed simp

lemma fetch_chunks_whole: "whole_samples (asChunks (fetch ok post rds))"
  using fetch_loop_whole [of new_fetch ok rds]
  by (auto simp: fetch_def new_fetch_def whole_samples_def split: option.splits prod.splits)

lemma fetch_send_ok:
  assumes "\<forall>n. ok n"
  shows "fst (fetch_send ok p f)" "concat (ftOut (snd (fetch_send ok p f))) = concat (ftOut f) @ p"
    "ftCarry (snd (fetch_send ok p f)) = ftCarry f"
  by (simp_all add: fetch_send_def assms)

lemma fetch_data_ok:
  assumes "\<forall>n. ok n" "length (ftCarry f) \<le> 1"
  shows "fst (fetch_data ok d f)"
    "concat (ftOut (snd (fetch_data ok d f))) @ ftCarry (snd (fetch_data ok d f)) = concat (ftOut f) @ ftCarry f @ d"
    "length (ftCarry (snd (fetch_data ok d f))) \<le> 1"
  using assms aligned_props [of "ftCarry f" d]
  by (simp_all add: fetch_data_def case_prod_beta Let_def fetch_send_ok)

lemma fetch_loop_body:
  assumes "\<forall>n. ok n" "length (ftCarry f) \<le> 1" "list_all (\<lambda>rd. snd rd = None) rds"
  shows "\<exists>f'. fetch_loop ok (rds @ tail) f = fetch_loop ok tail f' \<and> length (ftCarry f') \<le> 1
    \<and> concat (ftOut f') @ ftCarry f' = concat (ftOut f) @ ftCarry f @ concat (map fst rds)"
  using assms(2,3)
proof (induction rds arbitrary: f)
  case (Cons rd rds)
  note d = fetch_data_ok [OF assms(1) Cons.prems(1), of "fst rd"]
  have "fetch_step ok rd f = (None, snd (fetch_data ok (fst rd) f))"
    using d(1) Cons.prems(2) by (simp add: fetch_step_def case_prod_beta Let_def)
  moreover have "concat (ftOut (snd (fetch_data ok (fst rd) f))) @ ftCarry (snd (fetch_data ok (fst rd) f)) @ concat (map fst rds)
      = concat (ftOut f) @ ftCarry f @ concat (map fst (rd # rds))"
    using arg_cong [OF d(2), of "\<lambda>ys. ys @ concat (map fst rds)"] by simp
  ultimately show ?case using Cons.IH [OF d(3)] Cons.prems(2) by (simp only: append_Cons fetch_loop.simps prod.case option.case list.pred_inject)
qed auto

lemma fetch_complete:
  assumes "\<forall>n. ok n" "list_all (\<lambda>rd. snd rd = None) rds"
  shows "concat (asChunks (fetch ok None (rds @ [(d, Some BodyEOF)])))
           = take (2 * (length (concat (map fst rds) @ d) div 2)) (concat (map fst rds) @ d)"
    "asErrc (fetch ok None (rds @ [(d, Some BodyEOF)])) = Some None"
proof -
  have "length (ftCarry new_fetch) \<le> 1" by (simp add: new_fetch_def)
  from fetch_loop_body [where tail = "[(d, Some BodyEOF)]", OF assms(1) this assms(2)] obtain f where
    f: "fetch_loop ok (rds @ [(d, Some BodyEOF)]) new_fetch = fetch_loop ok [(d, Some BodyEOF)] f" "length (ftCarry f) \<le> 1"
      "concat (ftOut f) @ ftCarry f = concat (map fst rds)"
    by (auto simp: new_fetch_def)
  note e = fetch_data_ok [OF assms(1) f(2), of d]
  define g where "g = snd (fetch_data ok d f)"
  have res: "fetch_loop ok (rds @ [(d, Some BodyEOF)]) new_fetch = (Some None, g)"
    using e(1) by (simp add: f(1) fetch_step_def case_prod_beta Let_def g_def)
  then show "asErrc (fetch ok None (rds @ [(d, Some BodyEOF)])) = Some None" by (simp add: fetch_def)
  have all: "concat (ftOut g) @ ftCarry g = concat (map fst rds) @ d" using e(2) f(3) by (simp add: g_def flip: append_assoc)
  have "whole_samples (ftOut g)"
    using fetch_loop_whole [of new_fetch ok "rds @ [(d, Some BodyEOF)]"] res by (simp add: new_fetch_def whole_samples_def)
  then have ev: "even (length (concat (ftOut g)))" by (rule whole_even)
  have "length (concat (ftOut g)) = 2 * (length (concat (ftOut g) @ ftCarry g) div 2)"
    using ev e(3) by (auto simp: g_def elim!: evenE)
  moreover have "concat (ftOut g) = take (length (concat (ftOut g))) (concat (ftOut g) @ ftCarry g)" by simp
  ultimately have "concat (ftOut g) = take (2 * (length (concat (map fst rds) @ d) div 2)) (concat (map fst rds) @ d)"
    unfolding all by (rule_tac trans) (assumption, simp only:)
  with res show "concat (asChunks (fetch ok None (rds @ [(d, Some BodyEOF)])))
           = take (2 * (length (concat (map fst rds) @ d) div 2)) (concat (map fst rds) @ d)"
    by (simp add: fetch_def)
qed

section \<open>Realtime segments\<close>

text \<open>The audio of the reads of a segment, if each of them only delivers.\<close>

definition read_raw :: "bool \<times> ws_read \<Rightarrow> pcm list option" where
  "read_raw rd =
     (case snd rd of
        WsMessage j \<Rightarrow> (case decode_rtEvent j of
            None \<Rightarrow> None
          | Some ev \<Rightarrow>
              if evType ev = ''response.output_audio.delta'' then map_option (\<lambda>raw. [raw]) (DecodeString (evDelta ev))
              else if evType ev = ''error'' \<or> evType ev = ''response.done'' then None
              else Some [])
      | _ \<Rightarrow> None)"

fun reads_raw :: "(bool \<times> ws_read) list \<Rightarrow> pcm list option" where
  "reads_raw [] = Some []"
| "reads_raw (rd # rds) = (case read_raw rd of None \<Rightarrow> None | Some raw \<Rightarrow> map_option ((@) raw) (reads_raw rds))"

definition completes :: "bool \<times> ws_read \<Rightarrow> bool" where
  "completes rd =
     (case snd rd of
        WsMessage j \<Rightarrow> (case decode_rtEvent j of
            None \<Rightarrow> False | Some ev \<Rightarrow> evType ev = ''response.done'' \<and> rtDoneError ev = None)
      | _ \<Rightarrow> False)"

text \<open>The pieces the gate is fed.\<close>

fun pieces :: "pcm \<Rightarrow> pcm list \<Rightarrow> pcm list \<times> pcm" where
  "pieces carry [] = ([], carry)"
| "pieces carry (r # rs) =
     (let (p, rest) = aligned carry r; (ps, c) = pieces rest rs in (p # ps, c))"

lemma pieces_props:
  "concat (fst (pieces c rs)) @ snd (pieces c rs) = c @ concat rs" "even (length (concat (fst (pieces c rs))))"
proof (induction rs arbitrary: c)
  case (Cons r rs)
  {
    case 1
    have "concat (fst (pieces c (r # rs))) @ snd (pieces c (r # rs))
        = fst (aligned c r) @ snd (aligned c r) @ concat rs"
      using Cons.IH(1) [of "snd (aligned c r)"] by (simp add: case_prod_beta Let_def)
    with aligned_props(1) [of c r] show ?case by (metis append_assoc concat.simps(2))
  next
    case 2
    then show ?case using Cons.IH(2) aligned_props(2) [of c r] by (simp add: case_prod_beta Let_def)
  }
qed simp_all

lemma pieces_carry: "length c \<le> 1 \<Longrightarrow> length (snd (pieces c rs)) \<le> 1"
  by (induction rs arbitrary: c) (use aligned_props(3) in \<open>auto simp: case_prod_beta Let_def\<close>)

lemma pieces_even:
  assumes "even (length (concat rs))"
  shows "concat (fst (pieces [] rs)) = concat rs" "snd (pieces [] rs) = []"
proof -
  have "even (length (concat (fst (pieces [] rs)) @ snd (pieces [] rs)))"
    using assms by (simp only: pieces_props(1) append_Nil)
  then have "even (length (snd (pieces [] rs)))" using pieces_props(2) [of "[]" rs] by simp
  moreover have "length (snd (pieces [] rs)) \<le> 1" by (rule pieces_carry) simp
  ultimately show s: "snd (pieces [] rs) = []" by (cases "snd (pieces [] rs)") auto
  show "concat (fst (pieces [] rs)) = concat rs" using pieces_props(1) [of "[]" rs] s by simp
qed

lemma rt_emit_ok:
  assumes "\<forall>n. ok n"
  shows "fst (rt_emit ok og s)" "concat (ftOut (rtFetch (snd (rt_emit ok og s)))) = concat (ftOut (rtFetch s)) @ fst og"
    "rtGate (snd (rt_emit ok og s)) = snd og" "ftCarry (rtFetch (snd (rt_emit ok og s))) = ftCarry (rtFetch s)"
  using assms by (simp_all add: rt_emit_def case_prod_beta Let_def fetch_send_ok)

text \<open>What the loop has done after reads that only deliver: the gate was fed the pieces.\<close>

definition fed :: "rt_run \<Rightarrow> pcm list \<Rightarrow> rt_run \<Rightarrow> bool" where
  "fed s raws s' \<longleftrightarrow>
     (let (ps, rest) = pieces (ftCarry (rtFetch s)) raws; (p, g) = gate_pushes ps (rtGate s)
      in rtGate s' = g \<and> ftCarry (rtFetch s') = rest \<and> concat (ftOut (rtFetch s')) = concat (ftOut (rtFetch s)) @ p)"

lemma speak_delta:
  assumes "\<forall>n. ok n" "read_raw rd = Some raw"
  shows "\<exists>s'. speak_step jerr berr ok rd s = (None, s') \<and> fed s raw s'"
proof -
  from assms(2) obtain j ev where j: "snd rd = WsMessage j" "decode_rtEvent j = Some ev"
    by (auto simp: read_raw_def split: ws_read.splits option.splits)
  show ?thesis
  proof (cases "evType ev = ''response.output_audio.delta''")
    case True
    with assms(2) j obtain r where r: "DecodeString (evDelta ev) = Some r" "raw = [r]" by (auto simp: read_raw_def)
    have e: "speak_step jerr berr ok rd s = speak_event berr ok ev s" using j by (simp add: speak_step_def readEvent_def)
    show ?thesis unfolding e using True r assms(1)
      by (simp add: speak_event_def fed_def case_prod_beta Let_def rt_emit_ok)
  next
    case False
    with assms(2) j have "raw = []" "speak_step jerr berr ok rd s = (None, s)"
      by (auto simp: read_raw_def speak_step_def readEvent_def speak_event_def split: if_splits)
    then show ?thesis by (simp add: fed_def)
  qed
qed

lemma gate_pushes_append:
  "gate_pushes (ps @ qs) g = (let (p, g1) = gate_pushes ps g; (q, g2) = gate_pushes qs g1 in (p @ q, g2))"
  by (induction ps arbitrary: g) (simp_all add: case_prod_beta Let_def)

lemma pieces_append:
  "pieces c (rs @ ss) = (let (ps, c1) = pieces c rs; (qs, c2) = pieces c1 ss in (ps @ qs, c2))"
  by (induction rs arbitrary: c) (simp_all add: case_prod_beta Let_def)

lemma fed_trans: "fed s rs s1 \<Longrightarrow> fed s1 ss s2 \<Longrightarrow> fed s (rs @ ss) s2"
  by (auto simp: fed_def pieces_append gate_pushes_append case_prod_beta Let_def)

lemma speak_deltas:
  assumes "\<forall>n. ok n" "reads_raw rds = Some raws"
  shows "\<exists>s'. speak_loop jerr berr ok (rds @ tail) s = speak_loop jerr berr ok tail s' \<and> fed s raws s'"
  using assms(2)
proof (induction rds arbitrary: s raws)
  case Nil
  then show ?case by (auto simp: fed_def)
next
  case (Cons rd rds)
  then obtain r rs where r: "read_raw rd = Some r" "reads_raw rds = Some rs" "raws = r @ rs"
    by (auto split: option.splits)
  from speak_delta [OF assms(1) r(1)] obtain s1 where s1: "speak_step jerr berr ok rd s = (None, s1)" "fed s r s1" by blast
  from Cons.IH [OF r(2)] obtain s2 where "speak_loop jerr berr ok (rds @ tail) s1 = speak_loop jerr berr ok tail s2" "fed s1 rs s2"
    by blast
  with s1 r(3) fed_trans [OF s1(2)] show ?case by auto
qed

lemma speak_segment:
  assumes "\<forall>n. ok n" "reads_raw rds = Some raws" "completes fin" "ftCarry f = []" "even (length (concat raws))"
  shows "\<exists>f'. speak jerr berr ok None (rds @ [fin]) f = (Some None, f') \<and> ftCarry f' = []
    \<and> concat (ftOut f') = concat (ftOut f) @ concat (trimmed (frames_of (concat raws)))"
proof -
  let ?s = "\<lparr>rtGate = new_gate, rtFetch = f\<rparr>"
  from speak_deltas [where tail = "[fin]" and s = ?s, OF assms(1,2)] obtain s where
    s: "speak_loop jerr berr ok (rds @ [fin]) ?s = speak_loop jerr berr ok [fin] s" "fed ?s raws s" by blast
  from assms(3) obtain j ev where ev: "snd fin = WsMessage j" "decode_rtEvent j = Some ev" "evType ev = ''response.done''"
    "rtDoneError ev = None"
    by (auto simp: completes_def split: ws_read.splits option.splits)
  define e where "e = rt_emit ok (gate_finish (rtGate s)) s"
  have "speak_step jerr berr ok fin s = (Some None, snd e)"
    using ev rt_emit_ok(1) [OF assms(1), of "gate_finish (rtGate s)" s]
    by (simp add: speak_step_def readEvent_def speak_event_def case_prod_beta Let_def e_def)
  then have res: "speak jerr berr ok None (rds @ [fin]) f = (Some None, rtFetch (snd e))" by (simp add: speak_def s(1))
  have "concat (ftOut (rtFetch (snd e))) = concat (ftOut f) @ gate_segment (fst (pieces [] raws))"
    using s(2) assms(4) rt_emit_ok(2) [OF assms(1)] by (simp add: e_def fed_def gate_segment_def case_prod_beta Let_def)
  moreover have "ftCarry (rtFetch (snd e)) = []"
    using s(2) assms(4) pieces_even(2) [OF assms(5)] rt_emit_ok(4) [OF assms(1)] by (simp add: e_def fed_def case_prod_beta Let_def)
  ultimately show ?thesis using res pieces_even(1) [OF assms(5)] by (auto simp: gate_segment_trimmed)
qed

text \<open>What is to be heard of a segment that completes, if its audio is whole samples.\<close>

definition said :: "rt_segment \<Rightarrow> pcm option" where
  "said seg =
     (case seg of (txt, wr, rds) \<Rightarrow>
        if trim_space txt = [] then Some []
        else if wr = None \<and> rds \<noteq> [] \<and> completes (last rds) then
          (case reads_raw (butlast rds) of
             None \<Rightarrow> None
           | Some raws \<Rightarrow> if even (length (concat raws)) then Some (concat (trimmed (frames_of (concat raws)))) else None)
        else None)"

lemma rt_segments_said:
  assumes "\<forall>n. ok n" "ftCarry f = []" "\<forall>seg \<in> set segs. said seg \<noteq> None"
  shows "\<exists>f'. rt_segments jerr berr ok late segs f = (None, f')
    \<and> concat (ftOut f') = concat (ftOut f) @ concat (map (the \<circ> said) segs)"
  using assms(2,3)
proof (induction segs arbitrary: f)
  case (Cons seg segs)
  obtain t wr rds where seg: "seg = (t, wr, rds)" by (cases seg)
  show ?case
  proof (cases "trim_space t = []")
    case True
    with Cons seg show ?thesis by (simp add: said_def)
  next
    case False
    with Cons.prems(2) seg obtain raws where r: "wr = None" "rds \<noteq> []" "completes (last rds)" "reads_raw (butlast rds) = Some raws"
      "even (length (concat raws))" "said seg = Some (concat (trimmed (frames_of (concat raws))))"
      by (auto simp: said_def split: if_splits option.splits)
    from speak_segment [OF assms(1) r(4,3) Cons.prems(1) r(5)] r(2) obtain f1 where
      "speak jerr berr ok None rds f = (Some None, f1)" "ftCarry f1 = []"
      "concat (ftOut f1) = concat (ftOut f) @ concat (trimmed (frames_of (concat raws)))"
      by auto
    with Cons.IH [of f1] Cons.prems(2) False seg r(1,6) show ?thesis by auto
  qed
qed simp

section \<open>A request that stalls\<close>

text \<open>The watchdog of \<open>fetch\<close> cancels the stream's own context, so the read it interrupts is taken for a
  cancellation by the caller.\<close>

definition stalled :: "pcm \<Rightarrow> string \<Rightarrow> body_read" where
  "stalled d e = (d, Some (BodyFailed e True))"

lemma fetch_stalled:
  assumes "\<forall>n. ok n" "list_all (\<lambda>rd. snd rd = None) rds"
  shows "asErrc (fetch ok None (rds @ [stalled d e])) = Some (Some Canceled)" "asClosed (fetch ok None (rds @ [stalled d e]))"
    "\<not> asDone (fetch ok None (rds @ [stalled d e]))"
proof -
  have "length (ftCarry new_fetch) \<le> 1" by (simp add: new_fetch_def)
  from fetch_loop_body [where tail = "[stalled d e]", OF assms(1) this assms(2)] obtain f where
    f: "fetch_loop ok (rds @ [stalled d e]) new_fetch = fetch_loop ok [stalled d e] f" "length (ftCarry f) \<le> 1" by blast
  then have "fst (fetch_loop ok (rds @ [stalled d e]) new_fetch) = Some (Some Canceled)"
    using fetch_data_ok(1) [OF assms(1) f(2), of d] by (simp add: fetch_step_def stalled_def case_prod_beta Let_def)
  then show "asErrc (fetch ok None (rds @ [stalled d e])) = Some (Some Canceled)" "asClosed (fetch ok None (rds @ [stalled d e]))"
    "\<not> asDone (fetch ok None (rds @ [stalled d e]))"
    by (simp_all add: fetch_def case_prod_beta)
qed

lemma exited_is_silent:
  assumes "preach ul p q" "plTts p = TExit"
  shows "plTts q = TExit \<and> (\<exists>new. plOut q = plOut p @ new \<and> list_all of_llm new)"
  using assms
proof (induction rule: preach.induct)
  case (preach_step q r)
  then have q: "plTts q = TExit" and n: "\<exists>new. plOut q = plOut p @ new \<and> list_all of_llm new" by auto
  have "plOut r = plOut q \<or> (\<exists>ev. plOut r = plOut q @ [ev] \<and> of_llm ev)"
    using pstep_sends [OF preach_step.hyps(2)] q by (auto split: if_splits)
  with n pstep_exits [OF preach_step.hyps(2)] q show ?case by auto
qed simp

section \<open>Properties\<close>

text \<open>The audio a speech request delivers consists of whole samples, whatever the sizes of the pieces the
  body comes in and however the request ends; a body read to its end is delivered completely, up to an
  odd last byte, and the stream then ends without an error.\<close>

theorem speech_request_complete:
  assumes "\<forall>n. ok n" "list_all (\<lambda>rd. snd rd = None) rds"
  shows "whole_samples (asChunks (fetch ok' post rds'))
    \<and> (let body = concat (map fst rds) @ d; src = fetch ok None (rds @ [(d, Some BodyEOF)])
       in concat (asChunks src) = take (2 * (length body div 2)) body
          \<and> ReadAudio_openai False (src\<lparr>asChunks := []\<rparr>) = Some (ReadEOF, src\<lparr>asChunks := [], asErrc := None, asDone := True\<rparr>))"
  using fetch_chunks_whole fetch_complete [OF assms, of d]
  by (simp add: Let_def ReadAudio_openai_def final_result_def) (simp add: fetch_def case_prod_beta Let_def)

theorem speech_request_complete_witness:
  "concat (asChunks (fetch (\<lambda>_. True) None ([([1, 2, 3], None)] @ [([4, 5], Some BodyEOF)]))) = [1, 2, 3, 4]"
  using speech_request_complete [of "\<lambda>_. True" "[([1, 2, 3], None)]" "\<lambda>_. True" None "[]" "[4, 5]"] by (simp add: Let_def)

text \<open>Over the Realtime transport every segment that completes with whole samples is heard as its audio
  without the padding, one segment after the other in the order of the text, for every way the service
  cuts the audio into deltas.\<close>

theorem realtime_speech:
  assumes "\<forall>n. ok n" "\<forall>seg \<in> set segs. said seg \<noteq> None"
  shows "\<exists>f. rt_segments jerr berr ok late segs new_fetch = (None, f) \<and> concat (ftOut f) = concat (map (the \<circ> said) segs)"
  using rt_segments_said [OF assms(1) _ assms(2), of new_fetch] by (auto simp: new_fetch_def)

definition demo_done :: "bool \<times> ws_read" where
  "demo_done = (False, WsMessage (JObj [(''type'', JStr ''response.done'')]))"

lemma demo_done_completes: "completes demo_done"
  by (simp add: completes_def demo_done_def decode_rtEvent_def lax_struct_def rtEvent_fields_def find_field_def field_of_def
      into_string_def rtDoneError_def)

theorem realtime_speech_witness:
  "\<exists>f. rt_segments (\<lambda>_. []) (\<lambda>_. []) (\<lambda>_. True) False [(''Hi'', None, [demo_done])] new_fetch = (None, f) \<and> concat (ftOut f) = []"
proof -
  have f: "frames_of [] = []" by (subst frames_of.simps) (simp add: gateFrame_def)
  have "said (''Hi'', None, [demo_done]) = Some []"
    by (simp add: said_def trim_Hi demo_done_completes f trimmed_def)
  then show ?thesis
    using realtime_speech [of "\<lambda>_. True" "[(''Hi'', None, [demo_done])]" "\<lambda>_. []" "\<lambda>_. []" False] by simp
qed

text \<open>\<^bold>\<open>C36\<close>: a speech request whose body stalls is given up by its watchdog, but what \<open>ReadAudio\<close> then reports is
  taken for a cancellation: the pipeline leaves the synthesis stage without a word. From then on only the
  LLM stage can still report anything, so the response sees neither the end of synthesis nor an error.\<close>

theorem stalled_speech_unreported:
  assumes "\<forall>n. ok n" "list_all (\<lambda>rd. snd rd = None) rds" "plTts p = TRead sg"
    "ReadAudio_openai False ((fetch ok None (rds @ [stalled d e]))\<lparr>asChunks := []\<rparr>) = Some (res, src)"
    "preach ul (drain_read True res sg p) q"
  shows "plTts q = TExit \<and> (\<exists>new. plOut q = plOut p @ new \<and> list_all of_llm new)"
proof -
  have "res = ReadErr Canceled"
    using assms(4) fetch_stalled [OF assms(1,2), of d e] by (simp add: ReadAudio_openai_def final_result_def)
  then have "plTts (drain_read True res sg p) = TExit" "plOut (drain_read True res sg p) = plOut p"
    by (simp_all add: drain_read_def fail_with_def)
  with exited_is_silent [OF assms(5)] show ?thesis by simp
qed

theorem stalled_speech_unreported_witness:
  "plTts (drain_read True (ReadErr Canceled) None ((launch demo_start True)\<lparr>plTts := TRead None\<rparr>)) = TExit"
proof -
  let ?p = "(launch demo_start True)\<lparr>plTts := TRead None\<rparr>"
  let ?src = "(fetch (\<lambda>_. True) None ([] @ [stalled [] ''timeout'']))\<lparr>asChunks := []\<rparr>"
  have "ReadAudio_openai False ?src = Some (ReadErr Canceled, ?src\<lparr>asErrc := None, asDone := True, asFinal := Some Canceled\<rparr>)"
    using fetch_stalled [of "\<lambda>_. True" "[]" "[]" "''timeout''"] by (simp add: ReadAudio_openai_def final_result_def)
  moreover have "preach (\<lambda>_. False) (drain_read True (ReadErr Canceled) None ?p) (drain_read True (ReadErr Canceled) None ?p)"
    by (rule preach_refl)
  ultimately show ?thesis
    using stalled_speech_unreported [of "\<lambda>_. True" "[]" ?p None "[]" "''timeout''"] by simp
qed

end
