(* ===== verification/QwenAsr.thy ===== *)
theory QwenAsr
  imports ProviderCommon
begin

text \<open>
  \<^verbatim>\<open>internal/provider/qwen/asr.go\<close>: transcription with one recognition task per turn on one WebSocket. The
  session that calls it, the socket reader and the socket writer are the goroutines of a machine whose
  steps go from one blocking point to the next; \<open>M\<close> is the set of frames the service may send and \<open>cap\<close> the
  capacity of the audio queue. What the writer sent, and the acknowledgements it took in between, are logged. Milliseconds are unbounded integers: a stream would have to run for
  292 million years to wrap them.
\<close>

section \<open>Options\<close>

record asr_options =
  aoURL :: string
  aoConnectTimeout :: int
  aoIdleTimeout :: int
  aoModel :: string
  aoLanguage :: string
  aoFinalizeTimeout :: int
  aoAudioQueueFrames :: int
  aoKeepAliveInterval :: int

definition ws_applyDefaults :: "asr_options \<Rightarrow> asr_options" where
  "ws_applyDefaults opts = opts
     \<lparr>aoURL := firstNonEmpty (aoURL opts) ''wss://dashscope.aliyuncs.com/api-ws/v1/inference'',
      aoConnectTimeout := (if aoConnectTimeout opts = 0 then seconds 10 else aoConnectTimeout opts),
      aoIdleTimeout := (if aoIdleTimeout opts = 0 then seconds 30 else aoIdleTimeout opts)\<rparr>"

definition asr_applyDefaults :: "asr_options \<Rightarrow> asr_options" where
  "asr_applyDefaults opts = (ws_applyDefaults opts)
     \<lparr>aoModel := firstNonEmpty (aoModel opts) ''qwen-audio-3.1-asr-flash-streaming'',
      aoFinalizeTimeout := (if aoFinalizeTimeout opts = 0 then seconds 3 else aoFinalizeTimeout opts),
      aoAudioQueueFrames := (if aoAudioQueueFrames opts = 0 then 500 else aoAudioQueueFrames opts),
      aoKeepAliveInterval := (if aoKeepAliveInterval opts = 0 then seconds 10 else aoKeepAliveInterval opts)\<rparr>"

definition asr_validate :: "asr_options \<Rightarrow> bool" where
  "asr_validate opts \<longleftrightarrow> \<not> (aoKeepAliveInterval opts < 0 \<or> seconds 23 \<le> aoKeepAliveInterval opts)"

text \<open>The options block: it is validated before the defaults apply.\<close>

definition newASR :: "asr_options \<Rightarrow> asr_options option" where
  "newASR opts = (if asr_validate opts then Some (asr_applyDefaults opts) else None)"

lemma newASR_keepalive: "newASR opts = Some o' \<Longrightarrow> 0 < aoKeepAliveInterval o' \<and> aoKeepAliveInterval o' < seconds 23"
  by (auto simp: newASR_def asr_validate_def asr_applyDefaults_def ws_applyDefaults_def seconds_def split: if_splits)

definition asrParameters :: "int \<Rightarrow> string \<Rightarrow> json" where
  "asrParameters rate lang =
     JObj ([(''format'', JStr ''pcm''), (''sample_rate'', JNum (int_str rate))] @
       omit ''language_hints'' (if lang = [] then None else Some (JArr [JStr lang])))"

definition asr_run_frame :: "asr_options \<Rightarrow> ASRConfig \<Rightarrow> string \<Rightarrow> json" where
  "asr_run_frame opts cfg task =
     runFrame task ''asr'' ''recognition'' (firstNonEmpty (acModel cfg) (aoModel opts))
       (asrParameters (if acSampleRate cfg = 0 then SampleRate else acSampleRate cfg) (firstNonEmpty (acLanguage cfg) (aoLanguage opts)))"

section \<open>Frames of the service\<close>

record asrSentence =
  snID :: int
  snBegin :: "int option"
  snEndTime :: "int option"
  snTxt :: string
  snSentenceEnd :: bool

definition asrSentence_fields :: "asrSentence fields" where
  "asrSentence_fields =
     [(''sentence_id'', field_of into_int snID snID_update),
      (''begin_time'', field_of (into_ptr into_int 0) snBegin snBegin_update),
      (''end_time'', field_of (into_ptr into_int 0) snEndTime snEndTime_update),
      (''text'', field_of into_string snTxt snTxt_update),
      (''sentence_end'', field_of into_bool snSentenceEnd snSentenceEnd_update)]"

definition zero_sentence :: asrSentence where
  "zero_sentence = \<lparr>snID = 0, snBegin = None, snEndTime = None, snTxt = [], snSentenceEnd = False\<rparr>"

text \<open>The sentence of a result, if there is a usable one.\<close>

definition asrResult :: "json \<Rightarrow> asrSentence option" where
  "asrResult j =
     (case lax_struct [(''output'', lax_struct [(''sentence'', into_ptr (lax_struct asrSentence_fields) zero_sentence)])] j None of
        None \<Rightarrow> None | Some s \<Rightarrow> s)"

text \<open>A frame: what the reader's \<open>handle\<close> tells apart. A missing payload does not unmarshal.\<close>

datatype asr_frame = FStarted | FFinished | FFailed inHeader | FResult "asrSentence option" | FIgnored

definition asr_frame_fields :: "(inHeader \<times> json option) fields" where
  "asr_frame_fields =
     [(''header'', \<lambda>j r. map_option (\<lambda>h. (h, snd r)) (lax_struct inHeader_fields j (fst r))),
      (''payload'', \<lambda>j r. Some (fst r, Some j))]"

definition asr_frame_of :: "json \<Rightarrow> asr_frame" where
  "asr_frame_of j =
     (case lax_struct asr_frame_fields j (zero_header, None) of
        None \<Rightarrow> FIgnored
      | Some (h, payload) \<Rightarrow>
          if ihEvent h = ''result-generated'' then FResult (Option.bind payload asrResult)
          else if ihEvent h = ''task-started'' then FStarted
          else if ihEvent h = ''task-finished'' then FFinished
          else if ihEvent h = ''task-failed'' then FFailed h
          else FIgnored)"

section \<open>The timeline\<close>

record silenceGap =
  gapAt :: int
  gapMs :: int

fun unpad_from :: "int \<Rightarrow> silenceGap list \<Rightarrow> int \<Rightarrow> int" where
  "unpad_from shift [] ms = ms - shift"
| "unpad_from shift (g # gs) ms =
     (if ms \<le> gapAt g then ms - shift
      else if ms < gapAt g + gapMs g then gapAt g - shift
      else unpad_from (shift + gapMs g) gs ms)"

definition unpad :: "silenceGap list \<Rightarrow> int \<Rightarrow> int" where
  "unpad gaps ms = unpad_from 0 gaps ms"

type_synonym timed_asr = "ASREvent \<times> int \<times> int"

definition emitSentence :: "int \<Rightarrow> silenceGap list \<Rightarrow> asrSentence \<Rightarrow> timed_asr option" where
  "emitSentence base gaps sn =
     (if snTxt sn = [] \<and> \<not> snSentenceEnd sn then None
      else let start = (case snBegin sn of None \<Rightarrow> base | Some ms \<Rightarrow> base + unpad gaps ms);
               stop = (case snEndTime sn of None \<Rightarrow> base | Some ms \<Rightarrow> base + unpad gaps ms)
           in Some (if snSentenceEnd sn then (ASRFinal (snTxt sn), start, stop) else (ASRPartial (snTxt sn), start, start)))"

section \<open>The stream\<close>

definition keepAliveMs :: int where "keepAliveMs = 20"

datatype qlog = QRun nat | QAcked | QAudio pcm | QSilence | QFinish nat
datatype qctl = CStarted | CFinished | CFailed

text \<open>The writer: before its first \<open>run-task\<close>, in its loop, flushing the queue in \<open>beginFinalize\<close>, about to emit
  an EndOfTurn for an empty task or after a timeout, or gone. The reader: reading, emitting an event
  (and then forwarding a lifecycle frame), forwarding, reporting a failed read, or gone.\<close>

datatype qwriter = QWStart | QWLoop | QWFlush | QWEmpty | QWTimeout | QWExit
datatype qreader = QRNext | QREmit timed_asr "qctl option" | QRForward qctl | QRFail timed_asr | QRExit

record qstream =
  qStarted :: bool
  qFinalizing :: bool
  qPending :: bool
  qSentMs :: int
  qPadMs :: int
  qDeadline :: bool
  qRuns :: nat
  qBaseMs :: int
  qGaps :: "silenceGap list"
  qAck :: bool
  qIn :: "pcm list"
  qFin :: bool
  qCtl :: "qctl list"
  qDone :: bool
  qClosed :: bool
  qWriter :: qwriter
  qReader :: qreader
  qOut :: "timed_asr list"
  qLog :: "qlog list"
  qPushed :: "pcm list"
  qAwait :: bool
  qPanic :: bool

definition q_open :: qstream where
  "q_open = \<lparr>qStarted = False, qFinalizing = False, qPending = False, qSentMs = 0, qPadMs = 0, qDeadline = False, qRuns = 0,
     qBaseMs = 0, qGaps = [], qAck = True, qIn = [], qFin = False, qCtl = [], qDone = False, qClosed = False,
     qWriter = QWStart, qReader = QRNext, qOut = [], qLog = [], qPushed = [], qAwait = False, qPanic = False\<rparr>"

definition q_PushAudio :: "nat \<Rightarrow> pcm \<Rightarrow> qstream \<Rightarrow> perr option \<times> qstream" where
  "q_PushAudio cap pcm s =
     (if qDone s then (Some Canceled, s)
      else if length (qIn s) < cap then (None, s\<lparr>qIn := qIn s @ [pcm], qPushed := qPushed s @ [pcm]\<rparr>)
      else (Some (failed_with (transientf ''qwen'' ''audio queue full: socket writer stalled'')), s))"

definition q_Finalize :: "qstream \<Rightarrow> qstream" where
  "q_Finalize s = (if qDone s then s else s\<lparr>qFin := True, qAwait := True\<rparr>)"

fun q_answers :: "ASREvent \<Rightarrow> bool" where
  "q_answers (ASRFinal _) = True"
| "q_answers ASREndOfTurn = True"
| "q_answers _ = False"

text \<open>A send on \<open>events\<close>, which the reader closes when it exits: then it panics.\<close>

definition q_emit :: "timed_asr \<Rightarrow> qstream \<Rightarrow> qstream" where
  "q_emit e s =
     (if qReader s = QRExit then s\<lparr>qPanic := True\<rparr>
      else s\<lparr>qOut := qOut s @ [e], qAwait := (qAwait s \<and> \<not> q_answers (fst e))\<rparr>)"

definition sendRun :: "qstream \<Rightarrow> qstream" where
  "sendRun s = s\<lparr>qLog := qLog s @ [QRun (qRuns s)], qRuns := Suc (qRuns s), qAck := True\<rparr>"

definition sendFinish :: "qstream \<Rightarrow> qstream" where
  "sendFinish s = s\<lparr>qLog := qLog s @ [QFinish (qRuns s - 1)]\<rparr>"

definition frame_ms :: "pcm \<Rightarrow> int" where
  "frame_ms p = BytesToMs (int (length p))"

definition writeAudio :: "pcm \<Rightarrow> qstream \<Rightarrow> qstream" where
  "writeAudio p s = s\<lparr>qLog := qLog s @ [QAudio p], qSentMs := qSentMs s + frame_ms p\<rparr>"

definition writeSilence :: "qstream \<Rightarrow> qstream" where
  "writeSilence s = s\<lparr>qLog := qLog s @ [QSilence], qGaps := qGaps s @ [\<lparr>gapAt = qSentMs s + qPadMs s, gapMs = keepAliveMs\<rparr>],
     qPadMs := qPadMs s + keepAliveMs\<rparr>"

definition restart :: "qstream \<Rightarrow> qstream" where
  "restart s = sendRun (s\<lparr>qDeadline := False, qBaseMs := qBaseMs s + qSentMs s, qGaps := [], qSentMs := 0, qPadMs := 0,
     qStarted := False, qFinalizing := False, qPending := False, qWriter := QWLoop\<rparr>)"

text \<open>\<open>beginFinalize\<close> once the queue is empty.\<close>

definition end_flush :: "qstream \<Rightarrow> qstream" where
  "end_flush s =
     (if qSentMs s + qPadMs s = 0 then s\<lparr>qPending := False, qWriter := QWEmpty\<rparr>
      else (sendFinish s)\<lparr>qFinalizing := True, qDeadline := True, qWriter := QWLoop\<rparr>)"

definition writer_ctl :: "qctl \<Rightarrow> qstream \<Rightarrow> qstream" where
  "writer_ctl c s =
     (case c of
        CStarted \<Rightarrow> s\<lparr>qLog := qLog s @ [QAcked], qStarted := True, qWriter := (if qPending s then QWFlush else QWLoop)\<rparr>
      | CFinished \<Rightarrow> restart s
      | CFailed \<Rightarrow> s\<lparr>qWriter := QWExit, qDone := True\<rparr>)"

definition writer_finalize :: "qstream \<Rightarrow> qstream" where
  "writer_finalize s =
     (if qFinalizing s then s\<lparr>qFin := False\<rparr>
      else if \<not> qStarted s then s\<lparr>qFin := False, qPending := True\<rparr>
      else s\<lparr>qFin := False, qWriter := QWFlush\<rparr>)"

definition writer_close :: "qstream \<Rightarrow> qstream" where
  "writer_close s = (if qStarted s then sendFinish s else s)\<lparr>qWriter := QWExit, qDone := True\<rparr>"

definition asr_reader_exit :: "qstream \<Rightarrow> qstream" where
  "asr_reader_exit s = s\<lparr>qReader := QRExit, qDone := True, qAck := False\<rparr>"

definition asr_handle :: "asr_frame \<Rightarrow> qstream \<Rightarrow> qstream" where
  "asr_handle f s =
     (case f of
        FStarted \<Rightarrow> s\<lparr>qAck := False, qReader := QRForward CStarted\<rparr>
      | FFinished \<Rightarrow> s\<lparr>qReader := (if qClosed s then QRForward CFinished else QREmit (ASREndOfTurn, 0, 0) (Some CFinished))\<rparr>
      | FFailed h \<Rightarrow> s\<lparr>qReader := QREmit (ASRError (Error_Error (taskFailed h)), 0, 0) (Some CFailed)\<rparr>
      | FResult None \<Rightarrow> s
      | FResult (Some sn) \<Rightarrow> (case emitSentence (qBaseMs s) (qGaps s) sn of None \<Rightarrow> s | Some e \<Rightarrow> s\<lparr>qReader := QREmit e None\<rparr>)
      | FIgnored \<Rightarrow> s)"

definition after_emit :: "qctl option \<Rightarrow> qreader" where
  "after_emit c = (case c of None \<Rightarrow> QRNext | Some c \<Rightarrow> QRForward c)"

definition asr_read_error :: "bool \<Rightarrow> string \<Rightarrow> qstream \<Rightarrow> qstream" where
  "asr_read_error normal e s =
     (if qDone s \<or> qClosed s \<or> normal then asr_reader_exit s
      else s\<lparr>qReader := QRFail (ASRError (Error_Error (transientf ''qwen'' (''connection closed: '' @ e))), 0, 0)\<rparr>)"

inductive asrstep :: "nat \<Rightarrow> asr_frame set \<Rightarrow> qstream \<Rightarrow> qstream \<Rightarrow> bool" for cap M where
  q_cancel: "\<not> qPanic s \<Longrightarrow> asrstep cap M s (s\<lparr>qDone := True\<rparr>)"
| q_ack: "\<not> qPanic s \<Longrightarrow> qAck s \<Longrightarrow> asrstep cap M s (s\<lparr>qAck := False, qDone := True\<rparr>)"
| q_push: "\<not> qPanic s \<Longrightarrow> \<not> qClosed s \<Longrightarrow> asrstep cap M s (snd (q_PushAudio cap pcm s))"
| q_finalize: "\<not> qPanic s \<Longrightarrow> \<not> qClosed s \<Longrightarrow> asrstep cap M s (q_Finalize s)"
| q_close: "\<not> qPanic s \<Longrightarrow> asrstep cap M s (s\<lparr>qClosed := True\<rparr>)"
| w_run: "\<not> qPanic s \<Longrightarrow> qWriter s = QWStart \<Longrightarrow> asrstep cap M s ((sendRun s)\<lparr>qWriter := QWLoop\<rparr>)"
| w_audio: "\<not> qPanic s \<Longrightarrow> qWriter s = QWLoop \<Longrightarrow> qStarted s \<Longrightarrow> \<not> qFinalizing s \<Longrightarrow> qIn s = p # ps \<Longrightarrow>
    asrstep cap M s (writeAudio p (s\<lparr>qIn := ps\<rparr>))"
| w_audio_lost: "\<not> qPanic s \<Longrightarrow> qWriter s = QWLoop \<and> qStarted s \<and> \<not> qFinalizing s \<or> qWriter s = QWFlush \<Longrightarrow> qIn s = p # ps \<Longrightarrow>
    asrstep cap M s (s\<lparr>qIn := ps, qWriter := QWExit, qDone := True\<rparr>)"
| w_silence: "\<not> qPanic s \<Longrightarrow> qWriter s = QWLoop \<Longrightarrow> qStarted s \<Longrightarrow> \<not> qFinalizing s \<Longrightarrow> asrstep cap M s (writeSilence s)"
| w_ctl: "\<not> qPanic s \<Longrightarrow> qWriter s = QWLoop \<Longrightarrow> qCtl s = c # cs \<Longrightarrow> asrstep cap M s (writer_ctl c (s\<lparr>qCtl := cs\<rparr>))"
| w_finalize: "\<not> qPanic s \<Longrightarrow> qWriter s = QWLoop \<Longrightarrow> qFin s \<Longrightarrow> asrstep cap M s (writer_finalize s)"
| w_flush: "\<not> qPanic s \<Longrightarrow> qWriter s = QWFlush \<Longrightarrow> qIn s = p # ps \<Longrightarrow> asrstep cap M s (writeAudio p (s\<lparr>qIn := ps\<rparr>))"
| w_flushed: "\<not> qPanic s \<Longrightarrow> qWriter s = QWFlush \<Longrightarrow> qIn s = [] \<Longrightarrow> asrstep cap M s (end_flush s)"
| w_empty: "\<not> qPanic s \<Longrightarrow> qWriter s = QWEmpty \<Longrightarrow> asrstep cap M s (q_emit (ASREndOfTurn, 0, 0) (s\<lparr>qWriter := QWLoop\<rparr>))"
| w_deadline: "\<not> qPanic s \<Longrightarrow> qWriter s = QWLoop \<Longrightarrow> qDeadline s \<Longrightarrow> asrstep cap M s (s\<lparr>qDeadline := False, qWriter := QWTimeout\<rparr>)"
| w_timeout: "\<not> qPanic s \<Longrightarrow> qWriter s = QWTimeout \<Longrightarrow> asrstep cap M s (restart (q_emit (ASREndOfTurn, 0, 0) s))"
| w_close: "\<not> qPanic s \<Longrightarrow> qWriter s = QWLoop \<Longrightarrow> qClosed s \<Longrightarrow> asrstep cap M s (writer_close s)"
| w_exit: "\<not> qPanic s \<Longrightarrow> qWriter s \<noteq> QWExit \<Longrightarrow> asrstep cap M s (s\<lparr>qWriter := QWExit, qDone := True\<rparr>)"
| r_read: "\<not> qPanic s \<Longrightarrow> qReader s = QRNext \<Longrightarrow> f \<in> M \<Longrightarrow> asrstep cap M s (asr_handle f s)"
| r_error: "\<not> qPanic s \<Longrightarrow> qReader s = QRNext \<Longrightarrow> asrstep cap M s (asr_read_error normal e s)"
| r_emit: "\<not> qPanic s \<Longrightarrow> qReader s = QREmit e c \<Longrightarrow> asrstep cap M s ((q_emit e s)\<lparr>qReader := after_emit c\<rparr>)"
| r_emit_done: "\<not> qPanic s \<Longrightarrow> qReader s = QREmit e c \<Longrightarrow> qDone s \<Longrightarrow>
    asrstep cap M s (if c = Some CFailed then s\<lparr>qReader := QRForward CFailed\<rparr> else asr_reader_exit s)"
| r_forward: "\<not> qPanic s \<Longrightarrow> qReader s = QRForward c \<Longrightarrow> length (qCtl s) < 8 \<Longrightarrow>
    asrstep cap M s (let s = s\<lparr>qCtl := qCtl s @ [c]\<rparr> in if c = CFailed then asr_reader_exit s else s\<lparr>qReader := QRNext\<rparr>)"
| r_forward_done: "\<not> qPanic s \<Longrightarrow> qReader s = QRForward c \<Longrightarrow> qDone s \<or> qWriter s = QWExit \<Longrightarrow> asrstep cap M s (asr_reader_exit s)"
| r_fail: "\<not> qPanic s \<Longrightarrow> qReader s = QRFail e \<Longrightarrow> asrstep cap M s (asr_reader_exit (q_emit e s))"
| r_fail_done: "\<not> qPanic s \<Longrightarrow> qReader s = QRFail e \<Longrightarrow> qDone s \<Longrightarrow> asrstep cap M s (asr_reader_exit s)"

abbreviation asrsteps :: "nat \<Rightarrow> asr_frame set \<Rightarrow> qstream \<Rightarrow> qstream \<Rightarrow> bool" where
  "asrsteps cap M \<equiv> (asrstep cap M)\<^sup>*\<^sup>*"

end
