(* ===== verification/QwenAsrProps.thy ===== *)
theory QwenAsrProps
  imports QwenAsr
begin

text \<open>
  What the Qwen transcription stream keeps to: the order of its audio, the protocol of tasks on the socket,
  and offsets on the timeline of the audio that was pushed; and two ways in which it goes wrong.
\<close>

lemmas asrstep_defs = q_PushAudio_def q_Finalize_def q_emit_def sendRun_def sendFinish_def writeAudio_def writeSilence_def
  restart_def end_flush_def writer_ctl_def writer_finalize_def writer_close_def asr_reader_exit_def asr_handle_def
  asr_read_error_def Let_def

section \<open>Audio\<close>

fun log_audio :: "qlog \<Rightarrow> pcm list" where
  "log_audio (QAudio p) = [p]"
| "log_audio _ = []"

definition sent_audio :: "qlog list \<Rightarrow> pcm list" where
  "sent_audio l = concat (map log_audio l)"

lemma sent_audio_simps [simp]:
  "sent_audio [] = []" "sent_audio (l @ [e]) = sent_audio l @ log_audio e"
  by (simp_all add: sent_audio_def)

definition audio_inv :: "qstream \<Rightarrow> bool" where
  "audio_inv s \<longleftrightarrow> (\<exists>lost. qPushed s = sent_audio (qLog s) @ lost @ qIn s \<and> (qWriter s \<noteq> QWExit \<longrightarrow> lost = []))"

lemma qstep_audio: "asrstep cap M s t \<Longrightarrow> audio_inv s \<Longrightarrow> audio_inv t"
proof (induction rule: asrstep.induct)
  case (q_push s pcm)
  then show ?case by (auto simp: audio_inv_def q_PushAudio_def)
next
  case (w_audio s p ps)
  then show ?case by (auto simp: audio_inv_def writeAudio_def)
next
  case (w_flush s p ps)
  then show ?case by (auto simp: audio_inv_def writeAudio_def)
next
  case (w_audio_lost s p ps)
  then show ?case by (auto simp: audio_inv_def)
qed (auto simp: audio_inv_def asrstep_defs split: qctl.splits asr_frame.splits option.splits if_splits)

lemma qreach_audio: "asrsteps cap M q_open s \<Longrightarrow> audio_inv s"
proof (induction rule: rtranclp_induct)
  case base
  then show ?case by (simp add: audio_inv_def q_open_def)
next
  case (step s t)
  then show ?case using qstep_audio by blast
qed

section \<open>The protocol of tasks\<close>

datatype task_phase = TaskWaiting | TaskRunning | TaskFinishing

text \<open>What the service accepts: nothing but a new task before an acknowledgement, data only in a running
  task, and a task ends with \<open>finish-task\<close>.\<close>

fun task_step :: "qlog \<Rightarrow> task_phase option \<Rightarrow> task_phase option" where
  "task_step (QRun _) _ = Some TaskWaiting"
| "task_step QAcked ph = (if ph = None then None else Some TaskRunning)"
| "task_step (QAudio _) ph = (if ph = Some TaskRunning then Some TaskRunning else None)"
| "task_step QSilence ph = (if ph = Some TaskRunning then Some TaskRunning else None)"
| "task_step (QFinish _) ph = (if ph = Some TaskRunning \<or> ph = Some TaskFinishing then Some TaskFinishing else None)"

definition log_phase :: "qlog list \<Rightarrow> task_phase option" where
  "log_phase l = fold task_step l None"

text \<open>Every frame of a log is one the service accepts; the first one starts a task.\<close>

definition protocol_ok :: "qlog list \<Rightarrow> bool" where
  "protocol_ok l \<longleftrightarrow> (\<forall>i < length l. log_phase (take (Suc i) l) \<noteq> None)"

lemma log_phase_simps [simp]: "log_phase [] = None" "log_phase (l @ [e]) = task_step e (log_phase l)"
  by (simp_all add: log_phase_def)

lemma protocol_snoc: "protocol_ok (l @ [e]) \<longleftrightarrow> protocol_ok l \<and> task_step e (log_phase l) \<noteq> None"
  by (auto simp: protocol_ok_def less_Suc_eq)

lemma protocol_Nil [simp]: "protocol_ok []"
  by (simp add: protocol_ok_def)

definition phase_inv :: "qstream \<Rightarrow> bool" where
  "phase_inv s \<longleftrightarrow> protocol_ok (qLog s)
     \<and> (qWriter s = QWStart \<longleftrightarrow> qLog s = [] \<and> qWriter s \<noteq> QWExit)
     \<and> (qWriter s = QWStart \<longrightarrow> \<not> qStarted s \<and> \<not> qFinalizing s)
     \<and> (qStarted s \<longrightarrow> log_phase (qLog s) = Some TaskRunning \<or> log_phase (qLog s) = Some TaskFinishing)
     \<and> (qLog s \<noteq> [] \<longrightarrow> log_phase (qLog s) \<noteq> None)
     \<and> (qStarted s \<and> \<not> qFinalizing s \<longrightarrow> log_phase (qLog s) = Some TaskRunning \<or> qWriter s = QWExit)
     \<and> (qWriter s = QWFlush \<longrightarrow> qStarted s \<and> log_phase (qLog s) = Some TaskRunning)
     \<and> (qWriter s \<in> {QWLoop, QWFlush, QWEmpty} \<and> qFinalizing s \<longrightarrow> qDeadline s)"

lemma protocol_single: "protocol_ok [e] \<longleftrightarrow> task_step e None \<noteq> None" "log_phase [e] = task_step e None"
  by (simp_all add: protocol_ok_def log_phase_def)

lemma qstep_phase: "asrstep cap M s t \<Longrightarrow> phase_inv s \<Longrightarrow> phase_inv t"
proof (induction rule: asrstep.induct)
  case (w_ctl s c cs)
  then show ?case by (cases c) (auto simp: phase_inv_def asrstep_defs protocol_snoc)
next
  case (w_run s)
  then show ?case by (simp add: phase_inv_def sendRun_def protocol_single)
next
  case (r_read s f)
  then show ?case by (auto simp: phase_inv_def asr_handle_def split: asr_frame.splits option.splits)
qed (auto simp: phase_inv_def asrstep_defs protocol_snoc split: if_splits)

lemma qreach_phase: "asrsteps cap M q_open s \<Longrightarrow> phase_inv s"
proof (induction rule: rtranclp_induct)
  case base
  then show ?case by (simp add: phase_inv_def q_open_def)
next
  case (step s t)
  then show ?case using qstep_phase by blast
qed

section \<open>The timeline\<close>

text \<open>The audio of the current task as the service hears it, one entry per millisecond: pushed audio, or
  keep-alive silence; and the length of the audio of the tasks before.\<close>

fun line_step :: "qlog \<Rightarrow> bool list \<Rightarrow> bool list" where
  "line_step (QRun _) l = []"
| "line_step (QAudio p) l = l @ replicate (nat (frame_ms p)) True"
| "line_step QSilence l = l @ replicate (nat keepAliveMs) False"
| "line_step _ l = l"

definition task_line :: "qlog list \<Rightarrow> bool list" where
  "task_line lg = fold line_step lg []"

definition audio_heard :: "bool list \<Rightarrow> int" where
  "audio_heard l = int (length (filter id l))"

definition audio_ms :: "qlog list \<Rightarrow> int" where
  "audio_ms lg = sum_list (map frame_ms (sent_audio lg))"

lemma task_line_simps [simp]: "task_line [] = []" "task_line (lg @ [e]) = line_step e (task_line lg)"
  by (simp_all add: task_line_def)

lemma audio_ms_simps [simp]: "audio_ms [] = 0" "audio_ms (lg @ [e]) = audio_ms lg + sum_list (map frame_ms (log_audio e))"
  by (simp_all add: audio_ms_def)

lemma frame_ms_nonneg: "0 \<le> frame_ms p"
  by (simp add: frame_ms_def BytesToMs_def BytesPerMs_def go_div_def)

lemma audio_heard_simps [simp]:
  "audio_heard [] = 0" "audio_heard (xs @ ys) = audio_heard xs + audio_heard ys" "audio_heard (replicate n True) = int n" "audio_heard (replicate n False) = 0"
  by (simp_all add: audio_heard_def)

text \<open>The gaps describe a line: they lie in it, and mapping an offset back counts the audio before it.\<close>

definition gaps_ok :: "silenceGap list \<Rightarrow> bool list \<Rightarrow> bool" where
  "gaps_ok gs l \<longleftrightarrow> list_all (\<lambda>g. 0 < gapMs g \<and> gapAt g + gapMs g \<le> int (length l)) gs
     \<and> int (length l) - audio_heard l = sum_list (map gapMs gs)
     \<and> (\<forall>n \<le> length l. unpad gs (int n) = audio_heard (take n l))"

lemma unpad_past:
  "list_all (\<lambda>g. 0 < gapMs g \<and> gapAt g + gapMs g \<le> ms) gs \<Longrightarrow> unpad_from shift gs ms = ms - shift - sum_list (map gapMs gs)"
  by (induction gs arbitrary: shift) auto

lemma unpad_snoc_before: "ms \<le> gapAt g \<Longrightarrow> unpad_from shift (gs @ [g]) ms = unpad_from shift gs ms"
  by (induction gs arbitrary: shift) auto

lemma unpad_snoc_after:
  "list_all (\<lambda>g. 0 < gapMs g \<and> gapAt g + gapMs g \<le> ms) gs \<Longrightarrow> gapAt g < ms \<Longrightarrow>
   unpad_from shift (gs @ [g]) ms = (if ms < gapAt g + gapMs g then gapAt g else ms - gapMs g) - shift - sum_list (map gapMs gs)"
  by (induction gs arbitrary: shift) auto

lemma gaps_all_mono: "list_all (\<lambda>g. 0 < gapMs g \<and> gapAt g + gapMs g \<le> a) gs \<Longrightarrow> a \<le> b \<Longrightarrow>
    list_all (\<lambda>g. 0 < gapMs g \<and> gapAt g + gapMs g \<le> b) gs"
  by (auto simp: list_all_iff)

lemma gaps_ok_audio:
  assumes "gaps_ok gs l"
  shows "gaps_ok gs (l @ replicate k True)"
proof -
  have "unpad gs (int n) = audio_heard (take n (l @ replicate k True))" if n: "n \<le> length l + k" for n
  proof (cases "n \<le> length l")
    case True
    with assms show ?thesis by (simp add: gaps_ok_def)
  next
    case False
    then have "list_all (\<lambda>g. 0 < gapMs g \<and> gapAt g + gapMs g \<le> int n) gs"
      using assms gaps_all_mono [of "int (length l)" gs "int n"] by (simp add: gaps_ok_def)
    from unpad_past [OF this] False n assms show ?thesis
      by (auto simp: unpad_def gaps_ok_def take_replicate min_def)
  qed
  moreover have "list_all (\<lambda>g. 0 < gapMs g \<and> gapAt g + gapMs g \<le> int (length l + k)) gs"
    using assms gaps_all_mono [of "int (length l)" gs "int (length l + k)"] by (simp add: gaps_ok_def)
  ultimately show ?thesis using assms by (simp add: gaps_ok_def)
qed

lemma gaps_ok_silence:
  assumes "gaps_ok gs l" "0 < k"
  shows "gaps_ok (gs @ [\<lparr>gapAt = int (length l), gapMs = int k\<rparr>]) (l @ replicate k False)"
proof -
  let ?g = "\<lparr>gapAt = int (length l), gapMs = int k\<rparr>"
  have "unpad (gs @ [?g]) (int n) = audio_heard (take n (l @ replicate k False))" if n: "n \<le> length l + k" for n
  proof (cases "n \<le> length l")
    case True
    with assms show ?thesis by (simp add: gaps_ok_def unpad_def unpad_snoc_before)
  next
    case False
    then have "list_all (\<lambda>g. 0 < gapMs g \<and> gapAt g + gapMs g \<le> int n) gs"
      using assms gaps_all_mono [of "int (length l)" gs "int n"] by (simp add: gaps_ok_def)
    from unpad_snoc_after [OF this, of ?g] False n assms show ?thesis
      by (auto simp: unpad_def gaps_ok_def take_replicate min_def)
  qed
  moreover have "list_all (\<lambda>g. 0 < gapMs g \<and> gapAt g + gapMs g \<le> int (length l + k)) gs"
    using assms gaps_all_mono [of "int (length l)" gs "int (length l + k)"] by (simp add: gaps_ok_def)
  ultimately show ?thesis using assms by (simp add: gaps_ok_def)
qed

definition time_inv :: "qstream \<Rightarrow> bool" where
  "time_inv s \<longleftrightarrow> qSentMs s = audio_heard (task_line (qLog s)) \<and> qSentMs s + qPadMs s = int (length (task_line (qLog s)))
     \<and> qBaseMs s + qSentMs s = audio_ms (qLog s) \<and> gaps_ok (qGaps s) (task_line (qLog s))"

lemma gaps_ok_Nil [simp]: "gaps_ok [] []"
  by (simp add: gaps_ok_def unpad_def)

lemma writeAudio_time: "time_inv s \<Longrightarrow> time_inv (writeAudio p s)"
  using gaps_ok_audio [of "qGaps s" "task_line (qLog s)"] frame_ms_nonneg [of p] by (simp add: time_inv_def writeAudio_def)

lemma writeSilence_time:
  assumes "time_inv s"
  shows "time_inv (writeSilence s)"
proof -
  have e: "int (length (task_line (qLog s))) = qSentMs s + qPadMs s" using assms by (simp add: time_inv_def)
  show ?thesis
    using assms gaps_ok_silence [of "qGaps s" "task_line (qLog s)" 20, unfolded e]
    by (auto simp: time_inv_def writeSilence_def keepAliveMs_def)
qed

lemma time_inv_cong:
  "time_inv s \<Longrightarrow> qSentMs t = qSentMs s \<Longrightarrow> qPadMs t = qPadMs s \<Longrightarrow> qBaseMs t = qBaseMs s \<Longrightarrow> qGaps t = qGaps s \<Longrightarrow>
   task_line (qLog t) = task_line (qLog s) \<Longrightarrow> sent_audio (qLog t) = sent_audio (qLog s) \<Longrightarrow> time_inv t"
  by (simp add: time_inv_def audio_ms_def)

lemma restart_time: "time_inv s \<Longrightarrow> time_inv (restart s)"
  by (simp add: time_inv_def restart_def sendRun_def)

lemma emit_time: "time_inv s \<Longrightarrow> time_inv (q_emit e s)"
  by (simp add: time_inv_def q_emit_def)

lemma qstep_time: "asrstep cap M s t \<Longrightarrow> time_inv s \<Longrightarrow> phase_inv s \<Longrightarrow> time_inv t"
proof (induction rule: asrstep.induct)
  case (w_audio s p ps)
  then show ?case using writeAudio_time time_inv_cong [of s "s\<lparr>qIn := ps\<rparr>"] by simp
next
  case (w_flush s p ps)
  then show ?case using writeAudio_time time_inv_cong [of s "s\<lparr>qIn := ps\<rparr>"] by simp
next
  case (w_silence s)
  then show ?case by (simp add: writeSilence_time)
next
  case (w_timeout s)
  then show ?case by (simp add: restart_time emit_time)
next
  case (w_run s)
  then have "qLog s = []" by (simp add: phase_inv_def)
  with w_run show ?case by (simp add: time_inv_def sendRun_def task_line_def audio_ms_def sent_audio_def)
next
  case (w_ctl s c cs)
  have "time_inv (s\<lparr>qCtl := cs\<rparr>)" using w_ctl by (intro time_inv_cong [OF w_ctl.prems(1)]) simp_all
  then show ?case by (cases c) (auto simp: writer_ctl_def restart_time intro: time_inv_cong)
qed (erule time_inv_cong; simp add: asrstep_defs split: asr_frame.splits option.splits if_splits)+

lemma qreach_time: "asrsteps cap M q_open s \<Longrightarrow> time_inv s"
proof (induction rule: rtranclp_induct)
  case base
  then show ?case by (simp add: time_inv_def q_open_def)
next
  case (step s t)
  then show ?case using qstep_time qreach_phase by blast
qed

section \<open>Turns end\<close>

definition q_answered :: "qstream \<Rightarrow> qstream \<Rightarrow> bool" where
  "q_answered s t \<longleftrightarrow> \<not> qPanic t \<and> \<not> qAwait t \<and> (\<exists>new. qOut t = qOut s @ new \<and> list_ex (q_answers \<circ> fst) new)"

definition comes_to_answer :: "nat \<Rightarrow> qstream \<Rightarrow> bool" where
  "comes_to_answer cap s \<longleftrightarrow> (\<exists>t. asrsteps cap {} s t \<and> q_answered s t)"

lemma comes_step:
  assumes "asrstep cap {} s t" "comes_to_answer cap t" "qOut t = qOut s"
  shows "comes_to_answer cap s"
  using assms unfolding comes_to_answer_def q_answered_def by (metis converse_rtranclp_into_rtranclp)

lemma timeout_answers:
  assumes "\<not> qPanic s" "qReader s \<noteq> QRExit" "qWriter s = QWTimeout"
  shows "comes_to_answer cap s"
proof -
  have "asrstep cap {} s (restart (q_emit (ASREndOfTurn, 0, 0) s))" using assms by (intro w_timeout)
  moreover have "q_answered s (restart (q_emit (ASREndOfTurn, 0, 0) s))"
    using assms by (simp add: q_answered_def asrstep_defs)
  ultimately show ?thesis unfolding comes_to_answer_def by blast
qed

lemma empty_answers:
  assumes "\<not> qPanic s" "qReader s \<noteq> QRExit" "qWriter s = QWEmpty"
  shows "comes_to_answer cap s"
proof -
  have "asrstep cap {} s (q_emit (ASREndOfTurn, 0, 0) (s\<lparr>qWriter := QWLoop\<rparr>))" using assms by (intro w_empty)
  moreover have "q_answered s (q_emit (ASREndOfTurn, 0, 0) (s\<lparr>qWriter := QWLoop\<rparr>))"
    using assms by (simp add: q_answered_def asrstep_defs)
  ultimately show ?thesis unfolding comes_to_answer_def by blast
qed

lemma deadline_answers:
  assumes "\<not> qPanic s" "qReader s \<noteq> QRExit" "qWriter s = QWLoop" "qDeadline s"
  shows "comes_to_answer cap s"
  using comes_step [OF w_deadline [OF assms(1,3,4)]] timeout_answers assms by simp

lemma flush_answers:
  assumes "\<not> qPanic s" "qReader s \<noteq> QRExit" "qWriter s = QWFlush"
  shows "comes_to_answer cap s"
  using assms
proof (induction "qIn s" arbitrary: s)
  case Nil
  have "comes_to_answer cap (end_flush s)"
  proof (cases "qSentMs s + qPadMs s = 0")
    case True
    with Nil show ?thesis by (intro empty_answers) (simp_all add: end_flush_def)
  next
    case False
    with Nil show ?thesis by (intro deadline_answers) (simp_all add: end_flush_def sendFinish_def)
  qed
  moreover have "qOut (end_flush s) = qOut s" by (simp add: end_flush_def sendFinish_def)
  ultimately show ?case using comes_step [OF w_flushed] Nil by simp
next
  case (Cons p ps)
  have "comes_to_answer cap (writeAudio p (s\<lparr>qIn := ps\<rparr>))"
    using Cons.prems by (intro Cons.hyps) (simp_all add: writeAudio_def)
  moreover have "asrstep cap {} s (writeAudio p (s\<lparr>qIn := ps\<rparr>))" using Cons.prems Cons.hyps(2) by (intro w_flush) auto
  ultimately show ?case using comes_step by (simp add: writeAudio_def)
qed

lemma running_answers:
  assumes "phase_inv s" "\<not> qPanic s" "qReader s \<noteq> QRExit" "qWriter s = QWLoop" "qStarted s" "qFin s \<or> qFinalizing s"
  shows "comes_to_answer cap s"
proof (cases "qFinalizing s")
  case True
  with assms have "qDeadline s" by (simp add: phase_inv_def)
  with assms deadline_answers show ?thesis by blast
next
  case False
  with assms have fin: "qFin s" by simp
  have "comes_to_answer cap (writer_finalize s)"
    using assms False by (intro flush_answers) (simp_all add: writer_finalize_def)
  moreover have "qOut (writer_finalize s) = qOut s" by (simp add: writer_finalize_def)
  ultimately show ?thesis using comes_step [OF w_finalize [OF assms(2,4) fin]] by blast
qed

section \<open>Properties\<close>




text \<open>A Finalize on a running task is answered: from every reachable state in which the task runs and a
  Finalize waits for the writer, or the task is already being finished, the stream comes to send an
  EndOfTurn by its own steps, without anything from the service.\<close>

theorem asr_finalize_answered:
  assumes "asrsteps cap M q_open s" "\<not> qPanic s" "qReader s \<noteq> QRExit" "qWriter s = QWLoop" "qStarted s" "qFin s \<or> qFinalizing s"
  shows "\<exists>t. asrsteps cap {} s t \<and> q_answered s t"
  using running_answers [OF qreach_phase [OF assms(1)] assms(2-6)] by (simp add: comes_to_answer_def)

text \<open>A run of the stream up to the acknowledged first task, and to its finishing.\<close>

definition demo_frame :: pcm where "demo_frame = replicate 48 0"

definition demo_running :: qstream where
  "demo_running = q_open\<lparr>qStarted := True, qRuns := 1, qAck := False, qWriter := QWLoop, qLog := [QRun 0, QAcked]\<rparr>"

lemma demo_running_reached: "FStarted \<in> M \<Longrightarrow> asrsteps cap M q_open demo_running"
proof -
  assume M: "FStarted \<in> M"
  define d1 where "d1 = (sendRun q_open)\<lparr>qWriter := QWLoop\<rparr>"
  define d2 where "d2 = asr_handle FStarted d1"
  define d3 where "d3 = d2\<lparr>qCtl := [CStarted], qReader := QRNext\<rparr>"
  define d4 where "d4 = writer_ctl CStarted (d3\<lparr>qCtl := []\<rparr>)"
  note defs = d1_def d2_def d3_def d4_def q_open_def sendRun_def asr_handle_def writer_ctl_def
  have "asrsteps cap M q_open d1" unfolding d1_def by (rule r_into_rtranclp, rule w_run) (simp_all add: q_open_def)
  also have "asrsteps cap M d1 d2" unfolding d2_def by (rule r_into_rtranclp, rule r_read) (simp_all add: M defs)
  also have "asrsteps cap M d2 d3"
    using r_forward [of d2 CStarted cap M] by (intro r_into_rtranclp) (simp add: defs)
  also have "asrsteps cap M d3 d4" unfolding d4_def by (rule r_into_rtranclp, rule w_ctl) (simp_all add: defs)
  also have "d4 = demo_running" by (simp add: defs demo_running_def)
  finally show ?thesis .
qed

definition demo_finishing :: qstream where
  "demo_finishing = demo_running\<lparr>qPushed := [demo_frame], qSentMs := 1, qFinalizing := True, qDeadline := True, qAwait := True,
     qLog := [QRun 0, QAcked, QAudio demo_frame, QFinish 0]\<rparr>"

lemma demo_finishing_reached: "FStarted \<in> M \<Longrightarrow> 0 < cap \<Longrightarrow> asrsteps cap M q_open demo_finishing"
proof -
  assume M: "FStarted \<in> M" "0 < cap"
  define d1 where "d1 = snd (q_PushAudio cap demo_frame demo_running)"
  define d2 where "d2 = q_Finalize d1"
  define d3 where "d3 = writer_finalize d2"
  define d4 where "d4 = writeAudio demo_frame (d3\<lparr>qIn := []\<rparr>)"
  define d5 where "d5 = end_flush d4"
  have ms: "frame_ms demo_frame = 1"
    by (simp add: frame_ms_def demo_frame_def BytesToMs_def BytesPerMs_def go_div_def)
  note defs = d1_def d2_def d3_def d4_def d5_def demo_running_def q_open_def q_PushAudio_def q_Finalize_def writer_finalize_def
    writeAudio_def end_flush_def sendFinish_def ms
  note demo_running_reached [OF M(1)]
  also have "asrsteps cap M demo_running d1" unfolding d1_def
    by (rule r_into_rtranclp, rule q_push) (simp_all add: demo_running_def q_open_def)
  also have "asrsteps cap M d1 d2" unfolding d2_def by (rule r_into_rtranclp, rule q_finalize) (simp_all add: defs M)
  also have "asrsteps cap M d2 d3" unfolding d3_def by (rule r_into_rtranclp, rule w_finalize) (simp_all add: defs M)
  also have "asrsteps cap M d3 d4" unfolding d4_def by (rule r_into_rtranclp, rule w_flush) (simp_all add: defs M)
  also have "asrsteps cap M d4 d5" unfolding d5_def by (rule r_into_rtranclp, rule w_flushed) (simp_all add: defs M)
  also have "d5 = demo_finishing" by (simp add: defs M demo_finishing_def)
  finally show ?thesis .
qed


theorem asr_finalize_answered_witness: "\<exists>t. asrsteps 500 {} demo_finishing t \<and> q_answered demo_finishing t"
  using asr_finalize_answered [OF demo_finishing_reached [of "{FStarted}" 500]]
  by (simp add: demo_finishing_def demo_running_def q_open_def)



text \<open>When the connection breaks while a task is being finished, the writer can still send on the events channel the
  reader has closed.\<close>

lemma asr_writer_panics:
  assumes "0 < cap"
  shows "\<exists>s. asrsteps cap {FStarted} q_open s \<and> qPanic s"
proof -
  let ?M = "{FStarted}"
  define d1 where "d1 = demo_finishing\<lparr>qDeadline := False, qWriter := QWTimeout\<rparr>"
  define d2 where "d2 = asr_read_error True ''closed'' d1"
  define d3 where "d3 = restart (q_emit (ASREndOfTurn, 0, 0) d2)"
  note defs = d1_def d2_def d3_def demo_finishing_def demo_running_def q_open_def asr_read_error_def asr_reader_exit_def
    restart_def sendRun_def q_emit_def
  have "asrsteps cap ?M q_open demo_finishing" using assms by (intro demo_finishing_reached) simp_all
  also have "asrsteps cap ?M demo_finishing d1" unfolding d1_def by (rule r_into_rtranclp, rule w_deadline) (simp_all add: defs)
  also have "asrsteps cap ?M d1 d2" unfolding d2_def by (rule r_into_rtranclp, rule r_error) (simp_all add: defs)
  also have "asrsteps cap ?M d2 d3" unfolding d3_def by (rule r_into_rtranclp, rule w_timeout) (simp_all add: defs)
  finally show ?thesis by (intro exI [of _ d3]) (simp add: defs)
qed

end
