(* ===== verification/Admin.thy ===== *)
theory Admin
  imports RuntimeDecode
begin

text \<open>
  \<^verbatim>\<open>internal/admin\<close> and the registry of \<^verbatim>\<open>internal/provider/provider.go\<close>: the store that owns the runtime
  configuration, and the HTTP API over it. A built provider is what the store sees of it: what its
  \<open>Kind\<close> method answers and which of the three interfaces it implements; the factories that build
  it, the environment and the file system's failures are parameters. Writes hold the store's lock, so
  one request is one step. The path pattern the multiplexer matched is the request's route; log lines
  and metrics are left out, except for the label a write is counted under.
\<close>

section \<open>provider.go: the registry\<close>

record 'h built =
  bKind :: string
  bASR :: bool
  bLLM :: bool
  bTTS :: bool
  bHandle :: 'h

type_synonym 'h factory = "string \<Rightarrow> json option \<Rightarrow> string + 'h built"
type_synonym 'h registry = "string \<Rightarrow> string \<Rightarrow> 'h factory option"

text \<open>Registering a name twice panics (\<^term>\<open>None\<close>).\<close>

definition Register :: "string \<Rightarrow> string \<Rightarrow> 'h factory \<Rightarrow> 'h registry \<Rightarrow> 'h registry option" where
  "Register kind name f reg =
     (if reg kind name \<noteq> None then None else Some (reg(kind := (reg kind)(name \<mapsto> f))))"

definition Known :: "'h registry \<Rightarrow> string \<Rightarrow> string \<Rightarrow> bool" where
  "Known reg kind name \<longleftrightarrow> reg kind name \<noteq> None"

definition provider_New :: "'h registry \<Rightarrow> string \<Rightarrow> string \<Rightarrow> string \<Rightarrow> json option \<Rightarrow> string + 'h built" where
  "provider_New reg kind name apiKey options =
     (case reg kind name of
        None \<Rightarrow> Inl (''provider: unknown '' @ kind @ '' provider '' @ name)
      | Some f \<Rightarrow> (case f apiKey options of
            Inl e \<Rightarrow> Inl e
          | Inr p \<Rightarrow> if bKind p \<noteq> kind
                     then Inl (''provider: '' @ name @ '' registered as '' @ kind @ '' but reports kind '' @ bKind p)
                     else Inr p))"

section \<open>api.go: errors\<close>

datatype api_msg = Text string | FieldMsg field_msg

record apiError =
  aeStatus :: nat
  aeCode :: string
  aeMessage :: api_msg
  aeParam :: string

datatype admin_error = Api apiError | Field field_error

definition invalid_request_error :: string where "invalid_request_error = ''invalid_request_error''"

definition Result :: "apiError \<Rightarrow> string" where
  "Result e = (if aeStatus e = 409 then ''conflict'' else if aeStatus e = 404 then ''not_found''
     else if aeStatus e = 500 then ''persist_error'' else ''invalid'')"

definition badRequest :: "admin_error \<Rightarrow> admin_error" where
  "badRequest err = (case err of
     Api ae \<Rightarrow> Api ae
   | Field fe \<Rightarrow> Api \<lparr>aeStatus = 400, aeCode = invalid_request_error, aeMessage = FieldMsg (feMsg fe), aeParam = feField fe\<rparr>)"

definition notFound :: "string \<Rightarrow> string \<Rightarrow> admin_error" where
  "notFound kind name = Api \<lparr>aeStatus = 404, aeCode = invalid_request_error,
     aeMessage = Text (''No such '' @ kind @ '': '' @ name @ ''.''), aeParam = []\<rparr>"

definition conflict :: "string \<Rightarrow> admin_error" where
  "conflict msg = Api \<lparr>aeStatus = 409, aeCode = invalid_request_error, aeMessage = Text msg, aeParam = []\<rparr>"

text \<open>The body of a response: a rendered value, or the error object.\<close>

datatype admin_body = ConfigBody RuntimeConfig | ProvidersBody "(string \<times> ProviderInstance) list" | ProviderBody ProviderInstance
  | ProfilesBody "(string \<times> Profile) list" | ProfileBody Profile | SettingsBody string
  | ErrorBody string api_msg "string option" | NoBody

record adminResponse =
  rStatus :: nat
  rBody :: admin_body

definition writeJSON :: "nat \<Rightarrow> admin_body \<Rightarrow> adminResponse" where
  "writeJSON status v = \<lparr>rStatus = status, rBody = v\<rparr>"

definition writeError :: "admin_error \<Rightarrow> adminResponse" where
  "writeError err =
     (let ae = (case err of Api e \<Rightarrow> e
                | Field fe \<Rightarrow> \<lparr>aeStatus = 500, aeCode = ''server_error'', aeMessage = FieldMsg (feMsg fe), aeParam = []\<rparr>)
      in writeJSON (aeStatus ae) (ErrorBody (aeCode ae) (aeMessage ae) (if aeParam ae = [] then None else Some (aeParam ae))))"

section \<open>api.go: redaction\<close>

definition SecretMask :: string where "SecretMask = ''***''"

definition redactProvider :: "ProviderInstance \<Rightarrow> ProviderInstance" where
  "redactProvider p = p\<lparr>piAPIKey := SecretMask\<rparr>"

definition redactConfig :: "RuntimeConfig \<Rightarrow> RuntimeConfig" where
  "redactConfig c = c\<lparr>rcProviders := map (map_prod id (piAPIKey_update (\<lambda>_. SecretMask))) (rcProviders c)\<rparr>"

definition unmask :: "RuntimeConfig \<Rightarrow> string \<Rightarrow> ProviderInstance \<Rightarrow> admin_error + ProviderInstance" where
  "unmask cur field p =
     (if piAPIKey p \<noteq> SecretMask then Inr p
      else case map_of (rcProviders cur) (piName p) of
        None \<Rightarrow> Inl (Field (FieldError (field @ ''.api_key'') (NothingToKeep (piName p))))
      | Some prev \<Rightarrow> Inr (p\<lparr>piAPIKey := piAPIKey prev\<rparr>))"

section \<open>store.go: the store\<close>

type_synonym disk = "string \<Rightarrow> document option"

record 'h adminSnapshot =
  snCfg :: RuntimeConfig
  snBuilt :: "(string \<times> 'h built) list"

record 'h store =
  stCur :: "'h adminSnapshot"
  stDisk :: disk

text \<open>What the store is opened with and does not change.\<close>

record 'h env =
  enPath :: string
  enKnown :: ProviderLookup
  enLookupEnv :: "string \<Rightarrow> string option"
  enFmt :: "f64 \<Rightarrow> string"
  enRegistry :: "'h registry"

text \<open>\<open>build\<close>: the loop over the profiles in name order and the three roles of each. A nil instance would
  panic.\<close>

datatype build_error = Refused admin_error | NilInstance

definition build_key :: "string \<Rightarrow> string \<Rightarrow> string" where
  "build_key kind instance = kind @ ''/'' @ instance"

definition build_ref :: "'h env \<Rightarrow> RuntimeConfig \<Rightarrow> string \<times> string \<Rightarrow> (string \<times> 'h built) list \<Rightarrow> build_error + (string \<times> 'h built) list" where
  "build_ref env rc ref done' =
     (case ref of (kind, inst_name) \<Rightarrow>
        if map_of done' (build_key kind inst_name) \<noteq> None then Inr done'
        else case map_of (rcProviders rc) inst_name of
          None \<Rightarrow> Inl NilInstance
        | Some inst \<Rightarrow>
            (let field = ''providers.'' @ piName inst in
             case ExpandEnv (field @ ''.api_key'') (piAPIKey inst) (enLookupEnv env) of
               Inl e \<Rightarrow> Inl (Refused (Field e))
             | Inr apiKey \<Rightarrow>
                 (case provider_New (enRegistry env) kind (piType inst) apiKey (piOptions inst) of
                    Inl e \<Rightarrow> Inl (Refused (Field (FieldError (field @ ''.options'') (BuildFailed e))))
                  | Inr p \<Rightarrow> Inr (AList.update (build_key kind inst_name) p done'))))"

fun build_refs :: "'h env \<Rightarrow> RuntimeConfig \<Rightarrow> (string \<times> string) list \<Rightarrow> (string \<times> 'h built) list \<Rightarrow> build_error + (string \<times> 'h built) list" where
  "build_refs env rc [] done' = Inr done'"
| "build_refs env rc (r # rs) done' = (case build_ref env rc r done' of Inl e \<Rightarrow> Inl e | Inr d \<Rightarrow> build_refs env rc rs d)"

definition profile_at :: "RuntimeConfig \<Rightarrow> string \<Rightarrow> (string \<times> string) list" where
  "profile_at rc name = (case map_of (rcProfiles rc) name of None \<Rightarrow> [] | Some p \<Rightarrow> profile_refs p)"

definition build :: "'h env \<Rightarrow> RuntimeConfig \<Rightarrow> build_error + (string \<times> 'h built) list" where
  "build env rc = build_refs env rc (concat (map (profile_at rc) (ProfileNames rc))) []"

definition compile :: "'h env \<Rightarrow> RuntimeConfig \<Rightarrow> build_error + 'h adminSnapshot" where
  "compile env rc =
     (case RuntimeConfig_validate [] (enKnown env) rc of
        Some e \<Rightarrow> Inl (Refused (Field e))
      | None \<Rightarrow> (case build env rc of Inl e \<Rightarrow> Inl e | Inr b \<Rightarrow> Inr \<lparr>snCfg = rc, snBuilt = b\<rparr>))"

definition prepare :: "'h env \<Rightarrow> document \<Rightarrow> string \<Rightarrow> build_error + 'h adminSnapshot" where
  "prepare env raw field =
     (case DecodeRuntimeConfig raw field of Inl e \<Rightarrow> Inl (Refused (Field e)) | Inr rc \<Rightarrow> compile env rc)"

text \<open>\<open>persist\<close>: the steps on a temporary file, then the rename, each of which may fail. The disk after every
  step that ran is listed, for what a crash could leave; the deferred removal of the temporary file comes
  last. A file that is being written holds no JSON value yet.\<close>

datatype persist_step = CreateTemp | Chmod | WriteBody | Fsync | CloseTemp | Rename

definition torn :: document where "torn = \<lparr>docTree = None, docTail = AtEOF\<rparr>"

definition persist_effect :: "string \<Rightarrow> string \<Rightarrow> document \<Rightarrow> persist_step \<Rightarrow> disk \<Rightarrow> disk" where
  "persist_effect path tmp body st d = (case st of
     CreateTemp \<Rightarrow> d(tmp \<mapsto> torn) | WriteBody \<Rightarrow> d(tmp \<mapsto> body)
   | Rename \<Rightarrow> (d(path := d tmp))(tmp := None) | _ \<Rightarrow> d)"

fun persist_from :: "(disk \<Rightarrow> persist_step \<Rightarrow> disk) \<Rightarrow> persist_step option \<Rightarrow> persist_step list \<Rightarrow> disk \<Rightarrow> disk list \<times> bool" where
  "persist_from eff fails [] d = ([d], True)"
| "persist_from eff fails (st # sts) d =
     (if fails = Some st then ([d], False)
      else let (ds, ok) = persist_from eff fails sts (eff d st) in (d # ds, ok))"

definition persist :: "'h env \<Rightarrow> string \<Rightarrow> persist_step option \<Rightarrow> RuntimeConfig \<Rightarrow> disk \<Rightarrow> disk list \<times> bool" where
  "persist env tmp fails c d =
     (let (ds, ok) = persist_from (\<lambda>d st. persist_effect (enPath env) tmp (MarshalRuntimeConfig (enFmt env) c) st d) fails
            [CreateTemp, Chmod, WriteBody, Fsync, CloseTemp, Rename] d
      in (if fails = Some CreateTemp then ds else ds @ [(last ds)(tmp := None)], ok))"

text \<open>What the file system does to one write: the name the temporary file gets and the step that fails.\<close>

record io =
  ioTmp :: string
  ioFails :: "persist_step option"

definition emptyRuntimeConfig :: RuntimeConfig where
  "emptyRuntimeConfig = \<lparr>rcProviders = [], rcProfiles = [], rcDefaultProfile = []\<rparr>"

datatype open_error = OpenRefused build_error | PersistFailed | ReadFailed

definition Open :: "'h env \<Rightarrow> document option \<Rightarrow> bool \<Rightarrow> io \<Rightarrow> disk \<Rightarrow> open_error + 'h store" where
  "Open env bootstrap readable w d =
     (if \<not> readable then Inl ReadFailed
      else case d (enPath env) of
        Some raw \<Rightarrow>
          (case prepare env raw [] of Inl e \<Rightarrow> Inl (OpenRefused e) | Inr snap \<Rightarrow> Inr \<lparr>stCur = snap, stDisk = d\<rparr>)
      | None \<Rightarrow>
          (case bootstrap of
             Some raw \<Rightarrow>
               (case prepare env raw bootstrapKey of
                  Inl e \<Rightarrow> Inl (OpenRefused e)
                | Inr snap \<Rightarrow>
                    (let (ds, ok) = persist env (ioTmp w) (ioFails w) (snCfg snap) d
                     in if \<not> ok then Inl PersistFailed else Inr \<lparr>stCur = snap, stDisk = last ds\<rparr>))
           | None \<Rightarrow> Inr \<lparr>stCur = \<lparr>snCfg = emptyRuntimeConfig, snBuilt = []\<rparr>, stDisk = d\<rparr>))"

record 'h AdminRuntime =
  rtProfile :: string
  rtASRName :: string
  rtLLMName :: string
  rtTTSName :: string
  rtSession :: SessionDefaults
  rtASRLanguage :: string
  rtASRModel :: string
  rtTemperature :: "f64 option"
  rtASR :: "'h built"
  rtLLM :: "'h built"
  rtTTS :: "'h built"

datatype resolve_error = ErrNoDefaultProfile | NotImplemented string string

text \<open>The type assertion on an entry of the built map: a missing entry is nil and fails it.\<close>

definition asserted :: "('h built \<Rightarrow> bool) \<Rightarrow> 'h adminSnapshot \<Rightarrow> string \<Rightarrow> string \<Rightarrow> resolve_error + 'h built" where
  "asserted implements snap kind inst_name =
     (case map_of (snBuilt snap) (build_key kind inst_name) of
        Some p \<Rightarrow> if implements p then Inr p else Inl (NotImplemented kind inst_name)
      | None \<Rightarrow> Inl (NotImplemented kind inst_name))"

definition Resolve :: "'h store \<Rightarrow> resolve_error + 'h AdminRuntime" where
  "Resolve s =
     (let snap = stCur s; name = rcDefaultProfile (snCfg snap) in
      if name = [] then Inl ErrNoDefaultProfile
      else case map_of (rcProfiles (snCfg snap)) name of
        None \<Rightarrow> Inl ErrNoDefaultProfile
      | Some p \<Rightarrow>
          (case asserted bASR snap ''asr'' (prASR p) of Inl e \<Rightarrow> Inl e
           | Inr a \<Rightarrow> (case asserted bLLM snap ''llm'' (prLLM p) of Inl e \<Rightarrow> Inl e
           | Inr l \<Rightarrow> (case asserted bTTS snap ''tts'' (prTTS p) of Inl e \<Rightarrow> Inl e
           | Inr t \<Rightarrow> Inr \<lparr>rtProfile = prName p, rtASRName = prASR p, rtLLMName = prLLM p, rtTTSName = prTTS p,
               rtSession = Profile_SessionDefaults p, rtASRLanguage = prASRLanguage p, rtASRModel = prASRModel p,
               rtTemperature = prTemperature p, rtASR = a, rtLLM = l, rtTTS = t\<rparr>))))"

definition persist_error :: admin_error where
  "persist_error = Api \<lparr>aeStatus = 500, aeCode = ''server_error'',
     aeMessage = Text ''The runtime configuration could not be persisted; nothing was changed.'', aeParam = []\<rparr>"

text \<open>A write: copy, apply, validate, build, persist, swap. A panic while building (never reached) leaves the
  store as it was.\<close>

definition update :: "'h env \<Rightarrow> io \<Rightarrow> (RuntimeConfig \<Rightarrow> admin_error + RuntimeConfig) \<Rightarrow> 'h store \<Rightarrow> 'h store \<times> (build_error + RuntimeConfig)" where
  "update env w apply s =
     (case apply (snCfg (stCur s)) of
        Inl e \<Rightarrow> (s, Inl (Refused e))
      | Inr cand \<Rightarrow>
          (case compile env cand of
             Inl (Refused e) \<Rightarrow> (s, Inl (Refused (badRequest e)))
           | Inl NilInstance \<Rightarrow> (s, Inl NilInstance)
           | Inr snap \<Rightarrow>
               (let (ds, ok) = persist env (ioTmp w) (ioFails w) cand (stDisk s) in
                if \<not> ok then (s\<lparr>stDisk := last ds\<rparr>, Inl (Refused persist_error))
                else (\<lparr>stCur = snap, stDisk = last ds\<rparr>, Inr cand))))"

text \<open>The label the write is counted under.\<close>

definition store_record :: "admin_error option \<Rightarrow> string" where
  "store_record err = (case err of None \<Rightarrow> ''ok'' | Some (Api ae) \<Rightarrow> Result ae | Some (Field _) \<Rightarrow> ''invalid'')"

section \<open>http.go\<close>

datatype route = GetConfig | PutConfig | ListProviders | GetProvider string | PutProvider string | DeleteProvider string
  | ListProfiles | GetProfile string | PutProfile string | DeleteProfile string | GetSettings | PutSettings

text \<open>The body is \<^term>\<open>None\<close> when it cannot be read, for instance beyond \<open>maxBodyBytes\<close>.\<close>

record request =
  rqRoute :: route
  rqAuthorization :: string
  rqBody :: "document option"

fun unmask_all :: "RuntimeConfig \<Rightarrow> (string \<times> ProviderInstance) list \<Rightarrow> admin_error + (string \<times> ProviderInstance) list" where
  "unmask_all cur [] = Inr []"
| "unmask_all cur ((name, p) # ps) =
     (case unmask cur (''providers.'' @ name) p of Inl e \<Rightarrow> Inl e
      | Inr q \<Rightarrow> (case unmask_all cur ps of Inl e \<Rightarrow> Inl e | Inr qs \<Rightarrow> Inr ((name, q) # qs)))"

definition putConfig :: "document \<Rightarrow> RuntimeConfig \<Rightarrow> admin_error + RuntimeConfig" where
  "putConfig body cur =
     (case DecodeRuntimeConfig body [] of
        Inl e \<Rightarrow> Inl (badRequest (Field e))
      | Inr doc \<Rightarrow> (case unmask_all cur (rcProviders doc) of
          Inl e \<Rightarrow> Inl (badRequest e) | Inr ps \<Rightarrow> Inr (doc\<lparr>rcProviders := ps\<rparr>)))"

definition putProvider :: "string \<Rightarrow> document \<Rightarrow> RuntimeConfig \<Rightarrow> admin_error + RuntimeConfig" where
  "putProvider name body cur =
     (case DecodeProviderInstance body (''providers.'' @ name) name of
        Inl e \<Rightarrow> Inl (badRequest (Field e))
      | Inr p \<Rightarrow> (case unmask cur (''providers.'' @ name) p of
          Inl e \<Rightarrow> Inl (badRequest e) | Inr q \<Rightarrow> Inr (cur\<lparr>rcProviders := AList.update name q (rcProviders cur)\<rparr>)))"

definition references :: "string \<Rightarrow> Profile \<Rightarrow> bool" where
  "references name p \<longleftrightarrow> prASR p = name \<or> prLLM p = name \<or> prTTS p = name"

definition deleteProvider :: "string \<Rightarrow> RuntimeConfig \<Rightarrow> admin_error + RuntimeConfig" where
  "deleteProvider name cur =
     (if map_of (rcProviders cur) name = None then Inl (notFound ''provider'' name)
      else case find (\<lambda>pn. case map_of (rcProfiles cur) pn of None \<Rightarrow> False | Some p \<Rightarrow> references name p) (ProfileNames cur) of
        Some pn \<Rightarrow> Inl (conflict (''Provider '' @ name @ '' is still referenced by profile '' @ pn @ ''.''))
      | None \<Rightarrow> Inr (cur\<lparr>rcProviders := AList.delete name (rcProviders cur)\<rparr>))"

definition putProfile :: "string \<Rightarrow> document \<Rightarrow> RuntimeConfig \<Rightarrow> admin_error + RuntimeConfig" where
  "putProfile name body cur =
     (case DecodeProfile body (''profiles.'' @ name) name of
        Inl e \<Rightarrow> Inl (badRequest (Field e))
      | Inr p \<Rightarrow> Inr (cur\<lparr>rcProfiles := AList.update name p (rcProfiles cur)\<rparr>))"

definition deleteProfile :: "string \<Rightarrow> RuntimeConfig \<Rightarrow> admin_error + RuntimeConfig" where
  "deleteProfile name cur =
     (if map_of (rcProfiles cur) name = None then Inl (notFound ''profile'' name)
      else if rcDefaultProfile cur = name
      then Inl (conflict (''Profile '' @ name @ '' is still referenced by settings.default_profile.''))
      else Inr (cur\<lparr>rcProfiles := AList.delete name (rcProfiles cur)\<rparr>))"

definition putSettings :: "document \<Rightarrow> RuntimeConfig \<Rightarrow> admin_error + RuntimeConfig" where
  "putSettings body cur =
     (case DecodeSettings body ''settings'' of
        Inl e \<Rightarrow> Inl (badRequest (Field e)) | Inr st \<Rightarrow> Inr (cur\<lparr>rcDefaultProfile := st\<rparr>))"

definition unreadable_body :: admin_error where
  "unreadable_body = Api \<lparr>aeStatus = 400, aeCode = invalid_request_error, aeMessage = Text ''The request body could not be read.'', aeParam = []\<rparr>"

text \<open>\<open>write\<close>: a deletion has no body and answers 204. A panic in a handler is answered by nothing
  (\<^term>\<open>None\<close>).\<close>

definition run_update :: "'h env \<Rightarrow> io \<Rightarrow> (RuntimeConfig \<Rightarrow> admin_error + RuntimeConfig) \<Rightarrow> (RuntimeConfig \<Rightarrow> adminResponse) \<Rightarrow> 'h store \<Rightarrow> 'h store \<times> adminResponse option" where
  "run_update env w apply respond s =
     (case update env w apply s of
        (s', Inl (Refused e)) \<Rightarrow> (s', Some (writeError e))
      | (s', Inl NilInstance) \<Rightarrow> (s', None)
      | (s', Inr live) \<Rightarrow> (s', Some (respond live)))"

definition write_body :: "'h env \<Rightarrow> io \<Rightarrow> request \<Rightarrow> (document \<Rightarrow> RuntimeConfig \<Rightarrow> admin_error + RuntimeConfig) \<Rightarrow> (RuntimeConfig \<Rightarrow> admin_body) \<Rightarrow> 'h store \<Rightarrow> 'h store \<times> adminResponse option" where
  "write_body env w r apply respond s =
     (case rqBody r of
        None \<Rightarrow> (s, Some (writeError unreadable_body))
      | Some body \<Rightarrow> run_update env w (apply body) (\<lambda>live. writeJSON 200 (respond live)) s)"

definition write_delete :: "'h env \<Rightarrow> io \<Rightarrow> (RuntimeConfig \<Rightarrow> admin_error + RuntimeConfig) \<Rightarrow> 'h store \<Rightarrow> 'h store \<times> adminResponse option" where
  "write_delete env w apply s = run_update env w apply (\<lambda>_. \<lparr>rStatus = 204, rBody = NoBody\<rparr>) s"

text \<open>The value of an entry the handler has just written.\<close>

definition entry_body :: "('a \<Rightarrow> admin_body) \<Rightarrow> (string \<times> 'a) list \<Rightarrow> string \<Rightarrow> admin_body" where
  "entry_body f m name = (case map_of m name of None \<Rightarrow> NoBody | Some v \<Rightarrow> f v)"

definition get_entry :: "('a \<Rightarrow> admin_body) \<Rightarrow> string \<Rightarrow> (string \<times> 'a) list \<Rightarrow> string \<Rightarrow> adminResponse" where
  "get_entry f kind m name = (case map_of m name of
     None \<Rightarrow> writeError (notFound kind name) | Some v \<Rightarrow> writeJSON 200 (f v))"

definition store_Config :: "'h store \<Rightarrow> RuntimeConfig" where
  "store_Config s = snCfg (stCur s)"

definition serve_admin :: "'h env \<Rightarrow> io \<Rightarrow> request \<Rightarrow> 'h store \<Rightarrow> 'h store \<times> adminResponse option" where
  "serve_admin env w r s =
     (case rqRoute r of
        GetConfig \<Rightarrow> (s, Some (writeJSON 200 (ConfigBody (redactConfig (store_Config s)))))
      | ListProviders \<Rightarrow> (s, Some (writeJSON 200 (ProvidersBody (rcProviders (redactConfig (store_Config s))))))
      | GetProvider name \<Rightarrow> (s, Some (get_entry (ProviderBody \<circ> redactProvider) ''provider'' (rcProviders (store_Config s)) name))
      | ListProfiles \<Rightarrow> (s, Some (writeJSON 200 (ProfilesBody (rcProfiles (store_Config s)))))
      | GetProfile name \<Rightarrow> (s, Some (get_entry ProfileBody ''profile'' (rcProfiles (store_Config s)) name))
      | GetSettings \<Rightarrow> (s, Some (writeJSON 200 (SettingsBody (rcDefaultProfile (store_Config s)))))
      | PutConfig \<Rightarrow> write_body env w r putConfig (ConfigBody \<circ> redactConfig) s
      | PutProvider name \<Rightarrow> write_body env w r (putProvider name) (\<lambda>c. entry_body (ProviderBody \<circ> redactProvider) (rcProviders c) name) s
      | DeleteProvider name \<Rightarrow> write_delete env w (deleteProvider name) s
      | PutProfile name \<Rightarrow> write_body env w r (putProfile name) (\<lambda>c. entry_body ProfileBody (rcProfiles c) name) s
      | DeleteProfile name \<Rightarrow> write_delete env w (deleteProfile name) s
      | PutSettings \<Rightarrow> write_body env w r putSettings (SettingsBody \<circ> rcDefaultProfile) s)"

definition bearer :: "string \<Rightarrow> string \<Rightarrow> bool" where
  "bearer apiKey h \<longleftrightarrow> take 7 h = ''Bearer '' \<and> trim_space (drop 7 h) = apiKey"

definition unauthorized :: admin_error where
  "unauthorized = Api \<lparr>aeStatus = 401, aeCode = invalid_request_error,
     aeMessage = Text ''Missing or invalid Authorization header; expected 'Bearer <ADMIN_API_KEY>'.'', aeParam = []\<rparr>"

definition authenticate :: "'h env \<Rightarrow> string \<Rightarrow> io \<Rightarrow> request \<Rightarrow> 'h store \<Rightarrow> 'h store \<times> adminResponse option" where
  "authenticate env apiKey w r s =
     (if apiKey \<noteq> [] \<and> bearer apiKey (rqAuthorization r) then serve_admin env w r s
      else (s, Some (writeError unauthorized)))"

end
