(* ===== verification/AdminProps.thy ===== *)
theory AdminProps
  imports Admin
begin

text \<open>
  What the admin store promises: the live configuration is always valid and completely built, the state
  file holds it, a write happens entirely or not at all, secrets stay behind their mask, and a new
  connection finds usable session defaults whenever a default profile is set.
\<close>

section \<open>Building\<close>

lemma compile_Inr:
  "compile env rc = Inr snap \<longleftrightarrow> snCfg snap = rc \<and> runtime_ok (enKnown env) rc \<and> build env rc = Inr (snBuilt snap)"
  unfolding runtime_validate_None [symmetric, where prefix = "[]"]
  by (auto simp: compile_def split: option.splits sum.splits)

text \<open>What the loop of \<open>build\<close> keeps: an entry under a role reports that role.\<close>

definition roles_right :: "(string \<times> 'h built) list \<Rightarrow> bool" where
  "roles_right b \<longleftrightarrow> (\<forall>kind i p. kind \<in> set providerKinds \<longrightarrow> map_of b (build_key kind i) = Some p \<longrightarrow> bKind p = kind)"

lemma build_key_inj:
  "kind \<in> set providerKinds \<Longrightarrow> kind' \<in> set providerKinds \<Longrightarrow> build_key kind i = build_key kind' j \<longleftrightarrow> kind = kind' \<and> i = j"
  by (auto simp: providerKinds_def build_key_def)

lemma provider_New_kind: "provider_New reg kind name k opts = Inr p \<Longrightarrow> bKind p = kind"
  by (auto simp: provider_New_def split: option.splits sum.splits if_splits)

lemma build_ref_cases:
  assumes "build_ref env rc (kind, i) b = Inr b'"
  obtains (built) "b' = b" "map_of b (build_key kind i) \<noteq> None"
  | (fresh) p where "b' = AList.update (build_key kind i) p b" "bKind p = kind"
  using assms by (auto simp: build_ref_def Let_def split: if_split_asm option.split_asm sum.split_asm dest: provider_New_kind)

lemma build_ref_Inr:
  assumes "build_ref env rc (kind, i) b = Inr b'" "roles_right b" "kind \<in> set providerKinds"
  shows "roles_right b' \<and> map_of b' (build_key kind i) \<noteq> None \<and> dom (map_of b) \<subseteq> dom (map_of b')"
  using assms(1)
proof (cases rule: build_ref_cases)
  case built
  then show ?thesis using assms(2) by simp
next
  case (fresh p)
  have m: "map_of b' = (map_of b)(build_key kind i \<mapsto> p)" using fresh(1) by (simp add: update_conv')
  have "roles_right b'"
    unfolding roles_right_def m
  proof (intro allI impI)
    fix kind' j q
    assume k: "kind' \<in> set providerKinds" and q: "((map_of b)(build_key kind i \<mapsto> p)) (build_key kind' j) = Some q"
    show "bKind q = kind'"
    proof (cases "build_key kind i = build_key kind' j")
      case True
      then show ?thesis using q fresh(2) build_key_inj [OF assms(3) k] by simp
    next
      case False
      then show ?thesis using q k assms(2) by (simp add: roles_right_def)
    qed
  qed
  then show ?thesis by (simp add: m) blast
qed

lemma build_refs_Inr:
  "build_refs env rc rs b = Inr b' \<Longrightarrow> roles_right b \<Longrightarrow> fst ` set rs \<subseteq> set providerKinds \<Longrightarrow>
   roles_right b' \<and> dom (map_of b) \<subseteq> dom (map_of b') \<and> (\<forall>(kind, i) \<in> set rs. map_of b' (build_key kind i) \<noteq> None)"
proof (induction rs arbitrary: b)
  case (Cons r rs)
  obtain kind i where r: "r = (kind, i)" by (cases r)
  obtain b1 where b1: "build_ref env rc (kind, i) b = Inr b1" "build_refs env rc rs b1 = Inr b'"
    using Cons.prems(1) r by (auto split: sum.splits)
  have k: "kind \<in> set providerKinds" using Cons.prems(3) r by simp
  note step = build_ref_Inr [OF b1(1) Cons.prems(2) k]
  have "roles_right b' \<and> dom (map_of b1) \<subseteq> dom (map_of b') \<and> (\<forall>(kind, i) \<in> set rs. map_of b' (build_key kind i) \<noteq> None)"
    using Cons.IH [OF b1(2)] step Cons.prems(3) by simp
  moreover from this have "dom (map_of b) \<subseteq> dom (map_of b')" "build_key kind i \<in> dom (map_of b')"
    using step by (blast, blast)
  ultimately show ?case using r by auto
qed simp

lemma refs_kinds: "fst ` set (concat (map (profile_at rc) ns)) \<subseteq> set providerKinds"
  by (auto simp: profile_at_def profile_refs_def providerKinds_def split: option.splits)

lemma build_complete:
  assumes "build env rc = Inr b" "map_of (rcProfiles rc) name = Some p" "(kind, i) \<in> set (profile_refs p)"
  obtains q where "map_of b (build_key kind i) = Some q" "bKind q = kind"
proof -
  have all: "roles_right b \<and> (\<forall>(kind, i) \<in> set (concat (map (profile_at rc) (ProfileNames rc))). map_of b (build_key kind i) \<noteq> None)"
    using build_refs_Inr [OF assms(1) [unfolded build_def] _ refs_kinds] by (simp add: roles_right_def)
  have "(kind, i) \<in> set (concat (map (profile_at rc) (ProfileNames rc)))"
    using assms(2,3) names_dom(2) [of rc] by (force simp: profile_at_def)
  moreover have "kind \<in> set providerKinds" using assms(3) by (auto simp: profile_refs_def providerKinds_def)
  ultimately show thesis using all that by (fastforce simp: roles_right_def)
qed

text \<open>A valid configuration never makes the build dereference a nil instance.\<close>

lemma build_refs_no_nil:
  "(\<And>kind i. (kind, i) \<in> set rs \<Longrightarrow> map_of (rcProviders rc) i \<noteq> None) \<Longrightarrow> build_refs env rc rs b \<noteq> Inl NilInstance"
proof (induction rs arbitrary: b)
  case (Cons r rs)
  have "build_ref env rc r b \<noteq> Inl NilInstance"
    using Cons.prems [of "fst r" "snd r"] by (auto simp: build_ref_def Let_def split: prod.splits option.splits sum.splits)
  then show ?case using Cons.IH Cons.prems by (auto split: sum.splits)
qed simp

lemma compile_no_nil: "compile env rc \<noteq> Inl NilInstance"
proof -
  have "build env rc \<noteq> Inl NilInstance" if "runtime_ok (enKnown env) rc"
    unfolding build_def
  proof (rule build_refs_no_nil)
    fix kind i
    assume "(kind, i) \<in> set (concat (map (profile_at rc) (ProfileNames rc)))"
    then obtain name p where "map_of (rcProfiles rc) name = Some p" "(kind, i) \<in> set (profile_refs p)"
      by (auto simp: profile_at_def split: option.split_asm dest: sym)
    then show "map_of (rcProviders rc) i \<noteq> None" using that by (fastforce simp: runtime_ok_def list_all_iff ref_ok_def)
  qed
  then show ?thesis
    unfolding runtime_validate_None [symmetric, where prefix = "[]"]
    by (auto simp: compile_def split: option.splits sum.splits)
qed

section \<open>Persisting\<close>

abbreviation document_of :: "'h env \<Rightarrow> RuntimeConfig \<Rightarrow> document" where
  "document_of env c \<equiv> MarshalRuntimeConfig (enFmt env) c"

lemma persist_runs:
  assumes "tmp \<noteq> enPath env" "d tmp = None"
  shows "case persist env tmp fails c d of (ds, ok) \<Rightarrow>
    (\<forall>d' \<in> set ds. d' (enPath env) = d (enPath env) \<or> d' (enPath env) = Some (document_of env c)) \<and>
    ok = (fails = None) \<and> last ds = (if ok then d(enPath env \<mapsto> document_of env c) else d)"
proof (cases fails)
  case None
  then show ?thesis using assms by (auto simp: persist_def persist_effect_def Let_def)
next
  case (Some st)
  then show ?thesis using assms by (cases st) (auto simp: persist_def persist_effect_def Let_def)
qed

text \<open>\<^bold>\<open>C13\<close>: the state file is replaced atomically. At every moment of a write, whichever step fails or the
  process dies after, the file at its path is the old one or the complete new one; the write reports
  success exactly when it ends with the new one, and leaves no temporary file and no other change.\<close>

theorem persist_atomic:
  assumes "tmp \<noteq> enPath env" "d tmp = None"
  shows "case persist env tmp fails c d of (ds, ok) \<Rightarrow>
    (\<forall>d' \<in> set ds. d' (enPath env) = d (enPath env) \<or> d' (enPath env) = Some (document_of env c)) \<and>
    ok = (fails = None) \<and> last ds = (if ok then d(enPath env \<mapsto> document_of env c) else d)"
  using assms by (rule persist_runs)

theorem persist_atomic_witness:
  "case persist (\<lparr>enPath = ''s'', enKnown = None, enLookupEnv = Map.empty, enFmt = demo_fmt, enRegistry = (\<lambda>_ _. None)\<rparr> :: unit env)
      ''t'' (Some Rename) demo_config Map.empty of (ds, ok) \<Rightarrow>
    (\<forall>d' \<in> set ds. d' ''s'' = None \<or> d' ''s'' = Some (MarshalRuntimeConfig demo_fmt demo_config)) \<and> \<not> ok \<and> last ds = Map.empty"
  using persist_atomic [of "''t''" "\<lparr>enPath = ''s'', enKnown = None, enLookupEnv = Map.empty, enFmt = demo_fmt, enRegistry = (\<lambda>_ _. None)\<rparr> :: unit env"
      Map.empty demo_config "Some Rename"]
  by (auto split: prod.splits if_splits)

lemma persist_last:
  "tmp \<noteq> enPath env \<Longrightarrow> d tmp = None \<Longrightarrow> persist env tmp fails c d = (ds, ok) \<Longrightarrow>
   ok = (fails = None) \<and> last ds = (if ok then d(enPath env \<mapsto> document_of env c) else d)"
  using persist_runs [of tmp env d c fails] by simp

section \<open>The invariant\<close>

text \<open>The temporary file gets a name no file has.\<close>

definition io_ok :: "'h env \<Rightarrow> io \<Rightarrow> disk \<Rightarrow> bool" where
  "io_ok env w d \<longleftrightarrow> ioTmp w \<noteq> enPath env \<and> d (ioTmp w) = None"

inductive store_reach :: "'h env \<Rightarrow> 'h store \<Rightarrow> bool" for env where
  opened: "Open env bootstrap readable w d = Inr s \<Longrightarrow> io_ok env w d \<Longrightarrow> store_reach env s"
| request: "store_reach env s \<Longrightarrow> io_ok env w (stDisk s) \<Longrightarrow> authenticate env key w r s = (s', resp) \<Longrightarrow> store_reach env s'"

text \<open>The file holds the live configuration: as the store wrote it, or as an operator wrote it and the store
  decoded it.\<close>

definition on_disk :: "'h env \<Rightarrow> 'h store \<Rightarrow> bool" where
  "on_disk env s \<longleftrightarrow> (case stDisk s (enPath env) of
     None \<Rightarrow> store_Config s = emptyRuntimeConfig
   | Some raw \<Rightarrow> raw = document_of env (store_Config s) \<or> DecodeRuntimeConfig raw [] = Inr (store_Config s))"

definition store_ok :: "'h env \<Rightarrow> 'h store \<Rightarrow> bool" where
  "store_ok env s \<longleftrightarrow> distinct_names (store_Config s) \<and> runtime_ok (enKnown env) (store_Config s) \<and>
     build env (store_Config s) = Inr (snBuilt (stCur s)) \<and> on_disk env s"

lemma store_okI:
  assumes "compile env c = Inr snap" "distinct_names c" "on_disk env \<lparr>stCur = snap, stDisk = d\<rparr>"
  shows "store_ok env \<lparr>stCur = snap, stDisk = d\<rparr>"
  using assms by (auto simp: store_ok_def store_Config_def compile_Inr)

text \<open>Names stay distinct.\<close>

lemma put_all_distinct: "distinct (map fst m) \<Longrightarrow> distinct (map fst (put_all kvs m))"
  by (induction kvs m rule: put_all.induct) (auto simp: distinct_update)

lemma decode_each_names: "decode_each d kvs = Inr vs \<Longrightarrow> map fst vs = map fst kvs"
  by (induction kvs arbitrary: vs) (auto split: sum.splits)

lemma into_fields_inv:
  assumes "\<And>d j r r'. d \<in> snd ` set fs \<Longrightarrow> P r \<Longrightarrow> d j r = Some r' \<Longrightarrow> P r'"
  shows "into_fields fs kvs r = Some r' \<Longrightarrow> P r \<Longrightarrow> P r'"
proof (induction kvs arbitrary: r)
  case (Cons kv kvs)
  obtain k j where kv: "kv = (k, j)" by (cases kv)
  obtain d r1 where d: "find_field fs k = Some d" "d j r = Some r1" "into_fields fs kvs r1 = Some r'"
    using Cons.prems(1) kv by (auto split: option.split_asm)
  have "d \<in> snd ` set fs"
    using d(1) by (force simp: find_field_def find_Some_iff dest: map_of_SomeD nth_mem split: option.split_asm)
  then have "P r1" using assms d(2) Cons.prems(2) by blast
  then show ?case using Cons.IH d(3) by blast
qed simp

lemma decode_distinct: "DecodeRuntimeConfig raw field = Inr c \<Longrightarrow> distinct_names c"
proof -
  assume dec: "DecodeRuntimeConfig raw field = Inr c"
  let ?P = "\<lambda>r. distinct (map fst (rawProviders r)) \<and> distinct (map fst (rawProfiles r))"
  let ?r0 = "\<lparr>rawProviders = [], rawProfiles = [], rawSettings = []\<rparr>"
  obtain doc where doc: "strictDecode raw field raw_config_fields ?r0 = Inr doc"
      "map fst (rcProviders c) = map fst (rawProviders doc)" "map fst (rcProfiles c) = map fst (rawProfiles doc)"
    using dec by (auto simp: DecodeRuntimeConfig_def split: sum.split_asm dest!: decode_each_names)
  obtain kvs where "into_fields raw_config_fields kvs ?r0 = Some doc"
    using doc(1) by (auto simp: strictDecode_def split: option.split_asm if_split_asm json.split_asm)
  then have "?P doc"
  proof (rule into_fields_inv [where P = ?P, rotated])
    fix d j and r r' :: raw_config
    assume "d \<in> snd ` set raw_config_fields" "?P r" "d j r = Some r'"
    then show "?P r'"
      by (auto simp: raw_config_fields_def field_of_def into_raw_map_def put_all_distinct split: json.split_asm)
  qed simp
  then show ?thesis using doc(2,3) by (simp add: distinct_names_def)
qed

lemma unmask_all_names: "unmask_all cur ps = Inr qs \<Longrightarrow> map fst qs = map fst ps"
  by (induction ps arbitrary: qs) (auto split: sum.splits)

text \<open>The six writes, as the functions \<open>update\<close> applies.\<close>

definition applies :: "(RuntimeConfig \<Rightarrow> admin_error + RuntimeConfig) \<Rightarrow> bool" where
  "applies f \<longleftrightarrow> (\<exists>body. f = putConfig body) \<or> (\<exists>name body. f = putProvider name body) \<or> (\<exists>name. f = deleteProvider name) \<or>
     (\<exists>name body. f = putProfile name body) \<or> (\<exists>name. f = deleteProfile name) \<or> (\<exists>body. f = putSettings body)"

lemma appliesI [intro, simp]:
  "applies (putConfig body)" "applies (putProvider name body)" "applies (deleteProvider name)"
  "applies (putProfile name body)" "applies (deleteProfile name)" "applies (putSettings body)"
  by (auto simp: applies_def)

lemma applies_distinct:
  assumes "applies f" "f cur = Inr c" "distinct_names cur"
  shows "distinct_names c"
proof -
  have "distinct_names c" if "putConfig body cur = Inr c" for body
    using that by (auto simp: putConfig_def distinct_names_def split: sum.split_asm dest!: decode_distinct dest: unmask_all_names)
  moreover have "distinct_names c" if "putProvider name body cur = Inr c" for name body
    using that assms(3) by (auto simp: putProvider_def distinct_names_def distinct_update split: sum.split_asm)
  moreover have "distinct_names c" if "deleteProvider name cur = Inr c" for name
    using that assms(3) by (auto simp: deleteProvider_def distinct_names_def distinct_delete split: option.split_asm if_split_asm)
  moreover have "distinct_names c" if "putProfile name body cur = Inr c" for name body
    using that assms(3) by (auto simp: putProfile_def distinct_names_def distinct_update split: sum.split_asm)
  moreover have "distinct_names c" if "deleteProfile name cur = Inr c" for name
    using that assms(3) by (auto simp: deleteProfile_def distinct_names_def distinct_delete split: if_split_asm)
  moreover have "distinct_names c" if "putSettings body cur = Inr c" for body
    using that assms(3) by (auto simp: putSettings_def distinct_names_def split: sum.split_asm)
  ultimately show ?thesis using assms(1,2) by (auto simp: applies_def)
qed

text \<open>A request is a read, which changes nothing, or one of the writes.\<close>

lemma request_cases:
  assumes "authenticate env key w r s = (s', resp)"
  obtains (same) "s' = s" | (wrote) f respond where "applies f" "run_update env w f respond s = (s', resp)"
proof -
  have "s' = s \<or> (\<exists>f respond. applies f \<and> run_update env w f respond s = (s', resp))"
    using assms
    by (auto simp: authenticate_def serve_admin_def write_body_def write_delete_def split: if_split_asm route.split_asm option.split_asm)
  then show thesis using same wrote by blast
qed

lemma update_cases:
  assumes "update env w f s = (s', res)" "io_ok env w (stDisk s)"
  obtains (refused) e where "res = Inl (Refused e)" "s' = s"
  | (swapped) cand snap where "res = Inr cand" "f (store_Config s) = Inr cand" "compile env cand = Inr snap" "ioFails w = None"
      "s' = \<lparr>stCur = snap, stDisk = (stDisk s)(enPath env \<mapsto> document_of env cand)\<rparr>"
proof (cases "f (store_Config s)")
  case (Inl e)
  then show thesis using assms(1) refused by (auto simp: update_def store_Config_def)
next
  case f: (Inr cand)
  show thesis
  proof (cases "compile env cand")
    case (Inl e)
    then show thesis using assms(1) f refused compile_no_nil [of env cand]
      by (cases e) (auto simp: update_def store_Config_def)
  next
    case c: (Inr snap)
    obtain ds ok where p: "persist env (ioTmp w) (ioFails w) cand (stDisk s) = (ds, ok)" by fastforce
    have l: "ok = (ioFails w = None)" "last ds = (if ok then (stDisk s)(enPath env \<mapsto> document_of env cand) else stDisk s)"
      using persist_last [OF _ _ p] assms(2) by (simp_all add: io_ok_def)
    have same: "s\<lparr>stDisk := stDisk s\<rparr> = s" by simp
    show thesis
    proof (cases ok)
      case True
      then show thesis using assms(1) f c p l swapped [OF _ f c] by (auto simp: update_def store_Config_def)
    next
      case False
      then show thesis using assms(1) f c p l refused by (auto simp: update_def store_Config_def same)
    qed
  qed
qed

lemma store_Config_pair [simp]: "store_Config \<lparr>stCur = snap, stDisk = d\<rparr> = snCfg snap"
  by (simp add: store_Config_def)

lemma update_ok:
  assumes "store_ok env s" "applies f" "update env w f s = (s', res)" "io_ok env w (stDisk s)"
  shows "store_ok env s'"
  using assms(3,4)
proof (cases rule: update_cases)
  case (refused e)
  then show ?thesis using assms(1) by simp
next
  case (swapped cand snap)
  have "distinct_names cand" using applies_distinct [OF assms(2) swapped(2)] assms(1) by (simp add: store_ok_def)
  moreover have "snCfg snap = cand" using swapped(3) by (simp add: compile_Inr)
  ultimately show ?thesis using swapped by (auto simp: on_disk_def intro!: store_okI)
qed

lemma run_update_fst: "run_update env w f respond s = (s', resp) \<Longrightarrow> \<exists>res. update env w f s = (s', res)"
  by (auto simp: run_update_def split: prod.split_asm sum.split_asm build_error.split_asm)

lemma open_ok:
  assumes "Open env bootstrap readable w d = Inr s" "io_ok env w d"
  shows "store_ok env s"
proof (cases "d (enPath env)")
  case (Some raw)
  then obtain c snap where "DecodeRuntimeConfig raw [] = Inr c" "compile env c = Inr snap" "s = \<lparr>stCur = snap, stDisk = d\<rparr>"
    using assms(1) by (auto simp: Open_def prepare_def split: sum.split_asm if_split_asm)
  then show ?thesis using Some decode_distinct by (auto simp: on_disk_def compile_Inr intro!: store_okI)
next
  case None
  show ?thesis
  proof (cases bootstrap)
    case None
    then have "s = \<lparr>stCur = \<lparr>snCfg = emptyRuntimeConfig, snBuilt = []\<rparr>, stDisk = d\<rparr>"
      using assms(1) \<open>d (enPath env) = None\<close> by (auto simp: Open_def split: if_split_asm)
    then show ?thesis using \<open>d (enPath env) = None\<close>
      by (simp add: store_ok_def on_disk_def emptyRuntimeConfig_def runtime_ok_def distinct_names_def build_def ProfileNames_def)
  next
    case (Some raw)
    then obtain c snap where c: "DecodeRuntimeConfig raw bootstrapKey = Inr c" "compile env c = Inr snap"
      using assms(1) None by (auto simp: Open_def prepare_def split: sum.split_asm if_split_asm)
    obtain ds ok where p: "persist env (ioTmp w) (ioFails w) (snCfg snap) d = (ds, ok)" by fastforce
    then have "s = \<lparr>stCur = snap, stDisk = d(enPath env \<mapsto> document_of env (snCfg snap))\<rparr>"
      using assms Some None c persist_last [OF _ _ p]
      by (auto simp: Open_def prepare_def io_ok_def split: sum.split_asm if_split_asm)
    then show ?thesis using c decode_distinct [OF c(1)] by (auto simp: on_disk_def compile_Inr intro!: store_okI)
  qed
qed

lemma reach_ok: "store_reach env s \<Longrightarrow> store_ok env s"
proof (induction rule: store_reach.induct)
  case (opened bootstrap readable w d s)
  then show ?case by (rule open_ok)
next
  case (request s w key r s' resp)
  from request(3) show ?case
  proof (cases rule: request_cases)
    case same
    then show ?thesis using request by simp
  next
    case (wrote f respond)
    then show ?thesis using run_update_fst update_ok request by blast
  qed
qed

end
