(* ===== verification/AdminUse.thy ===== *)
theory AdminUse
  imports AdminProps "HOL-Library.Multiset"
begin

text \<open>
  The admin store as its clients see it: the operator, whose writes happen entirely or not at all and
  whose secrets stay masked; the process, which restarts with what it had; and the realtime endpoint,
  which resolves the configuration of a new session.
\<close>

section \<open>Writes\<close>

lemma run_update_resp:
  assumes "run_update env w f respond s = (s', resp)" "io_ok env w (stDisk s)"
  obtains (refused) e where "resp = Some (writeError e)" "s' = s"
  | (wrote) cand snap where "resp = Some (respond cand)" "f (store_Config s) = Inr cand" "compile env cand = Inr snap" "ioFails w = None"
      "s' = \<lparr>stCur = snap, stDisk = (stDisk s)(enPath env \<mapsto> document_of env cand)\<rparr>"
proof -
  obtain s1 res where u: "update env w f s = (s1, res)" by fastforce
  from u assms(2) show thesis
  proof (cases rule: update_cases)
    case (refused e)
    then show thesis using u assms(1) that(1) by (auto simp: run_update_def)
  next
    case (swapped cand snap)
    then show thesis using u assms(1) that(2) [of cand snap] by (auto simp: run_update_def)
  qed
qed

text \<open>What the responses of the writes are made of.\<close>

definition success :: "(RuntimeConfig \<Rightarrow> adminResponse) \<Rightarrow> bool" where
  "success respond \<longleftrightarrow> (\<forall>c. rStatus (respond c) \<in> {200, 204})"

fun body_masked :: "admin_body \<Rightarrow> bool" where
  "body_masked (ConfigBody c) = (\<forall>(_, p) \<in> set (rcProviders c). piAPIKey p = SecretMask)"
| "body_masked (ProvidersBody ps) = (\<forall>(_, p) \<in> set ps. piAPIKey p = SecretMask)"
| "body_masked (ProviderBody p) = (piAPIKey p = SecretMask)"
| "body_masked _ = True"

lemma redact_masked: "body_masked (ConfigBody (redactConfig c))" "body_masked (ProvidersBody (rcProviders (redactConfig c)))"
    "body_masked (ProviderBody (redactProvider p))"
  by (auto simp: redactConfig_def redactProvider_def)

lemma error_masked: "body_masked (rBody (writeError e))"
  by (simp add: writeError_def writeJSON_def Let_def)

lemma entry_masked:
  "(\<And>v. body_masked (f v)) \<Longrightarrow> body_masked (entry_body f m name)"
  "(\<And>v. body_masked (f v)) \<Longrightarrow> body_masked (rBody (get_entry f kind m name))"
  by (auto simp: entry_body_def get_entry_def writeJSON_def error_masked split: option.split)

text \<open>A request with its route: a read, a body that cannot be read, or a write with its response.\<close>

lemma served:
  assumes "authenticate env key w r s = (s', resp)"
  obtains (answered) rp where "resp = Some rp" "s' = s" "body_masked (rBody rp)"
  | (wrote) f respond where "applies f" "success respond" "\<And>c. body_masked (rBody (respond c))" "run_update env w f respond s = (s', resp)"
proof -
  have "(\<exists>rp. resp = Some rp \<and> s' = s \<and> body_masked (rBody rp)) \<or>
      (\<exists>f respond. applies f \<and> success respond \<and> (\<forall>c. body_masked (rBody (respond c))) \<and> run_update env w f respond s = (s', resp))"
  proof (cases "key \<noteq> [] \<and> bearer key (rqAuthorization r)")
    case False
    then show ?thesis using assms by (auto simp: authenticate_def error_masked)
  next
    case True
    then have sv: "serve_admin env w r s = (s', resp)" using assms by (simp add: authenticate_def)
    have put: ?thesis if "write_body env w r f respond s = (s', resp)" "\<And>b. applies (f b)" "\<And>c. body_masked (respond c)" for f respond
    proof (cases "rqBody r")
      case None
      then show ?thesis using that(1) by (auto simp: write_body_def error_masked)
    next
      case (Some b)
      then have "run_update env w (f b) (\<lambda>live. writeJSON 200 (respond live)) s = (s', resp)" using that(1) by (simp add: write_body_def)
      moreover have "success (\<lambda>live. writeJSON 200 (respond live))" "\<forall>c. body_masked (rBody (writeJSON 200 (respond c)))"
        using that(3) by (simp_all add: success_def writeJSON_def)
      ultimately show ?thesis using that(2) by blast
    qed
    have del: ?thesis if "write_delete env w f s = (s', resp)" "applies f" for f
    proof -
      have "success (\<lambda>_. \<lparr>rStatus = 204, rBody = NoBody\<rparr>)" "\<forall>c. body_masked (rBody ((\<lambda>_. \<lparr>rStatus = 204, rBody = NoBody\<rparr>) c))"
        by (simp_all add: success_def)
      then show ?thesis using that unfolding write_delete_def by blast
    qed
    show ?thesis
    proof (cases "rqRoute r")
      case PutConfig
      show ?thesis by (rule put [of putConfig "ConfigBody \<circ> redactConfig"]) (use sv PutConfig in \<open>auto simp: serve_admin_def redact_masked simp del: body_masked.simps\<close>)
    next
      case (PutProvider name)
      show ?thesis by (rule put [of "putProvider name" "\<lambda>c. entry_body (ProviderBody \<circ> redactProvider) (rcProviders c) name"])
          (use sv PutProvider in \<open>auto simp: serve_admin_def redact_masked entry_masked simp del: body_masked.simps\<close>)
    next
      case (PutProfile name)
      show ?thesis by (rule put [of "putProfile name" "\<lambda>c. entry_body ProfileBody (rcProfiles c) name"])
          (use sv PutProfile in \<open>auto simp: serve_admin_def entry_masked\<close>)
    next
      case PutSettings
      show ?thesis by (rule put [of putSettings "SettingsBody \<circ> rcDefaultProfile"]) (use sv PutSettings in \<open>auto simp: serve_admin_def\<close>)
    next
      case (DeleteProvider name)
      show ?thesis by (rule del [of "deleteProvider name"]) (use sv DeleteProvider in \<open>auto simp: serve_admin_def\<close>)
    next
      case (DeleteProfile name)
      show ?thesis by (rule del [of "deleteProfile name"]) (use sv DeleteProfile in \<open>auto simp: serve_admin_def\<close>)
    qed (use sv in \<open>auto simp: serve_admin_def redact_masked entry_masked writeJSON_def simp del: body_masked.simps(1-3)\<close>)
  qed
  then show thesis using answered wrote by blast
qed

text \<open>\<^bold>\<open>C12\<close>: every request is answered, and a request that is answered with anything but success leaves the live
  configuration, its providers and the disk exactly as they were.\<close>

theorem admin_all_or_nothing:
  assumes "io_ok env w (stDisk s)" "authenticate env key w r s = (s', resp)"
  shows "\<exists>rp. resp = Some rp \<and> (rStatus rp \<in> {200, 204} \<or> s' = s)"
  using assms(2)
proof (cases rule: served)
  case (answered rp)
  then show ?thesis by simp
next
  case (wrote f respond)
  from wrote(4) assms(1) show ?thesis by (cases rule: run_update_resp) (use wrote(2) in \<open>auto simp: success_def\<close>)
qed


section \<open>Invariant\<close>


section \<open>Resolving\<close>

text \<open>A provider that reports a kind implements its interface, as the registered factories promise.\<close>

definition implements :: "'h built \<Rightarrow> bool" where
  "implements p \<longleftrightarrow> (bKind p = ''asr'' \<longrightarrow> bASR p) \<and> (bKind p = ''llm'' \<longrightarrow> bLLM p) \<and> (bKind p = ''tts'' \<longrightarrow> bTTS p)"

definition honest :: "'h env \<Rightarrow> bool" where
  "honest env \<longleftrightarrow> (\<forall>kind name f k o' p. enRegistry env kind name = Some f \<longrightarrow> f k o' = Inr p \<longrightarrow> implements p)"

definition pred_map :: "('v \<Rightarrow> bool) \<Rightarrow> ('k \<rightharpoonup> 'v) \<Rightarrow> bool" where
  "pred_map P m \<longleftrightarrow> (\<forall>k v. m k = Some v \<longrightarrow> P v)"

lemma build_refs_implements:
  "honest env \<Longrightarrow> build_refs env rc rs b = Inr b' \<Longrightarrow> pred_map implements (map_of b) \<Longrightarrow> pred_map implements (map_of b')"
proof (induction rs arbitrary: b)
  case (Cons r rs)
  obtain b1 where b1: "build_ref env rc r b = Inr b1" "build_refs env rc rs b1 = Inr b'" using Cons.prems(2) by (auto split: sum.split_asm)
  have "pred_map implements (map_of b1)"
  proof -
    have new: "implements p" if "provider_New (enRegistry env) kind name k o' = Inr p" for kind name k o' p
      using that Cons.prems(1) by (auto simp: provider_New_def honest_def split: option.split_asm sum.split_asm if_split_asm)
    obtain kind i where r: "r = (kind, i)" by (cases r)
    have "b1 = b \<or> (\<exists>p. b1 = AList.update (build_key kind i) p b \<and> implements p)"
      using b1(1) unfolding r by (auto simp: build_ref_def Let_def split: if_split_asm option.split_asm sum.split_asm dest: new)
    then show ?thesis using Cons.prems(3) by (auto simp: pred_map_def update_conv' split: if_split_asm)
  qed
  then show ?case using Cons.IH b1(2) Cons.prems(1) by blast
qed simp

lemma built_implements:
  assumes "honest env" "build env rc = Inr b" "map_of b k = Some p"
  shows "implements p"
  using build_refs_implements [OF assms(1) assms(2) [unfolded build_def]] assms(3) by (simp add: pred_map_def)

lemma resolve_default:
  assumes "store_reach env s" "honest env"
  shows "if rcDefaultProfile (store_Config s) = [] then Resolve s = Inl ErrNoDefaultProfile
     else \<exists>rt. Resolve s = Inr rt \<and> rtProfile rt = rcDefaultProfile (store_Config s) \<and> session_ok (rtSession rt) \<and>
       bASR (rtASR rt) \<and> bLLM (rtLLM rt) \<and> bTTS (rtTTS rt)"
proof (cases "rcDefaultProfile (store_Config s) = []")
  case True
  then show ?thesis by (simp add: Resolve_def store_Config_def Let_def)
next
  case False
  let ?c = "store_Config s"
  have ok: "runtime_ok (enKnown env) ?c" "build env ?c = Inr (snBuilt (stCur s))" using reach_ok [OF assms(1)] by (simp_all add: store_ok_def)
  then obtain p where p: "map_of (rcProfiles ?c) (rcDefaultProfile ?c) = Some p" "profile_ok (rcDefaultProfile ?c) p"
    using False by (auto simp: runtime_ok_def)
  have has: "\<exists>q. asserted f (stCur s) kind i = Inr q \<and> f q"
    if ref: "(kind, i) \<in> set (profile_refs p)" and imp: "\<And>q. implements q \<Longrightarrow> bKind q = kind \<Longrightarrow> f q" for kind i f
  proof -
    obtain q where q: "map_of (snBuilt (stCur s)) (build_key kind i) = Some q" "bKind q = kind" by (rule build_complete [OF ok(2) p(1) ref])
    then show ?thesis using imp built_implements [OF assms(2) ok(2) q(1)] by (simp add: asserted_def)
  qed
  obtain a l t where "asserted bASR (stCur s) ''asr'' (prASR p) = Inr a" "bASR a" "asserted bLLM (stCur s) ''llm'' (prLLM p) = Inr l" "bLLM l"
      "asserted bTTS (stCur s) ''tts'' (prTTS p) = Inr t" "bTTS t"
    using has [of "''asr''" "prASR p" bASR] has [of "''llm''" "prLLM p" bLLM] has [of "''tts''" "prTTS p" bTTS]
    by (auto simp: profile_refs_def implements_def)
  moreover have "prName p = rcDefaultProfile ?c" "session_ok (Profile_SessionDefaults p)"
    using p(2) profile_session_ok by (auto simp: profile_ok_def)
  ultimately show ?thesis using p(1) False by (simp add: Resolve_def store_Config_def Let_def)
qed

text \<open>As long as no default profile is set a new connection is told so; once one is set, every new
  connection gets a valid session configuration and a built provider for each of the three roles.\<close>

theorem resolve_ready:
  assumes "store_reach env s" "honest env"
  shows "if rcDefaultProfile (store_Config s) = [] then Resolve s = Inl ErrNoDefaultProfile
     else \<exists>rt. Resolve s = Inr rt \<and> rtProfile rt = rcDefaultProfile (store_Config s) \<and> session_ok (rtSession rt) \<and>
       bASR (rtASR rt) \<and> bLLM (rtLLM rt) \<and> bTTS (rtTTS rt)"
  using assms by (rule resolve_default)

section \<open>Restarting, and editing what was read\<close>

lemma normal_map_of:
  assumes "distinct_names c"
  shows "map_of (rcProviders (normal_config c)) = map_of (rcProviders c)"
    "map_of (rcProfiles (normal_config c)) = map_option normal_profile \<circ> map_of (rcProfiles c)"
  using assms map_of_map [of normal_profile "sort_key fst (rcProfiles c)"]
  by (simp_all add: normal_config_def distinct_names_def map_of_sort_key map_prod_def)

lemma normal_names: "ProfileNames (normal_config c) = ProfileNames c"
proof -
  have "mset (map fst (sort_key fst (rcProfiles c))) = mset (map fst (rcProfiles c))" by simp
  then have "sort (map fst (sort_key fst (rcProfiles c))) = sort (map fst (rcProfiles c))" by (metis mset_sort properties_for_sort sorted_sort)
  then show ?thesis by (simp add: ProfileNames_def normal_config_def comp_def)
qed

lemma normal_refs: "profile_refs (normal_profile p) = profile_refs p"
  by (simp add: profile_refs_def normal_profile_def)

lemma normal_profile_ok: "profile_ok name (normal_profile p) = profile_ok name p"
  by (auto simp: profile_ok_def normal_profile_def)

lemma normal_ok:
  assumes "runtime_ok known c" "distinct_names c"
  shows "runtime_ok known (normal_config c)"
proof -
  have "ref_ok known (normal_config c) = ref_ok known c" by (simp add: fun_eq_iff ref_ok_def normal_map_of [OF assms(2)])
  moreover have "rcDefaultProfile (normal_config c) = rcDefaultProfile c" by (simp add: normal_config_def)
  ultimately show ?thesis using assms(1)
    by (auto simp: runtime_ok_def normal_map_of [OF assms(2)] normal_profile_ok normal_refs)
qed

lemma build_refs_cong: "map_of (rcProviders c) = map_of (rcProviders c') \<Longrightarrow> build_refs env c rs b = build_refs env c' rs b"
proof (induction rs arbitrary: b)
  case (Cons r rs)
  have "build_ref env c r b = build_ref env c' r b" using Cons.prems by (simp add: build_ref_def split: prod.split)
  then show ?case using Cons.IH [OF Cons.prems] by (simp split: sum.split)
qed simp

lemma normal_build: "distinct_names c \<Longrightarrow> build env (normal_config c) = build env c"
proof -
  assume d: "distinct_names c"
  have "profile_at (normal_config c) = profile_at c"
    by (auto simp: fun_eq_iff profile_at_def normal_map_of [OF d] normal_refs split: option.split)
  then show ?thesis using build_refs_cong [OF normal_map_of(1) [OF d]] by (simp add: build_def normal_names)
qed

lemma redecode:
  assumes "store_ok env s" "storable (enFmt env) (store_Config s)" "stDisk s (enPath env) = Some raw"
  obtains c where "DecodeRuntimeConfig raw [] = Inr c" "c \<in> {store_Config s, normal_config (store_Config s)}"
  using assms decode_marshal [OF _ assms(2)] that by (auto simp: store_ok_def on_disk_def)


lemma sort_key_map_values: "sort_key fst (map (map_prod id f) xs) = map (map_prod id f) (sort_key fst xs)"
proof (induction xs)
  case (Cons x xs)
  have "insort_key fst (map_prod id f x) (map (map_prod id f) ys) = map (map_prod id f) (insort_key fst x ys)" for ys
    by (induction ys) auto
  then show ?case using Cons.IH by (simp only: list.map sort_key_simps)
qed simp

lemma unmask_all_masked:
  "(\<And>name p. (name, p) \<in> set ps \<Longrightarrow> piName p = name \<and> map_of (rcProviders c) name = Some p) \<Longrightarrow>
   unmask_all c (map (map_prod id redactProvider) ps) = Inr ps"
proof (induction ps)
  case (Cons np ps)
  obtain name p where np: "np = (name, p)" by (cases np)
  have "piName p = name" "map_of (rcProviders c) name = Some p" using Cons.prems [of name p] np by simp_all
  then have "unmask c f (redactProvider p) = Inr p" for f by (simp add: unmask_def redactProvider_def)
  moreover have "unmask_all c (map (map_prod id redactProvider) ps) = Inr ps"
    using Cons.prems by (intro Cons.IH) simp
  moreover have "map_prod id redactProvider np = (name, redactProvider p)" by (simp add: np)
  ultimately show ?case by (simp only: np list.map unmask_all.simps sum.case)
qed simp

lemma redact_providers: "rcProviders (redactConfig c) = map (map_prod id redactProvider) (rcProviders c)"
  by (simp add: redactConfig_def redactProvider_def [abs_def])

lemma redact_map_of: "map_of (rcProviders (redactConfig c)) = map_option redactProvider \<circ> map_of (rcProviders c)"
  using map_of_map [of redactProvider "rcProviders c"] by (simp add: redact_providers map_prod_def)

lemma redact_ok: "runtime_ok known c \<Longrightarrow> runtime_ok known (redactConfig c)"
proof -
  assume ok: "runtime_ok known c"
  have p: "provider_ok known name (redactProvider p) = (provider_ok known name p \<or> provider_ok known name (p\<lparr>piAPIKey := SecretMask\<rparr>))" for name p
    by (auto simp: provider_ok_def redactProvider_def SecretMask_def)
  have "ref_ok known (redactConfig c) = ref_ok known c"
    by (auto simp: fun_eq_iff ref_ok_def redact_map_of redactProvider_def)
  moreover have "rcProfiles (redactConfig c) = rcProfiles c" "rcDefaultProfile (redactConfig c) = rcDefaultProfile c"
    by (simp_all add: redactConfig_def)
  ultimately show ?thesis using ok by (auto simp: runtime_ok_def redact_map_of p)
qed

lemma redact_storable: "storable fmt c \<Longrightarrow> storable fmt (redactConfig c)"
  by (simp add: storable_def distinct_names_def redactConfig_def comp_def)

text \<open>Writing back the document that was read changes nothing: the masks stand for the secrets the store
  holds, each for its own instance.\<close>

theorem read_then_write:
  assumes "store_reach env s" "storable (enFmt env) (store_Config s)"
  shows "putConfig (document_of env (redactConfig (store_Config s))) (store_Config s) = Inr (normal_config (store_Config s))"
proof -
  let ?c = "store_Config s"
  have ok: "runtime_ok (enKnown env) ?c" "distinct_names ?c" using reach_ok [OF assms(1)] by (simp_all add: store_ok_def)
  have "DecodeRuntimeConfig (document_of env (redactConfig ?c)) [] = Inr (normal_config (redactConfig ?c))"
    by (rule decode_marshal [OF redact_ok [OF ok(1)] redact_storable [OF assms(2)]])
  moreover have "rcProviders (normal_config (redactConfig ?c)) = map (map_prod id redactProvider) (sort_key fst (rcProviders ?c))"
    by (simp add: normal_config_def redact_providers sort_key_map_values)
  moreover have "unmask_all ?c (map (map_prod id redactProvider) (sort_key fst (rcProviders ?c))) = Inr (sort_key fst (rcProviders ?c))"
    using ok by (intro unmask_all_masked) (auto simp: distinct_names_def runtime_ok_def provider_ok_def)
  ultimately show ?thesis by (simp add: putConfig_def normal_config_def redactConfig_def)
qed

section \<open>Deleting\<close>

lemma build_refs_delete:
  "(\<And>kind i. (kind, i) \<in> set rs \<Longrightarrow> i \<noteq> name) \<Longrightarrow>
   build_refs env (c\<lparr>rcProviders := AList.delete name (rcProviders c)\<rparr>) rs b = build_refs env c rs b"
proof (induction rs arbitrary: b)
  case (Cons r rs)
  have "snd r \<noteq> name" using Cons.prems [of "fst r" "snd r"] by simp
  then have "build_ref env (c\<lparr>rcProviders := AList.delete name (rcProviders c)\<rparr>) r b = build_ref env c r b"
    by (cases r) (simp add: build_ref_def delete_conv')
  moreover have "build_refs env (c\<lparr>rcProviders := AList.delete name (rcProviders c)\<rparr>) rs b = build_refs env c rs b" for b
    by (rule Cons.IH) (use Cons.prems in auto)
  ultimately show ?case by (simp split: sum.split)
qed simp

lemma delete_compiles:
  assumes "runtime_ok (enKnown env) c" "build env c = Inr b" "\<And>pn p. map_of (rcProfiles c) pn = Some p \<Longrightarrow> \<not> references name p"
  shows "compile env (c\<lparr>rcProviders := AList.delete name (rcProviders c)\<rparr>) =
    Inr \<lparr>snCfg = c\<lparr>rcProviders := AList.delete name (rcProviders c)\<rparr>, snBuilt = b\<rparr>"
proof -
  let ?c' = "c\<lparr>rcProviders := AList.delete name (rcProviders c)\<rparr>"
  have other: "i \<noteq> name" if "map_of (rcProfiles c) pn = Some p" "(kind, i) \<in> set (profile_refs p)" for pn p kind i
    using assms(3) [OF that(1)] that(2) by (auto simp: references_def profile_refs_def)
  have "ref_ok (enKnown env) ?c' (kind, i) = ref_ok (enKnown env) c (kind, i)" if "i \<noteq> name" for kind i
    using that by (simp add: ref_ok_def delete_conv')
  then have "list_all (ref_ok (enKnown env) ?c') (profile_refs p)" if "map_of (rcProfiles c) pn = Some p" for pn p
    using other [OF that] assms(1) that by (force simp: runtime_ok_def list_all_iff)
  then have "runtime_ok (enKnown env) ?c'"
    using assms(1) by (auto simp: runtime_ok_def delete_conv' split: if_split_asm)
  moreover have "build env ?c' = Inr b"
  proof -
    have same: "profile_at ?c' = profile_at c" "ProfileNames ?c' = ProfileNames c" by (simp_all add: fun_eq_iff profile_at_def ProfileNames_def)
    have "i \<noteq> name" if mem: "(kind, i) \<in> set (concat (map (profile_at c) (ProfileNames c)))" for kind i
    proof -
      obtain pn where "(kind, i) \<in> set (profile_at c pn)" using mem by auto
      then show ?thesis using other by (cases "map_of (rcProfiles c) pn") (auto simp: profile_at_def)
    qed
    then have "build_refs env ?c' (concat (map (profile_at c) (ProfileNames c))) [] = Inr b"
      using assms(2) by (subst build_refs_delete) (auto simp: build_def)
    with same show ?thesis by (simp add: build_def)
  qed
  ultimately show ?thesis by (simp add: compile_Inr)
qed

lemma find_reference:
  "find (\<lambda>pn. case map_of (rcProfiles c) pn of None \<Rightarrow> False | Some p \<Rightarrow> references name p) (ProfileNames c) = None \<longleftrightarrow>
   (\<forall>pn p. map_of (rcProfiles c) pn = Some p \<longrightarrow> \<not> references name p)"
  unfolding find_None_iff names_dom by (force split: option.split)

lemma deleteProvider_cases:
  "map_of (rcProviders c) name = None \<Longrightarrow> deleteProvider name c = Inl (notFound ''provider'' name)"
  "map_of (rcProviders c) name \<noteq> None \<Longrightarrow> map_of (rcProfiles c) pn = Some p \<Longrightarrow> references name p \<Longrightarrow> \<exists>m. deleteProvider name c = Inl (conflict m)"
  "map_of (rcProviders c) name \<noteq> None \<Longrightarrow> (\<And>pn p. map_of (rcProfiles c) pn = Some p \<Longrightarrow> \<not> references name p) \<Longrightarrow>
     deleteProvider name c = Inr (c\<lparr>rcProviders := AList.delete name (rcProviders c)\<rparr>)"
  using find_reference [of name c] by (auto simp: deleteProvider_def split: option.split)

lemma run_update_Inl: "f (store_Config s) = Inl e \<Longrightarrow> run_update env w f respond s = (s, Some (writeError e))"
  by (simp add: run_update_def update_def store_Config_def)

lemma run_update_Inr:
  assumes "f (store_Config s) = Inr cand" "compile env cand = Inr snap" "io_ok env w (stDisk s)" "ioFails w = None"
  shows "run_update env w f respond s = (\<lparr>stCur = snap, stDisk = (stDisk s)(enPath env \<mapsto> document_of env cand)\<rparr>, Some (respond cand))"
proof -
  obtain ds ok where p: "persist env (ioTmp w) (ioFails w) cand (stDisk s) = (ds, ok)" by fastforce
  then show ?thesis using assms persist_last [OF _ _ p] by (simp add: run_update_def update_def store_Config_def io_ok_def)
qed

text \<open>Deleting a provider answers 404 when there is none of that name and 409 when a profile still refers
  to it, and changes nothing then; otherwise it answers 204 and exactly that instance is gone.\<close>

theorem delete_provider:
  assumes "store_reach env s" "io_ok env w (stDisk s)" "ioFails w = None" "key \<noteq> []" "bearer key (rqAuthorization r)" "rqRoute r = DeleteProvider name"
  shows "\<exists>s' rp. authenticate env key w r s = (s', Some rp) \<and>
    (if map_of (rcProviders (store_Config s)) name = None then rStatus rp = 404 \<and> s' = s
     else if \<exists>pn p. map_of (rcProfiles (store_Config s)) pn = Some p \<and> references name p then rStatus rp = 409 \<and> s' = s
     else rStatus rp = 204 \<and> rcProfiles (store_Config s') = rcProfiles (store_Config s) \<and>
       map_of (rcProviders (store_Config s')) = (map_of (rcProviders (store_Config s)))(name := None))"
proof -
  let ?c = "store_Config s"
  have run: "authenticate env key w r s = run_update env w (deleteProvider name) (\<lambda>_. \<lparr>rStatus = 204, rBody = NoBody\<rparr>) s"
    using assms(4-6) by (simp add: authenticate_def serve_admin_def write_delete_def)
  have ok: "runtime_ok (enKnown env) ?c" "build env ?c = Inr (snBuilt (stCur s))" using reach_ok [OF assms(1)] by (simp_all add: store_ok_def)
  consider (none) "map_of (rcProviders ?c) name = None"
    | (used) pn p where "map_of (rcProviders ?c) name \<noteq> None" "map_of (rcProfiles ?c) pn = Some p" "references name p"
    | (free) "map_of (rcProviders ?c) name \<noteq> None" "\<And>pn p. map_of (rcProfiles ?c) pn = Some p \<Longrightarrow> \<not> references name p"
    by blast
  then show ?thesis
  proof cases
    case none
    then show ?thesis using run_update_Inl [where f = "deleteProvider name", OF deleteProvider_cases(1) [OF none]] run by (simp add: notFound_def writeError_def writeJSON_def Let_def)
  next
    case used
    then obtain m where "deleteProvider name ?c = Inl (conflict m)" using deleteProvider_cases(2) by blast
    then have "authenticate env key w r s = (s, Some (writeError (conflict m)))" unfolding run by (rule run_update_Inl)
    moreover have "rStatus (writeError (conflict m)) = 409" by (simp add: conflict_def writeError_def writeJSON_def Let_def)
    moreover have "\<exists>pn p. map_of (rcProfiles ?c) pn = Some p \<and> references name p" using used by blast
    ultimately show ?thesis using used(1) by simp
  next
    case free
    have d: "deleteProvider name ?c = Inr (?c\<lparr>rcProviders := AList.delete name (rcProviders ?c)\<rparr>)"
      using deleteProvider_cases(3) free by blast
    have "compile env (?c\<lparr>rcProviders := AList.delete name (rcProviders ?c)\<rparr>) =
        Inr \<lparr>snCfg = ?c\<lparr>rcProviders := AList.delete name (rcProviders ?c)\<rparr>, snBuilt = snBuilt (stCur s)\<rparr>"
      using delete_compiles ok free(2) by blast
    note wrote = run_update_Inr [where f = "deleteProvider name", OF d this assms(2,3)]
    show ?thesis using free unfolding run wrote by (auto simp: delete_conv')
  qed
qed

section \<open>An instance\<close>

text \<open>A registry with one type for the three roles, an environment with one variable, and the store that is
  opened on an empty disk with \<^const>\<open>demo_config\<close> as its bootstrap block.\<close>

definition demo_provider :: "string \<Rightarrow> unit built" where
  "demo_provider kind = \<lparr>bKind = kind, bASR = True, bLLM = True, bTTS = True, bHandle = ()\<rparr>"

definition demo_registry :: "unit registry" where
  "demo_registry kind name = (if name = ''mock'' then Some (\<lambda>_ _. Inr (demo_provider kind)) else None)"

definition demo_env :: "unit env" where
  "demo_env = \<lparr>enPath = ''state.json'', enKnown = Some (Known demo_registry),
     enLookupEnv = (\<lambda>v. if v = ''KEY'' then Some ''s3cret'' else None), enFmt = demo_fmt, enRegistry = demo_registry\<rparr>"

definition demo_io :: io where "demo_io = \<lparr>ioTmp = ''tmp'', ioFails = None\<rparr>"

definition demo_store :: "unit store" where
  "demo_store = \<lparr>stCur = \<lparr>snCfg = demo_config,
       snBuilt = [(''asr/acme'', demo_provider ''asr''), (''llm/acme'', demo_provider ''llm''), (''tts/acme'', demo_provider ''tts'')]\<rparr>,
     stDisk = [''state.json'' \<mapsto> document_of demo_env demo_config]\<rparr>"

lemma demo_runtime_ok: "runtime_ok (enKnown demo_env) demo_config"
  unfolding runtime_validate_None [symmetric, where prefix = "[]"] by code_simp

lemma demo_build: "build demo_env demo_config = Inr (snBuilt (stCur demo_store))"
  by code_simp

lemma demo_normal: "normal_config demo_config = demo_config"
  by (simp add: normal_config_def demo_config_def normal_profile_def demo_profile_def DefaultProfile_def)

lemma demo_reach: "store_reach demo_env demo_store"
proof (rule store_reach.opened)
  have io: "io_ok demo_env demo_io (\<lambda>_. None)" by (simp add: io_ok_def demo_env_def demo_io_def)
  then show "io_ok demo_env demo_io (\<lambda>_. None)" .
  have "DecodeRuntimeConfig (document_of demo_env demo_config) bootstrapKey = Inr demo_config"
    using decode_marshal [OF demo_config_ok demo_config_storable] by (simp add: demo_normal demo_env_def)
  moreover have "compile demo_env demo_config = Inr (stCur demo_store)"
    by (simp add: compile_Inr demo_runtime_ok demo_build) (simp add: demo_store_def)
  moreover obtain ds ok where p: "persist demo_env (ioTmp demo_io) (ioFails demo_io) demo_config (\<lambda>_. None) = (ds, ok)" by fastforce
  moreover have "ok" "last ds = stDisk demo_store"
    using persist_last [OF _ _ p] io by (auto simp: io_ok_def demo_io_def demo_store_def demo_env_def)
  moreover have "snCfg (stCur demo_store) = demo_config" by (simp add: demo_store_def)
  ultimately show "Open demo_env (Some (document_of demo_env demo_config)) True demo_io (\<lambda>_. None) = Inr demo_store"
    by (simp add: Open_def prepare_def)
qed

lemma demo_honest: "honest demo_env"
  by (auto simp: honest_def demo_env_def demo_registry_def demo_provider_def implements_def split: if_split_asm)

lemma demo_io_ok: "io_ok demo_env demo_io (stDisk demo_store)"
  by (simp add: io_ok_def demo_env_def demo_io_def demo_store_def)

lemma demo_store_Config: "store_Config demo_store = demo_config"
  by (simp add: demo_store_def)

definition demo_request :: "route \<Rightarrow> request" where
  "demo_request rt = \<lparr>rqRoute = rt, rqAuthorization = ''Bearer key'', rqBody = None\<rparr>"

lemma demo_bearer: "bearer ''key'' (rqAuthorization (demo_request rt))"
  by (simp add: demo_request_def) code_simp


theorem admin_all_or_nothing_witness:
  "\<exists>rp. snd (authenticate demo_env ''key'' demo_io (demo_request PutSettings) demo_store) = Some rp \<and>
     (rStatus rp \<in> {200, 204} \<or> fst (authenticate demo_env ''key'' demo_io (demo_request PutSettings) demo_store) = demo_store)"
  by (rule admin_all_or_nothing [OF demo_io_ok]) simp


theorem resolve_ready_witness:
  "\<exists>rt. Resolve demo_store = Inr rt \<and> rtProfile rt = ''support'' \<and> session_ok (rtSession rt) \<and>
     bASR (rtASR rt) \<and> bLLM (rtLLM rt) \<and> bTTS (rtTTS rt)"
  using resolve_ready [OF demo_reach demo_honest] by (simp add: demo_store_Config demo_config_def)

lemma demo_storable: "storable (enFmt demo_env) (store_Config demo_store)"
  using demo_config_storable by (simp add: demo_store_Config demo_env_def)


theorem read_then_write_witness:
  "putConfig (document_of demo_env (redactConfig (store_Config demo_store))) (store_Config demo_store) = Inr (normal_config (store_Config demo_store))"
  by (rule read_then_write [OF demo_reach demo_storable])

theorem delete_provider_witness:
  "\<exists>s' rp. authenticate demo_env ''key'' demo_io (demo_request (DeleteProvider ''acme'')) demo_store = (s', Some rp) \<and>
    (if map_of (rcProviders (store_Config demo_store)) ''acme'' = None then rStatus rp = 404 \<and> s' = demo_store
     else if \<exists>pn p. map_of (rcProfiles (store_Config demo_store)) pn = Some p \<and> references ''acme'' p then rStatus rp = 409 \<and> s' = demo_store
     else rStatus rp = 204 \<and> rcProfiles (store_Config s') = rcProfiles (store_Config demo_store) \<and>
       map_of (rcProviders (store_Config s')) = (map_of (rcProviders (store_Config demo_store)))(''acme'' := None))"
  by (rule delete_provider [OF demo_reach demo_io_ok _ _ demo_bearer]) (simp_all add: demo_io_def demo_request_def)

end
