(* ===== verification/StaticConfig.thy ===== *)
theory StaticConfig
  imports RuntimeDecode
begin

text \<open>
  The static configuration: \<open>Config\<close> of \<^verbatim>\<open>internal/config/config.go\<close>, its validation and \<open>Parse\<close> of
  \<^verbatim>\<open>load.go\<close>, from the tree of the file to the decoded structure. \<open>dur\<close> stands for \<open>time.ParseDuration\<close>;
  re-encoding the expanded tree and decoding it again is the identity on trees. Durations are
  nanoseconds.
\<close>

section \<open>config.go\<close>

record Auth =
  auAPIKey :: string
  auAdminAPIKey :: string

record AdminBlock =
  abListen :: string
  abStateFile :: string

record Observability =
  obLogLevel :: string
  obOTelEndpoint :: string

record StaticConfig =
  scListen :: string
  scAuth :: Auth
  scAdmin :: AdminBlock
  scLimits :: Limits
  scObservability :: Observability
  scBootstrap :: "json option"

definition nanoseconds :: "int \<Rightarrow> int" where "nanoseconds s = s * 1000000000"

definition DefaultConfig :: StaticConfig where
  "DefaultConfig =
     \<lparr>scListen = '':8080'', scAuth = \<lparr>auAPIKey = [], auAdminAPIKey = []\<rparr>,
      scAdmin = \<lparr>abListen = ''127.0.0.1:8081'', abStateFile = ''cascade-state.json''\<rparr>,
      scLimits = \<lparr>limMaxSessions = 100, limSessionTimeout = nanoseconds (30 * 60), limInputAudioQueueFrames = 200,
        limInputAudioBufferMaxMs = 60000, limASRFinalTimeout = nanoseconds 2, limOutputEventQueue = 256,
        limClientWriteTimeout = nanoseconds 10, limClientMaxMessageBytes = 16 * 2 ^ 20\<rparr>,
      scObservability = \<lparr>obLogLevel = ''info'', obOTelEndpoint = []\<rparr>, scBootstrap = None\<rparr>"

section \<open>validate.go\<close>

definition logLevels :: "string list" where "logLevels = [''debug'', ''info'', ''warn'', ''error'']"

definition bootstrap_error :: "ProviderLookup \<Rightarrow> json option \<Rightarrow> field_error option" where
  "bootstrap_error known b = (case b of None \<Rightarrow> None
     | Some j \<Rightarrow> (case DecodeRuntimeConfig (sub_document j) bootstrapKey of
         Inl e \<Rightarrow> Some e | Inr rc \<Rightarrow> RuntimeConfig_validate (bootstrapKey @ ''.'') known rc))"

definition Config_Validate :: "ProviderLookup \<Rightarrow> StaticConfig \<Rightarrow> field_error option" where
  "Config_Validate known c =
     (if trim_space (scListen c) = [] then Some (FieldError ''listen'' MustNotBeEmpty)
      else if auAPIKey (scAuth c) = [] then Some (FieldError ''auth.api_key'' MustNotBeEmpty)
      else if auAdminAPIKey (scAuth c) \<noteq> [] \<and> auAdminAPIKey (scAuth c) = auAPIKey (scAuth c)
      then Some (FieldError ''auth.admin_api_key'' MustDiffer)
      else if auAdminAPIKey (scAuth c) \<noteq> [] \<and> trim_space (abListen (scAdmin c)) = []
      then Some (FieldError ''admin.listen'' MustNotBeEmpty)
      else if auAdminAPIKey (scAuth c) \<noteq> [] \<and> trim_space (abStateFile (scAdmin c)) = []
      then Some (FieldError ''admin.state_file'' MustNotBeEmpty)
      else err_or (bootstrap_error known (scBootstrap c))
        (err_or (Limits_validate ''limits'' (scLimits c))
          (if obLogLevel (scObservability c) \<in> set logLevels then None
           else Some (FieldError ''observability.log_level'' NotOneOf))))"

section \<open>load.go\<close>

definition Auth_fields :: "Auth fields" where
  "Auth_fields = [(''api_key'', field_of into_string auAPIKey auAPIKey_update),
     (''admin_api_key'', field_of into_string auAdminAPIKey auAdminAPIKey_update)]"

definition AdminBlock_fields :: "AdminBlock fields" where
  "AdminBlock_fields = [(''listen'', field_of into_string abListen abListen_update),
     (''state_file'', field_of into_string abStateFile abStateFile_update)]"

definition Observability_fields :: "Observability fields" where
  "Observability_fields = [(''log_level'', field_of into_string obLogLevel obLogLevel_update),
     (''otel_endpoint'', field_of into_string obOTelEndpoint obOTelEndpoint_update)]"

text \<open>\<open>Duration.UnmarshalJSON\<close>: a string, which null reads as empty.\<close>

definition into_duration :: "(string \<Rightarrow> int option) \<Rightarrow> json \<Rightarrow> int \<Rightarrow> int option" where
  "into_duration dur j _ = (case json_string j of None \<Rightarrow> None | Some s \<Rightarrow> dur s)"

definition Limits_fields :: "(string \<Rightarrow> int option) \<Rightarrow> Limits fields" where
  "Limits_fields dur =
     [(''max_sessions'', field_of into_int limMaxSessions limMaxSessions_update),
      (''session_timeout'', field_of (into_duration dur) limSessionTimeout limSessionTimeout_update),
      (''input_audio_queue_frames'', field_of into_int limInputAudioQueueFrames limInputAudioQueueFrames_update),
      (''input_audio_buffer_max_ms'', field_of into_int limInputAudioBufferMaxMs limInputAudioBufferMaxMs_update),
      (''asr_final_timeout'', field_of (into_duration dur) limASRFinalTimeout limASRFinalTimeout_update),
      (''output_event_queue'', field_of into_int limOutputEventQueue limOutputEventQueue_update),
      (''client_write_timeout'', field_of (into_duration dur) limClientWriteTimeout limClientWriteTimeout_update),
      (''client_max_message_bytes'', field_of into_int limClientMaxMessageBytes limClientMaxMessageBytes_update)]"

definition Config_fields :: "(string \<Rightarrow> int option) \<Rightarrow> StaticConfig fields" where
  "Config_fields dur =
     [(''listen'', field_of into_string scListen scListen_update),
      (''auth'', field_of (into_struct Auth_fields) scAuth scAuth_update),
      (''admin'', field_of (into_struct AdminBlock_fields) scAdmin scAdmin_update),
      (''limits'', field_of (into_struct (Limits_fields dur)) scLimits scLimits_update),
      (''observability'', field_of (into_struct Observability_fields) scObservability scObservability_update),
      (''bootstrap'', field_of (\<lambda>j _. Some (Some j)) scBootstrap scBootstrap_update)]"

datatype parse_error = BadSyntaxError | TrailingError | NotObjectError | ExpandError field_error | DecodeError

definition Parse :: "(string \<Rightarrow> int option) \<Rightarrow> document \<Rightarrow> (string \<Rightarrow> string option) \<Rightarrow> parse_error + StaticConfig" where
  "Parse dur raw lookupEnv =
     (case docTree raw of
        None \<Rightarrow> Inl BadSyntaxError
      | Some tree \<Rightarrow>
          if docTail raw = SomeToken then Inl TrailingError
          else case tree of
            JObj kvs \<Rightarrow> (case expandEnv lookupEnv [] (JObj kvs) of
                Inl e \<Rightarrow> Inl (ExpandError e)
              | Inr expanded \<Rightarrow> (case into_struct (Config_fields dur) expanded DefaultConfig of
                    None \<Rightarrow> Inl DecodeError | Some cfg \<Rightarrow> Inr cfg))
          | _ \<Rightarrow> Inl NotObjectError)"

section \<open>What a validated configuration guarantees\<close>

definition static_ok :: "ProviderLookup \<Rightarrow> StaticConfig \<Rightarrow> bool" where
  "static_ok known c \<longleftrightarrow> trim_space (scListen c) \<noteq> [] \<and> auAPIKey (scAuth c) \<noteq> [] \<and>
     (auAdminAPIKey (scAuth c) \<noteq> [] \<longrightarrow> auAdminAPIKey (scAuth c) \<noteq> auAPIKey (scAuth c) \<and>
        trim_space (abListen (scAdmin c)) \<noteq> [] \<and> trim_space (abStateFile (scAdmin c)) \<noteq> []) \<and>
     (\<forall>j. scBootstrap c = Some j \<longrightarrow> (\<exists>rc. DecodeRuntimeConfig (sub_document j) bootstrapKey = Inr rc \<and> runtime_ok known rc)) \<and>
     Limits_validate ''limits'' (scLimits c) = None \<and> obLogLevel (scObservability c) \<in> set logLevels"

lemma static_validate_None: "Config_Validate known c = None \<longleftrightarrow> static_ok known c"
proof -
  have "bootstrap_error known (scBootstrap c) = None \<longleftrightarrow>
      (\<forall>j. scBootstrap c = Some j \<longrightarrow> (\<exists>rc. DecodeRuntimeConfig (sub_document j) bootstrapKey = Inr rc \<and> runtime_ok known rc))"
    by (auto simp: bootstrap_error_def runtime_validate_None split: option.splits sum.splits)
  then show ?thesis by (auto simp: Config_Validate_def static_ok_def)
qed

text \<open>A static configuration passes validation exactly when both keys are usable and differ, the
  admin block is complete if the Admin API is enabled, the bootstrap block, if any, decodes to a valid runtime
  configuration, every limit is positive and the log level is known.\<close>

theorem config_validate_iff: "Config_Validate known c = None \<longleftrightarrow> static_ok known c"
  by (rule static_validate_None)

text \<open>An empty configuration file yields the defaults.\<close>

theorem parse_empty: "Parse dur (sub_document (JObj [])) lookup = Inr DefaultConfig"
  by (simp add: Parse_def sub_document_def into_struct_def)

definition demo_static :: StaticConfig where
  "demo_static = DefaultConfig\<lparr>scAuth := \<lparr>auAPIKey = ''key'', auAdminAPIKey = ''admin''\<rparr>\<rparr>"

lemma demo_static_ok: "static_ok None demo_static"
  unfolding static_validate_None [symmetric] by code_simp

end
