(* ===== verification/ChatStream.thy ===== *)
theory ChatStream
  imports ProviderCommon
begin

text \<open>
  The Chat Completions clients of \<^verbatim>\<open>internal/provider/openai/llm.go\<close> and \<^verbatim>\<open>qwen/llm.go\<close>: the request body, and
  the goroutine that reads the event stream and turns it into LLM chunks. The two clients share their
  code but for the request fields and the wording of two errors. What each read of the body returned is
  the list the goroutine consumes; \<open>ceOk n\<close> tells which branch the \<open>n\<close>-th \<open>select\<close> between the consumer and
  the context took. \<open>ceParse\<close> is the JSON parser and \<open>ceJsonErr\<close> the text of its errors. An array that comes
  three times under one key, where \<^verbatim>\<open>encoding/json\<close> may read into stale elements, is not told apart.
\<close>

section \<open>The request\<close>

definition chatMessageOf :: "Message \<Rightarrow> json" where
  "chatMessageOf m =
     JObj ([(''role'', JStr (msgRole m)), (''content'', JStr (msgContent m))] @
       omit ''tool_calls'' (if msgToolCalls m = [] then None else
         Some (JArr (map (\<lambda>tc. JObj [(''id'', JStr (callID tc)), (''type'', JStr ''function''),
            (''function'', JObj [(''name'', JStr (callName tc)), (''arguments'', JStr (callArguments tc))])]) (msgToolCalls m)))) @
       omit ''tool_call_id'' (if msgToolCallID m = [] then None else Some (JStr (msgToolCallID m))))"

definition chatTools :: "ToolDef list \<Rightarrow> json" where
  "chatTools defs = JArr (map (\<lambda>d. JObj [(''type'', JStr ''function''),
     (''function'', JObj ((''name'', JStr (tdefName d)) #
        omit ''description'' (if tdefDescription d = [] then None else Some (JStr (tdefDescription d))) @
        omit ''parameters'' (tdefParameters d)))]) defs)"

definition chatToolChoice :: "ToolChoice \<Rightarrow> json" where
  "chatToolChoice tc =
     (if tcMode tc = ''function''
      then JObj [(''type'', JStr ''function''), (''function'', JObj [(''name'', JStr (tcName tc))])]
      else if tcMode tc = [] then JStr ''auto'' else JStr (tcMode tc))"

definition chat_messages :: "ChatRequest \<Rightarrow> json" where
  "chat_messages req =
     (let ms = (if crInstructions req = [] then []
                else [JObj [(''role'', JStr ''system''), (''content'', JStr (crInstructions req))]]) @
               map chatMessageOf (crMessages req)
      in if ms = [] then JNull else JArr ms)"

definition tool_fields :: "ChatRequest \<Rightarrow> (string \<times> json) list" where
  "tool_fields req =
     (if crTools req = [] then []
      else [(''tools'', chatTools (crTools req)), (''tool_choice'', chatToolChoice (crToolChoice req)),
            (''parallel_tool_calls'', JBool False)])"

record LLMOptions =
  loModel :: string
  loReasoningEffort :: string

definition NewLLM :: "LLMOptions \<Rightarrow> LLMOptions" where
  "NewLLM opts =
     (let opts = opts\<lparr>loModel := if loModel opts = [] then ''gpt-6-luna'' else loModel opts\<rparr>
      in if loModel opts = ''gpt-6-luna'' \<and> loReasoningEffort opts = [] then opts\<lparr>loReasoningEffort := ''none''\<rparr> else opts)"

record qwen_llm_options = httpOptions +
  qlModel :: string

definition qwen_applyDefaults :: "qwen_llm_options \<Rightarrow> qwen_llm_options" where
  "qwen_applyDefaults opts = opts
     \<lparr>hoBaseURL := trim_slashes (firstNonEmpty (hoBaseURL opts) ''https://dashscope.aliyuncs.com/compatible-mode/v1''),
      qlModel := firstNonEmpty (qlModel opts) ''qwen3.6-flash'',
      hoRequestTimeout := (if hoRequestTimeout opts = 0 then seconds 30 else hoRequestTimeout opts),
      hoStreamIdleTimeout := (if hoStreamIdleTimeout opts = 0 then seconds 30 else hoStreamIdleTimeout opts)\<rparr>"

definition nonzero :: "int \<Rightarrow> json option" where
  "nonzero n = (if n = 0 then None else Some (JNum (int_str n)))"

definition openai_Chat :: "(f64 \<Rightarrow> string) \<Rightarrow> LLMOptions \<Rightarrow> ChatRequest \<Rightarrow> json" where
  "openai_Chat fmt opts req =
     JObj ([(''model'', JStr (loModel opts)), (''messages'', chat_messages req), (''stream'', JBool True),
            (''stream_options'', JObj [(''include_usage'', JBool True)])] @
       omit ''max_completion_tokens'' (nonzero (crMaxOutputTokens req)) @
       omit ''reasoning_effort'' (if loReasoningEffort opts = [] then None else Some (JStr (loReasoningEffort opts))) @
       omit ''temperature'' (map_option (\<lambda>x. JNum (fmt x)) (crTemperature req)) @
       tool_fields req)"

definition qwen_Chat :: "(f64 \<Rightarrow> string) \<Rightarrow> string \<Rightarrow> ChatRequest \<Rightarrow> json" where
  "qwen_Chat fmt model req =
     JObj ([(''model'', JStr model), (''messages'', chat_messages req), (''stream'', JBool True),
            (''stream_options'', JObj [(''include_usage'', JBool True)])] @
       omit ''max_tokens'' (nonzero (crMaxOutputTokens req)) @
       [(''enable_thinking'', JBool False)] @
       omit ''temperature'' (map_option (\<lambda>x. JNum (fmt x)) (crTemperature req)) @
       tool_fields req)"

section \<open>The chunks of the service\<close>

record deltaToolCall =
  dtIndex :: int
  dtID :: string
  dtType :: string
  dtName :: string
  dtArguments :: string

record chat_choice =
  ccContent :: string
  ccToolCalls :: "deltaToolCall list"
  ccFinishReason :: string

record chatChunk =
  ckChoices :: "chat_choice list"
  ckUsage :: "Usage option"

definition delta_function_fields :: "deltaToolCall fields" where
  "delta_function_fields =
     [(''name'', field_of into_string dtName dtName_update),
      (''arguments'', field_of into_string dtArguments dtArguments_update)]"

definition deltaToolCall_fields :: "deltaToolCall fields" where
  "deltaToolCall_fields =
     [(''index'', field_of into_int dtIndex dtIndex_update),
      (''id'', field_of into_string dtID dtID_update),
      (''type'', field_of into_string dtType dtType_update),
      (''function'', lax_struct delta_function_fields)]"

definition zero_delta :: deltaToolCall where
  "zero_delta = \<lparr>dtIndex = 0, dtID = [], dtType = [], dtName = [], dtArguments = []\<rparr>"

definition delta_fields :: "chat_choice fields" where
  "delta_fields =
     [(''content'', field_of into_string ccContent ccContent_update),
      (''tool_calls'', field_of (into_slice (lax_struct deltaToolCall_fields) zero_delta) ccToolCalls ccToolCalls_update)]"

definition choice_fields :: "chat_choice fields" where
  "choice_fields =
     [(''delta'', lax_struct delta_fields),
      (''finish_reason'', field_of into_string ccFinishReason ccFinishReason_update)]"

definition zero_choice :: chat_choice where
  "zero_choice = \<lparr>ccContent = [], ccToolCalls = [], ccFinishReason = []\<rparr>"

definition usage_fields :: "Usage fields" where
  "usage_fields =
     [(''prompt_tokens'', field_of into_int InputTokens InputTokens_update),
      (''completion_tokens'', field_of into_int OutputTokens OutputTokens_update)]"

definition zero_usage :: Usage where
  "zero_usage = \<lparr>InputTokens = 0, OutputTokens = 0\<rparr>"

definition chatChunk_fields :: "chatChunk fields" where
  "chatChunk_fields =
     [(''choices'', field_of (into_slice (lax_struct choice_fields) zero_choice) ckChoices ckChoices_update),
      (''usage'', field_of (into_ptr (lax_struct usage_fields) zero_usage) ckUsage ckUsage_update)]"

definition decode_chunk :: "json \<Rightarrow> chatChunk option" where
  "decode_chunk j = lax_struct chatChunk_fields j \<lparr>ckChoices = [], ckUsage = None\<rparr>"

section \<open>Tool calls\<close>

record toolCalls =
  byIndex :: "int \<Rightarrow> ToolCall option"
  tcOrder :: "int list"

definition no_calls :: toolCalls where
  "no_calls = \<lparr>byIndex = (\<lambda>_. None), tcOrder = []\<rparr>"

definition blank_call :: ToolCall where
  "blank_call = \<lparr>callID = [], callName = [], callArguments = []\<rparr>"

definition add_fragment :: "deltaToolCall \<Rightarrow> ToolCall \<Rightarrow> ToolCall" where
  "add_fragment d c =
     \<lparr>callID = (if dtID d \<noteq> [] then dtID d else callID c),
      callName = (if dtName d \<noteq> [] then dtName d else callName c),
      callArguments = callArguments c @ dtArguments d\<rparr>"

definition calls_push :: "deltaToolCall \<Rightarrow> toolCalls \<Rightarrow> toolCalls" where
  "calls_push d t =
     (case byIndex t (dtIndex d) of
        Some c \<Rightarrow> t\<lparr>byIndex := (byIndex t)(dtIndex d \<mapsto> add_fragment d c)\<rparr>
      | None \<Rightarrow> t\<lparr>byIndex := (byIndex t)(dtIndex d \<mapsto> add_fragment d blank_call),
                 tcOrder := tcOrder t @ [dtIndex d]\<rparr>)"

section \<open>The stream\<close>

text \<open>What \<open>ReadString\<close> returned: a line, the end of the body after an incomplete line, an error, or an
  error when the context was done; in that case whether the watchdog had fired, and whether there was
  room for one more chunk in the buffered channel.\<close>

datatype line_read = Line string | LineEOF string | LineError string | LineStopped bool bool

record chat_env =
  ceParse :: "string \<Rightarrow> json option"
  ceJsonErr :: "string \<Rightarrow> string"
  ceOk :: "nat \<Rightarrow> bool"

text \<open>Where the two clients differ.\<close>

record chat_client =
  clName :: string
  clReadErr :: "string \<Rightarrow> string"

record chat_run =
  rnSends :: nat
  rnOut :: "LLMChunk list"
  rnFinish :: "FinishReason option"
  rnUsage :: Usage
  rnCalls :: toolCalls

definition new_run :: chat_run where
  "new_run = \<lparr>rnSends = 0, rnOut = [], rnFinish = None, rnUsage = zero_usage, rnCalls = no_calls\<rparr>"

definition llm_send :: "chat_env \<Rightarrow> LLMChunk \<Rightarrow> chat_run \<Rightarrow> bool \<times> chat_run" where
  "llm_send env c r =
     (let ok = ceOk env (rnSends r)
      in (ok, r\<lparr>rnSends := Suc (rnSends r), rnOut := (if ok then rnOut r @ [c] else rnOut r)\<rparr>))"

definition mapFinish :: "string \<Rightarrow> FinishReason" where
  "mapFinish s = (if s = ''length'' then FinishLength else if s = ''content_filter'' then FinishContentFilter else FinishStop)"

definition finishOr :: "FinishReason option \<Rightarrow> FinishReason" where
  "finishOr f = (case f of None \<Rightarrow> FinishStop | Some f \<Rightarrow> f)"

definition too_many_calls :: "string \<Rightarrow> nat \<Rightarrow> perr" where
  "too_many_calls name n = failed_with (fatalf name
     (''model returned '' @ nat_str n @ '' tool calls; at most one per response is supported''))"

definition calls_emit :: "string \<Rightarrow> chat_env \<Rightarrow> FinishReason \<Rightarrow> chat_run \<Rightarrow> bool \<times> chat_run" where
  "calls_emit name env fin r =
     (let t = rnCalls r in
      if tcOrder t = [] \<or> fin \<noteq> FinishStop then (True, r)
      else let (ok, r) = llm_send env (LLMToolCall (the (byIndex t (hd (tcOrder t))))) r in
        if \<not> ok then (False, r)
        else if length (tcOrder t) > 1
        then (False, snd (llm_send env (LLMError (too_many_calls name (length (tcOrder t)))) r))
        else (True, r))"

definition llm_done :: "string \<Rightarrow> chat_env \<Rightarrow> chat_run \<Rightarrow> chat_run" where
  "llm_done name env r =
     (let (ok, r) = calls_emit name env (finishOr (rnFinish r)) r
      in if \<not> ok then r else snd (llm_send env (LLMDone (Some (finishOr (rnFinish r))) (rnUsage r)) r))"

fun choices_loop :: "chat_env \<Rightarrow> chat_choice list \<Rightarrow> chat_run \<Rightarrow> bool \<times> chat_run" where
  "choices_loop env [] r = (True, r)"
| "choices_loop env (c # cs) r =
     (let (ok, r) = (if ccContent c \<noteq> [] then llm_send env (LLMTextDelta (ccContent c)) r else (True, r)) in
      if \<not> ok then (False, r)
      else choices_loop env cs (r\<lparr>rnCalls := fold calls_push (ccToolCalls c) (rnCalls r),
        rnFinish := (if ccFinishReason c \<noteq> [] then Some (mapFinish (ccFinishReason c)) else rnFinish r)\<rparr>))"

definition chunk_step :: "chat_env \<Rightarrow> chatChunk \<Rightarrow> chat_run \<Rightarrow> bool \<times> chat_run" where
  "chunk_step env ck r =
     choices_loop env (ckChoices ck) (case ckUsage ck of None \<Rightarrow> r | Some u \<Rightarrow> r\<lparr>rnUsage := u\<rparr>)"

text \<open>The text of a \<open>data:\<close> line; other lines carry none.\<close>

definition line_data :: "string \<Rightarrow> string option" where
  "line_data l =
     (let l = trim_right (\<lambda>r. r = 10 \<or> r = 13) l
      in if take 5 l = ''data:'' then Some (trim_space (drop 5 l)) else None)"

text \<open>One turn of the loop: the run, and whether the goroutine goes on.\<close>

definition stream_line :: "chat_client \<Rightarrow> chat_env \<Rightarrow> line_read \<Rightarrow> chat_run \<Rightarrow> bool \<times> chat_run" where
  "stream_line cl env rd r =
     (case rd of
        LineStopped idle room \<Rightarrow>
          (False, if idle \<and> room
                  then r\<lparr>rnOut := rnOut r @ [LLMError (failed_with (transientf (clName cl) ''stream idle timeout''))]\<rparr> else r)
      | LineEOF _ \<Rightarrow> (False, llm_done (clName cl) env r)
      | LineError e \<Rightarrow> (False, snd (llm_send env (LLMError (failed_with (transientf (clName cl) (clReadErr cl e)))) r))
      | Line l \<Rightarrow> (case line_data l of
            None \<Rightarrow> (True, r)
          | Some data \<Rightarrow>
              if data = ''[DONE]'' then (False, llm_done (clName cl) env r)
              else case Option.bind (ceParse env data) decode_chunk of
                None \<Rightarrow> (False, snd (llm_send env (LLMError (failed_with (fatalf (clName cl)
                            (''malformed stream chunk: '' @ ceJsonErr env data)))) r))
              | Some ck \<Rightarrow> chunk_step env ck r))"

fun stream_loop :: "chat_client \<Rightarrow> chat_env \<Rightarrow> line_read list \<Rightarrow> chat_run \<Rightarrow> bool \<times> chat_run" where
  "stream_loop cl env [] r = (True, r)"
| "stream_loop cl env (rd # rds) r =
     (let (go, r) = stream_line cl env rd r in if go then stream_loop cl env rds r else (False, r))"

text \<open>The goroutine; \<open>post\<close> is the outcome of the request. The first component is true while the stream is
  still open.\<close>

definition chat_stream :: "chat_client \<Rightarrow> chat_env \<Rightarrow> perr option \<Rightarrow> line_read list \<Rightarrow> bool \<times> LLMChunk list" where
  "chat_stream cl env post rds =
     (case post of
        Some e \<Rightarrow> (False, rnOut (snd (llm_send env (LLMError e) new_run)))
      | None \<Rightarrow> map_prod id rnOut (stream_loop cl env rds new_run))"

definition openai_stream :: "chat_env \<Rightarrow> string option \<Rightarrow> http_do \<Rightarrow> line_read list \<Rightarrow> bool \<times> LLMChunk list" where
  "openai_stream env bad_url d rds =
     chat_stream \<lparr>clName = ''openai'', clReadErr = id\<rparr> env (postJSON ''openai'' bad_url d) rds"

definition qwen_post :: "string option \<Rightarrow> http_do \<Rightarrow> perr option" where
  "qwen_post bad_url r =
     postJSON ''qwen'' (map_option ((@) ''build request: '') bad_url)
       (case r of DoError e ctx_done \<Rightarrow> DoError (''request: '' @ e) ctx_done | Response st b \<Rightarrow> Response st b)"

definition qwen_stream :: "chat_env \<Rightarrow> string option \<Rightarrow> http_do \<Rightarrow> line_read list \<Rightarrow> bool \<times> LLMChunk list" where
  "qwen_stream env bad_url d rds =
     chat_stream \<lparr>clName = ''qwen'', clReadErr = (@) ''read stream: ''\<rparr> env (qwen_post bad_url d) rds"

end
