(* ===== verification/ChatProps.thy ===== *)
theory ChatProps
  imports ChatStream
begin

text \<open>
  What the Chat Completions clients promise the pipeline: the order of their chunks, whatever the service
  sends and whenever the context ends, and the exact chunks for a stream that ends by itself, against a
  reference that reads the fragments of all chunks at once.
\<close>

section \<open>The order of chunks\<close>

fun ends_stream :: "LLMChunk \<Rightarrow> bool" where
  "ends_stream (LLMDone _ _) = True"
| "ends_stream (LLMError _) = True"
| "ends_stream _ = False"

fun well_ordered :: "LLMChunk list \<Rightarrow> bool" where
  "well_ordered [] = True"
| "well_ordered (LLMTextDelta t # cs) = (t \<noteq> [] \<and> well_ordered cs)"
| "well_ordered (LLMToolCall c # cs) = (cs = [] \<or> length cs = 1 \<and> ends_stream (hd cs))"
| "well_ordered (_ # cs) = (cs = [])"

definition only_text :: "LLMChunk list \<Rightarrow> bool" where
  "only_text cs \<longleftrightarrow> list_all (\<lambda>c. case c of LLMTextDelta t \<Rightarrow> t \<noteq> [] | _ \<Rightarrow> False) cs"

lemma only_text_simps [simp]:
  "only_text []"
  "only_text (xs @ ys) \<longleftrightarrow> only_text xs \<and> only_text ys"
  "only_text [LLMTextDelta t] \<longleftrightarrow> t \<noteq> []"
  by (simp_all add: only_text_def)

lemma well_ordered_text: "only_text cs \<Longrightarrow> well_ordered (cs @ ds) = well_ordered ds"
  by (induction cs) (auto simp: only_text_def split: LLMChunk.splits)

lemma well_ordered_only_text: "only_text cs \<Longrightarrow> well_ordered cs"
  using well_ordered_text [of cs "[]"] by simp

lemma llm_send_out:
  "only_text (rnOut r) \<Longrightarrow> well_ordered [c] \<Longrightarrow> well_ordered (rnOut (snd (llm_send env c r)))"
  by (simp add: llm_send_def Let_def well_ordered_text well_ordered_only_text)

lemma llm_done_ordered: "only_text (rnOut r) \<Longrightarrow> well_ordered (rnOut (llm_done name env r))"
  by (simp add: llm_done_def calls_emit_def llm_send_def Let_def well_ordered_text well_ordered_only_text)

lemma choices_loop_text: "only_text (rnOut r) \<Longrightarrow> only_text (rnOut (snd (choices_loop env cs r)))"
  by (induction cs arbitrary: r) (simp_all add: llm_send_def Let_def)

lemma chunk_step_text: "only_text (rnOut r) \<Longrightarrow> only_text (rnOut (snd (chunk_step env ck r)))"
  by (simp add: chunk_step_def choices_loop_text split: option.split)

lemma stream_line_ordered:
  assumes "only_text (rnOut r)"
  shows "well_ordered (rnOut (snd (stream_line cl env rd r)))"
    "fst (stream_line cl env rd r) \<Longrightarrow> only_text (rnOut (snd (stream_line cl env rd r)))"
  using assms
  by (auto simp: stream_line_def llm_done_ordered llm_send_out chunk_step_text well_ordered_only_text well_ordered_text
      split: line_read.splits option.splits)

lemma stream_loop_ordered:
  assumes "only_text (rnOut r)"
  shows "well_ordered (rnOut (snd (stream_loop cl env rds r)))"
    "fst (stream_loop cl env rds r) \<Longrightarrow> only_text (rnOut (snd (stream_loop cl env rds r)))"
  using assms
proof (induction rds arbitrary: r)
  case (Cons rd rds)
  {
    case 1
    with Cons.IH(1) stream_line_ordered [of r cl env rd] show ?case by (auto simp: case_prod_beta Let_def)
  next
    case 2
    with Cons.IH(2) stream_line_ordered(2) [of r cl env rd] show ?case
      by (auto simp: case_prod_beta Let_def split: if_splits)
  }
qed (simp_all add: well_ordered_only_text)

lemma chat_stream_ordered: "well_ordered (snd (chat_stream cl env post rds))"
  by (auto simp: chat_stream_def stream_loop_ordered new_run_def llm_send_def Let_def split: option.split)

lemma chat_stream_open: "fst (chat_stream cl env post rds) \<Longrightarrow> only_text (snd (chat_stream cl env post rds))"
  by (auto simp: chat_stream_def stream_loop_ordered new_run_def split: option.splits)

section \<open>Accumulating tool calls\<close>

definition first_occ :: "'a list \<Rightarrow> 'a list" where
  "first_occ xs = rev (remdups (rev xs))"

definition last_set :: "string list \<Rightarrow> string" where
  "last_set xs = (case rev (filter (\<lambda>s. s \<noteq> []) xs) of [] \<Rightarrow> [] | s # _ \<Rightarrow> s)"

text \<open>The call whose fragments carry index \<open>i\<close>: the last id and the last name that are given, and all the
  argument fragments in order.\<close>

definition call_of :: "int \<Rightarrow> deltaToolCall list \<Rightarrow> ToolCall" where
  "call_of i fs =
     (let gs = filter (\<lambda>d. dtIndex d = i) fs
      in \<lparr>callID = last_set (map dtID gs), callName = last_set (map dtName gs),
          callArguments = concat (map dtArguments gs)\<rparr>)"

lemma last_set_snoc: "last_set (xs @ [x]) = (if x \<noteq> [] then x else last_set xs)"
  by (simp add: last_set_def)

lemma call_of_snoc:
  "call_of i (fs @ [d]) = (if dtIndex d = i then add_fragment d (call_of i fs) else call_of i fs)"
  by (simp add: call_of_def add_fragment_def last_set_snoc Let_def)

lemma call_of_none: "i \<notin> dtIndex ` set fs \<Longrightarrow> call_of i fs = blank_call"
proof -
  assume "i \<notin> dtIndex ` set fs"
  then have "filter (\<lambda>d. dtIndex d = i) fs = []" by (auto simp: filter_empty_conv)
  then show ?thesis by (simp add: call_of_def blank_call_def last_set_def)
qed

lemma calls_fold:
  "tcOrder (fold calls_push fs no_calls) = first_occ (map dtIndex fs)
   \<and> byIndex (fold calls_push fs no_calls) = (\<lambda>i. if i \<in> dtIndex ` set fs then Some (call_of i fs) else None)"
proof (induction fs rule: rev_induct)
  case (snoc d fs)
  then show ?case
    by (auto simp: calls_push_def first_occ_def call_of_snoc call_of_none fun_eq_iff)
qed (simp add: no_calls_def first_occ_def)

section \<open>A stream that ends by itself\<close>

definition texts :: "chatChunk list \<Rightarrow> string list" where
  "texts cks = filter (\<lambda>s. s \<noteq> []) (map ccContent (concat (map ckChoices cks)))"

definition fragments :: "chatChunk list \<Rightarrow> deltaToolCall list" where
  "fragments cks = concat (map ccToolCalls (concat (map ckChoices cks)))"

definition finish_of :: "chatChunk list \<Rightarrow> FinishReason" where
  "finish_of cks =
     (let s = last_set (map ccFinishReason (concat (map ckChoices cks))) in if s = [] then FinishStop else mapFinish s)"

definition usage_of :: "chatChunk list \<Rightarrow> Usage" where
  "usage_of cks = (case rev (List.map_filter ckUsage cks) of [] \<Rightarrow> zero_usage | u # _ \<Rightarrow> u)"

definition closing_chunks :: "string \<Rightarrow> chatChunk list \<Rightarrow> LLMChunk list" where
  "closing_chunks name cks =
     (let fs = fragments cks; is = first_occ (map dtIndex fs); dn = LLMDone (Some (finish_of cks)) (usage_of cks)
      in if is = [] \<or> finish_of cks \<noteq> FinishStop then [dn]
         else LLMToolCall (call_of (hd is) fs)
              # (if length is > 1 then [LLMError (too_many_calls name (length is))] else [dn]))"

text \<open>The chunks a list of lines carries, if none of them ends the stream.\<close>

definition chunk_of :: "chat_env \<Rightarrow> string \<Rightarrow> chatChunk list option" where
  "chunk_of env l =
     (case line_data l of None \<Rightarrow> Some []
      | Some d \<Rightarrow> if d = ''[DONE]'' then None else map_option (\<lambda>ck. [ck]) (Option.bind (ceParse env d) decode_chunk))"

fun chunks_of :: "chat_env \<Rightarrow> string list \<Rightarrow> chatChunk list option" where
  "chunks_of env [] = Some []"
| "chunks_of env (l # ls) =
     (case chunk_of env l of None \<Rightarrow> None | Some cs \<Rightarrow> map_option ((@) cs) (chunks_of env ls))"

fun ends_body :: "line_read \<Rightarrow> bool" where
  "ends_body (LineEOF _) = True"
| "ends_body (Line l) = (line_data l = Some ''[DONE]'')"
| "ends_body _ = False"

definition run_of :: "chatChunk list \<Rightarrow> chat_run \<Rightarrow> bool" where
  "run_of cks r \<longleftrightarrow> rnOut r = map LLMTextDelta (texts cks) \<and> rnCalls r = fold calls_push (fragments cks) no_calls
     \<and> finishOr (rnFinish r) = finish_of cks \<and> rnUsage r = usage_of cks"

lemma last_set_append: "last_set (xs @ ys) = (if last_set ys = [] then last_set xs else last_set ys)"
  by (induction ys rule: rev_induct) (auto simp: last_set_snoc simp flip: append_assoc, simp add: last_set_def)

lemma choices_loop_ok:
  assumes "\<And>n. ceOk env n"
  shows "fst (choices_loop env cs r)"
    "rnOut (snd (choices_loop env cs r)) = rnOut r @ map LLMTextDelta (filter (\<lambda>s. s \<noteq> []) (map ccContent cs))"
    "rnCalls (snd (choices_loop env cs r)) = fold calls_push (concat (map ccToolCalls cs)) (rnCalls r)"
    "rnUsage (snd (choices_loop env cs r)) = rnUsage r"
    "rnFinish (snd (choices_loop env cs r)) = (if last_set (map ccFinishReason cs) = [] then rnFinish r
       else Some (mapFinish (last_set (map ccFinishReason cs))))"
proof (induction cs arbitrary: r)
  case Nil
  {
    case 1 show ?case by simp
  next
    case 2 show ?case by simp
  next
    case 3 show ?case by simp
  next
    case 4 show ?case by simp
  next
    case 5 show ?case by (simp add: last_set_def)
  }
next
  case (Cons c cs)
  have l: "last_set (map ccFinishReason (c # cs)) =
    (if last_set (map ccFinishReason cs) = [] then ccFinishReason c else last_set (map ccFinishReason cs))"
    using last_set_append [of "[ccFinishReason c]" "map ccFinishReason cs"] by (auto simp: last_set_def)
  {
    case 1 show ?case by (simp add: Cons.IH llm_send_def assms)
  next
    case 2 show ?case by (simp add: Cons.IH llm_send_def assms)
  next
    case 3 show ?case by (simp add: Cons.IH llm_send_def assms)
  next
    case 4 show ?case by (simp add: Cons.IH llm_send_def assms)
  next
    case 5 show ?case unfolding l by (simp add: Cons.IH llm_send_def assms)
  }
qed

lemma chunks_append:
  "texts (xs @ ys) = texts xs @ texts ys" "fragments (xs @ ys) = fragments xs @ fragments ys"
  by (simp_all add: texts_def fragments_def)

lemma chunk_step_run:
  assumes "\<And>n. ceOk env n" "run_of cks r"
  shows "fst (chunk_step env ck r)" "run_of (cks @ [ck]) (snd (chunk_step env ck r))"
proof -
  show "fst (chunk_step env ck r)" using assms by (simp add: chunk_step_def choices_loop_ok)
  have fin: "finish_of (cks @ [ck]) =
    (if last_set (map ccFinishReason (ckChoices ck)) = [] then finish_of cks else mapFinish (last_set (map ccFinishReason (ckChoices ck))))"
    by (simp add: finish_of_def last_set_append)
  have us: "usage_of (cks @ [ck]) = (case ckUsage ck of None \<Rightarrow> usage_of cks | Some u \<Rightarrow> u)"
    by (simp add: usage_of_def List.map_filter_def split: option.split)
  show "run_of (cks @ [ck]) (snd (chunk_step env ck r))"
    using assms unfolding run_of_def fin us
    by (cases "ckUsage ck") (auto simp: chunk_step_def choices_loop_ok texts_def fragments_def finishOr_def)
qed

lemma stream_chunks:
  assumes "\<And>n. ceOk env n" "run_of cks r" "chunks_of env ls = Some new"
  shows "\<exists>r'. run_of (cks @ new) r' \<and> stream_loop cl env (map Line ls @ rds) r = stream_loop cl env rds r'"
  using assms(2,3)
proof (induction ls arbitrary: cks new r)
  case (Cons l ls)
  then obtain cs more where cs: "chunk_of env l = Some cs" and more: "chunks_of env ls = Some more" "new = cs @ more"
    by (auto split: option.splits)
  show ?case
  proof (cases "line_data l")
    case None
    with cs more Cons show ?thesis by (auto simp: chunk_of_def stream_line_def)
  next
    case (Some d)
    with cs obtain ck where ck: "d \<noteq> ''[DONE]''" "Option.bind (ceParse env d) decode_chunk = Some ck" "cs = [ck]"
      by (auto simp: chunk_of_def split: if_splits)
    have "stream_line cl env (Line l) r = chunk_step env ck r" using Some ck by (simp add: stream_line_def)
    moreover note chunk_step_run [where ck = ck, OF assms(1) Cons.prems(1)]
    ultimately show ?thesis
      using Cons.IH [OF chunk_step_run(2) [where ck = ck, OF assms(1) Cons.prems(1)] more(1)] ck more(2)
      by (simp add: case_prod_beta Let_def)
  qed
qed auto

lemma llm_done_run:
  assumes "\<And>n. ceOk env n" "run_of cks r"
  shows "rnOut (llm_done name env r) = map LLMTextDelta (texts cks) @ closing_chunks name cks"
proof -
  have "byIndex (rnCalls r) (hd (tcOrder (rnCalls r))) = Some (call_of (hd (tcOrder (rnCalls r))) (fragments cks))"
    if "tcOrder (rnCalls r) \<noteq> []"
  proof -
    have "hd (tcOrder (rnCalls r)) \<in> set (tcOrder (rnCalls r))" using that by simp
    then show ?thesis using assms(2) by (auto simp: run_of_def calls_fold first_occ_def)
  qed
  then show ?thesis
    using assms by (auto simp: llm_done_def calls_emit_def llm_send_def Let_def closing_chunks_def run_of_def calls_fold)
qed

lemma chat_stream_closing:
  assumes ok: "\<And>n. ceOk env n" and lines: "chunks_of env ls = Some cks" and stop: "ends_body rd"
  shows "chat_stream cl env None (map Line ls @ rd # rds)
         = (False, map LLMTextDelta (texts cks) @ closing_chunks (clName cl) cks)"
proof -
  have "run_of [] new_run"
    by (simp add: run_of_def new_run_def texts_def fragments_def finishOr_def finish_of_def last_set_def usage_of_def List.map_filter_def)
  from stream_chunks [OF ok this lines] obtain r' where r': "run_of cks r'"
    "stream_loop cl env (map Line ls @ rd # rds) new_run = stream_loop cl env (rd # rds) r'"
    by (metis append_Nil)
  have "stream_line cl env rd r' = (False, llm_done (clName cl) env r')"
    using stop by (cases rd) (auto simp: stream_line_def)
  with r' llm_done_run [OF ok r'(1)] show ?thesis by (simp add: chat_stream_def)
qed

section \<open>The pipeline on top of a client\<close>

text \<open>The LLM stage of the pipeline on the chunks of a stream: it takes one chunk after the other, and passes
  the text of a delta on before it takes the next one.\<close>

fun llm_feed :: "LLMChunk list \<Rightarrow> pipe \<Rightarrow> pipe" where
  "llm_feed [] p = p"
| "llm_feed (c # cs) p =
     (let p1 = llm_next True (Some c) p; p2 = (case plLlm p1 of LPut t \<Rightarrow> llm_put True t p1 | _ \<Rightarrow> p1)
      in if plLlm p2 = LExit then p2 else llm_feed cs p2)"

fun chunk_events :: "pipe \<Rightarrow> LLMChunk \<Rightarrow> PipeEvent list" where
  "chunk_events p (LLMTextDelta t) =
     [if psTextOnly (plStart p) then PipeTextDelta (gen p) (resp p) t else PipeAudioTranscriptDelta (gen p) (resp p) t]"
| "chunk_events p (LLMToolCall c) = [PipeToolCall (gen p) c]"
| "chunk_events p (LLMDone f u) = [PipeLLMDone (gen p) f u]"
| "chunk_events p (LLMError e) = (case e of Canceled \<Rightarrow> [] | Failed m \<Rightarrow> [PipeError (gen p) ''llm'' m])"

fun chunk_text :: "LLMChunk \<Rightarrow> string list" where
  "chunk_text (LLMTextDelta t) = [t]"
| "chunk_text _ = []"

lemma chunk_events_cong: "plStart q = plStart p \<Longrightarrow> chunk_events q x = chunk_events p x"
  by (cases x) (auto split: perr.split)

lemma llm_feed_end:
  assumes "ends_stream c"
  shows "plOut (llm_feed (c # cs) p) = plOut p @ chunk_events p c" "plFed (llm_feed (c # cs) p) = plFed p"
    "plLlm (llm_feed (c # cs) p) = LExit"
  using assms by (cases c; simp add: llm_next_def send_def fail_with_def split: perr.split)+

lemma llm_feed_all:
  assumes "well_ordered cs" "plLlm p = LRange"
  shows "plOut (llm_feed cs p) = plOut p @ concat (map (chunk_events p) cs)
    \<and> plFed (llm_feed cs p) = plFed p @ concat (map chunk_text cs)
    \<and> (plLlm (llm_feed cs p) = LExit \<longleftrightarrow> cs \<noteq> [] \<and> ends_stream (last cs))"
  using assms
proof (induction cs arbitrary: p)
  case (Cons c cs)
  show ?case
  proof (cases c)
    case (LLMTextDelta t)
    define q where "q = llm_put True t (llm_next True (Some c) p)"
    have q: "llm_feed (c # cs) p = llm_feed cs q" "plLlm q = LRange" "plStart q = plStart p"
      "plOut q = plOut p @ chunk_events p c" "plFed q = plFed p @ [t]"
      using LLMTextDelta by (simp_all add: q_def llm_next_def llm_put_def send_def)
    have e: "chunk_events q = chunk_events p" using chunk_events_cong [OF q(3)] by blast
    show ?thesis using Cons.IH [of q] Cons.prems LLMTextDelta q e by (cases cs) auto
  next
    case (LLMToolCall tc)
    define q where "q = llm_next True (Some c) p"
    have q: "llm_feed (c # cs) p = llm_feed cs q" "plStart q = plStart p" "plLlm q = LRange"
      "plOut q = plOut p @ chunk_events p c" "plFed q = plFed p"
      using LLMToolCall Cons.prems by (simp_all add: q_def llm_next_def send_def)
    note e = chunk_events_cong [OF q(2)]
    from Cons.prems LLMToolCall consider "cs = []" | d where "cs = [d]" "ends_stream d"
      by (cases cs) auto
    then show ?thesis
    proof cases
      case 1
      with q LLMToolCall show ?thesis by simp
    next
      case (2 d)
      then have "chunk_text d = []" by (cases d) auto
      with 2 q LLMToolCall llm_feed_end [of d "[]" q] e show ?thesis by simp
    qed
  next
    case (LLMDone f u)
    with Cons.prems llm_feed_end [of c cs p] show ?thesis by simp
  next
    case (LLMError e)
    with Cons.prems llm_feed_end [of c cs p] show ?thesis by simp
  qed
qed simp

text \<open>What the pipeline relies on, of every environment the service is used in, and what follows for it.\<close>

locale llm_service =
  fixes served :: "'e \<Rightarrow> bool" and chunks :: "'e \<Rightarrow> bool \<times> LLMChunk list"
  assumes ordered: "served e \<Longrightarrow> well_ordered (snd (chunks e))"
    and open_stream: "served e \<Longrightarrow> fst (chunks e) \<Longrightarrow> list_all (\<lambda>c. \<not> ends_stream c) (snd (chunks e))"
begin

lemma stage_reports:
  assumes "plLlm p = LRange" "served e"
  shows "plOut (llm_feed (snd (chunks e)) p) = plOut p @ concat (map (chunk_events p) (snd (chunks e)))
    \<and> plFed (llm_feed (snd (chunks e)) p) = plFed p @ concat (map chunk_text (snd (chunks e)))
    \<and> (fst (chunks e) \<longrightarrow> plLlm (llm_feed (snd (chunks e)) p) \<noteq> LExit)"
proof -
  have "\<not> ends_stream (last cs)" if "list_all (\<lambda>c. \<not> ends_stream c) cs" "cs \<noteq> []" for cs
    using that by (cases cs rule: rev_cases) auto
  with llm_feed_all [OF ordered assms(1)] open_stream assms(2) show ?thesis by blast
qed

end

lemma only_text_open: "only_text cs \<Longrightarrow> list_all (\<lambda>c. \<not> ends_stream c) cs"
  by (induction cs) (auto simp: only_text_def split: LLMChunk.splits)

interpretation openai_llm: llm_service "\<lambda>_. True" "\<lambda>(env, bad_url, d, rds). openai_stream env bad_url d rds"
  by unfold_locales (auto simp: openai_stream_def chat_stream_ordered chat_stream_open only_text_open split: prod.splits)

interpretation qwen_llm: llm_service "\<lambda>_. True" "\<lambda>(env, bad_url, d, rds). qwen_stream env bad_url d rds"
  by unfold_locales (auto simp: qwen_stream_def chat_stream_ordered chat_stream_open only_text_open split: prod.splits)

section \<open>The two clients\<close>

text \<open>\<^bold>\<open>C15\<close>: when the request succeeds, the consumer takes every chunk and the body ends (at its end or with
  \<open>[DONE]\<close>) after lines that all decode, both clients send the non-empty texts in order and then, unless the
  generation was cut short, the one tool call of the stream with the last id and name given for its index
  and all its argument fragments joined, and last a Done with the last finish reason and usage, or an
  error in its place when the fragments belong to several calls.\<close>

theorem chat_completes:
  assumes "\<And>n. ceOk env n" "chunks_of env ls = Some cks" "ends_body rd" "200 \<le> status" "status < 300"
  shows "openai_stream env None (Response status b) (map Line ls @ rd # rds)
         = (False, map LLMTextDelta (texts cks) @ closing_chunks ''openai'' cks)
       \<and> qwen_stream env None (Response status b) (map Line ls @ rd # rds)
         = (False, map LLMTextDelta (texts cks) @ closing_chunks ''qwen'' cks)"
proof -
  have "go_div status 100 = 2" using assms(4,5) by (simp add: go_div_def)
  with chat_stream_closing [OF assms(1-3)] show ?thesis
    by (simp add: openai_stream_def qwen_stream_def qwen_post_def postJSON_def)
qed

definition demo_call :: "string \<Rightarrow> json" where
  "demo_call frag = JObj [(''choices'', JArr [JObj [(''delta'', JObj [(''tool_calls'', JArr [JObj
     [(''id'', JStr ''c1''), (''function'', JObj [(''name'', JStr ''f''), (''arguments'', JStr frag)])]])])]])]"

definition demo_chat :: chat_env where
  "demo_chat = \<lparr>ceParse = (\<lambda>d. if d = ''a'' then Some (JObj [(''choices'', JArr [JObj [(''delta'', JObj [(''content'', JStr ''hi'')])]])])
       else if d = ''b'' then Some (demo_call ''{'') else if d = ''c'' then Some (demo_call ''}'') else None),
     ceJsonErr = id, ceOk = (\<lambda>_. True)\<rparr>"

definition demo_lines :: "string list" where
  "demo_lines = map (\<lambda>c. ''data:'' @ [c]) ''abc''"

definition demo_chunks :: "chatChunk list" where
  "demo_chunks = map (\<lambda>c. \<lparr>ckChoices = [c], ckUsage = None\<rparr>)
     (zero_choice\<lparr>ccContent := ''hi''\<rparr>
      # map (\<lambda>frag. zero_choice\<lparr>ccToolCalls := [zero_delta\<lparr>dtID := ''c1'', dtName := ''f'', dtArguments := frag\<rparr>]\<rparr>) [''{'', ''}''])"

lemma demo_data: "line_data ''data:a'' = Some ''a''" "line_data ''data:b'' = Some ''b''" "line_data ''data:c'' = Some ''c''"
  by (simp_all add: line_data_def Let_def trim_space_def trim_right.simps trim_left.simps decode_last_rune_def
      decode_rune_def lead_info_def is_space_def)

lemmas chunk_decoding = decode_chunk_def lax_struct_def chatChunk_fields_def find_field_def field_of_def into_slice_def
  choice_fields_def delta_fields_def deltaToolCall_fields_def delta_function_fields_def into_string_def

lemma demo_chunks_ok: "chunks_of demo_chat demo_lines = Some demo_chunks"
  by (simp add: chunk_decoding demo_lines_def demo_data chunk_of_def demo_chat_def demo_call_def demo_chunks_def zero_choice_def zero_delta_def)

theorem chat_completes_witness:
  "openai_stream demo_chat None (Response 200 []) (map Line demo_lines @ [LineEOF []])
   = (False, [LLMTextDelta ''hi'', LLMToolCall \<lparr>callID = ''c1'', callName = ''f'', callArguments = ''{}''\<rparr>,
              LLMDone (Some FinishStop) zero_usage])"
proof -
  have "texts demo_chunks = [''hi'']" by (simp add: texts_def demo_chunks_def zero_choice_def)
  moreover have "closing_chunks ''openai'' demo_chunks
    = [LLMToolCall \<lparr>callID = ''c1'', callName = ''f'', callArguments = ''{}''\<rparr>, LLMDone (Some FinishStop) zero_usage]"
    by (simp add: closing_chunks_def demo_chunks_def zero_choice_def zero_delta_def fragments_def finish_of_def usage_of_def
        last_set_def first_occ_def call_of_def List.map_filter_def)
  ultimately show ?thesis
    using chat_completes [of demo_chat demo_lines demo_chunks "LineEOF []" 200 "[]" "[]"] demo_chunks_ok
    by (simp add: demo_chat_def)
qed



end
