(* ===== verification/MockLlm.thy ===== *)
theory MockLlm
  imports ChatProps
begin

text \<open>
  The scripted generator of \<^verbatim>\<open>internal/provider/mock/llm.go\<close>: the provider with the goroutines of its
  generations, the buffered channel of each and the consumer that reads it, as an interleaving machine. A
  critical section is one step, and so is a \<open>select\<close> with the code up to the next blocking point. \<open>now\<close> is
  the clock; the context is cancelled, never timed out, and \<open>OnChat\<close>, which a test sets, is left out. A
  finish reason that the provider package does not name is \<^term>\<open>None\<close> once it is in a chunk.
\<close>

section \<open>Script and state\<close>

record LLMScript =
  lsTokens :: "string list"
  lsFinishReason :: string
  lsUsage :: Usage
  lsTokenDelay :: int
  lsBlock :: bool
  lsBlockAfter :: int
  lsErr :: "perr option"
  lsChatErr :: "perr option"
  lsToolCall :: "ToolCall option"
  lsBlockAfterToolCall :: bool

definition normalizeScript :: "LLMScript \<Rightarrow> LLMScript" where
  "normalizeScript s = (if lsFinishReason s = [] then s\<lparr>lsFinishReason := ''stop''\<rparr> else s)"

definition finish_named :: "string \<Rightarrow> FinishReason option" where
  "finish_named s =
     (if s = ''stop'' then Some FinishStop else if s = ''length'' then Some FinishLength
      else if s = ''content_filter'' then Some FinishContentFilter else None)"

definition llmChunkQueue :: nat where "llmChunkQueue = 16"

text \<open>Where a generation stands: in the delay before token \<open>i\<close>, at a send with what follows it, waiting for
  the context in \<open>block\<close>, at the send of \<open>block\<close> that may be skipped, and at the two deferred calls.\<close>

datatype gen_next = AfterToken nat | AfterCall | AfterEnd
datatype gen_pc = GDelay nat | GSend LLMChunk gen_next | GBlock | GBest | GLeave | GClose | GExit

record mock_gen =
  gnScript :: LLMScript
  gnPc :: gen_pc
  gnDone :: bool
  gnQueue :: "LLMChunk list"
  gnTaken :: "LLMChunk list"

record mock_llm =
  mlScript :: LLMScript
  mlChecked :: nat
  mlRequests :: "ChatRequest list"
  mlCancelledAt :: "nat option"
  mlActive :: int
  mlGens :: "mock_gen list"

definition mock_NewLLM :: "LLMScript \<Rightarrow> mock_llm" where
  "mock_NewLLM s = \<lparr>mlScript = normalizeScript s, mlChecked = 0, mlRequests = [], mlCancelledAt = None, mlActive = 0, mlGens = []\<rparr>"

definition SetScript :: "LLMScript \<Rightarrow> mock_llm \<Rightarrow> mock_llm" where
  "SetScript s l = l\<lparr>mlScript := normalizeScript s\<rparr>"

definition mock_markCancelled :: "nat \<Rightarrow> mock_llm \<Rightarrow> mock_llm" where
  "mock_markCancelled now l = (if mlCancelledAt l = None then l\<lparr>mlCancelledAt := Some now\<rparr> else l)"

section \<open>A generation\<close>

definition end_chunk :: "LLMScript \<Rightarrow> LLMChunk" where
  "end_chunk s = (case lsErr s of Some e \<Rightarrow> LLMError e | None \<Rightarrow> LLMDone (finish_named (lsFinishReason s)) (lsUsage s))"

definition token_send :: "LLMScript \<Rightarrow> nat \<Rightarrow> gen_pc" where
  "token_send s i = GSend (LLMTextDelta (lsTokens s ! i)) (AfterToken i)"

definition after_tokens :: "LLMScript \<Rightarrow> gen_pc" where
  "after_tokens s =
     (if lsBlock s \<and> lsBlockAfter s \<ge> int (length (lsTokens s)) then GBlock
      else case lsToolCall s of Some tc \<Rightarrow> GSend (LLMToolCall tc) AfterCall | None \<Rightarrow> GSend (end_chunk s) AfterEnd)"

definition loop_head :: "LLMScript \<Rightarrow> nat \<Rightarrow> gen_pc" where
  "loop_head s i =
     (if i < length (lsTokens s)
      then if lsBlock s \<and> int i = lsBlockAfter s then GBlock
           else if lsTokenDelay s > 0 then GDelay i else token_send s i
      else after_tokens s)"

fun after_send :: "LLMScript \<Rightarrow> gen_next \<Rightarrow> gen_pc" where
  "after_send s (AfterToken i) = loop_head s (Suc i)"
| "after_send s AfterCall = (if lsBlockAfterToolCall s then GBlock else GSend (end_chunk s) AfterEnd)"
| "after_send s AfterEnd = GLeave"

definition new_generation :: "LLMScript \<Rightarrow> mock_gen" where
  "new_generation s = \<lparr>gnScript = s, gnPc = loop_head s 0, gnDone = False, gnQueue = [], gnTaken = []\<rparr>"

text \<open>What a step does to the provider.\<close>

datatype gen_effect = Quiet | Mark | Leave

inductive gen_step :: "mock_gen \<Rightarrow> gen_effect \<Rightarrow> mock_gen \<Rightarrow> bool" where
  g_cancel: "gen_step g Quiet (g\<lparr>gnDone := True\<rparr>)"
| g_take: "gnQueue g = c # cs \<Longrightarrow> gen_step g Quiet (g\<lparr>gnQueue := cs, gnTaken := gnTaken g @ [c]\<rparr>)"
| g_delay: "gnPc g = GDelay i \<Longrightarrow> gen_step g Quiet (g\<lparr>gnPc := token_send (gnScript g) i\<rparr>)"
| g_delay_stop: "gnPc g = GDelay i \<Longrightarrow> gnDone g \<Longrightarrow> gen_step g Mark (g\<lparr>gnPc := GLeave\<rparr>)"
| g_send: "gnPc g = GSend c k \<Longrightarrow> length (gnQueue g) < llmChunkQueue
    \<Longrightarrow> gen_step g Quiet (g\<lparr>gnQueue := gnQueue g @ [c], gnPc := after_send (gnScript g) k\<rparr>)"
| g_send_stop: "gnPc g = GSend c k \<Longrightarrow> gnDone g \<Longrightarrow> gen_step g Mark (g\<lparr>gnPc := GLeave\<rparr>)"
| g_block: "gnPc g = GBlock \<Longrightarrow> gnDone g \<Longrightarrow> gen_step g Mark (g\<lparr>gnPc := GBest\<rparr>)"
| g_best: "gnPc g = GBest \<Longrightarrow>
    gen_step g Quiet (g\<lparr>gnQueue := (if length (gnQueue g) < llmChunkQueue then gnQueue g @ [LLMError Canceled] else gnQueue g),
                        gnPc := GLeave\<rparr>)"
| g_leave: "gnPc g = GLeave \<Longrightarrow> gen_step g Leave (g\<lparr>gnPc := GClose\<rparr>)"
| g_close: "gnPc g = GClose \<Longrightarrow> gen_step g Quiet (g\<lparr>gnPc := GExit\<rparr>)"

inductive gen_reach :: "LLMScript \<Rightarrow> mock_gen \<Rightarrow> bool" for s where
  gen_start: "gen_reach s (new_generation s)"
| gen_more: "gen_reach s g \<Longrightarrow> gen_step g e g' \<Longrightarrow> gen_reach s g'"

inductive_cases gen_step_cases: "gen_step g e g'"

section \<open>The provider\<close>

definition gen_effect_on :: "nat \<Rightarrow> gen_effect \<Rightarrow> mock_llm \<Rightarrow> mock_llm" where
  "gen_effect_on now e l =
     (case e of Quiet \<Rightarrow> l | Mark \<Rightarrow> mock_markCancelled now l | Leave \<Rightarrow> l\<lparr>mlActive := mlActive l - 1\<rparr>)"

text \<open>\<open>Chat\<close> takes the lock twice: to look at \<open>ChatErr\<close>, and to record the request and copy the script, which
  may be another one by then.\<close>

definition Chat_check :: "mock_llm \<Rightarrow> perr option \<times> mock_llm" where
  "Chat_check l = (case lsChatErr (mlScript l) of Some e \<Rightarrow> (Some e, l) | None \<Rightarrow> (None, l\<lparr>mlChecked := Suc (mlChecked l)\<rparr>))"

definition Chat_start :: "ChatRequest \<Rightarrow> mock_llm \<Rightarrow> mock_llm" where
  "Chat_start req l = l\<lparr>mlChecked := mlChecked l - 1, mlRequests := mlRequests l @ [req], mlActive := mlActive l + 1,
     mlGens := mlGens l @ [new_generation (mlScript l)]\<rparr>"

inductive mock_step :: "mock_llm \<Rightarrow> mock_llm \<Rightarrow> bool" where
  m_check: "mock_step l (snd (Chat_check l))"
| m_start: "0 < mlChecked l \<Longrightarrow> mock_step l (Chat_start req l)"
| m_script: "mock_step l (SetScript s l)"
| m_gen: "k < length (mlGens l) \<Longrightarrow> gen_step (mlGens l ! k) e g
    \<Longrightarrow> mock_step l ((gen_effect_on now e l)\<lparr>mlGens := (mlGens l)[k := g]\<rparr>)"

inductive mock_reach :: "LLMScript \<Rightarrow> mock_llm \<Rightarrow> bool" for s where
  mock_init: "mock_reach s (mock_NewLLM s)"
| mock_more: "mock_reach s l \<Longrightarrow> mock_step l l' \<Longrightarrow> mock_reach s l'"

section \<open>What a script plans\<close>

definition plan_end :: "LLMScript \<Rightarrow> LLMChunk list" where
  "plan_end s =
     (if lsBlock s \<and> lsBlockAfter s \<ge> int (length (lsTokens s)) then []
      else case lsToolCall s of Some tc \<Rightarrow> LLMToolCall tc # (if lsBlockAfterToolCall s then [] else [end_chunk s])
           | None \<Rightarrow> [end_chunk s])"

function plan_from :: "LLMScript \<Rightarrow> nat \<Rightarrow> LLMChunk list" where
  "plan_from s i =
     (if i < length (lsTokens s)
      then if lsBlock s \<and> int i = lsBlockAfter s then [] else LLMTextDelta (lsTokens s ! i) # plan_from s (Suc i)
      else plan_end s)"
  by pat_completeness auto
termination by (relation "measure (\<lambda>(s, i). length (lsTokens s) - i)") auto

declare plan_from.simps [simp del]

fun todo_next :: "LLMScript \<Rightarrow> gen_next \<Rightarrow> LLMChunk list" where
  "todo_next s (AfterToken i) = plan_from s (Suc i)"
| "todo_next s AfterCall = (if lsBlockAfterToolCall s then [] else [end_chunk s])"
| "todo_next s AfterEnd = []"

fun todo :: "LLMScript \<Rightarrow> gen_pc \<Rightarrow> LLMChunk list" where
  "todo s (GDelay i) = LLMTextDelta (lsTokens s ! i) # plan_from s (Suc i)"
| "todo s (GSend c k) = c # todo_next s k"
| "todo s _ = []"

abbreviation gen_sent :: "mock_gen \<Rightarrow> LLMChunk list" where
  "gen_sent g \<equiv> gnTaken g @ gnQueue g"

lemma todo_loop: "todo s (loop_head s i) = plan_from s i"
  by (subst plan_from.simps) (simp add: loop_head_def token_send_def after_tokens_def plan_end_def split: option.split)

lemma todo_after [simp]: "todo s (after_send s k) = todo_next s k"
  by (cases k) (simp_all add: todo_loop)

fun waits :: "gen_pc \<Rightarrow> bool" where
  "waits (GDelay _) = True" | "waits (GSend _ _) = True" | "waits GBlock = True" | "waits _ = False"

abbreviation no_end :: "LLMChunk list \<Rightarrow> bool" where
  "no_end \<equiv> list_all (\<lambda>c. \<not> ends_stream c)"

fun pc_ok :: "LLMScript \<Rightarrow> gen_pc \<Rightarrow> bool" where
  "pc_ok s (GDelay i) = (i < length (lsTokens s))"
| "pc_ok s (GSend c (AfterToken i)) = (i < length (lsTokens s) \<and> \<not> ends_stream c)"
| "pc_ok s (GSend c AfterCall) = (\<not> ends_stream c)"
| "pc_ok s (GSend c AfterEnd) = ends_stream c"
| "pc_ok s _ = True"

text \<open>What a generation that gave up, or came to the end of its script, has sent.\<close>

definition gen_result :: "bool \<Rightarrow> LLMChunk list \<Rightarrow> LLMChunk list \<Rightarrow> bool" where
  "gen_result stopped planned cs \<longleftrightarrow>
     planned = cs \<and> \<not> no_end cs
     \<or> stopped \<and> no_end cs \<and> (\<exists>ds. planned = cs @ ds)
     \<or> stopped \<and> no_end planned \<and> cs = planned @ [LLMError Canceled]"

text \<open>The sends to come always complete the plan, until the context is seen to be done.\<close>

definition gen_inv :: "mock_gen \<Rightarrow> bool" where
  "gen_inv g \<longleftrightarrow> pc_ok (gnScript g) (gnPc g) \<and> length (gnQueue g) \<le> llmChunkQueue \<and>
     (if waits (gnPc g) \<or> gnPc g = GBest
      then no_end (gen_sent g) \<and> plan_from (gnScript g) 0 = gen_sent g @ todo (gnScript g) (gnPc g) \<and> (gnPc g = GBest \<longrightarrow> gnDone g)
      else gen_result (gnDone g) (plan_from (gnScript g) 0) (gen_sent g))"

lemma loop_head_ok [simp]: "pc_ok s (loop_head s i)" "waits (loop_head s i)" "loop_head s i \<noteq> GBest"
  by (simp_all add: loop_head_def token_send_def after_tokens_def end_chunk_def split: option.split)

lemma token_send_ok [simp]:
  "pc_ok s (token_send s i) = (i < length (lsTokens s))" "waits (token_send s i)"
  "todo s (token_send s i) = todo s (GDelay i)" "token_send s i \<noteq> GBest"
  by (simp_all add: token_send_def)

lemma after_send_ok: "k \<noteq> AfterEnd \<Longrightarrow> pc_ok s (after_send s k) \<and> waits (after_send s k)"
  by (cases k) (simp_all add: end_chunk_def split: option.split)

lemma new_generation_inv: "gen_inv (new_generation s)"
  by (simp add: gen_inv_def new_generation_def todo_loop)

lemma pc_ok_next: "pc_ok s (GSend c k) \<Longrightarrow> ends_stream c = (k = AfterEnd)"
  by (cases k) auto

lemma send_inv:
  assumes "gen_inv g" "gnPc g = GSend c k" "length (gnQueue g) < llmChunkQueue"
  shows "gen_inv (g\<lparr>gnQueue := gnQueue g @ [c], gnPc := after_send (gnScript g) k\<rparr>)"
proof (cases "k = AfterEnd")
  case True
  with assms have "plan_from (gnScript g) 0 = gen_sent g @ [c]" by (simp add: gen_inv_def)
  with True assms pc_ok_next [of "gnScript g" c k] show ?thesis by (simp add: gen_inv_def gen_result_def)
next
  case False
  from after_send_ok [OF False, of "gnScript g"] assms pc_ok_next [of "gnScript g" c k] False show ?thesis
    by (auto simp: gen_inv_def)
qed

lemma stop_inv:
  assumes "gen_inv g" "waits (gnPc g)" "gnDone g"
  shows "gen_inv (g\<lparr>gnPc := GLeave\<rparr>)"
  using assms by (auto simp: gen_inv_def gen_result_def)

lemma gen_step_inv: "gen_step g e g' \<Longrightarrow> gen_inv g \<Longrightarrow> gen_inv g' \<and> gnScript g' = gnScript g"
proof (induction rule: gen_step.induct)
  case (g_cancel g)
  then show ?case by (auto simp: gen_inv_def gen_result_def)
next
  case (g_take g c cs)
  then show ?case by (auto simp: gen_inv_def)
next
  case (g_delay g i)
  then show ?case by (auto simp: gen_inv_def)
next
  case (g_delay_stop g i)
  then show ?case using stop_inv by simp
next
  case (g_send g c k)
  then show ?case using send_inv by simp
next
  case (g_send_stop g c k)
  then show ?case using stop_inv by simp
next
  case (g_block g)
  then show ?case by (auto simp: gen_inv_def)
next
  case (g_best g)
  then show ?case by (auto simp: gen_inv_def gen_result_def)
next
  case (g_leave g)
  then show ?case by (auto simp: gen_inv_def)
next
  case (g_close g)
  then show ?case by (auto simp: gen_inv_def)
qed

lemma gen_reach_inv: "gen_reach s g \<Longrightarrow> gen_inv g \<and> gnScript g = s"
proof (induction rule: gen_reach.induct)
  case gen_start
  then show ?case using new_generation_inv by (simp add: new_generation_def)
next
  case (gen_more g e g')
  then show ?case using gen_step_inv by blast
qed

section \<open>A generation ends\<close>

text \<open>The moves of the goroutine change its program counter; how many are left.\<close>

fun gen_left :: "LLMScript \<Rightarrow> gen_pc \<Rightarrow> nat" where
  "gen_left s (GDelay i) = 2 * (length (lsTokens s) - i) + 7"
| "gen_left s (GSend _ (AfterToken i)) = 2 * (length (lsTokens s) - i) + 6"
| "gen_left s (GSend _ AfterCall) = 6"
| "gen_left s (GSend _ AfterEnd) = 5"
| "gen_left s GBlock = 4"
| "gen_left s GBest = 3"
| "gen_left s GLeave = 2"
| "gen_left s GClose = 1"
| "gen_left s GExit = 0"

lemma after_send_left: "pc_ok s (GSend c k) \<Longrightarrow> gen_left s (after_send s k) < gen_left s (GSend c k)"
  by (cases k) (auto simp: loop_head_def token_send_def after_tokens_def split: option.split)

lemma waits_left: "waits pc \<Longrightarrow> 3 < gen_left s pc"
  by (cases "(s, pc)" rule: gen_left.cases) auto

lemma gen_moves_left:
  "gen_step g e g' \<Longrightarrow> gen_inv g \<Longrightarrow> gnPc g' = gnPc g \<or> gen_left (gnScript g) (gnPc g') < gen_left (gnScript g) (gnPc g)"
proof (induction rule: gen_step.induct)
  case (g_send g c k)
  then show ?case using after_send_left [of "gnScript g" c k] by (simp add: gen_inv_def)
next
  case (g_send_stop g c k)
  then show ?case using waits_left [of "GSend c k" "gnScript g"] by simp
qed (simp_all add: token_send_def)

text \<open>Once the context is done the goroutine never waits, not even for its consumer.\<close>

lemma gen_can_move: "gnDone g \<Longrightarrow> gnPc g \<noteq> GExit \<Longrightarrow> \<exists>e g'. gen_step g e g' \<and> gnPc g' \<noteq> gnPc g \<and> gnTaken g' = gnTaken g"
proof (cases "gnPc g")
  case (GDelay i)
  assume "gnDone g"
  with GDelay show ?thesis using g_delay_stop [OF GDelay] by fastforce
next
  case (GSend c k)
  assume "gnDone g"
  with GSend show ?thesis using g_send_stop [OF GSend] by fastforce
next
  case GBlock
  assume "gnDone g"
  with GBlock show ?thesis using g_block [OF GBlock] by fastforce
next
  case GBest
  then show ?thesis using g_best [OF GBest] by fastforce
next
  case GLeave
  then show ?thesis using g_leave [OF GLeave] by fastforce
next
  case GClose
  then show ?thesis using g_close [OF GClose] by fastforce
qed simp

section \<open>The contract of the pipeline\<close>

lemma plan_end_ordered: "well_ordered (plan_end s)"
  by (simp add: plan_end_def end_chunk_def split: option.split)

lemma plan_ordered: "[] \<notin> set (lsTokens s) \<Longrightarrow> well_ordered (plan_from s i)"
proof (induction s i rule: plan_from.induct)
  case (1 s i)
  then have "i < length (lsTokens s) \<Longrightarrow> lsTokens s ! i \<noteq> []" by (metis nth_mem)
  with 1 plan_end_ordered show ?case by (subst plan_from.simps) auto
qed

lemma well_ordered_prefix: "well_ordered (cs @ ds) \<Longrightarrow> well_ordered cs"
proof (induction cs rule: well_ordered.induct)
  case (3 c cs)
  then show ?case by (cases cs) auto
qed auto

lemma well_ordered_cancelled: "well_ordered cs \<Longrightarrow> no_end cs \<Longrightarrow> well_ordered (cs @ [LLMError Canceled])"
proof (induction cs rule: well_ordered.induct)
  case (3 c cs)
  then show ?case by (cases cs) auto
qed auto

lemma gen_sent_ordered:
  assumes "gen_inv g" "[] \<notin> set (lsTokens (gnScript g))"
  shows "well_ordered (gen_sent g)" "waits (gnPc g) \<Longrightarrow> no_end (gen_sent g)"
  using assms plan_ordered [OF assms(2), of 0] well_ordered_prefix well_ordered_cancelled
  by (auto simp: gen_inv_def gen_result_def split: if_splits)

interpretation scripted_llm: llm_service "\<lambda>(s, g). gen_reach s g \<and> [] \<notin> set (lsTokens s)" "\<lambda>(s, g). (waits (gnPc g), gen_sent g)"
proof
  fix sg :: "LLMScript \<times> mock_gen"
  assume "case sg of (s, g) \<Rightarrow> gen_reach s g \<and> [] \<notin> set (lsTokens s)"
  then have g: "gen_inv (snd sg)" "[] \<notin> set (lsTokens (gnScript (snd sg)))" using gen_reach_inv by (auto split: prod.splits)
  show "well_ordered (snd (case sg of (s, g) \<Rightarrow> (waits (gnPc g), gen_sent g)))"
    using gen_sent_ordered(1) [OF g] by (simp add: case_prod_beta)
  assume "fst (case sg of (s, g) \<Rightarrow> (waits (gnPc g), gen_sent g))"
  then show "no_end (snd (case sg of (s, g) \<Rightarrow> (waits (gnPc g), gen_sent g)))"
    using gen_sent_ordered(2) [OF g] by (simp add: case_prod_beta)
qed

section \<open>The provider counts its generations\<close>

definition running :: "mock_gen \<Rightarrow> bool" where
  "running g \<longleftrightarrow> gnPc g \<notin> {GClose, GExit}"

text \<open>A generation that stopped before the end of its script.\<close>

definition gave_up :: "mock_gen \<Rightarrow> bool" where
  "gave_up g \<longleftrightarrow> \<not> waits (gnPc g) \<and> (gen_sent g \<noteq> plan_from (gnScript g) 0 \<or> no_end (gen_sent g))"

definition mock_inv :: "mock_llm \<Rightarrow> bool" where
  "mock_inv l \<longleftrightarrow> mlActive l = int (length (filter running (mlGens l))) \<and> length (mlRequests l) = length (mlGens l)
     \<and> (\<forall>g\<in>set (mlGens l). gen_reach (gnScript g) g) \<and> (list_ex gave_up (mlGens l) \<longrightarrow> mlCancelledAt l \<noteq> None)"

lemma waits_running: "waits (gnPc g) \<Longrightarrow> running g"
  by (cases "gnPc g") (auto simp: running_def)

lemma after_send_running: "after_send s k \<notin> {GClose, GExit}"
  using after_send_ok [of k s] by (cases "k = AfterEnd") auto

lemma gen_step_running: "gen_step g e g' \<Longrightarrow> (running g', running g) = (if e = Leave then (False, True) else (running g, running g))"
  by (induction rule: gen_step.induct) (use after_send_running in \<open>auto simp: running_def token_send_def\<close>)

lemma gen_step_gave_up: "gen_step g e g' \<Longrightarrow> gen_inv g \<Longrightarrow> gave_up g' \<Longrightarrow> gave_up g \<or> e = Mark"
proof (induction rule: gen_step.induct)
  case (g_send g c k)
  then show ?case using pc_ok_next [of "gnScript g" c k] after_send_ok [of k "gnScript g"]
    by (cases "k = AfterEnd") (auto simp: gen_inv_def gave_up_def)
next
  case (g_best g)
  then show ?case by (simp add: gen_inv_def gave_up_def)
qed (auto simp: gave_up_def)

lemma filter_update_length:
  "k < length xs \<Longrightarrow> int (length (filter P (xs[k := x]))) = int (length (filter P xs)) - of_bool (P (xs ! k)) + of_bool (P x)"
proof (induction xs arbitrary: k)
  case (Cons a xs)
  then show ?case using Cons.IH [of "k - 1"] by (cases k) auto
qed simp

lemma gen_effect_fields [simp]:
  "mlGens (gen_effect_on now e l) = mlGens l" "mlRequests (gen_effect_on now e l) = mlRequests l"
  "mlActive (gen_effect_on now e l) = mlActive l - of_bool (e = Leave)"
  "mlCancelledAt (gen_effect_on now e l) = None \<longleftrightarrow> mlCancelledAt l = None \<and> e \<noteq> Mark"
  by (cases e; simp add: gen_effect_on_def mock_markCancelled_def)+

lemma gen_move_inv:
  assumes inv: "mock_inv l" and k: "k < length (mlGens l)" and step: "gen_step (mlGens l ! k) e g"
  shows "mock_inv ((gen_effect_on now e l)\<lparr>mlGens := (mlGens l)[k := g]\<rparr>)"
proof -
  let ?g = "mlGens l ! k"
  have r: "gen_reach (gnScript ?g) ?g" using inv k by (simp add: mock_inv_def)
  with gen_reach_inv gen_step_inv step have s: "gen_inv ?g" "gnScript g = gnScript ?g" by blast+
  have "gen_reach (gnScript g) g" using gen_more [OF r step] s(2) by simp
  moreover have "list_ex gave_up ((mlGens l)[k := g]) \<Longrightarrow> list_ex gave_up (mlGens l) \<or> e = Mark"
    using gen_step_gave_up [OF step s(1)] nth_mem [OF k]
    by (auto simp: list_ex_iff dest!: set_update_subset_insert [THEN subsetD])
  moreover have "int (length (filter running ((mlGens l)[k := g]))) = int (length (filter running (mlGens l))) - of_bool (e = Leave)"
    using filter_update_length [OF k, of running g] gen_step_running [OF step] by (auto split: if_splits)
  ultimately show ?thesis using inv by (auto simp: mock_inv_def dest!: set_update_subset_insert [THEN subsetD])
qed

lemma mock_step_inv: "mock_step l l' \<Longrightarrow> mock_inv l \<Longrightarrow> mock_inv l'"
proof (induction rule: mock_step.induct)
  case (m_check l)
  then show ?case by (simp add: Chat_check_def mock_inv_def split: option.split)
next
  case (m_start l req)
  let ?g = "new_generation (mlScript l)"
  have "running ?g" "\<not> gave_up ?g" using waits_running [of ?g] by (simp_all add: new_generation_def gave_up_def)
  moreover have "gen_reach (gnScript ?g) ?g" using gen_start [of "mlScript l"] by (simp add: new_generation_def)
  ultimately show ?case using m_start by (auto simp: Chat_start_def mock_inv_def)
next
  case (m_script l s)
  then show ?case by (simp add: SetScript_def mock_inv_def)
next
  case (m_gen k l e g now)
  then show ?case using gen_move_inv by blast
qed

lemma mock_reach_inv: "mock_reach s l \<Longrightarrow> mock_inv l"
proof (induction rule: mock_reach.induct)
  case mock_init
  then show ?case by (simp add: mock_inv_def mock_NewLLM_def)
next
  case (mock_more l l')
  then show ?case using mock_step_inv by blast
qed

section \<open>Properties\<close>

lemma plan_tokens:
  "\<not> lsBlock s \<Longrightarrow> plan_from s i = map LLMTextDelta (drop i (lsTokens s)) @ plan_end s"
proof (induction s i rule: plan_from.induct)
  case (1 s i)
  show ?case
  proof (cases "i < length (lsTokens s)")
    case True
    with 1 have "plan_from s i = LLMTextDelta (lsTokens s ! i) # plan_from s (Suc i)"
      by (subst plan_from.simps) simp
    with 1 True show ?thesis by (simp flip: Cons_nth_drop_Suc)
  qed (simp add: plan_from.simps)
qed

text \<open>The chunks of a generation that nobody interrupts are its script: the tokens, then the tool call, then
  the error or Done. A generation whose context ends sends a prefix of them, followed by the error of the
  context only where the script blocks; the stage of the pipeline that reads them reports every one.\<close>

theorem mock_generation:
  assumes "gen_reach s g" "\<not> lsBlock s" "\<not> lsBlockAfterToolCall s"
  defines "scripted \<equiv> map LLMTextDelta (lsTokens s) @ map LLMToolCall (case lsToolCall s of None \<Rightarrow> [] | Some tc \<Rightarrow> [tc]) @ [end_chunk s]"
  shows "\<exists>ds. gen_sent g @ ds = scripted"
    and "gnPc g = GExit \<Longrightarrow> \<not> gnDone g \<Longrightarrow> gen_sent g = scripted"
proof -
  from assms(1) gen_reach_inv have inv: "gen_inv g" "gnScript g = s" by auto
  have pl: "plan_from s 0 = scripted"
    using assms(2,3) by (simp add: plan_tokens plan_end_def scripted_def split: option.split)
  have "ends_stream (end_chunk s)" by (simp add: end_chunk_def split: option.split)
  then have "\<not> no_end (plan_from s 0)" by (simp add: pl scripted_def)
  with inv show "\<exists>ds. gen_sent g @ ds = scripted" "gnPc g = GExit \<Longrightarrow> \<not> gnDone g \<Longrightarrow> gen_sent g = scripted"
    by (auto simp: gen_inv_def gen_result_def simp flip: pl split: if_splits)
qed

theorem mock_stage_reports:
  assumes "plLlm p = LRange" "gen_reach s g" "[] \<notin> set (lsTokens s)"
  shows "plOut (llm_feed (gen_sent g) p) = plOut p @ concat (map (chunk_events p) (gen_sent g))
    \<and> plFed (llm_feed (gen_sent g) p) = plFed p @ concat (map chunk_text (gen_sent g))
    \<and> (waits (gnPc g) \<longrightarrow> plLlm (llm_feed (gen_sent g) p) \<noteq> LExit)"
  using scripted_llm.stage_reports [OF assms(1), of "(s, g)"] assms(2,3) by simp

theorem mock_counts:
  assumes "mock_reach s l"
  shows "mlActive l = int (length (filter running (mlGens l)))"
    and "list_all (\<lambda>g. gnPc g = GExit) (mlGens l) \<Longrightarrow> mlActive l = 0"
    and "list_ex gave_up (mlGens l) \<Longrightarrow> mlCancelledAt l \<noteq> None"
proof -
  from mock_reach_inv [OF assms] have inv: "mock_inv l" .
  then show "mlActive l = int (length (filter running (mlGens l)))"
    "list_ex gave_up (mlGens l) \<Longrightarrow> mlCancelledAt l \<noteq> None" by (simp_all add: mock_inv_def)
  assume "list_all (\<lambda>g. gnPc g = GExit) (mlGens l)"
  then have "filter running (mlGens l) = []" by (simp add: filter_empty_conv list_all_iff running_def)
  with inv show "mlActive l = 0" by (simp add: mock_inv_def)
qed

text \<open>A generation whose context is done ends by itself: it can always move, and it has finitely many moves.\<close>

theorem mock_generation_ends:
  assumes "gen_reach s g" "gnDone g"
  shows "\<exists>g'. gen_reach s g' \<and> gnPc g' = GExit \<and> gnTaken g' = gnTaken g"
  using assms
proof (induction "gen_left s (gnPc g)" arbitrary: g rule: less_induct)
  case less
  show ?case
  proof (cases "gnPc g = GExit")
    case False
    from gen_can_move [OF less.prems(2) False] obtain e g1 where
      g1: "gen_step g e g1" "gnPc g1 \<noteq> gnPc g" "gnTaken g1 = gnTaken g" by blast
    have s: "gen_inv g" "gnScript g = s" using gen_reach_inv [OF less.prems(1)] by auto
    from gen_moves_left [OF g1(1) s(1)] g1(2) s(2) have "gen_left s (gnPc g1) < gen_left s (gnPc g)" by auto
    moreover have "gnDone g1" using g1(1) less.prems(2) by (cases rule: gen_step.cases) auto
    ultimately show ?thesis using less.hyps [of g1] gen_more [OF less.prems(1) g1(1)] g1(3) by auto
  qed (use less.prems in blast)
qed

end
