(* ===== verification/MockTts.thy ===== *)
theory MockTts
  imports ProviderCommon
begin

text \<open>
  The scripted synthesizer of \<^verbatim>\<open>internal/provider/mock/tts.go\<close>: the cutting of a text into audio chunks with
  their timings, and a stream with the goroutine that writes, the one that reads and a call of \<open>Close\<close>
  that may come at any moment. A critical section is one step, and so is every send and receive. Silence
  is allocated as long as the script asks for it: a \<open>make\<close> that runs out of memory is not modelled.
\<close>

section \<open>Script and state\<close>

record TTSScript =
  tsIncrementalText :: bool
  tsAlignment :: bool
  tsMsPerRune :: int
  tsChunkMs :: int
  tsFirstChunkDelay :: int
  tsSynthErr :: "perr option"

definition defaultMsPerRune :: int where "defaultMsPerRune = 10"
definition ttsSegmentQueue :: nat where "ttsSegmentQueue = 64"

definition mock_NewTTS :: "TTSScript \<Rightarrow> TTSScript" where
  "mock_NewTTS s = (if tsMsPerRune s \<le> 0 then s\<lparr>tsMsPerRune := defaultMsPerRune\<rparr> else s)"

datatype mock_writer = WriterIdle | WriterSends "AudioChunk list" bool
datatype mock_reader = ReaderIdle | ReaderDelay | ReaderSelect

text \<open>\<open>mtRead\<close> holds what \<open>ReadAudio\<close> returned, \<open>mtWrites\<close> the texts that were accepted.\<close>

record mock_tts =
  mtScript :: TTSScript
  mtText :: string
  mtBuffered :: string
  mtRuneCount :: int
  mtAudioMs :: int
  mtEnded :: bool
  mtClosed :: bool
  mtFirstRead :: bool
  mtDone :: bool
  mtQueue :: "AudioChunk list"
  mtQueueClosed :: bool
  mtWriter :: mock_writer
  mtReader :: mock_reader
  mtRead :: "read_result list"
  mtWrites :: "string list"
  mtPanic :: bool

definition mock_Synthesize :: "TTSScript \<Rightarrow> perr + mock_tts" where
  "mock_Synthesize s =
     (case tsSynthErr s of
        Some e \<Rightarrow> Inl e
      | None \<Rightarrow> Inr \<lparr>mtScript = s, mtText = [], mtBuffered = [], mtRuneCount = 0, mtAudioMs = 0, mtEnded = False,
          mtClosed = False, mtFirstRead = False, mtDone = False, mtQueue = [], mtQueueClosed = False,
          mtWriter = WriterIdle, mtReader = ReaderIdle, mtRead = [], mtWrites = [], mtPanic = False\<rparr>)"

section \<open>Chunks\<close>

definition chunk_timings :: "mock_tts \<Rightarrow> nat \<Rightarrow> int \<Rightarrow> int \<Rightarrow> CharTiming list" where
  "chunk_timings s len off n =
     (if tsAlignment (mtScript s)
      then List.map_filter (\<lambda>i. let startMs = i64 (int i * tsMsPerRune (mtScript s)) in
             if startMs \<ge> off \<and> startMs < off + n
             then Some \<lparr>CharIndex = mtRuneCount s + int i, StartMs = mtAudioMs s + startMs\<rparr> else None) [0..<len]
      else [])"

text \<open>The loop over the offsets; its step is positive whenever it runs (\<open>chunk_ms_pos\<close> below).\<close>

function chunk_loop :: "mock_tts \<Rightarrow> nat \<Rightarrow> int \<Rightarrow> int \<Rightarrow> int \<Rightarrow> AudioChunk list" where
  "chunk_loop s len chunkMs total_ms off =
     (if off < total_ms \<and> 0 < chunkMs
      then let n = min chunkMs (total_ms - off) in
        \<lparr>chPCM = replicate (nat (MsToBytes n)) 0, chAlignment = chunk_timings s len off n\<rparr>
        # chunk_loop s len chunkMs total_ms (off + chunkMs)
      else [])"
  by pat_completeness auto
termination by (relation "measure (\<lambda>(s, len, chunkMs, total_ms, off). nat (total_ms - off))") auto

declare chunk_loop.simps [simp del]

definition chunk_ms :: "TTSScript \<Rightarrow> int \<Rightarrow> int" where
  "chunk_ms s total_ms = (if tsChunkMs s \<le> 0 \<or> tsChunkMs s > total_ms then total_ms else tsChunkMs s)"

definition mock_chunks :: "string \<Rightarrow> mock_tts \<Rightarrow> AudioChunk list \<times> mock_tts" where
  "mock_chunks text0 s =
     (let len = length (runes text0); total_ms = i64 (int len * tsMsPerRune (mtScript s))
      in (chunk_loop s len (chunk_ms (mtScript s) total_ms) total_ms 0,
          s\<lparr>mtRuneCount := mtRuneCount s + int len, mtAudioMs := mtAudioMs s + total_ms\<rparr>))"

section \<open>Operations\<close>

text \<open>\<open>WriteText\<close> and \<open>EndInput\<close> up to the sends, which are made without the lock.\<close>

definition mock_WriteText :: "string \<Rightarrow> mock_tts \<Rightarrow> string option \<times> mock_tts" where
  "mock_WriteText t s =
     (if mtEnded s \<or> mtClosed s then (Some ''io: read/write on closed pipe'', s)
      else let s1 = s\<lparr>mtText := mtText s @ t, mtWrites := mtWrites s @ [t]\<rparr> in
        if \<not> tsIncrementalText (mtScript s) then (None, s1\<lparr>mtBuffered := mtBuffered s1 @ t\<rparr>)
        else let (cs, s2) = mock_chunks t s1 in (None, s2\<lparr>mtWriter := WriterSends cs False\<rparr>))"

definition mock_EndInput :: "mock_tts \<Rightarrow> mock_tts" where
  "mock_EndInput s =
     (if mtEnded s then s
      else let s1 = s\<lparr>mtEnded := True\<rparr> in
        if mtBuffered s1 \<noteq> []
        then let (cs, s2) = mock_chunks (mtBuffered s1) s1 in s2\<lparr>mtBuffered := [], mtWriter := WriterSends cs True\<rparr>
        else s1\<lparr>mtWriter := WriterSends [] True\<rparr>)"

definition close_queue :: "mock_tts \<Rightarrow> mock_tts" where
  "close_queue s = (if mtQueueClosed s then s\<lparr>mtPanic := True\<rparr> else s\<lparr>mtQueueClosed := True\<rparr>)"

definition mock_Close :: "mock_tts \<Rightarrow> mock_tts" where
  "mock_Close s =
     (let s1 = s\<lparr>mtClosed := True\<rparr> in if \<not> mtEnded s1 then close_queue (s1\<lparr>mtEnded := True\<rparr>) else s1)"

text \<open>\<open>ReadAudio\<close> up to the first wait.\<close>

definition mock_ReadAudio :: "mock_tts \<Rightarrow> mock_tts" where
  "mock_ReadAudio s = s\<lparr>mtFirstRead := True,
     mtReader := (if \<not> mtFirstRead s \<and> tsFirstChunkDelay (mtScript s) > 0 then ReaderDelay else ReaderSelect)\<rparr>"

definition mock_return :: "read_result \<Rightarrow> mock_tts \<Rightarrow> mock_tts" where
  "mock_return r s = s\<lparr>mtRead := mtRead s @ [r], mtReader := ReaderIdle\<rparr>"

inductive mtts_step :: "mock_tts \<Rightarrow> mock_tts \<Rightarrow> bool" where
  mt_cancel: "mtts_step s (s\<lparr>mtDone := True\<rparr>)"
| mt_write: "mtWriter s = WriterIdle \<Longrightarrow> mtts_step s (snd (mock_WriteText t s))"
| mt_end: "mtWriter s = WriterIdle \<Longrightarrow> mtts_step s (mock_EndInput s)"
| mt_send: "mtWriter s = WriterSends (c # cs) b \<Longrightarrow> \<not> mtQueueClosed s \<Longrightarrow> length (mtQueue s) < ttsSegmentQueue
    \<Longrightarrow> mtts_step s (s\<lparr>mtQueue := mtQueue s @ [c], mtWriter := WriterSends cs b\<rparr>)"
| mt_send_closed: "mtWriter s = WriterSends (c # cs) b \<Longrightarrow> mtQueueClosed s \<Longrightarrow> mtts_step s (s\<lparr>mtPanic := True\<rparr>)"
| mt_sent: "mtWriter s = WriterSends [] False \<Longrightarrow> mtts_step s (s\<lparr>mtWriter := WriterIdle\<rparr>)"
| mt_ended: "mtWriter s = WriterSends [] True \<Longrightarrow> mtts_step s ((close_queue s)\<lparr>mtWriter := WriterIdle\<rparr>)"
| mt_close: "mtts_step s (mock_Close s)"
| mt_read: "mtReader s = ReaderIdle \<Longrightarrow> mtts_step s (mock_ReadAudio s)"
| mt_delayed: "mtReader s = ReaderDelay \<Longrightarrow> mtts_step s (s\<lparr>mtReader := ReaderSelect\<rparr>)"
| mt_stopped: "mtReader s \<noteq> ReaderIdle \<Longrightarrow> mtDone s \<Longrightarrow> mtts_step s (mock_return (ReadErr Canceled) s)"
| mt_chunk: "mtReader s = ReaderSelect \<Longrightarrow> mtQueue s = c # cs \<Longrightarrow> mtts_step s (mock_return (ReadAudio c) (s\<lparr>mtQueue := cs\<rparr>))"
| mt_eof: "mtReader s = ReaderSelect \<Longrightarrow> mtQueue s = [] \<Longrightarrow> mtQueueClosed s \<Longrightarrow> mtts_step s (mock_return ReadEOF s)"

inductive mtts_reach :: "TTSScript \<Rightarrow> mock_tts \<Rightarrow> bool" for sc where
  mtts_open: "mock_Synthesize sc = Inr s \<Longrightarrow> mtts_reach sc s"
| mtts_more: "mtts_reach sc s \<Longrightarrow> mtts_step s s' \<Longrightarrow> mtts_reach sc s'"

section \<open>What the chunks of a text hold\<close>

definition chunk_audio :: "AudioChunk list \<Rightarrow> pcm" where "chunk_audio cs = concat (map chPCM cs)"
definition chunk_times :: "AudioChunk list \<Rightarrow> CharTiming list" where "chunk_times cs = concat (map chAlignment cs)"

lemma chunk_simps [simp]:
  "chunk_audio [] = []" "chunk_audio (c # cs) = chPCM c @ chunk_audio cs" "chunk_audio (cs @ ds) = chunk_audio cs @ chunk_audio ds"
  "chunk_times [] = []" "chunk_times (c # cs) = chAlignment c @ chunk_times cs" "chunk_times (cs @ ds) = chunk_times cs @ chunk_times ds"
  by (simp_all add: chunk_audio_def chunk_times_def)

text \<open>The reference: silence for every rune, and the timings of all runes at once.\<close>

definition rune_timings :: "TTSScript \<Rightarrow> nat \<Rightarrow> nat \<Rightarrow> CharTiming list" where
  "rune_timings s from n =
     (if tsAlignment s then map (\<lambda>i. \<lparr>CharIndex = int i, StartMs = int i * tsMsPerRune s\<rparr>) [from..<from + n] else [])"

definition rune_audio :: "TTSScript \<Rightarrow> nat \<Rightarrow> pcm" where
  "rune_audio s n = replicate (48 * n * nat (tsMsPerRune s)) 0"

lemma chunk_ms_pos: "0 < total_ms \<Longrightarrow> 0 < chunk_ms s total_ms"
  by (auto simp: chunk_ms_def)

lemma loop_audio:
  assumes "0 < chunkMs" "0 \<le> off" "off \<le> total_ms" "total_ms < 2 ^ 57"
  shows "chunk_audio (chunk_loop s len chunkMs total_ms off) = replicate (48 * nat (total_ms - off)) 0"
  using assms
proof (induction s len chunkMs total_ms off rule: chunk_loop.induct)
  case (1 s len chunkMs total_ms off)
  show ?case
  proof (cases "off < total_ms")
    case True
    define n where "n = min chunkMs (total_ms - off)"
    have n: "0 < n" "n \<le> total_ms - off" using True 1 by (auto simp: n_def)
    have "chunk_audio (chunk_loop s len chunkMs total_ms off)
        = replicate (48 * nat n) 0 @ chunk_audio (chunk_loop s len chunkMs total_ms (off + chunkMs))"
      using True 1 n by (subst chunk_loop.simps) (simp add: Let_def MsToBytes_small nat_mult_distrib flip: n_def)
    also have "chunk_audio (chunk_loop s len chunkMs total_ms (off + chunkMs)) = replicate (48 * nat (total_ms - off - n)) 0"
    proof (cases "off + chunkMs \<le> total_ms")
      case True
      then have "n = chunkMs" by (simp add: n_def)
      with 1 True \<open>off < total_ms\<close> show ?thesis by (simp add: n_def algebra_simps)
    next
      case False
      then have "n = total_ms - off" by (simp add: n_def)
      with False show ?thesis by (simp add: chunk_loop.simps)
    qed
    also have "replicate (48 * nat n) 0 @ replicate (48 * nat (total_ms - off - n)) 0 = replicate (48 * nat (total_ms - off)) 0"
      using n by (simp add: nat_diff_distrib flip: replicate_add distrib_left)
    finally show ?thesis .
  qed (simp add: chunk_loop.simps)
qed

lemma filter_window:
  assumes "sorted (map f xs)" "a \<le> b"
  shows "filter (\<lambda>i. a \<le> f i \<and> f i < b) xs @ filter (\<lambda>i. b \<le> f i) xs = filter (\<lambda>i. a \<le> (f i :: int)) xs"
  using assms
proof (induction xs)
  case (Cons x xs)
  show ?case
  proof (cases "b \<le> f x")
    case True
    then have "filter (\<lambda>i. a \<le> f i \<and> f i < b) xs = []" using Cons.prems by (force simp: filter_empty_conv)
    with Cons True show ?thesis by auto
  qed (use Cons in auto)
qed simp

lemma map_filter_if: "List.map_filter (\<lambda>i. if P i then Some (f i) else None) xs = map f (filter P xs)"
  by (simp add: List.map_filter_def comp_def)

lemma map_filter_cong_set: "(\<And>x. x \<in> set xs \<Longrightarrow> f x = g x) \<Longrightarrow> List.map_filter f xs = List.map_filter g xs"
  by (induction xs) (auto simp: List.map_filter_simps split: option.split)

definition timing_of :: "mock_tts \<Rightarrow> nat \<Rightarrow> CharTiming" where
  "timing_of s i = \<lparr>CharIndex = mtRuneCount s + int i, StartMs = mtAudioMs s + int i * tsMsPerRune (mtScript s)\<rparr>"

lemma chunk_timings_eq:
  assumes "tsAlignment (mtScript s)" "0 < tsMsPerRune (mtScript s)" "int len * tsMsPerRune (mtScript s) < 2 ^ 57"
  shows "chunk_timings s len off n
    = map (timing_of s) (filter (\<lambda>i. off \<le> int i * tsMsPerRune (mtScript s) \<and> int i * tsMsPerRune (mtScript s) < off + n) [0..<len])"
proof -
  let ?M = "tsMsPerRune (mtScript s)"
  have start: "i64 (int i * ?M) = int i * ?M" if "i < len" for i
  proof -
    have "int i * ?M \<le> int len * ?M" using that assms(2) by (intro mult_right_mono) auto
    from le_less_trans [OF this assms(3)] have "int i * ?M < 2 ^ 63" by (rule less_trans) simp
    with assms(2) show ?thesis by (intro i64_nonneg_small) auto
  qed
  have "chunk_timings s len off n = List.map_filter (\<lambda>i. if off \<le> int i * ?M \<and> int i * ?M < off + n then Some (timing_of s i) else None) [0..<len]"
    using assms(1) by (simp add: chunk_timings_def Let_def) (rule map_filter_cong_set, simp add: start timing_of_def)
  then show ?thesis by (simp only: map_filter_if)
qed

lemma loop_times:
  assumes "tsAlignment (mtScript s)" "0 < tsMsPerRune (mtScript s)" "0 < chunkMs" "0 \<le> off"
    "total_ms = int len * tsMsPerRune (mtScript s)" "total_ms < 2 ^ 57"
  shows "chunk_times (chunk_loop s len chunkMs total_ms off)
    = map (timing_of s) (filter (\<lambda>i. off \<le> int i * tsMsPerRune (mtScript s)) [0..<len])"
  using assms
proof (induction s len chunkMs total_ms off rule: chunk_loop.induct)
  case (1 s len chunkMs total_ms off)
  let ?M = "tsMsPerRune (mtScript s)"
  have below: "int i * ?M < total_ms" if "i < len" for i using that 1 by simp
  show ?case
  proof (cases "off < total_ms")
    case True
    define n where "n = min chunkMs (total_ms - off)"
    have rest: "filter (\<lambda>i. off + chunkMs \<le> int i * ?M) [0..<len] = filter (\<lambda>i. off + n \<le> int i * ?M) [0..<len]"
    proof (rule filter_cong [OF refl])
      fix i assume "i \<in> set [0..<len]"
      with below [of i] show "(off + chunkMs \<le> int i * ?M) = (off + n \<le> int i * ?M)" by (auto simp: n_def min_def)
    qed
    have "sorted (map (\<lambda>i. int i * ?M) [0..<len])"
      using 1 by (auto simp: sorted_iff_nth_mono intro: mult_right_mono)
    from filter_window [OF this, of off "off + n"] True 1
    have "map (timing_of s) (filter (\<lambda>i. off \<le> int i * ?M) [0..<len])
        = chunk_timings s len off n @ map (timing_of s) (filter (\<lambda>i. off + n \<le> int i * ?M) [0..<len])"
      by (simp add: chunk_timings_eq n_def flip: map_append)
    moreover have "chunk_times (chunk_loop s len chunkMs total_ms off)
        = chunk_timings s len off n @ chunk_times (chunk_loop s len chunkMs total_ms (off + chunkMs))"
      using True 1 by (subst chunk_loop.simps) (simp add: Let_def n_def)
    ultimately show ?thesis using 1 True rest by simp
  next
    case False
    with below have "filter (\<lambda>i. off \<le> int i * ?M) [0..<len] = []" by (force simp: filter_empty_conv)
    with False show ?thesis by (simp add: chunk_loop.simps)
  qed
qed

lemma loop_no_times: "\<not> tsAlignment (mtScript s) \<Longrightarrow> chunk_times (chunk_loop s len chunkMs total_ms off) = []"
  by (induction s len chunkMs total_ms off rule: chunk_loop.induct, subst chunk_loop.simps)
    (simp add: Let_def chunk_timings_def)

text \<open>Whatever the chunk size, the chunks of a text hold its audio and its timings.\<close>

lemma chunks_spec:
  assumes "mock_chunks t s = (cs, s')" "0 < tsMsPerRune (mtScript s)" "int (length (runes t)) * tsMsPerRune (mtScript s) < 2 ^ 57"
    "mtRuneCount s = int r" "mtAudioMs s = int r * tsMsPerRune (mtScript s)"
  shows "chunk_audio cs = rune_audio (mtScript s) (length (runes t))"
    and "chunk_times cs = rune_timings (mtScript s) r (length (runes t))"
    and "s' = s\<lparr>mtRuneCount := int (r + length (runes t)), mtAudioMs := int (r + length (runes t)) * tsMsPerRune (mtScript s)\<rparr>"
proof -
  let ?M = "tsMsPerRune (mtScript s)" and ?len = "length (runes t)"
  let ?T = "int ?len * ?M"
  have T: "i64 ?T = ?T" "0 \<le> ?T" using assms(2,3) by (auto intro: i64_nonneg_small)
  with assms show "s' = s\<lparr>mtRuneCount := int (r + ?len), mtAudioMs := int (r + ?len) * ?M\<rparr>"
    by (auto simp: mock_chunks_def Let_def algebra_simps)
  have cs: "cs = chunk_loop s ?len (chunk_ms (mtScript s) ?T) ?T 0" using assms(1) T by (simp add: mock_chunks_def Let_def)
  have "chunk_audio cs = rune_audio (mtScript s) ?len \<and> chunk_times cs = rune_timings (mtScript s) r ?len"
  proof (cases "?len = 0")
    case True
    then show ?thesis by (simp add: cs chunk_loop.simps rune_audio_def rune_timings_def)
  next
    case False
    with assms(2) have pos: "0 < chunk_ms (mtScript s) ?T" by (intro chunk_ms_pos) simp
    have "chunk_audio cs = rune_audio (mtScript s) ?len"
      using loop_audio [OF pos, of 0 ?T s ?len] T assms(3) by (simp add: cs rune_audio_def nat_mult_distrib mult.assoc)
    moreover have "chunk_times cs = rune_timings (mtScript s) r ?len"
    proof (cases "tsAlignment (mtScript s)")
      case True
      have all: "filter (\<lambda>i. 0 \<le> int i * ?M) [0..<?len] = [0..<?len]" using assms(2) by (simp add: filter_id_conv)
      have "[r..<r + ?len] = map (\<lambda>i. r + i) [0..<?len]" by (simp add: map_add_upt add.commute)
      with loop_times [OF True assms(2) pos, of 0 ?T ?len] assms all True show ?thesis
        by (simp add: cs rune_timings_def timing_of_def algebra_simps)
    next
      case False
      then show ?thesis by (simp add: cs loop_no_times rune_timings_def)
    qed
    ultimately show ?thesis by blast
  qed
  then show "chunk_audio cs = rune_audio (mtScript s) ?len" "chunk_times cs = rune_timings (mtScript s) r ?len" by auto
qed

section \<open>The stream\<close>

fun read_chunk :: "read_result \<Rightarrow> AudioChunk list" where
  "read_chunk (ReadAudio c) = [c]"
| "read_chunk _ = []"

fun to_send :: "mock_writer \<Rightarrow> AudioChunk list" where
  "to_send (WriterSends cs _) = cs"
| "to_send WriterIdle = []"

text \<open>All chunks made so far: read, queued, or still to be sent.\<close>

definition made :: "mock_tts \<Rightarrow> AudioChunk list" where
  "made s = concat (map read_chunk (mtRead s)) @ mtQueue s @ to_send (mtWriter s)"

definition spoken_runes :: "TTSScript \<Rightarrow> string list \<Rightarrow> nat" where
  "spoken_runes sc ws = (if tsIncrementalText sc then \<Sum>w\<leftarrow>ws. length (runes w) else length (runes (concat ws)))"

definition tts_text_inv :: "mock_tts \<Rightarrow> bool" where
  "tts_text_inv s \<longleftrightarrow>
     (if tsIncrementalText (mtScript s) then mtRuneCount s = int (spoken_runes (mtScript s) (mtWrites s)) \<and> mtBuffered s = []
      else if mtEnded s then mtClosed s \<or> mtRuneCount s = int (spoken_runes (mtScript s) (mtWrites s)) \<and> mtBuffered s = []
      else mtRuneCount s = 0 \<and> mtBuffered s = concat (mtWrites s))"

definition tts_queue_inv :: "mock_tts \<Rightarrow> bool" where
  "tts_queue_inv s \<longleftrightarrow>
     (case mtWriter s of WriterIdle \<Rightarrow> mtQueueClosed s = mtEnded s
      | WriterSends cs True \<Rightarrow> mtEnded s \<and> \<not> mtQueueClosed s
      | WriterSends cs False \<Rightarrow> mtQueueClosed s = mtEnded s \<and> (mtEnded s \<longrightarrow> mtClosed s))
     \<and> (mtQueueClosed s \<longrightarrow> mtEnded s) \<and> (ReadEOF \<in> set (mtRead s) \<longrightarrow> mtQueueClosed s \<and> mtQueue s = [])"

lemma mock_fields [simp]:
  "mtScript (snd (mock_chunks t s)) = mtScript s" "mtEnded (snd (mock_chunks t s)) = mtEnded s"
  "mtClosed (snd (mock_chunks t s)) = mtClosed s" "mtRead (snd (mock_chunks t s)) = mtRead s"
  "mtQueue (snd (mock_chunks t s)) = mtQueue s" "mtQueueClosed (snd (mock_chunks t s)) = mtQueueClosed s"
  "mtWrites (snd (mock_chunks t s)) = mtWrites s" "mtBuffered (snd (mock_chunks t s)) = mtBuffered s"
  "mtPanic (snd (mock_chunks t s)) = mtPanic s" "mtRuneCount (snd (mock_chunks t s)) = mtRuneCount s + int (length (runes t))"
  by (simp_all add: mock_chunks_def Let_def)

lemma close_queue_fields [simp]:
  "mtScript (close_queue s) = mtScript s" "mtEnded (close_queue s) = mtEnded s" "mtClosed (close_queue s) = mtClosed s"
  "mtRead (close_queue s) = mtRead s" "mtQueue (close_queue s) = mtQueue s" "mtQueueClosed (close_queue s)"
  "mtWrites (close_queue s) = mtWrites s" "mtBuffered (close_queue s) = mtBuffered s" "mtRuneCount (close_queue s) = mtRuneCount s"
  "mtAudioMs (close_queue s) = mtAudioMs s" "mtWriter (close_queue s) = mtWriter s" 
  "mtPanic (close_queue s) = (mtPanic s \<or> mtQueueClosed s)"
  by (simp_all add: close_queue_def)

lemmas mock_tts_defs = mock_WriteText_def mock_EndInput_def mock_Close_def mock_ReadAudio_def mock_return_def Let_def case_prod_beta

lemma tts_step_text: "mtts_step s s' \<Longrightarrow> tts_text_inv s \<Longrightarrow> tts_text_inv s' \<and> mtScript s' = mtScript s \<and> mtRuneCount s \<le> mtRuneCount s'"
proof (induction rule: mtts_step.induct)
  case (mt_end s)
  have "runes (concat (mtWrites s)) = []" if "\<forall>w\<in>set (mtWrites s). w = []"
  proof -
    from that have "concat (mtWrites s) = []" by simp
    then show ?thesis by (metis runes.simps)
  qed
  with mt_end show ?case by (auto simp: mock_tts_defs tts_text_inv_def spoken_runes_def)
qed (auto simp: mock_tts_defs tts_text_inv_def spoken_runes_def)

lemma tts_step_queue: "mtts_step s s' \<Longrightarrow> tts_queue_inv s \<Longrightarrow> tts_queue_inv s'"
  by (induction rule: mtts_step.induct) (auto simp: mock_tts_defs tts_queue_inv_def split: mock_writer.splits bool.splits)

text \<open>The audio and the timings made so far are those of the runes synthesized so far.\<close>

definition tts_audio_inv :: "mock_tts \<Rightarrow> bool" where
  "tts_audio_inv s \<longleftrightarrow>
     0 \<le> mtRuneCount s \<and> mtAudioMs s = mtRuneCount s * tsMsPerRune (mtScript s)
     \<and> chunk_audio (made s) = rune_audio (mtScript s) (nat (mtRuneCount s))
     \<and> chunk_times (made s) = rune_timings (mtScript s) 0 (nat (mtRuneCount s))"

lemma rune_audio_add: "rune_audio sc (a + b) = rune_audio sc a @ rune_audio sc b"
  by (simp add: rune_audio_def algebra_simps flip: replicate_add)

lemma rune_timings_add: "rune_timings sc 0 (a + b) = rune_timings sc 0 a @ rune_timings sc a b"
  by (simp add: rune_timings_def flip: map_append upt_add_eq_append)

lemma tts_audio_cong:
  "made s' = made s \<Longrightarrow> mtRuneCount s' = mtRuneCount s \<Longrightarrow> mtAudioMs s' = mtAudioMs s \<Longrightarrow> mtScript s' = mtScript s
   \<Longrightarrow> tts_audio_inv s \<Longrightarrow> tts_audio_inv s'"
  by (simp add: tts_audio_inv_def)

lemma new_chunks_audio:
  assumes "tts_audio_inv s" "mtWriter s = WriterIdle" "mock_chunks t s1 = (cs, s2)" "0 < tsMsPerRune (mtScript s)"
    "(mtRuneCount s + int (length (runes t))) * tsMsPerRune (mtScript s) < 2 ^ 57"
    "mtScript s1 = mtScript s" "mtRuneCount s1 = mtRuneCount s" "mtAudioMs s1 = mtAudioMs s" "mtRead s1 = mtRead s" "mtQueue s1 = mtQueue s"
    "mtScript s' = mtScript s2" "mtRuneCount s' = mtRuneCount s2" "mtAudioMs s' = mtAudioMs s2" "mtRead s' = mtRead s2" "mtQueue s' = mtQueue s2"
    "mtWriter s' = WriterSends cs b"
  shows "tts_audio_inv s'"
proof -
  let ?M = "tsMsPerRune (mtScript s)"
  obtain r where r: "mtRuneCount s = int r" using assms(1) by (metis nonneg_int_cases tts_audio_inv_def)
  have "int (length (runes t)) * ?M \<le> (mtRuneCount s + int (length (runes t))) * ?M"
    using assms(4) r by (intro mult_right_mono) auto
  with assms(5) have "int (length (runes t)) * ?M < 2 ^ 57" by (rule le_less_trans [rotated])
  with chunks_spec [OF assms(3), of r] assms r show ?thesis
    by (simp add: tts_audio_inv_def made_def rune_audio_add rune_timings_add nat_add_distrib)
qed

lemma tts_step_audio:
  assumes "mtts_step s s'" "tts_audio_inv s" "0 < tsMsPerRune (mtScript s)" "mtRuneCount s' * tsMsPerRune (mtScript s) < 2 ^ 57"
  shows "tts_audio_inv s'"
  using assms
proof (induction rule: mtts_step.induct)
  case (mt_write s t)
  let ?s1 = "s\<lparr>mtText := mtText s @ t, mtWrites := mtWrites s @ [t]\<rparr>"
  obtain cs s2 where c: "mock_chunks t ?s1 = (cs, s2)" by fastforce
  show ?case
  proof (cases "\<not> mtEnded s \<and> \<not> mtClosed s \<and> tsIncrementalText (mtScript s)")
    case True
    have "mtRuneCount s2 = mtRuneCount s + int (length (runes t))" using mock_fields(10) [of t ?s1] c by simp
    with mt_write True c show ?thesis by (intro new_chunks_audio [where b = False, OF mt_write(2,1) c]) (simp_all add: mock_WriteText_def Let_def)
  next
    case False
    with mt_write(2) show ?thesis by (elim tts_audio_cong [rotated -1]) (auto simp: mock_WriteText_def made_def Let_def)
  qed
next
  case (mt_end s)
  let ?s1 = "s\<lparr>mtEnded := True\<rparr>" 
  obtain cs s2 where c: "mock_chunks (mtBuffered s) ?s1 = (cs, s2)" by fastforce
  show ?case
  proof (cases "\<not> mtEnded s \<and> mtBuffered s \<noteq> []")
    case True
    have "mtRuneCount s2 = mtRuneCount s + int (length (runes (mtBuffered s)))" using mock_fields(10) [of "mtBuffered s" ?s1] c by simp
    with mt_end True c show ?thesis by (intro new_chunks_audio [where b = True, OF mt_end(2,1) c]) (simp_all add: mock_EndInput_def Let_def)
  next
    case False
    with mt_end(1,2) show ?thesis by (elim tts_audio_cong [rotated -1]) (auto simp: mock_EndInput_def made_def Let_def)
  qed
qed (auto elim!: tts_audio_cong [rotated -1] simp: made_def mock_tts_defs)

text \<open>Only a call of \<open>Close\<close> can make a send panic.\<close>

lemma tts_step_panic: "mtts_step s s' \<Longrightarrow> tts_queue_inv s \<Longrightarrow> mtPanic s \<longrightarrow> mtClosed s \<Longrightarrow> mtPanic s' \<longrightarrow> mtClosed s'"
  by (induction rule: mtts_step.induct) (auto simp: mock_tts_defs tts_queue_inv_def split: mock_writer.splits bool.splits)

lemma mtts_reach_inv:
  "mtts_reach sc s \<Longrightarrow> tts_text_inv s \<and> tts_queue_inv s \<and> mtScript s = sc \<and> (mtPanic s \<longrightarrow> mtClosed s)"
proof (induction rule: mtts_reach.induct)
  case (mtts_open s)
  then show ?case by (auto simp: mock_Synthesize_def tts_text_inv_def tts_queue_inv_def spoken_runes_def split: option.splits)
next
  case (mtts_more s s')
  then show ?case using tts_step_text tts_step_queue tts_step_panic by metis
qed

lemma mtts_reach_audio:
  "mtts_reach sc s \<Longrightarrow> 0 < tsMsPerRune sc \<Longrightarrow> mtRuneCount s * tsMsPerRune sc < 2 ^ 57 \<Longrightarrow> tts_audio_inv s"
proof (induction rule: mtts_reach.induct)
  case (mtts_open s)
  then show ?case by (auto simp: mock_Synthesize_def tts_audio_inv_def made_def rune_audio_def rune_timings_def split: option.splits)
next
  case (mtts_more s s')
  from mtts_reach_inv [OF mtts_more(1)] have s: "tts_text_inv s" "mtScript s = sc" by auto
  have "mtRuneCount s * tsMsPerRune sc \<le> mtRuneCount s' * tsMsPerRune sc"
    using tts_step_text [OF mtts_more(2) s(1)] mtts_more.prems(1) by (intro mult_right_mono) auto
  with mtts_more.prems(2) have "mtRuneCount s * tsMsPerRune sc < 2 ^ 57" by (rule le_less_trans [rotated])
  with mtts_more s tts_step_audio [OF mtts_more(2)] show ?case by simp
qed

section \<open>Properties\<close>

text \<open>A stream that is read to its end gives, for every cutting of the text into writes and of the audio into
  chunks, the silence of every rune written and one timing per rune.\<close>

theorem mock_speech_complete:
  assumes "mtts_reach (mock_NewTTS sc) s" "ReadEOF \<in> set (mtRead s)" "\<not> mtClosed s"
    "int (spoken_runes (mock_NewTTS sc) (mtWrites s)) * tsMsPerRune (mock_NewTTS sc) < 2 ^ 57"
  shows "chunk_audio (concat (map read_chunk (mtRead s))) = rune_audio (mock_NewTTS sc) (spoken_runes (mock_NewTTS sc) (mtWrites s))
    \<and> chunk_times (concat (map read_chunk (mtRead s))) = rune_timings (mock_NewTTS sc) 0 (spoken_runes (mock_NewTTS sc) (mtWrites s))
    \<and> \<not> mtPanic s"
proof -
  have pos: "0 < tsMsPerRune (mock_NewTTS sc)" by (simp add: mock_NewTTS_def defaultMsPerRune_def)
  from mtts_reach_inv [OF assms(1)] have i: "tts_text_inv s" "tts_queue_inv s" "mtScript s = mock_NewTTS sc" "mtPanic s \<longrightarrow> mtClosed s"
    by auto
  from i(2) assms(2,3) have q: "mtQueue s = []" "to_send (mtWriter s) = []" "mtEnded s"
    by (auto simp: tts_queue_inv_def split: mock_writer.splits bool.splits)
  from i(1,3) q(3) assms(3) have r: "mtRuneCount s = int (spoken_runes (mock_NewTTS sc) (mtWrites s))"
    by (simp add: tts_text_inv_def split: if_splits)
  have "tts_audio_inv s" using mtts_reach_audio [OF assms(1) pos] r assms(4) by simp
  with q r i(3,4) assms(3) show ?thesis by (simp add: tts_audio_inv_def made_def)
qed

text \<open>The writer sends without the lock: a \<open>Close\<close> between the call of \<open>WriteText\<close> and its send makes it send
  on a closed channel.\<close>

definition word_script :: TTSScript where
  "word_script = \<lparr>tsIncrementalText = True, tsAlignment = False, tsMsPerRune = 10, tsChunkMs = 0, tsFirstChunkDelay = 0, tsSynthErr = None\<rparr>"

theorem mock_close_panics: "\<exists>s. mtts_reach word_script s \<and> mtPanic s"
proof -
  obtain s0 where s0: "mock_Synthesize word_script = Inr s0" "mtWriter s0 = WriterIdle" "mtScript s0 = word_script"
    "\<not> mtEnded s0" "\<not> mtClosed s0" by (simp add: mock_Synthesize_def word_script_def)
  define s1 where "s1 = snd (mock_WriteText ''a'' s0)"
  have "runes ''a'' = [97]" by (simp add: runes.simps decode_rune_def lead_info_def)
  then have s1: "\<exists>c. mtWriter s1 = WriterSends [c] False" "\<not> mtEnded s1"
    using s0(3-5)
    by (simp_all add: s1_def mock_WriteText_def mock_chunks_def Let_def chunk_loop.simps chunk_ms_def word_script_def i64_def)
  have r1: "mtts_reach word_script s1"
    unfolding s1_def by (rule mtts_more [OF mtts_open [OF s0(1)] mt_write [OF s0(2)]])
  have r2: "mtts_reach word_script (mock_Close s1)" by (rule mtts_more [OF r1 mt_close])
  from s1 obtain c where c: "mtWriter (mock_Close s1) = WriterSends [c] False" by (auto simp: mock_Close_def Let_def)
  have "mtQueueClosed (mock_Close s1)" using s1(2) by (simp add: mock_Close_def Let_def)
  from mtts_more [OF r2 mt_send_closed [OF c this]] show ?thesis by fastforce
qed

text \<open>The steps of a caller that ends the input before it reads, as \<open>synthesizeOne\<close> does, with a context that may end.\<close>

definition unread_step :: "mock_tts \<Rightarrow> mock_tts \<Rightarrow> bool" where
  "unread_step s s' \<longleftrightarrow> mtts_step s s' \<and> mtReader s' = ReaderIdle \<and> mtRead s' = mtRead s \<and> \<not> mtClosed s'"

definition stuck :: "mock_tts \<Rightarrow> bool" where
  "stuck s \<longleftrightarrow> mtReader s = ReaderIdle \<and> \<not> mtClosed s \<and> length (mtQueue s) \<le> ttsSegmentQueue
     \<and> (\<exists>cs b. mtWriter s = WriterSends cs b \<and> ttsSegmentQueue < length (mtQueue s) + length cs)"

lemma stuck_step: "mtts_step s s' \<Longrightarrow> mtReader s' = ReaderIdle \<Longrightarrow> mtRead s' = mtRead s \<Longrightarrow> \<not> mtClosed s' \<Longrightarrow> stuck s \<Longrightarrow> stuck s'"
  by (induction rule: mtts_step.induct) (auto simp: stuck_def mock_tts_defs split: if_splits)

text \<open>A text of more chunks than the queue holds hangs such a caller in \<open>EndInput\<close>, even when its context is
  done: the sends do not look at it.\<close>

theorem mock_end_input_hangs:
  assumes "mtWriter s = WriterIdle" "mtReader s = ReaderIdle" "\<not> mtEnded s" "\<not> mtClosed s" "mtQueue s = []" "mtBuffered s \<noteq> []"
    "ttsSegmentQueue < length (fst (mock_chunks (mtBuffered s) (s\<lparr>mtEnded := True\<rparr>)))" "unread_step\<^sup>*\<^sup>* (mock_EndInput s) s'"
  shows "mtWriter s' \<noteq> WriterIdle"
proof -
  have "stuck (mock_EndInput s)"
    using assms(1-7) by (auto simp: stuck_def mock_EndInput_def Let_def case_prod_beta mock_chunks_def)
  with assms(8) have "stuck s'" by (induction rule: rtranclp_induct) (auto simp: unread_step_def intro: stuck_step)
  then show ?thesis by (auto simp: stuck_def)
qed

lemma length_chunk_loop: "0 < c \<Longrightarrow> length (chunk_loop s len c (off + c * int k) off) = k"
proof (induction k arbitrary: off)
  case (Suc k)
  have "off < off + c * int (Suc k)" using Suc.prems by simp
  then have "length (chunk_loop s len c (off + c * int (Suc k)) off) = Suc (length (chunk_loop s len c (off + c * int (Suc k)) (off + c)))"
    using Suc.prems by (subst chunk_loop.simps) (simp add: Let_def)
  moreover have "off + c * int (Suc k) = (off + c) + c * int k" by (simp add: algebra_simps)
  ultimately show ?case using Suc by metis
qed (simp add: chunk_loop.simps)

lemma runes_replicate: "runes (replicate n CHR ''a'') = replicate n 97"
  by (induction n) (simp_all add: runes.simps decode_rune_def lead_info_def)

definition long_sentence :: "mock_tts \<Rightarrow> bool" where
  "long_sentence s \<longleftrightarrow> mtts_reach (word_script\<lparr>tsIncrementalText := False, tsChunkMs := 10\<rparr>) s \<and> mtText s = replicate 65 CHR ''a''
     \<and> mtWriter s = WriterIdle \<and> mtReader s = ReaderIdle \<and> \<not> mtEnded s \<and> \<not> mtClosed s"

theorem mock_end_input_hangs_witness:
  "\<exists>s. long_sentence s \<and> (\<forall>s'. unread_step\<^sup>*\<^sup>* (mock_EndInput s) s' \<longrightarrow> mtWriter s' \<noteq> WriterIdle)"
proof -
  let ?sc = "word_script\<lparr>tsIncrementalText := False, tsChunkMs := 10\<rparr>" and ?t = "replicate 65 CHR ''a''"
  obtain s0 where s0: "mock_Synthesize ?sc = Inr s0" "mtWriter s0 = WriterIdle" "mtScript s0 = ?sc" "mtReader s0 = ReaderIdle"
    "\<not> mtEnded s0" "\<not> mtClosed s0" "mtText s0 = []" "mtBuffered s0 = []" "mtQueue s0 = []"
    by (simp add: mock_Synthesize_def word_script_def)
  define s where "s = snd (mock_WriteText ?t s0)"
  have s: "mtWriter s = WriterIdle" "mtReader s = ReaderIdle" "\<not> mtEnded s" "\<not> mtClosed s" "mtQueue s = []" "mtBuffered s = ?t"
    "mtText s = ?t" "mtScript s = ?sc" using s0 by (simp_all add: s_def mock_WriteText_def Let_def)
  have "mtts_reach ?sc s" unfolding s_def by (rule mtts_more [OF mtts_open [OF s0(1)] mt_write [OF s0(2)]])
  with s have l: "long_sentence s" by (simp add: long_sentence_def)
  have "length (fst (mock_chunks (mtBuffered s) (s\<lparr>mtEnded := True\<rparr>))) = 65"
    using s length_chunk_loop [of 10 "s\<lparr>mtEnded := True\<rparr>" 65 0 65]
    by (simp add: mock_chunks_def Let_def runes_replicate word_script_def i64_def chunk_ms_def)
  then have "ttsSegmentQueue < length (fst (mock_chunks (mtBuffered s) (s\<lparr>mtEnded := True\<rparr>)))" by (simp add: ttsSegmentQueue_def)
  from mock_end_input_hangs [OF s(1-5) _ this] s(6) l show ?thesis by auto
qed

end
