(* ===== verification/MockAsr.thy ===== *)
theory MockAsr
  imports ProviderCommon
begin

text \<open>
  The scripted transcriber of \<^verbatim>\<open>internal/provider/mock/asr.go\<close>: a stream with its \<open>run\<close> goroutine, the session
  that calls it (one call at a time), the consumer of its events and the context, as an interleaving
  machine. A step takes a goroutine to its next blocking point. \<open>now\<close> is the clock. \<open>maHandled\<close> logs what
  \<open>run\<close> has taken from its queue.
\<close>

section \<open>Script and state\<close>

record ASRScript =
  asUtterances :: "string list"
  asPartialAfterMs :: int
  asFinalAfterMs :: int
  asEndOfTurnAfterFinal :: bool
  asFinalDelay :: int
  asOpenErr :: "perr option"
  asStreamErr :: "string option"

definition asrInputQueue :: nat where "asrInputQueue = 256"
definition asrEventQueue :: nat where "asrEventQueue = 16"

record asrInput =
  aiPcm :: pcm
  aiFinalize :: bool

text \<open>An event with \<open>StartMs\<close> and \<open>EndMs\<close>.\<close>

type_synonym mock_event = "ASREvent \<times> int \<times> int"

datatype asr_after = AfterError | AfterPartial | AfterFinal | AfterTurn
datatype asr_pc = RunSelect | RunEmit mock_event asr_after | RunDelay | RunReturn | RunExit

record mock_asr =
  maScript :: ASRScript
  maPending :: "string list"
  maSincePartial :: int
  maSinceFinal :: int
  maTotalMs :: int
  maPartialSent :: bool
  maErrSent :: bool
  maPushedBytes :: int
  maFinalizes :: int
  maCancelledAt :: "nat option"
  maClosed :: bool
  maDone :: bool
  maCall :: "asrInput option"
  maIn :: "asrInput list"
  maPc :: asr_pc
  maEvents :: "mock_event list"
  maEventsClosed :: bool
  maTaken :: "mock_event list"
  maHandled :: "asrInput list"

definition mock_OpenStream :: "ASRScript \<Rightarrow> perr + mock_asr" where
  "mock_OpenStream sc =
     (case asOpenErr sc of
        Some e \<Rightarrow> Inl e
      | None \<Rightarrow> Inr \<lparr>maScript = sc, maPending = asUtterances sc, maSincePartial = 0, maSinceFinal = 0, maTotalMs = 0,
          maPartialSent = False, maErrSent = False, maPushedBytes = 0, maFinalizes = 0, maCancelledAt = None, maClosed = False,
          maDone = False, maCall = None, maIn = [], maPc = RunSelect, maEvents = [], maEventsClosed = False, maTaken = [],
          maHandled = []\<rparr>)"

definition PushedMs :: "mock_asr \<Rightarrow> int" where
  "PushedMs s = BytesToMs (maPushedBytes s)"

section \<open>The run goroutine\<close>

definition mock_nextText :: "mock_asr \<Rightarrow> string" where
  "mock_nextText s = (case maPending s of [] \<Rightarrow> [] | t # _ \<Rightarrow> t)"

text \<open>\<open>final\<close> after and before its delay.\<close>

definition final_event :: "mock_asr \<Rightarrow> mock_asr" where
  "final_event s = s\<lparr>maPending := drop 1 (maPending s), maSinceFinal := 0, maSincePartial := 0, maPartialSent := False,
     maPc := RunEmit (ASRFinal (mock_nextText s), maTotalMs s - maSinceFinal s, maTotalMs s) AfterFinal\<rparr>"

definition mock_final :: "mock_asr \<Rightarrow> mock_asr" where
  "mock_final s = (if asFinalDelay (maScript s) > 0 then s\<lparr>maPc := RunDelay\<rparr> else final_event s)"

definition check_final :: "mock_asr \<Rightarrow> mock_asr" where
  "check_final s =
     (if asFinalAfterMs (maScript s) > 0 \<and> maSinceFinal s \<ge> asFinalAfterMs (maScript s) then mock_final s
      else s\<lparr>maPc := RunSelect\<rparr>)"

definition mock_audio :: "pcm \<Rightarrow> mock_asr \<Rightarrow> mock_asr" where
  "mock_audio p s =
     (let ms = BytesToMs (int (length p));
          s1 = s\<lparr>maTotalMs := maTotalMs s + ms, maSincePartial := maSincePartial s + ms, maSinceFinal := maSinceFinal s + ms\<rparr>
      in if asPartialAfterMs (maScript s1) > 0 \<and> \<not> maPartialSent s1 \<and> maSincePartial s1 \<ge> asPartialAfterMs (maScript s1)
         then s1\<lparr>maPartialSent := True,
                 maPc := RunEmit (ASRPartial (take (length (mock_nextText s1) div 2) (mock_nextText s1)), 0, 0) AfterPartial\<rparr>
         else check_final s1)"

definition mock_handle :: "asrInput \<Rightarrow> mock_asr \<Rightarrow> mock_asr" where
  "mock_handle i s =
     (if aiFinalize i then mock_final s
      else case asStreamErr (maScript s) of
             Some e \<Rightarrow> if \<not> maErrSent s then s\<lparr>maErrSent := True, maPc := RunEmit (ASRError e, 0, 0) AfterError\<rparr>
                       else mock_audio (aiPcm i) s
           | None \<Rightarrow> mock_audio (aiPcm i) s)"

text \<open>What follows an event that was sent.\<close>

fun mock_emitted :: "asr_after \<Rightarrow> mock_asr \<Rightarrow> mock_asr" where
  "mock_emitted AfterPartial s = check_final s"
| "mock_emitted AfterFinal s =
     (if asEndOfTurnAfterFinal (maScript s) then s\<lparr>maPc := RunEmit (ASREndOfTurn, 0, 0) AfterTurn\<rparr> else s\<lparr>maPc := RunSelect\<rparr>)"
| "mock_emitted _ s = s\<lparr>maPc := RunSelect\<rparr>"

section \<open>Calls and the machine\<close>

definition mock_PushAudio :: "pcm \<Rightarrow> mock_asr \<Rightarrow> mock_asr" where
  "mock_PushAudio p s = s\<lparr>maPushedBytes := maPushedBytes s + int (length p), maCall := Some \<lparr>aiPcm = p, aiFinalize = False\<rparr>\<rparr>"

definition mock_Finalize :: "mock_asr \<Rightarrow> mock_asr" where
  "mock_Finalize s = s\<lparr>maFinalizes := maFinalizes s + 1, maCall := Some \<lparr>aiPcm = [], aiFinalize = True\<rparr>\<rparr>"

definition mock_asr_Close :: "mock_asr \<Rightarrow> mock_asr" where
  "mock_asr_Close s = s\<lparr>maClosed := True, maDone := True\<rparr>"

inductive masr_step :: "mock_asr \<Rightarrow> mock_asr \<Rightarrow> bool" where
  ma_cancel: "masr_step s (s\<lparr>maDone := True\<rparr>)"
| ma_close: "masr_step s (mock_asr_Close s)"
| ma_push: "maCall s = None \<Longrightarrow> masr_step s (mock_PushAudio p s)"
| ma_finalize: "maCall s = None \<Longrightarrow> masr_step s (mock_Finalize s)"
| ma_queued: "maCall s = Some i \<Longrightarrow> length (maIn s) < asrInputQueue \<Longrightarrow> masr_step s (s\<lparr>maIn := maIn s @ [i], maCall := None\<rparr>)"
| ma_refused: "maCall s = Some i \<Longrightarrow> maDone s \<Longrightarrow> masr_step s (s\<lparr>maCall := None\<rparr>)"
| ma_take: "maEvents s = e # es \<Longrightarrow> masr_step s (s\<lparr>maEvents := es, maTaken := maTaken s @ [e]\<rparr>)"
| ma_input: "maPc s = RunSelect \<Longrightarrow> maIn s = i # is \<Longrightarrow> masr_step s (mock_handle i (s\<lparr>maIn := is, maHandled := maHandled s @ [i]\<rparr>))"
| ma_stop: "maPc s = RunSelect \<Longrightarrow> maDone s \<Longrightarrow> masr_step s (s\<lparr>maCancelledAt := Some now, maPc := RunReturn\<rparr>)"
| ma_emit: "maPc s = RunEmit e k \<Longrightarrow> length (maEvents s) < asrEventQueue
    \<Longrightarrow> masr_step s (mock_emitted k (s\<lparr>maEvents := maEvents s @ [e]\<rparr>))"
| ma_emit_stop: "maPc s = RunEmit e k \<Longrightarrow> maDone s \<Longrightarrow> masr_step s (s\<lparr>maCancelledAt := Some now, maPc := RunReturn\<rparr>)"
| ma_delayed: "maPc s = RunDelay \<Longrightarrow> masr_step s (final_event s)"
| ma_delay_stop: "maPc s = RunDelay \<Longrightarrow> maDone s \<Longrightarrow> masr_step s (s\<lparr>maPc := RunReturn\<rparr>)"
| ma_return: "maPc s = RunReturn \<Longrightarrow> masr_step s (s\<lparr>maEventsClosed := True, maPc := RunExit\<rparr>)"

inductive masr_reach :: "ASRScript \<Rightarrow> mock_asr \<Rightarrow> bool" for sc where
  masr_open: "mock_OpenStream sc = Inr s \<Longrightarrow> masr_reach sc s"
| masr_more: "masr_reach sc s \<Longrightarrow> masr_step s s' \<Longrightarrow> masr_reach sc s'"

section \<open>The finals\<close>

fun final_of :: "mock_event \<Rightarrow> (string \<times> int \<times> int) list" where
  "final_of (ASRFinal t, a, b) = [(t, a, b)]"
| "final_of _ = []"

definition finals :: "mock_event list \<Rightarrow> (string \<times> int \<times> int) list" where
  "finals es = concat (map final_of es)"

lemma finals_simps [simp]: "finals [] = []" "finals (e # es) = final_of e @ finals es" "finals (es @ fs) = finals es @ finals fs"
  by (simp_all add: finals_def)

text \<open>Utterances that follow each other on the timeline, without gap or overlap.\<close>

fun timeline :: "int \<Rightarrow> (string \<times> int \<times> int) list \<Rightarrow> int \<Rightarrow> bool" where
  "timeline a [] b \<longleftrightarrow> a = b"
| "timeline a ((t, x, y) # fs) b \<longleftrightarrow> x = a \<and> a \<le> y \<and> timeline y fs b"

lemma timeline_snoc [simp]: "timeline a (fs @ [(t, x, y)]) b \<longleftrightarrow> timeline a fs x \<and> x \<le> y \<and> y = b"
  by (induction a fs x rule: timeline.induct) auto

lemma timeline_snoc2 [simp]: "timeline a (fs @ gs @ [(t, x, y)]) b \<longleftrightarrow> timeline a (fs @ gs) x \<and> x \<le> y \<and> y = b"
  using timeline_snoc [of a "fs @ gs"] by simp

definition script_texts :: "string list \<Rightarrow> nat \<Rightarrow> string list" where
  "script_texts us n = take n us @ replicate (n - length us) []"

lemma script_texts_Suc: "script_texts us (Suc n) = script_texts us n @ [case drop n us of [] \<Rightarrow> [] | t # _ \<Rightarrow> t]"
  by (cases "n < length us")
    (auto simp: script_texts_def take_Suc_conv_app_nth Suc_diff_le replicate_append_same split: list.split simp flip: Cons_nth_drop_Suc)

abbreviation masr_sent :: "mock_asr \<Rightarrow> mock_event list" where
  "masr_sent s \<equiv> maTaken s @ maEvents s"

fun emitting :: "asr_pc \<Rightarrow> mock_event list" where
  "emitting (RunEmit e _) = [e]"
| "emitting _ = []"

fun returned :: "asr_pc \<Rightarrow> bool" where
  "returned RunReturn = True" | "returned RunExit = True" | "returned _ = False"

text \<open>The finals sent and about to be sent: their texts are the script's, they tile the timeline up to the
  last one, and the utterances left are the rest of the script. A goroutine that returned may have lost one.\<close>

definition finals_inv :: "mock_asr \<Rightarrow> bool" where
  "finals_inv s \<longleftrightarrow>
     (let fs = finals (masr_sent s @ emitting (maPc s)) in
      0 \<le> maSinceFinal s \<and> map fst fs = script_texts (asUtterances (maScript s)) (length fs)
      \<and> (if returned (maPc s) then \<exists>b \<le> maTotalMs s. timeline 0 fs b
         else timeline 0 fs (maTotalMs s - maSinceFinal s) \<and> maPending s = drop (length fs) (asUtterances (maScript s))))"

text \<open>The same between two events, whatever the program counter.\<close>

definition finals_base :: "mock_asr \<Rightarrow> bool" where
  "finals_base s \<longleftrightarrow>
     (let fs = finals (masr_sent s) in
      0 \<le> maSinceFinal s \<and> map fst fs = script_texts (asUtterances (maScript s)) (length fs)
      \<and> timeline 0 fs (maTotalMs s - maSinceFinal s) \<and> maPending s = drop (length fs) (asUtterances (maScript s)))"

lemma finals_base_pc: "finals_base s \<Longrightarrow> finals (emitting pc) = [] \<Longrightarrow> \<not> returned pc \<Longrightarrow> finals_inv (s\<lparr>maPc := pc\<rparr>)"
  by (simp add: finals_base_def finals_inv_def Let_def)

lemma finals_inv_base: "finals_inv s \<Longrightarrow> \<not> returned (maPc s) \<Longrightarrow> finals (emitting (maPc s)) = [] \<Longrightarrow> finals_base s"
  by (simp add: finals_base_def finals_inv_def Let_def)

lemma final_event_inv: "finals_base s \<Longrightarrow> finals_inv (final_event s)"
  by (simp add: finals_base_def finals_inv_def Let_def final_event_def script_texts_Suc mock_nextText_def)

lemma mock_final_inv: "finals_base s \<Longrightarrow> finals_inv (mock_final s)"
  by (simp add: mock_final_def final_event_inv finals_base_pc)

lemma check_final_inv: "finals_base s \<Longrightarrow> finals_inv (check_final s)"
  by (simp add: check_final_def mock_final_inv finals_base_pc)

lemma mock_audio_inv:
  assumes "finals_base s"
  shows "finals_inv (mock_audio p s)"
proof -
  let ?ms = "BytesToMs (int (length p))"
  let ?s1 = "s\<lparr>maTotalMs := maTotalMs s + ?ms, maSincePartial := maSincePartial s + ?ms, maSinceFinal := maSinceFinal s + ?ms\<rparr>"
  have b: "finals_base ?s1" using assms by (simp add: finals_base_def Let_def)
  have "finals_base (?s1\<lparr>maPartialSent := True\<rparr>)" using b by (simp add: finals_base_def Let_def)
  from finals_base_pc [OF this] check_final_inv [OF b] show ?thesis by (simp add: mock_audio_def Let_def)
qed

lemma mock_handle_inv:
  assumes "finals_base s"
  shows "finals_inv (mock_handle i s)"
proof -
  have "finals_base (s\<lparr>maErrSent := True\<rparr>)" using assms by (simp add: finals_base_def Let_def)
  from finals_base_pc [OF this] show ?thesis
    by (simp add: mock_handle_def assms mock_final_inv mock_audio_inv split: option.split)
qed

lemma mock_emitted_inv: "finals_base s \<Longrightarrow> finals_inv (mock_emitted k s)"
  by (cases k) (simp_all add: check_final_inv finals_base_pc)

lemma final_of_cases: "final_of e = [] \<or> (\<exists>t x y. e = (ASRFinal t, x, y))"
  by (cases e rule: final_of.cases) auto

lemma return_inv:
  assumes "finals_inv s"
  shows "finals_inv (s\<lparr>maCancelledAt := moment, maPc := RunReturn\<rparr>)"
proof (cases "finals (emitting (maPc s)) = []")
  case True
  with assms show ?thesis
    by (cases "returned (maPc s)") (auto simp: finals_inv_def Let_def intro: exI [of _ "maTotalMs s - maSinceFinal s"])
next
  case False
  then obtain e k where "maPc s = RunEmit e k" by (cases "maPc s") auto
  moreover from this False final_of_cases [of e] obtain t x y where "e = (ASRFinal t, x, y)" by auto
  ultimately show ?thesis using assms by (auto simp: finals_inv_def Let_def script_texts_Suc intro: exI [of _ x])
qed

lemma masr_step_finals: "masr_step s s' \<Longrightarrow> finals_inv s \<Longrightarrow> finals_inv s'"
proof (induction rule: masr_step.induct)
  case (ma_input s i ins)
  from finals_inv_base [OF ma_input(3)] ma_input(1) have "finals_base (s\<lparr>maIn := ins, maHandled := maHandled s @ [i]\<rparr>)"
    by (simp add: finals_base_def)
  then show ?case by (rule mock_handle_inv)
next
  case (ma_emit s e k)
  then have "finals_base (s\<lparr>maEvents := maEvents s @ [e]\<rparr>)" by (simp add: finals_base_def finals_inv_def Let_def)
  then show ?case by (rule mock_emitted_inv)
next
  case (ma_emit_stop s e k now)
  then show ?case by (intro return_inv)
next
  case (ma_stop s now)
  then show ?case by (intro return_inv)
next
  case (ma_delay_stop s)
  then show ?case using return_inv [of s "maCancelledAt s"] by simp
next
  case (ma_delayed s)
  then show ?case using finals_inv_base [of s] by (intro final_event_inv) simp
qed (auto simp: finals_inv_def Let_def mock_asr_Close_def mock_PushAudio_def mock_Finalize_def)

lemma mock_emitted_script [simp]: "maScript (mock_emitted k s) = maScript s"
  by (cases k) (simp_all add: check_final_def mock_final_def final_event_def)

lemma masr_step_script: "masr_step s s' \<Longrightarrow> maScript s' = maScript s"
  by (induction rule: masr_step.induct)
    (auto simp: mock_asr_Close_def mock_PushAudio_def mock_Finalize_def mock_handle_def mock_audio_def check_final_def mock_final_def
      final_event_def Let_def split: option.split)

lemma masr_reach_finals: "masr_reach sc s \<Longrightarrow> finals_inv s \<and> maScript s = sc"
proof (induction rule: masr_reach.induct)
  case (masr_open s)
  then show ?case by (auto simp: mock_OpenStream_def finals_inv_def script_texts_def split: option.splits)
next
  case (masr_more s s')
  then show ?case using masr_step_finals masr_step_script by metis
qed

section \<open>Answers\<close>

definition finalizes_in :: "asrInput list \<Rightarrow> nat" where
  "finalizes_in ins = length (filter aiFinalize ins)"

lemma finalizes_in_simps [simp]: "finalizes_in [] = 0" "finalizes_in (ins @ jns) = finalizes_in ins + finalizes_in jns" "finalizes_in (i # ins) = of_bool (aiFinalize i) + finalizes_in ins"
  by (simp_all add: finalizes_in_def)

text \<open>While the context is not done: every Finalize is in the queue or handled, and every one that was handled has
  its Final sent, or about to be.\<close>

definition due :: "mock_asr \<Rightarrow> nat" where
  "due s = length (finals (masr_sent s @ emitting (maPc s))) + of_bool (maPc s = RunDelay)"

definition answer_inv :: "mock_asr \<Rightarrow> bool" where
  "answer_inv s \<longleftrightarrow> (\<not> maDone s \<longrightarrow> \<not> returned (maPc s) \<and> finalizes_in (maHandled s) \<le> due s
     \<and> maFinalizes s = int (finalizes_in (maHandled s @ maIn s @ (case maCall s of None \<Rightarrow> [] | Some i \<Rightarrow> [i]))))"

abbreviation sent_finals :: "mock_asr \<Rightarrow> nat" where
  "sent_finals s \<equiv> length (finals (maTaken s)) + length (finals (maEvents s))"

lemma due_pc [simp]: "due (s\<lparr>maPc := pc\<rparr>) = sent_finals s + length (finals (emitting pc)) + of_bool (pc = RunDelay)"
  by (simp add: due_def)

lemma mock_final_fields [simp]:
  "maDone (mock_final s) = maDone s" "maHandled (mock_final s) = maHandled s" "maIn (mock_final s) = maIn s"
  "maCall (mock_final s) = maCall s" "maFinalizes (mock_final s) = maFinalizes s" "\<not> returned (maPc (mock_final s))"
  "due (mock_final s) = Suc (sent_finals s)" "maPushedBytes (mock_final s) = maPushedBytes s"
  by (simp_all add: mock_final_def final_event_def due_def)

lemma check_final_fields [simp]:
  "maDone (check_final s) = maDone s" "maHandled (check_final s) = maHandled s" "maIn (check_final s) = maIn s"
  "maCall (check_final s) = maCall s" "maFinalizes (check_final s) = maFinalizes s" "\<not> returned (maPc (check_final s))"
  "sent_finals s \<le> due (check_final s)" "maPushedBytes (check_final s) = maPushedBytes s"
  by (simp_all add: check_final_def)

lemma mock_handle_fields [simp]:
  "maDone (mock_handle i s) = maDone s" "maHandled (mock_handle i s) = maHandled s" "maIn (mock_handle i s) = maIn s"
  "maCall (mock_handle i s) = maCall s" "maFinalizes (mock_handle i s) = maFinalizes s" "\<not> returned (maPc (mock_handle i s))"
  "maPushedBytes (mock_handle i s) = maPushedBytes s"
  by (simp_all add: mock_handle_def mock_audio_def Let_def split: option.split)

lemma mock_handle_due: "sent_finals s + of_bool (aiFinalize i) \<le> due (mock_handle i s)"
proof -
  have "sent_finals s \<le> due (mock_audio p s)" for p
  proof -
    let ?ms = "BytesToMs (int (length p))"
    let ?s1 = "s\<lparr>maTotalMs := maTotalMs s + ?ms, maSincePartial := maSincePartial s + ?ms, maSinceFinal := maSinceFinal s + ?ms\<rparr>"
    from check_final_fields(7) [of ?s1] due_pc [where s = "?s1\<lparr>maPartialSent := True\<rparr>"] show ?thesis
      by (simp add: mock_audio_def Let_def)
  qed
  with due_pc [where s = "s\<lparr>maErrSent := True\<rparr>"] show ?thesis by (auto simp: mock_handle_def split: option.split)
qed

lemma mock_emitted_fields [simp]:
  "maDone (mock_emitted k s) = maDone s" "maHandled (mock_emitted k s) = maHandled s" "maIn (mock_emitted k s) = maIn s"
  "maCall (mock_emitted k s) = maCall s" "maFinalizes (mock_emitted k s) = maFinalizes s" "\<not> returned (maPc (mock_emitted k s))"
  "sent_finals s \<le> due (mock_emitted k s)" "maPushedBytes (mock_emitted k s) = maPushedBytes s"
  by (cases k; simp)+

lemma masr_step_answer: "masr_step s s' \<Longrightarrow> answer_inv s \<Longrightarrow> answer_inv s'"
proof (induction rule: masr_step.induct)
  case (ma_input s i ins)
  then show ?case using mock_handle_due [of "s\<lparr>maIn := ins, maHandled := maHandled s @ [i]\<rparr>" i]
    by (auto simp: answer_inv_def due_def)
next
  case (ma_emit s e k)
  then show ?case using mock_emitted_fields(7) [of "s\<lparr>maEvents := maEvents s @ [e]\<rparr>" k]
    by (auto simp: answer_inv_def due_def)
next
  case (ma_delayed s)
  then show ?case by (auto simp: answer_inv_def due_def final_event_def)
qed (auto simp: answer_inv_def due_def mock_asr_Close_def mock_PushAudio_def mock_Finalize_def split: option.splits)

lemma masr_reach_answer: "masr_reach sc s \<Longrightarrow> answer_inv s"
proof (induction rule: masr_reach.induct)
  case (masr_open s)
  then show ?case by (auto simp: mock_OpenStream_def answer_inv_def split: option.splits)
next
  case (masr_more s s')
  then show ?case using masr_step_answer by blast
qed

section \<open>Progress\<close>

text \<open>Steps of the stream and its consumer: no new call, and no end of the context.\<close>

definition masr_run :: "mock_asr \<Rightarrow> mock_asr \<Rightarrow> bool" where
  "masr_run s s' \<longleftrightarrow> masr_step s s' \<and> maDone s' = maDone s \<and> maFinalizes s' = maFinalizes s \<and> maPushedBytes s' = maPushedBytes s"

fun pc_left :: "asr_pc \<Rightarrow> nat" where
  "pc_left (RunEmit _ AfterPartial) = 4"
| "pc_left RunDelay = 3"
| "pc_left (RunEmit _ AfterFinal) = 2"
| "pc_left (RunEmit _ _) = 1"
| "pc_left _ = 0"

definition work_left :: "mock_asr \<Rightarrow> nat" where
  "work_left s = 6 * length (maIn s) + 7 * of_bool (maCall s \<noteq> None) + pc_left (maPc s)"

lemma mock_final_left: "pc_left (maPc (mock_final s)) \<le> 3" "pc_left (maPc (check_final s)) \<le> 3"
  by (simp_all add: mock_final_def final_event_def check_final_def)

lemma mock_handle_left: "pc_left (maPc (mock_handle i s)) \<le> 4"
  using mock_final_left [of s] mock_final_left(2)
  by (auto simp: mock_handle_def mock_audio_def Let_def intro: order_trans [OF mock_final_left(1)] order_trans [OF mock_final_left(2)] split: option.split)

lemma mock_emitted_left: "pc_left (maPc (mock_emitted k s)) < pc_left (RunEmit e k)"
  using mock_final_left(2) [of s] by (cases k) auto

text \<open>The consumer makes room for the next event.\<close>

lemma emit_comes:
  assumes "maPc s = RunEmit e k"
  shows "\<exists>s'. masr_run\<^sup>*\<^sup>* s s' \<and> work_left s' < work_left s"
  using assms
proof (induction "length (maEvents s)" arbitrary: s)
  case 0
  then have "masr_run s (mock_emitted k (s\<lparr>maEvents := maEvents s @ [e]\<rparr>))"
    using ma_emit [of s e k] by (simp add: masr_run_def asrEventQueue_def)
  moreover have "work_left (mock_emitted k (s\<lparr>maEvents := maEvents s @ [e]\<rparr>)) < work_left s"
    using mock_emitted_left [of k "s\<lparr>maEvents := maEvents s @ [e]\<rparr>" e] 0 by (simp add: work_left_def)
  ultimately show ?case by blast
next
  case (Suc n)
  then obtain x xs where x: "maEvents s = x # xs" by (cases "maEvents s") auto
  let ?s1 = "s\<lparr>maEvents := xs, maTaken := maTaken s @ [x]\<rparr>"
  have "masr_run s ?s1" using ma_take [OF x] by (simp add: masr_run_def)
  moreover from Suc x have "\<exists>s'. masr_run\<^sup>*\<^sup>* ?s1 s' \<and> work_left s' < work_left ?s1" by simp
  moreover have "work_left ?s1 = work_left s" by (simp add: work_left_def)
  ultimately show ?case by (metis converse_rtranclp_into_rtranclp)
qed

lemma work_moves:
  assumes "\<not> returned (maPc s)" "0 < work_left s"
  shows "\<exists>s'. masr_run\<^sup>*\<^sup>* s s' \<and> work_left s' < work_left s"
proof (cases "maPc s")
  case RunSelect
  show ?thesis
  proof (cases "maIn s")
    case Nil
    with RunSelect assms obtain i where i: "maCall s = Some i" by (auto simp: work_left_def split: if_splits)
    let ?s1 = "s\<lparr>maIn := maIn s @ [i], maCall := None\<rparr>"
    have "masr_run s ?s1" using ma_queued [OF i] Nil by (simp add: masr_run_def asrInputQueue_def)
    moreover have "work_left ?s1 < work_left s" using i by (simp add: work_left_def)
    ultimately show ?thesis by blast
  next
    case (Cons i ins)
    let ?s1 = "mock_handle i (s\<lparr>maIn := ins, maHandled := maHandled s @ [i]\<rparr>)"
    have "masr_run s ?s1" using ma_input [OF RunSelect Cons] by (simp add: masr_run_def)
    moreover have "work_left ?s1 < work_left s"
      using mock_handle_left [of i "s\<lparr>maIn := ins, maHandled := maHandled s @ [i]\<rparr>"] Cons by (simp add: work_left_def)
    ultimately show ?thesis by blast
  qed
next
  case (RunEmit e k)
  then show ?thesis by (rule emit_comes)
next
  case RunDelay
  then have "masr_run s (final_event s)" using ma_delayed [OF RunDelay] by (simp add: masr_run_def final_event_def)
  moreover have "work_left (final_event s) < work_left s" using RunDelay by (simp add: work_left_def final_event_def)
  ultimately show ?thesis by blast
qed (use assms in auto)

lemma masr_run_reach: "masr_run\<^sup>*\<^sup>* s s' \<Longrightarrow> masr_reach sc s \<Longrightarrow> masr_reach sc s' \<and> maDone s' = maDone s \<and> maFinalizes s' = maFinalizes s"
  by (induction rule: rtranclp_induct) (auto simp: masr_run_def intro: masr_more)

lemma masr_settles:
  assumes "masr_reach sc s" "\<not> maDone s"
  shows "\<exists>s'. masr_run\<^sup>*\<^sup>* s s' \<and> work_left s' = 0"
  using assms
proof (induction "work_left s" arbitrary: s rule: less_induct)
  case less
  show ?case
  proof (cases "work_left s = 0")
    case False
    have "\<not> returned (maPc s)" using masr_reach_answer [OF less.prems(1)] less.prems(2) by (simp add: answer_inv_def)
    from work_moves [OF this] False obtain s1 where s1: "masr_run\<^sup>*\<^sup>* s s1" "work_left s1 < work_left s" by blast
    with less masr_run_reach [OF s1(1) less.prems(1)] have "\<exists>s'. masr_run\<^sup>*\<^sup>* s1 s' \<and> work_left s' = 0" by auto
    with s1(1) show ?thesis by (meson rtranclp_trans)
  qed blast
qed

section \<open>Properties\<close>

text \<open>The finals carry the utterances of the script in order, then empty texts, and tile the timeline of the
  audio that was handled.\<close>

theorem mock_finals_tile:
  assumes "masr_reach sc s"
  shows "map fst (finals (masr_sent s)) = script_texts (asUtterances sc) (length (finals (masr_sent s)))
    \<and> (\<exists>b \<le> maTotalMs s. timeline 0 (finals (masr_sent s)) b)"
proof -
  from masr_reach_finals [OF assms] have i: "finals_inv s" "maScript s = sc" by auto
  from return_inv [OF i(1), of None] i(2) show ?thesis by (simp add: finals_inv_def Let_def)
qed

text \<open>Every Finalize is answered by a Final of its own, as long as the context is not done and the events are read.\<close>

theorem mock_finalize_answered:
  assumes "masr_reach sc s" "\<not> maDone s"
  shows "\<exists>s'. masr_run\<^sup>*\<^sup>* s s' \<and> maFinalizes s \<le> int (length (finals (masr_sent s')))"
proof -
  from masr_settles [OF assms] obtain s' where s': "masr_run\<^sup>*\<^sup>* s s'" "work_left s' = 0" by blast
  from masr_run_reach [OF s'(1) assms(1)] assms(2) masr_reach_answer have "answer_inv s'" "\<not> maDone s'" "maFinalizes s' = maFinalizes s"
    by auto
  moreover from s'(2) have "maIn s' = []" "maCall s' = None" by (auto simp: work_left_def split: if_splits)
  moreover from s'(2) have "emitting (maPc s') = []" "maPc s' \<noteq> RunDelay" by (auto simp: work_left_def elim: pc_left.elims)
  ultimately have "maFinalizes s \<le> int (length (finals (masr_sent s')))" by (simp add: answer_inv_def due_def)
  with s'(1) show ?thesis by blast
qed

text \<open>A context that ends while a Final is delayed ends the stream without the moment being recorded.\<close>

theorem mock_delay_unrecorded:
  assumes "0 < asFinalDelay sc" "asOpenErr sc = None"
  shows "\<exists>s. masr_reach sc s \<and> maDone s \<and> maPc s = RunExit \<and> maCancelledAt s = None"
proof -
  obtain s0 where s0: "mock_OpenStream sc = Inr s0" "maScript s0 = sc" "maPc s0 = RunSelect" "maCall s0 = None" "maIn s0 = []"
    "maCancelledAt s0 = None" using assms(2) by (simp add: mock_OpenStream_def)
  let ?i = "\<lparr>aiPcm = [], aiFinalize = True\<rparr>"
  define s1 where "s1 = (mock_Finalize s0)\<lparr>maIn := [?i], maCall := None\<rparr>"
  have "masr_reach sc s1"
    using masr_more [OF masr_more [OF masr_open [OF s0(1)] ma_finalize [OF s0(4)]] ma_queued [of "mock_Finalize s0" ?i]] s0
    by (simp add: s1_def mock_Finalize_def asrInputQueue_def)
  define s2 where "s2 = mock_handle ?i (s1\<lparr>maIn := [], maHandled := maHandled s1 @ [?i]\<rparr>)"
  have r2: "masr_reach sc s2" unfolding s2_def
    by (rule masr_more [OF \<open>masr_reach sc s1\<close> ma_input]) (simp_all add: s1_def s0 mock_Finalize_def)
  have s2: "maPc s2 = RunDelay" "maCancelledAt s2 = None"
    using assms(1) s0 by (simp_all add: s2_def s1_def mock_handle_def mock_final_def mock_Finalize_def)
  have "masr_reach sc (s2\<lparr>maDone := True\<rparr>)" by (rule masr_more [OF r2 ma_cancel])
  then have "masr_reach sc (s2\<lparr>maDone := True, maPc := RunReturn\<rparr>)"
    using masr_more [OF _ ma_delay_stop, of sc "s2\<lparr>maDone := True\<rparr>"] s2 by simp
  from masr_more [OF this ma_return] s2 show ?thesis by fastforce
qed

end
