(* ===== verification/Deepgram.thy ===== *)
theory Deepgram
  imports ProviderCommon Decode
begin

text \<open>
  \<^verbatim>\<open>internal/provider/deepgram/deepgram.go\<close>: a transcription stream on a WebSocket. Its goroutines (the
  session that calls it, the socket reader, the socket writer, and one per expired timer) are the steps
  of a machine, each from one blocking point to the next. Timers are numbered; stopping one that has
  expired does not stop its goroutine. \<open>M\<close> is the set of messages the service may send, \<open>cap\<close> the capacity of
  the audio queue, and \<open>oor\<close> the value of a conversion to int that is out of range.
\<close>

section \<open>Options and messages\<close>

record dg_options =
  doBaseURL :: string
  doModel :: string
  doLanguage :: string
  doSmartFormat :: bool
  doEndpointingMs :: int
  doUtteranceEndMs :: int
  doConnectTimeout :: int
  doFinalizeTimeout :: int
  doKeepAliveInterval :: int
  doAudioQueueFrames :: int

definition or_zero :: "'a::zero \<Rightarrow> 'a \<Rightarrow> 'a" where
  "or_zero v def = (if v = 0 then def else v)"

definition dg_applyDefaults :: "dg_options \<Rightarrow> dg_options" where
  "dg_applyDefaults opts = opts
     \<lparr>doBaseURL := firstNonEmpty (doBaseURL opts) ''wss://api.deepgram.com/v1/listen'',
      doModel := firstNonEmpty (doModel opts) ''nova-3'',
      doEndpointingMs := or_zero (doEndpointingMs opts) 300,
      doUtteranceEndMs := or_zero (doUtteranceEndMs opts) 1000,
      doConnectTimeout := or_zero (doConnectTimeout opts) (seconds 10),
      doFinalizeTimeout := or_zero (doFinalizeTimeout opts) 1500000000,
      doKeepAliveInterval := or_zero (doKeepAliveInterval opts) (seconds 3),
      doAudioQueueFrames := or_zero (doAudioQueueFrames opts) 500\<rparr>"

text \<open>The query \<open>OpenStream\<close> sets on the URL.\<close>

definition dg_query :: "dg_options \<Rightarrow> ASRConfig \<Rightarrow> (string \<times> string) list" where
  "dg_query opts cfg =
     [(''model'', doModel opts), (''encoding'', ''linear16''), (''sample_rate'', int_str (acSampleRate cfg)), (''channels'', ''1''),
      (''interim_results'', ''true''), (''punctuate'', ''true''), (''endpointing'', int_str (doEndpointingMs opts)),
      (''utterance_end_ms'', int_str (doUtteranceEndMs opts))] @
     (if doSmartFormat opts then [(''smart_format'', ''true'')] else []) @
     (let lang = firstNonEmpty (acLanguage cfg) (doLanguage opts) in if lang \<noteq> [] then [(''language'', lang)] else [])"

record dgMessage =
  dmType :: string
  dmIsFinal :: bool
  dmSpeechFinal :: bool
  dmFromFinalize :: bool
  dmStart :: f64
  dmDuration :: f64
  dmAlternatives :: "string list"
  dmDescription :: string
  dmMessage :: string

definition dg_channel_fields :: "dgMessage fields" where
  "dg_channel_fields =
     [(''alternatives'', field_of (into_slice (lax_struct [(''transcript'', into_string)]) []) dmAlternatives dmAlternatives_update)]"

definition dgMessage_fields :: "dgMessage fields" where
  "dgMessage_fields =
     [(''type'', field_of into_string dmType dmType_update),
      (''is_final'', field_of into_bool dmIsFinal dmIsFinal_update),
      (''speech_final'', field_of into_bool dmSpeechFinal dmSpeechFinal_update),
      (''from_finalize'', field_of into_bool dmFromFinalize dmFromFinalize_update),
      (''start'', field_of into_float dmStart dmStart_update),
      (''duration'', field_of into_float dmDuration dmDuration_update),
      (''channel'', lax_struct dg_channel_fields),
      (''description'', field_of into_string dmDescription dmDescription_update),
      (''message'', field_of into_string dmMessage dmMessage_update)]"

definition decode_dgMessage :: "json \<Rightarrow> dgMessage option" where
  "decode_dgMessage j = lax_struct dgMessage_fields j
     \<lparr>dmType = [], dmIsFinal = False, dmSpeechFinal = False, dmFromFinalize = False, dmStart = 0, dmDuration = 0,
      dmAlternatives = [], dmDescription = [], dmMessage = []\<rparr>"

text \<open>An event with its offsets on the audio timeline.\<close>

type_synonym timed_event = "ASREvent \<times> int \<times> int"

definition untimed :: "ASREvent \<Rightarrow> timed_event" where
  "untimed e = (e, 0, 0)"

text \<open>\<open>handle\<close>: the events it emits, one after the other until one cannot be sent; and whether it first
  takes the pending finalization for answered.\<close>

definition dg_satisfies :: "dgMessage \<Rightarrow> bool" where
  "dg_satisfies m \<longleftrightarrow> dmType m = ''Results'' \<and> dmFromFinalize m"

definition dg_text :: "dgMessage \<Rightarrow> string" where
  "dg_text m = (case dmAlternatives m of [] \<Rightarrow> [] | t # _ \<Rightarrow> t)"

definition dg_handle :: "(f64 \<Rightarrow> int) \<Rightarrow> dgMessage \<Rightarrow> timed_event list" where
  "dg_handle oor m =
     (if dmType m = ''Results'' then
        (if \<not> dmIsFinal m then (if dg_text m \<noteq> [] then [untimed (ASRPartial (dg_text m))] else [])
         else if dg_text m \<noteq> [] then
           (let start = go_int oor (fmul (dmStart m) 1000)
            in (ASRFinal (dg_text m), start, i64 (start + go_int oor (fmul (dmDuration m) 1000)))
               # (if dmSpeechFinal m then [untimed ASREndOfTurn] else []))
         else if dmFromFinalize m then [untimed ASREndOfTurn] else [])
      else if dmType m = ''UtteranceEnd'' then [untimed ASREndOfTurn]
      else if dmType m = ''Error''
      then [untimed (ASRError (Error_Error (transientf ''deepgram'' (firstNonEmpty (dmDescription m) (dmMessage m)))))]
      else [])"

section \<open>The stream\<close>

datatype dg_ctl = CtlFinalize | CtlCloseStream
datatype dg_wire = WireAudio pcm | WireCtl dg_ctl | WireKeepAlive

text \<open>Where the session stands in its calls (it makes one at a time), and the reader in its loop.\<close>

datatype dg_call = CallNone | CallFinalize | CallClose | CallCloseWait | CallClosed
datatype dg_reader = ReadNext | ReadEmit "timed_event list" | ReadFail timed_event | ReadExit

record dg_stream =
  dgCur :: "nat option"
  dgTicking :: "nat list"
  dgExpired :: "nat list"
  dgEmitting :: nat
  dgFresh :: nat
  dgClosed :: bool
  dgDone :: bool
  dgCall :: dg_call
  dgReader :: dg_reader
  dgWriter :: bool
  dgIdle :: bool
  dgIn :: "pcm list"
  dgCtl :: "dg_ctl list"
  dgEventsClosed :: bool
  dgOut :: "timed_event list"
  dgWire :: "dg_wire list"
  dgPushed :: "pcm list"
  dgAwait :: bool
  dgPanic :: bool

definition dg_open :: dg_stream where
  "dg_open = \<lparr>dgCur = None, dgTicking = [], dgExpired = [], dgEmitting = 0, dgFresh = 0, dgClosed = False, dgDone = False,
     dgCall = CallNone, dgReader = ReadNext, dgWriter = True, dgIdle = True, dgIn = [], dgCtl = [],
     dgEventsClosed = False, dgOut = [], dgWire = [], dgPushed = [], dgAwait = False, dgPanic = False\<rparr>"

definition dg_PushAudio :: "nat \<Rightarrow> pcm \<Rightarrow> dg_stream \<Rightarrow> perr option \<times> dg_stream" where
  "dg_PushAudio cap pcm s =
     (if dgDone s then (Some Canceled, s)
      else if length (dgIn s) < cap then (None, s\<lparr>dgIn := dgIn s @ [pcm], dgPushed := dgPushed s @ [pcm]\<rparr>)
      else (Some (failed_with (transientf ''deepgram'' ''audio queue full: socket writer stalled'')), s))"

definition stop_timer :: "dg_stream \<Rightarrow> dg_stream" where
  "stop_timer s = (case dgCur s of None \<Rightarrow> s
     | Some t \<Rightarrow> s\<lparr>dgTicking := filter (\<lambda>u. u \<noteq> t) (dgTicking s), dgCur := None\<rparr>)"

text \<open>\<open>Finalize\<close> up to the send of the control message.\<close>

definition dg_Finalize :: "dg_stream \<Rightarrow> dg_stream" where
  "dg_Finalize s =
     (if dgDone s then s
      else let s = stop_timer s
           in s\<lparr>dgCur := Some (dgFresh s), dgTicking := dgTicking s @ [dgFresh s], dgFresh := Suc (dgFresh s),
                dgCall := CallFinalize, dgAwait := True\<rparr>)"

text \<open>\<open>Close\<close> up to the send of \<open>CloseStream\<close>; a second call only waits.\<close>

definition dg_Close :: "dg_stream \<Rightarrow> dg_stream" where
  "dg_Close s = (if dgClosed s then s else (stop_timer s)\<lparr>dgClosed := True, dgCall := CallClose\<rparr>)"

text \<open>\<open>finalizeTimedOut\<close>, under the mutex.\<close>

definition finalizeTimedOut :: "nat \<Rightarrow> dg_stream \<Rightarrow> dg_stream" where
  "finalizeTimedOut t s = s\<lparr>dgExpired := remove1 t (dgExpired s), dgCur := None, dgEmitting := Suc (dgEmitting s)\<rparr>"

fun answers :: "ASREvent \<Rightarrow> bool" where
  "answers (ASRFinal _) = True"
| "answers ASREndOfTurn = True"
| "answers _ = False"

text \<open>A send on \<open>events\<close>: it panics once the channel is closed.\<close>

definition dg_emit :: "timed_event \<Rightarrow> dg_stream \<Rightarrow> dg_stream" where
  "dg_emit e s =
     (if dgEventsClosed s then s\<lparr>dgPanic := True\<rparr>
      else s\<lparr>dgOut := dgOut s @ [e], dgAwait := (dgAwait s \<and> \<not> answers (fst e))\<rparr>)"

definition dg_exit :: "dg_stream \<Rightarrow> dg_stream" where
  "dg_exit s = s\<lparr>dgReader := ReadExit, dgDone := True, dgEventsClosed := True\<rparr>"

definition dg_message :: "(f64 \<Rightarrow> int) \<Rightarrow> dgMessage \<Rightarrow> dg_stream \<Rightarrow> dg_stream" where
  "dg_message oor m s =
     (if dg_satisfies m then stop_timer s else s)
       \<lparr>dgReader := (if dg_handle oor m = [] then ReadNext else ReadEmit (dg_handle oor m))\<rparr>"

text \<open>A failed read: cancelled, closed, or an error that is reported first.\<close>

definition dg_read_error :: "bool \<Rightarrow> string \<Rightarrow> dg_stream \<Rightarrow> dg_stream" where
  "dg_read_error normal e s =
     (if dgDone s \<or> dgClosed s \<or> normal then dg_exit s
      else s\<lparr>dgReader := ReadFail (untimed (ASRError (Error_Error (transientf ''deepgram'' e))))\<rparr>)"

inductive dstep :: "(f64 \<Rightarrow> int) \<Rightarrow> nat \<Rightarrow> dgMessage set \<Rightarrow> dg_stream \<Rightarrow> dg_stream \<Rightarrow> bool" for oor cap M where
  d_cancel: "\<not> dgPanic s \<Longrightarrow> dstep oor cap M s (s\<lparr>dgDone := True\<rparr>)"
| d_push: "\<not> dgPanic s \<Longrightarrow> dgCall s = CallNone \<Longrightarrow> dstep oor cap M s (snd (dg_PushAudio cap pcm s))"
| d_finalize: "\<not> dgPanic s \<Longrightarrow> dgCall s = CallNone \<Longrightarrow> dstep oor cap M s (dg_Finalize s)"
| d_ctl: "\<not> dgPanic s \<Longrightarrow> dgCall s = CallFinalize \<Longrightarrow> length (dgCtl s) < 4 \<Longrightarrow>
    dstep oor cap M s (s\<lparr>dgCtl := dgCtl s @ [CtlFinalize], dgCall := CallNone\<rparr>)"
| d_ctl_done: "\<not> dgPanic s \<Longrightarrow> dgCall s = CallFinalize \<Longrightarrow> dgDone s \<Longrightarrow> dstep oor cap M s (s\<lparr>dgCall := CallNone\<rparr>)"
| d_close: "\<not> dgPanic s \<Longrightarrow> dgCall s = CallNone \<Longrightarrow> dstep oor cap M s (dg_Close s)"
| d_close_ctl: "\<not> dgPanic s \<Longrightarrow> dgCall s = CallClose \<Longrightarrow> length (dgCtl s) < 4 \<Longrightarrow>
    dstep oor cap M s (s\<lparr>dgCtl := dgCtl s @ [CtlCloseStream], dgCall := CallCloseWait\<rparr>)"
| d_close_exit: "\<not> dgPanic s \<Longrightarrow> dgCall s = CallClose \<Longrightarrow> dgReader s = ReadExit \<Longrightarrow>
    dstep oor cap M s (s\<lparr>dgDone := True, dgCall := CallClosed\<rparr>)"
| d_close_end: "\<not> dgPanic s \<Longrightarrow> dgCall s = CallCloseWait \<Longrightarrow> dstep oor cap M s (s\<lparr>dgDone := True, dgCall := CallClosed\<rparr>)"
| d_expire: "\<not> dgPanic s \<Longrightarrow> t \<in> set (dgTicking s) \<Longrightarrow>
    dstep oor cap M s (s\<lparr>dgTicking := filter (\<lambda>u. u \<noteq> t) (dgTicking s), dgExpired := dgExpired s @ [t]\<rparr>)"
| d_timeout: "\<not> dgPanic s \<Longrightarrow> t \<in> set (dgExpired s) \<Longrightarrow> dstep oor cap M s (finalizeTimedOut t s)"
| d_fire: "\<not> dgPanic s \<Longrightarrow> dgEmitting s = Suc n \<Longrightarrow>
    dstep oor cap M s ((dg_emit (untimed ASREndOfTurn) s)\<lparr>dgEmitting := n\<rparr>)"
| d_fire_done: "\<not> dgPanic s \<Longrightarrow> dgEmitting s = Suc n \<Longrightarrow> dgDone s \<Longrightarrow> dstep oor cap M s (s\<lparr>dgEmitting := n\<rparr>)"
| d_read: "\<not> dgPanic s \<Longrightarrow> dgReader s = ReadNext \<Longrightarrow> m \<in> M \<Longrightarrow> dstep oor cap M s (dg_message oor m s)"
| d_read_error: "\<not> dgPanic s \<Longrightarrow> dgReader s = ReadNext \<Longrightarrow> dstep oor cap M s (dg_read_error normal e s)"
| d_emit: "\<not> dgPanic s \<Longrightarrow> dgReader s = ReadEmit (e # es) \<Longrightarrow>
    dstep oor cap M s ((dg_emit e s)\<lparr>dgReader := (if es = [] then ReadNext else ReadEmit es)\<rparr>)"
| d_emit_done: "\<not> dgPanic s \<Longrightarrow> dgReader s = ReadEmit es \<Longrightarrow> dgDone s \<Longrightarrow> dstep oor cap M s (dg_exit s)"
| d_fail: "\<not> dgPanic s \<Longrightarrow> dgReader s = ReadFail e \<Longrightarrow> dstep oor cap M s (dg_exit (dg_emit e s))"
| d_fail_done: "\<not> dgPanic s \<Longrightarrow> dgReader s = ReadFail e \<Longrightarrow> dgDone s \<Longrightarrow> dstep oor cap M s (dg_exit s)"
| d_audio: "\<not> dgPanic s \<Longrightarrow> dgWriter s \<Longrightarrow> dgIn s = p # ps \<Longrightarrow>
    dstep oor cap M s (s\<lparr>dgIn := ps, dgIdle := False, dgWire := dgWire s @ [WireAudio p]\<rparr>)"
| d_audio_lost: "\<not> dgPanic s \<Longrightarrow> dgWriter s \<Longrightarrow> dgIn s = p # ps \<Longrightarrow>
    dstep oor cap M s (s\<lparr>dgIn := ps, dgWriter := False, dgDone := True\<rparr>)"
| d_control: "\<not> dgPanic s \<Longrightarrow> dgWriter s \<Longrightarrow> dgCtl s = c # cs \<Longrightarrow>
    dstep oor cap M s (s\<lparr>dgCtl := cs, dgWire := dgWire s @ [WireCtl c], dgWriter := (c \<noteq> CtlCloseStream),
      dgDone := (dgDone s \<or> c = CtlCloseStream)\<rparr>)"
| d_keepalive: "\<not> dgPanic s \<Longrightarrow> dgWriter s \<Longrightarrow>
    dstep oor cap M s (s\<lparr>dgWire := (if dgIdle s then dgWire s @ [WireKeepAlive] else dgWire s), dgIdle := True\<rparr>)"
| d_write_error: "\<not> dgPanic s \<Longrightarrow> dgWriter s \<Longrightarrow> dstep oor cap M s (s\<lparr>dgWriter := False, dgDone := True\<rparr>)"

inductive_cases dstep_cases: "dstep oor cap M s t"

abbreviation dsteps :: "(f64 \<Rightarrow> int) \<Rightarrow> nat \<Rightarrow> dgMessage set \<Rightarrow> dg_stream \<Rightarrow> dg_stream \<Rightarrow> bool" where
  "dsteps oor cap M \<equiv> (dstep oor cap M)\<^sup>*\<^sup>*"

section \<open>Audio goes out in order\<close>

fun wire_audio :: "dg_wire \<Rightarrow> pcm list" where
  "wire_audio (WireAudio p) = [p]"
| "wire_audio _ = []"

lemma dg_audio_order:
  "dsteps oor cap M dg_open s \<Longrightarrow>
     (\<exists>lost. dgPushed s = concat (map wire_audio (dgWire s)) @ lost @ dgIn s \<and> (dgWriter s \<longrightarrow> lost = []))"
proof (induction rule: rtranclp_induct)
  case (step s t)
  from step.hyps(2) step.IH show ?case
    by (induction rule: dstep.induct)
       (auto simp: dg_PushAudio_def dg_Finalize_def dg_Close_def stop_timer_def finalizeTimedOut_def dg_emit_def dg_exit_def
          dg_message_def dg_read_error_def Let_def split: option.splits)
qed (simp add: dg_open_def)

section \<open>Every finalization is answered\<close>

text \<open>What Deepgram documents: the result that answers a Finalize is final.\<close>

definition dg_honest :: "dgMessage set \<Rightarrow> bool" where
  "dg_honest M \<longleftrightarrow> (\<forall>m \<in> M. dmFromFinalize m \<longrightarrow> dmIsFinal m)"

definition answer_due :: "dg_stream \<Rightarrow> bool" where
  "answer_due s \<longleftrightarrow> dgTicking s \<noteq> [] \<or> dgExpired s \<noteq> [] \<or> dgEmitting s > 0 \<or>
     (\<exists>es. dgReader s = ReadEmit es \<and> list_ex (answers \<circ> fst) es)"

definition dg_inv :: "dg_stream \<Rightarrow> bool" where
  "dg_inv s \<longleftrightarrow> (dgAwait s \<and> \<not> dgDone s \<and> \<not> dgClosed s \<longrightarrow> answer_due s)
     \<and> (dgEventsClosed s \<longrightarrow> dgDone s) \<and> dgReader s \<noteq> ReadEmit []"

lemma satisfied_answers:
  "dg_honest M \<Longrightarrow> m \<in> M \<Longrightarrow> dg_satisfies m \<Longrightarrow> list_ex (answers \<circ> fst) (dg_handle oor m)"
  by (auto simp: dg_honest_def dg_satisfies_def dg_handle_def untimed_def Let_def)

lemma dstep_inv:
  assumes "dstep oor cap M s t" "dg_honest M" "dg_inv s"
  shows "dg_inv t"
  using assms
proof (induction rule: dstep.induct)
  case (d_read s m)
  show ?case
  proof (cases "dg_satisfies m")
    case True
    with satisfied_answers [OF d_read.prems(1) d_read.hyps(3) True, of oor] d_read show ?thesis
      by (auto simp: dg_inv_def answer_due_def dg_message_def stop_timer_def split: option.splits)
  next
    case False
    with d_read show ?thesis by (auto simp: dg_inv_def answer_due_def dg_message_def)
  qed
next
  case (d_expire s t)
  then show ?case by (auto simp: dg_inv_def answer_due_def)
qed (auto simp: dg_inv_def answer_due_def dg_PushAudio_def dg_Finalize_def dg_Close_def stop_timer_def finalizeTimedOut_def
      dg_emit_def dg_exit_def dg_read_error_def untimed_def Let_def split: option.splits if_splits)

lemma dg_reach_inv: "dsteps oor cap M dg_open s \<Longrightarrow> dg_honest M \<Longrightarrow> dg_inv s"
proof (induction rule: rtranclp_induct)
  case base
  then show ?case by (simp add: dg_inv_def dg_open_def)
next
  case (step s t)
  then show ?case using dstep_inv by blast
qed

definition dg_answered :: "dg_stream \<Rightarrow> dg_stream \<Rightarrow> bool" where
  "dg_answered s t \<longleftrightarrow> \<not> dgPanic t \<and> \<not> dgAwait t \<and> (\<exists>new. dgOut t = dgOut s @ new \<and> list_ex (answers \<circ> fst) new)"

lemma emitting_answers:
  assumes "\<not> dgPanic s" "\<not> dgEventsClosed s" "0 < dgEmitting s"
  shows "\<exists>t. dsteps oor cap M s t \<and> dg_answered s t"
proof -
  from assms(3) obtain n where "dgEmitting s = Suc n" using gr0_implies_Suc by blast
  from d_fire [OF assms(1) this] have "dsteps oor cap M s ((dg_emit (untimed ASREndOfTurn) s)\<lparr>dgEmitting := n\<rparr>)" by blast
  moreover have "dg_answered s ((dg_emit (untimed ASREndOfTurn) s)\<lparr>dgEmitting := n\<rparr>)"
    using assms by (simp add: dg_answered_def dg_emit_def untimed_def)
  ultimately show ?thesis by blast
qed

lemma expired_answers:
  assumes "\<not> dgPanic s" "\<not> dgEventsClosed s" "dgExpired s \<noteq> []"
  shows "\<exists>t. dsteps oor cap M s t \<and> dg_answered s t"
proof -
  let ?s = "finalizeTimedOut (hd (dgExpired s)) s"
  have "dstep oor cap M s ?s" using assms by (intro d_timeout) auto
  moreover have "\<exists>t. dsteps oor cap M ?s t \<and> dg_answered ?s t"
    using assms by (intro emitting_answers) (simp_all add: finalizeTimedOut_def)
  moreover have "dg_answered ?s = dg_answered s" by (simp add: dg_answered_def finalizeTimedOut_def fun_eq_iff)
  ultimately show ?thesis by (metis converse_rtranclp_into_rtranclp)
qed

lemma ticking_answers:
  assumes "\<not> dgPanic s" "\<not> dgEventsClosed s" "dgTicking s \<noteq> []"
  shows "\<exists>t. dsteps oor cap M s t \<and> dg_answered s t"
proof -
  let ?t = "hd (dgTicking s)"
  let ?s = "s\<lparr>dgTicking := filter (\<lambda>u. u \<noteq> ?t) (dgTicking s), dgExpired := dgExpired s @ [?t]\<rparr>"
  have "dstep oor cap M s ?s" using assms by (intro d_expire) auto
  moreover have "\<exists>t. dsteps oor cap M ?s t \<and> dg_answered ?s t" using assms by (intro expired_answers) simp_all
  moreover have "dg_answered ?s = dg_answered s" by (simp add: dg_answered_def fun_eq_iff)
  ultimately show ?thesis by (metis converse_rtranclp_into_rtranclp)
qed

lemma reader_answers:
  assumes "\<not> dgPanic s" "\<not> dgEventsClosed s" "dgReader s = ReadEmit es" "list_ex (answers \<circ> fst) es"
  shows "\<exists>t. dsteps oor cap M s t \<and> dg_answered s t"
  using assms
proof (induction es arbitrary: s)
  case (Cons e es)
  let ?s = "(dg_emit e s)\<lparr>dgReader := (if es = [] then ReadNext else ReadEmit es)\<rparr>"
  have step: "dstep oor cap M s ?s" using Cons.prems by (intro d_emit)
  show ?case
  proof (cases "answers (fst e)")
    case True
    then have "dg_answered s ?s" using Cons.prems by (simp add: dg_answered_def dg_emit_def)
    with step show ?thesis by blast
  next
    case False
    with Cons.prems have "list_ex (answers \<circ> fst) es" by (simp add: comp_def)
    then have "\<exists>t. dsteps oor cap M ?s t \<and> dg_answered ?s t"
      using Cons.prems by (intro Cons.IH) (auto simp: dg_emit_def comp_def)
    moreover have "dg_answered ?s t \<Longrightarrow> dg_answered s t" for t
      using Cons.prems by (auto simp: dg_answered_def dg_emit_def)
    ultimately show ?thesis using step by (meson converse_rtranclp_into_rtranclp)
  qed
qed simp

lemma due_is_answered:
  "\<not> dgPanic s \<Longrightarrow> \<not> dgEventsClosed s \<Longrightarrow> answer_due s \<Longrightarrow> \<exists>t. dsteps oor cap M s t \<and> dg_answered s t"
  unfolding answer_due_def using ticking_answers expired_answers emitting_answers reader_answers by blast

section \<open>Properties\<close>



text \<open>The audio written to the socket is the audio that was pushed, in order and with nothing left out
  while the writer runs, but a Finalize can overtake it: although a frame was pushed before the utterance was finalized, the socket can
  carry the Finalize first, and the frame then counts towards the next utterance.\<close>

theorem finalize_overtakes_audio:
  "(\<forall>s. dsteps oor cap M dg_open s \<longrightarrow>
      (\<exists>lost. dgPushed s = concat (map wire_audio (dgWire s)) @ lost @ dgIn s \<and> (dgWriter s \<longrightarrow> lost = [])))
   \<and> dsteps oor 500 {} dg_open
       (dg_open\<lparr>dgCur := Some 0, dgTicking := [0], dgFresh := 1, dgAwait := True, dgPushed := [p], dgIdle := False,
          dgWire := [WireCtl CtlFinalize, WireAudio p]\<rparr>)"
proof (intro conjI allI impI)
  define d1 where "d1 = snd (dg_PushAudio 500 p dg_open)"
  define d2 where "d2 = dg_Finalize d1"
  define d3 where "d3 = d2\<lparr>dgCtl := dgCtl d2 @ [CtlFinalize], dgCall := CallNone\<rparr>"
  define d4 where "d4 = d3\<lparr>dgCtl := [], dgWire := dgWire d3 @ [WireCtl CtlFinalize], dgWriter := (CtlFinalize \<noteq> CtlCloseStream),
      dgDone := (dgDone d3 \<or> CtlFinalize = CtlCloseStream)\<rparr>"
  define d5 where "d5 = d4\<lparr>dgIn := [], dgIdle := False, dgWire := dgWire d4 @ [WireAudio p]\<rparr>"
  note defs = d1_def d2_def d3_def d4_def d5_def dg_PushAudio_def dg_Finalize_def stop_timer_def dg_open_def
  have "dsteps oor 500 {} dg_open d1" unfolding d1_def by (rule r_into_rtranclp, rule d_push) (simp_all add: dg_open_def)
  also have "dsteps oor 500 {} d1 d2" unfolding d2_def by (rule r_into_rtranclp, rule d_finalize) (simp_all add: defs)
  also have "dsteps oor 500 {} d2 d3" unfolding d3_def by (rule r_into_rtranclp, rule d_ctl) (simp_all add: defs)
  also have "dsteps oor 500 {} d3 d4" unfolding d4_def by (rule r_into_rtranclp, rule d_control) (simp_all add: defs)
  also have "dsteps oor 500 {} d4 d5" unfolding d5_def by (rule r_into_rtranclp, rule d_audio) (simp_all add: defs)
  finally show "dsteps oor 500 {} dg_open
       (dg_open\<lparr>dgCur := Some 0, dgTicking := [0], dgFresh := 1, dgAwait := True, dgPushed := [p], dgIdle := False,
          dgWire := [WireCtl CtlFinalize, WireAudio p]\<rparr>)"
    by (simp add: defs)
qed (rule dg_audio_order)

theorem finalize_overtakes_audio_witness:
  "\<exists>lost. dgPushed (snd (dg_PushAudio 500 [1, 2] dg_open)) = lost @ [[1, 2]]"
proof -
  have "dsteps (\<lambda>_. 0) 500 {} dg_open (snd (dg_PushAudio 500 [1, 2] dg_open))"
    by (rule r_into_rtranclp, rule d_push) (simp_all add: dg_open_def)
  with finalize_overtakes_audio [of "\<lambda>_. 0" 500 "{}" "[1, 2]"] show ?thesis
    by (force simp: dg_PushAudio_def dg_open_def)
qed

text \<open>\<^bold>\<open>C38\<close>: the reader leaves the finalize timer running when the service closes the connection; the timer's
  goroutine then sends on the events channel the reader has closed, and the process panics.\<close>

theorem finalize_timer_panics:
  "\<exists>s. dsteps oor cap {} dg_open s \<and> dgPanic s"
proof -
  define d1 where "d1 = dg_Finalize dg_open"
  define d2 where "d2 = dg_read_error True ''closed'' d1"
  define d3 where "d3 = d2\<lparr>dgTicking := filter (\<lambda>u. u \<noteq> 0) (dgTicking d2), dgExpired := dgExpired d2 @ [0]\<rparr>"
  define d4 where "d4 = finalizeTimedOut 0 d3"
  define d5 where "d5 = (dg_emit (untimed ASREndOfTurn) d4)\<lparr>dgEmitting := 0\<rparr>"
  note defs = d1_def d2_def d3_def d4_def d5_def dg_Finalize_def stop_timer_def dg_open_def dg_read_error_def dg_exit_def
    finalizeTimedOut_def dg_emit_def
  have "dsteps oor cap {} dg_open d1" unfolding d1_def by (rule r_into_rtranclp, rule d_finalize) (simp_all add: dg_open_def)
  also have "dsteps oor cap {} d1 d2" unfolding d2_def by (rule r_into_rtranclp, rule d_read_error) (simp_all add: defs)
  also have "dsteps oor cap {} d2 d3" unfolding d3_def by (rule r_into_rtranclp, rule d_expire) (simp_all add: defs)
  also have "dsteps oor cap {} d3 d4" unfolding d4_def by (rule r_into_rtranclp, rule d_timeout) (simp_all add: defs)
  also have "dsteps oor cap {} d4 d5" unfolding d5_def by (rule r_into_rtranclp, rule d_fire) (simp_all add: defs)
  finally show ?thesis by (intro exI [of _ d5]) (simp add: defs)
qed

end
