(* ===== verification/QwenTts.thy ===== *)
theory QwenTts
  imports ProviderCommon
begin

text \<open>
  \<^verbatim>\<open>internal/provider/qwen/tts.go\<close>: one synthesis task per stream on a WebSocket. The client (the response
  pipeline), the socket writer and the socket reader are the goroutines of a machine whose steps go from
  one blocking point to the next. What was accepted and received is logged.
\<close>

section \<open>The request\<close>

definition ttsParameters :: "(f64 \<Rightarrow> string) \<Rightarrow> string \<Rightarrow> TTSConfig \<Rightarrow> json" where
  "ttsParameters fmt voice cfg =
     JObj ([(''text_type'', JStr ''PlainText''), (''format'', JStr ''pcm''),
            (''sample_rate'', JNum (int_str (if tcSampleRate cfg = 0 then SampleRate else tcSampleRate cfg))),
            (''voice'', JStr (firstNonEmpty (tcVoice cfg) voice))] @
       omit ''rate'' (if tcSpeed cfg \<noteq> 0 \<and> tcSpeed cfg \<noteq> 1 then Some (JNum (fmt (tcSpeed cfg))) else None))"

definition tts_run_frame :: "(f64 \<Rightarrow> string) \<Rightarrow> string \<Rightarrow> string \<Rightarrow> TTSConfig \<Rightarrow> string \<Rightarrow> json" where
  "tts_run_frame fmt model voice cfg task =
     runFrame task ''tts'' ''SpeechSynthesizer'' (firstNonEmpty model ''qwen-audio-3.1-tts-flash'')
       (ttsParameters fmt (firstNonEmpty voice ''longanlingxi_v3.1'') cfg)"

section \<open>The stream\<close>

datatype tframe = TRun | TContinue string | TNudge | TFinish

text \<open>A frame of the service: audio, or a lifecycle event.\<close>

datatype tts_frame = TAudioFrame pcm | TStartedFrame | TFinishedFrame | TFailedFrame inHeader | TOtherFrame

definition tts_frame_of :: "json \<Rightarrow> tts_frame" where
  "tts_frame_of j =
     (case lax_struct [(''header'', lax_struct inHeader_fields)] j zero_header of
        None \<Rightarrow> TOtherFrame
      | Some h \<Rightarrow>
          if ihEvent h = ''task-started'' then TStartedFrame
          else if ihEvent h = ''task-finished'' then TFinishedFrame
          else if ihEvent h = ''task-failed'' then TFailedFrame h
          else TOtherFrame)"

datatype twriter = TWRun | TWWait | TWText | TWNudge | TWExit
datatype treader = TRNext | TRSend pcm | TRExit

record qtts =
  tWriter :: twriter
  tReader :: treader
  tStarted :: bool
  tText :: "string list"
  tEnded :: bool
  tCtxDone :: bool
  tWire :: "tframe list"
  tChunks :: "pcm list"
  tErrc :: "perr option option"
  tDone :: bool
  tFinal :: "perr option"
  tAccepted :: "string list"
  tReceived :: "pcm list"
  tDelivered :: "pcm list"

definition tts_open :: qtts where
  "tts_open = \<lparr>tWriter = TWRun, tReader = TRNext, tStarted = False, tText = [], tEnded = False, tCtxDone = False, tWire = [],
     tChunks = [], tErrc = None, tDone = False, tFinal = None, tAccepted = [], tReceived = [], tDelivered = []\<rparr>"

definition ttsTextQueue :: nat where "ttsTextQueue = 32"
definition ttsAudioQueue :: nat where "ttsAudioQueue = 64"

text \<open>\<open>WriteText\<close>: \<^term>\<open>None\<close> while it blocks, otherwise whether the text was accepted.\<close>

definition t_WriteText :: "string \<Rightarrow> qtts \<Rightarrow> (bool \<times> qtts) option" where
  "t_WriteText t s =
     (if tEnded s \<or> tCtxDone s then Some (False, s)
      else if length (tText s) < ttsTextQueue then Some (True, s\<lparr>tText := tText s @ [t], tAccepted := tAccepted s @ [t]\<rparr>)
      else if tWriter s = TWExit then Some (False, s)
      else None)"

definition t_EndInput :: "qtts \<Rightarrow> qtts" where
  "t_EndInput s = s\<lparr>tEnded := True\<rparr>"

text \<open>\<open>ReadAudio\<close>: when the context is done it waits for the reader, and then finds the channel closed or
  a chunk in it; so both branches of its \<open>select\<close> come to the same.\<close>

definition t_ReadAudio :: "qtts \<Rightarrow> (read_result \<times> qtts) option" where
  "t_ReadAudio s =
     (if tDone s then Some (case tFinal s of None \<Rightarrow> ReadEOF | Some e \<Rightarrow> ReadErr e, s)
      else case tChunks s of
        c # cs \<Rightarrow> Some (ReadAudio \<lparr>chPCM = c, chAlignment = []\<rparr>, s\<lparr>tChunks := cs, tDelivered := tDelivered s @ [c]\<rparr>)
      | [] \<Rightarrow> if tReader s \<noteq> TRExit then None
              else map_option (\<lambda>err. (case err of None \<Rightarrow> ReadEOF | Some e \<Rightarrow> ReadErr e,
                     s\<lparr>tErrc := None, tDone := True, tFinal := err\<rparr>)) (tErrc s))"

definition t_take :: "bool \<Rightarrow> qtts \<Rightarrow> qtts" where
  "t_take nudge s =
     (case tText s of
        [] \<Rightarrow> s
      | t # ts \<Rightarrow> if t = [] then s\<lparr>tText := ts\<rparr>
                  else s\<lparr>tText := ts, tWire := tWire s @ [TContinue t], tWriter := (if nudge then TWNudge else TWText)\<rparr>)"

definition t_nudge :: "qtts \<Rightarrow> qtts" where
  "t_nudge s = s\<lparr>tWire := (if tText s = [] then tWire s @ [TNudge] else tWire s), tWriter := TWText\<rparr>"

definition t_exit :: "perr option \<Rightarrow> qtts \<Rightarrow> qtts" where
  "t_exit res s = s\<lparr>tReader := TRExit, tErrc := Some res, tCtxDone := True\<rparr>"

definition t_frame :: "tts_frame \<Rightarrow> qtts \<Rightarrow> qtts" where
  "t_frame f s =
     (case f of
        TAudioFrame p \<Rightarrow> s\<lparr>tReader := TRSend p, tReceived := tReceived s @ [p]\<rparr>
      | TStartedFrame \<Rightarrow> s\<lparr>tStarted := True\<rparr>
      | TFinishedFrame \<Rightarrow> t_exit None s
      | TFailedFrame h \<Rightarrow> t_exit (Some (failed_with (taskFailed h))) s
      | TOtherFrame \<Rightarrow> s)"

definition t_read_error :: "string \<Rightarrow> qtts \<Rightarrow> qtts" where
  "t_read_error e s =
     t_exit (Some (if tCtxDone s then Canceled
                   else failed_with (transientf ''qwen'' (''connection closed before task-finished: '' @ e)))) s"

inductive tstep :: "bool \<Rightarrow> qtts \<Rightarrow> qtts \<Rightarrow> bool" for nudge where
  t_cancel: "tstep nudge s (s\<lparr>tCtxDone := True\<rparr>)"
| t_write: "t_WriteText t s = Some (ok, s') \<Longrightarrow> tstep nudge s s'"
| t_end: "tstep nudge s (t_EndInput s)"
| t_audio: "t_ReadAudio s = Some (res, s') \<Longrightarrow> tstep nudge s s'"
| tw_run: "tWriter s = TWRun \<Longrightarrow> tstep nudge s (s\<lparr>tWire := tWire s @ [TRun], tWriter := TWWait\<rparr>)"
| tw_started: "tWriter s = TWWait \<Longrightarrow> tStarted s \<Longrightarrow> tstep nudge s (s\<lparr>tWriter := TWText\<rparr>)"
| tw_text: "tWriter s = TWText \<Longrightarrow> tText s \<noteq> [] \<Longrightarrow> tstep nudge s (t_take nudge s)"
| tw_nudge: "tWriter s = TWNudge \<Longrightarrow> tstep nudge s (t_nudge s)"
| tw_finish: "tWriter s = TWText \<Longrightarrow> tText s = [] \<Longrightarrow> tEnded s \<Longrightarrow>
    tstep nudge s (s\<lparr>tWire := tWire s @ [TFinish], tWriter := TWExit\<rparr>)"
| tw_fail: "tWriter s \<noteq> TWExit \<Longrightarrow> tstep nudge s (s\<lparr>tWriter := TWExit, tCtxDone := True\<rparr>)"
| tw_text_lost: "tWriter s = TWText \<Longrightarrow> tText s = t # ts \<Longrightarrow> tstep nudge s (s\<lparr>tText := ts, tWriter := TWExit, tCtxDone := True\<rparr>)"
| tr_frame: "tReader s = TRNext \<Longrightarrow> tstep nudge s (t_frame f s)"
| tr_send: "tReader s = TRSend p \<Longrightarrow> length (tChunks s) < ttsAudioQueue \<Longrightarrow>
    tstep nudge s (s\<lparr>tChunks := tChunks s @ [p], tReader := TRNext\<rparr>)"
| tr_send_done: "tReader s = TRSend p \<Longrightarrow> tCtxDone s \<Longrightarrow> tstep nudge s (t_exit (Some Canceled) s)"
| tr_error: "tReader s = TRNext \<Longrightarrow> tstep nudge s (t_read_error e s)"

abbreviation tsteps :: "bool \<Rightarrow> qtts \<Rightarrow> qtts \<Rightarrow> bool" where
  "tsteps nudge \<equiv> (tstep nudge)\<^sup>*\<^sup>*"

lemmas tstep_defs = t_WriteText_def t_EndInput_def t_ReadAudio_def t_take_def t_nudge_def t_exit_def t_frame_def t_read_error_def

section \<open>What goes out\<close>

fun spoken_text :: "tframe \<Rightarrow> string list" where
  "spoken_text (TContinue t) = [t]"
| "spoken_text _ = []"

definition wire_texts :: "tframe list \<Rightarrow> string list" where
  "wire_texts w = concat (map spoken_text w)"

lemma wire_texts_simps [simp]: "wire_texts [] = []" "wire_texts (w @ [f]) = wire_texts w @ spoken_text f"
  by (simp_all add: wire_texts_def)

definition proper :: "string list \<Rightarrow> string list" where
  "proper ts = filter (\<lambda>t. t \<noteq> []) ts"

lemma proper_simps [simp]: "proper [] = []" "proper (xs @ ys) = proper xs @ proper ys"
  "proper (x # xs) = (if x = [] then proper xs else x # proper xs)"
  by (simp_all add: proper_def)

text \<open>The frames of one task: the run first and only once, a finish last.\<close>

definition wire_shape :: "tframe list \<Rightarrow> bool" where
  "wire_shape w \<longleftrightarrow> w = [] \<or> hd w = TRun \<and> TRun \<notin> set (tl w) \<and> TFinish \<notin> set (butlast w)"

lemma wire_shape_Nil [simp]: "wire_shape []"
  by (simp add: wire_shape_def)

lemma wire_shape_snoc:
  "wire_shape (w @ [f]) \<longleftrightarrow> (if w = [] then f = TRun else wire_shape w \<and> f \<noteq> TRun \<and> TFinish \<notin> set w)"
proof (cases "w = []")
  case False
  then have "butlast (w @ [f]) = w" "hd (w @ [f]) = hd w" "tl (w @ [f]) = tl w @ [f]" by (simp_all add: butlast_append)
  moreover have "TFinish \<notin> set w \<Longrightarrow> TFinish \<notin> set (butlast w)" by (meson in_set_butlastD)
  ultimately show ?thesis using False by (auto simp: wire_shape_def)
qed (simp add: wire_shape_def)

definition shape_inv :: "qtts \<Rightarrow> bool" where
  "shape_inv s \<longleftrightarrow> wire_shape (tWire s) \<and>
     (case tWriter s of
        TWRun \<Rightarrow> tWire s = []
      | TWWait \<Rightarrow> tWire s = [TRun]
      | TWExit \<Rightarrow> (TFinish \<in> set (tWire s) \<longrightarrow> tEnded s \<and> tText s = []) \<and> (length (tWire s) > 1 \<longrightarrow> tStarted s)
      | _ \<Rightarrow> tStarted s \<and> tWire s \<noteq> [] \<and> TFinish \<notin> set (tWire s))"

definition texts_inv :: "qtts \<Rightarrow> bool" where
  "texts_inv s \<longleftrightarrow> (\<exists>lost. proper (tAccepted s) = wire_texts (tWire s) @ lost @ proper (tText s)
     \<and> (tWriter s \<noteq> TWExit \<or> TFinish \<in> set (tWire s) \<longrightarrow> lost = []))"

lemma ReadAudio_frame:
  assumes "t_ReadAudio s = Some (res, s')"
  shows "tWriter s' = tWriter s" "tWire s' = tWire s" "tStarted s' = tStarted s" "tEnded s' = tEnded s"
    "tAccepted s' = tAccepted s" "tText s' = tText s"
  using assms by (auto simp: t_ReadAudio_def split: if_splits list.splits)

lemma WriteText_cases:
  assumes "t_WriteText t s = Some (ok, s')"
  shows "s' = s \<or> (\<not> tEnded s \<and> s' = s\<lparr>tText := tText s @ [t], tAccepted := tAccepted s @ [t]\<rparr>)"
  using assms unfolding t_WriteText_def by (simp split: if_split_asm)

lemma shape_mono:
  assumes "shape_inv s" "tWriter t = tWriter s" "tWire t = tWire s" "tEnded t = tEnded s" "tText t = tText s" "tStarted s \<Longrightarrow> tStarted t"
  shows "shape_inv t"
  using assms(1,6) unfolding shape_inv_def assms(2-5) by (auto split: twriter.splits)

lemma tstep_shape: "tstep nudge s t \<Longrightarrow> shape_inv s \<Longrightarrow> shape_inv t"
proof (induction rule: tstep.induct)
  case (tw_text s)
  then show ?case by (cases "tText s") (auto simp: shape_inv_def t_take_def wire_shape_snoc)
next
  case (t_cancel s)
  then show ?case by (rule shape_mono) simp_all
next
  case (tr_send s p)
  then show ?case by (intro shape_mono [OF tr_send.prems]) simp_all
next
  case (tr_send_done s p)
  then show ?case by (intro shape_mono [OF tr_send_done.prems]) (simp_all add: t_exit_def)
next
  case (tr_error s e)
  then show ?case by (intro shape_mono [OF tr_error.prems]) (simp_all add: t_read_error_def t_exit_def)
next
  case (tw_fail s)
  then show ?case by (cases "tWriter s") (auto simp: shape_inv_def)
next
  case (t_end s)
  then show ?case by (cases "tWriter s") (auto simp: shape_inv_def t_EndInput_def)
next
  case (t_write t s ok s')
  from WriteText_cases [OF t_write.hyps] show ?case
  proof
    assume "\<not> tEnded s \<and> s' = s\<lparr>tText := tText s @ [t], tAccepted := tAccepted s @ [t]\<rparr>"
    with t_write.prems show ?thesis by (cases "tWriter s") (auto simp: shape_inv_def)
  qed (use t_write.prems in simp)
next
  case (t_audio s res s')
  show ?case using t_audio.prems unfolding shape_inv_def ReadAudio_frame [OF t_audio.hyps] .
next
  case (tr_frame s f)
  show ?case by (rule shape_mono [OF tr_frame.prems]) (cases f; simp add: t_frame_def t_exit_def)+
qed (auto simp: shape_inv_def t_nudge_def wire_shape_snoc wire_shape_snoc [of "[]", simplified])

lemma unfinished: "shape_inv s \<Longrightarrow> tWriter s \<noteq> TWExit \<Longrightarrow> TFinish \<notin> set (tWire s)"
  by (auto simp: shape_inv_def split: twriter.splits)

lemma tstep_text: "tstep nudge s t \<Longrightarrow> shape_inv s \<Longrightarrow> texts_inv s \<Longrightarrow> texts_inv t"
proof (induction rule: tstep.induct)
  case (tw_text s)
  then show ?case by (cases "tText s") (auto simp: texts_inv_def unfinished t_take_def)
next
  case (t_write t s ok s')
  from WriteText_cases [OF t_write.hyps] show ?case
  proof
    assume "\<not> tEnded s \<and> s' = s\<lparr>tText := tText s @ [t], tAccepted := tAccepted s @ [t]\<rparr>"
    with t_write.prems show ?thesis by (auto simp: texts_inv_def)
  qed (use t_write.prems in simp)
next
  case (t_audio s res s')
  show ?case using t_audio.prems(2) unfolding texts_inv_def ReadAudio_frame [OF t_audio.hyps] .
next
  case (tw_text_lost s t ts)
  then have "proper (tAccepted s) = wire_texts (tWire s) @ (if t = [] then [] else [t]) @ proper ts" "TFinish \<notin> set (tWire s)"
    by (auto simp: texts_inv_def unfinished)
  then show ?case by (simp only: texts_inv_def) (intro exI [of _ "if t = [] then [] else [t]"], simp)
next
  case (tr_frame s f)
  then show ?case by (cases f) (simp_all add: texts_inv_def t_frame_def t_exit_def)
qed (auto simp: texts_inv_def unfinished t_EndInput_def t_nudge_def t_read_error_def t_exit_def)

section \<open>What comes in\<close>

definition clean_end :: "qtts \<Rightarrow> bool" where
  "clean_end s \<longleftrightarrow> tErrc s = Some None \<or> tDone s \<and> tFinal s = None"

definition audio_path :: "qtts \<Rightarrow> bool" where
  "audio_path s \<longleftrightarrow> (\<exists>lost. tReceived s = tDelivered s @ tChunks s @ lost
        \<and> (tReader s = TRNext \<longrightarrow> lost = []) \<and> (\<forall>p. tReader s = TRSend p \<longrightarrow> lost = [p]) \<and> (clean_end s \<longrightarrow> lost = []))
     \<and> (tDone s \<longrightarrow> tReader s = TRExit \<and> tChunks s = []) \<and> (tReader s \<noteq> TRExit \<longrightarrow> tErrc s = None)"

lemma audio_path_cong:
  "audio_path s \<Longrightarrow> tReceived t = tReceived s \<Longrightarrow> tDelivered t = tDelivered s \<Longrightarrow> tChunks t = tChunks s \<Longrightarrow>
   tReader t = tReader s \<Longrightarrow> tErrc t = tErrc s \<Longrightarrow> tDone t = tDone s \<Longrightarrow> tFinal t = tFinal s \<Longrightarrow> audio_path t"
  by (simp add: audio_path_def clean_end_def)

lemma tstep_audio: "tstep nudge s t \<Longrightarrow> audio_path s \<Longrightarrow> audio_path t"
proof (induction rule: tstep.induct)
  case (t_audio s res s')
  then show ?case by (auto simp: audio_path_def clean_end_def t_ReadAudio_def split: if_splits list.splits)
next
  case (t_write t s ok s')
  from WriteText_cases [OF t_write.hyps] show ?case
  proof
    assume "\<not> tEnded s \<and> s' = s\<lparr>tText := tText s @ [t], tAccepted := tAccepted s @ [t]\<rparr>"
    with t_write.prems show ?thesis by (simp add: audio_path_cong)
  qed (use t_write.prems in simp)
next
  case (tw_text s)
  then show ?case by (auto intro!: audio_path_cong [of s] simp: t_take_def split: list.splits)
next
  case (tr_frame s f)
  then show ?case by (cases f) (auto simp: audio_path_def clean_end_def t_frame_def t_exit_def)
qed (auto simp: audio_path_def clean_end_def t_EndInput_def t_nudge_def t_exit_def t_read_error_def)

section \<open>Properties\<close>

lemma treach_wire: "tsteps nudge tts_open s \<Longrightarrow> shape_inv s \<and> texts_inv s"
proof (induction rule: rtranclp_induct)
  case base
  then show ?case by (simp add: shape_inv_def texts_inv_def tts_open_def)
next
  case (step s t)
  then show ?case using tstep_shape tstep_text by blast
qed

lemma treach_audio: "tsteps nudge tts_open s \<Longrightarrow> audio_path s"
proof (induction rule: rtranclp_induct)
  case base
  then show ?case by (simp add: audio_path_def clean_end_def tts_open_def)
next
  case (step s t)
  then show ?case using tstep_audio by blast
qed

text \<open>\<^bold>\<open>C21\<close>: a synthesis stream carries one task: \<open>run-task\<close> first, no text before the service has acknowledged it,
  every accepted text in order, and at most one \<open>finish-task\<close>, which is last, is sent only after the end of
  the input and then follows every accepted text. A stream whose \<open>ReadAudio\<close> has reported the clean end has
  delivered every byte of audio the service sent, in order.\<close>

theorem synthesis_complete:
  assumes "tsteps nudge tts_open s"
  shows "wire_shape (tWire s) \<and> (length (tWire s) > 1 \<longrightarrow> tStarted s)
    \<and> (\<exists>lost. proper (tAccepted s) = wire_texts (tWire s) @ lost @ proper (tText s))
    \<and> (TFinish \<in> set (tWire s) \<longrightarrow> tEnded s \<and> wire_texts (tWire s) = proper (tAccepted s))
    \<and> (tDone s \<and> tFinal s = None \<longrightarrow> tDelivered s = tReceived s)"
proof -
  have w: "shape_inv s" "texts_inv s" and a: "audio_path s" using treach_wire [OF assms] treach_audio [OF assms] by auto
  have "tEnded s \<and> wire_texts (tWire s) = proper (tAccepted s)" if "TFinish \<in> set (tWire s)"
    using w unfinished [OF w(1)] that by (cases "tWriter s = TWExit") (auto simp: shape_inv_def texts_inv_def)
  moreover have "tDelivered s = tReceived s" if "tDone s \<and> tFinal s = None"
    using a that by (auto simp: audio_path_def clean_end_def)
  moreover have "wire_shape (tWire s)" "length (tWire s) > 1 \<longrightarrow> tStarted s"
    using w(1) by (auto simp: shape_inv_def split: twriter.splits)
  ultimately show ?thesis using w(2) unfolding texts_inv_def by blast
qed

theorem synthesis_complete_witness:
  "\<exists>s. tsteps True tts_open s \<and> tWire s = [TRun] \<and> wire_shape (tWire s)"
proof -
  let ?s = "tts_open\<lparr>tWire := [TRun], tWriter := TWWait\<rparr>"
  have "tsteps True tts_open ?s"
    using tw_run [of tts_open True] by (intro r_into_rtranclp) (simp add: tts_open_def)
  with synthesis_complete [OF this] show ?thesis by (intro exI [of _ ?s] conjI) simp_all
qed

text \<open>A stalled service: the idle timer cancels the stream's own context, and the pipeline is told of a
  cancellation.\<close>

lemma idle_is_cancelled:
  "tReader s = TRNext \<Longrightarrow> tChunks s = [] \<Longrightarrow> \<not> tDone s \<Longrightarrow>
   map_option fst (t_ReadAudio (t_read_error e (s\<lparr>tCtxDone := True\<rparr>))) = Some (ReadErr Canceled)"
  by (simp add: t_ReadAudio_def t_read_error_def t_exit_def)

end
