(* ===== verification/Factories.thy ===== *)
theory Factories
  imports AdminUse StaticConfig MockLlm MockTts MockAsr OpenaiSpeech Deepgram QwenAsr QwenTts
begin

text \<open>
  The provider registry as the binary fills it: the \<open>init\<close> functions of \<^verbatim>\<open>internal/provider/{deepgram,mock,openai,qwen}\<close>,
  the factories they register, the options blocks these decode and the constructors with their defaults.
  \<open>feDur\<close> is \<open>time.ParseDuration\<close> and \<open>feJsonErr\<close> the text of a JSON error. The admin store is parametric in the
  registry; here it is given the real one, so that what it assumes of the factories is proved.
\<close>

section \<open>Option blocks\<close>

record factory_env =
  feDur :: "string \<Rightarrow> int option"
  feJsonErr :: "json \<Rightarrow> string"

record openai_llm_options = httpOptions +
  olModel :: string
  olReasoningEffort :: string

record openai_tts_options = httpOptions +
  otModel :: string

record qwen_tts_options =
  qtURL :: string
  qtConnectTimeout :: int
  qtIdleTimeout :: int
  qtModel :: string
  qtVoice :: string
  qtNoFlushNudge :: bool

definition qwen_tts_applyDefaults :: "qwen_tts_options \<Rightarrow> qwen_tts_options" where
  "qwen_tts_applyDefaults opts = opts
     \<lparr>qtURL := firstNonEmpty (qtURL opts) ''wss://dashscope.aliyuncs.com/api-ws/v1/inference'',
      qtConnectTimeout := or_zero (qtConnectTimeout opts) (seconds 10),
      qtIdleTimeout := or_zero (qtIdleTimeout opts) (seconds 30),
      qtModel := firstNonEmpty (qtModel opts) ''qwen-audio-3.1-tts-flash'',
      qtVoice := firstNonEmpty (qtVoice opts) ''longanlingxi_v3.1''\<rparr>"

definition openai_llm_fields :: "factory_env \<Rightarrow> openai_llm_options fields" where
  "openai_llm_fields fe =
     [(''base_url'', field_of into_string hoBaseURL hoBaseURL_update),
      (''request_timeout'', field_of (into_duration (feDur fe)) hoRequestTimeout hoRequestTimeout_update),
      (''stream_idle_timeout'', field_of (into_duration (feDur fe)) hoStreamIdleTimeout hoStreamIdleTimeout_update),
      (''model'', field_of into_string olModel olModel_update),
      (''reasoning_effort'', field_of into_string olReasoningEffort olReasoningEffort_update)]"

definition openai_tts_fields :: "factory_env \<Rightarrow> openai_tts_options fields" where
  "openai_tts_fields fe =
     [(''base_url'', field_of into_string hoBaseURL hoBaseURL_update),
      (''request_timeout'', field_of (into_duration (feDur fe)) hoRequestTimeout hoRequestTimeout_update),
      (''stream_idle_timeout'', field_of (into_duration (feDur fe)) hoStreamIdleTimeout hoStreamIdleTimeout_update),
      (''model'', field_of into_string otModel otModel_update)]"

definition qwen_llm_fields :: "factory_env \<Rightarrow> qwen_llm_options fields" where
  "qwen_llm_fields fe =
     [(''base_url'', field_of into_string hoBaseURL hoBaseURL_update),
      (''model'', field_of into_string qlModel qlModel_update),
      (''request_timeout'', field_of (into_duration (feDur fe)) hoRequestTimeout hoRequestTimeout_update),
      (''stream_idle_timeout'', field_of (into_duration (feDur fe)) hoStreamIdleTimeout hoStreamIdleTimeout_update)]"

definition qwen_asr_fields :: "factory_env \<Rightarrow> asr_options fields" where
  "qwen_asr_fields fe =
     [(''url'', field_of into_string aoURL aoURL_update),
      (''connect_timeout'', field_of (into_duration (feDur fe)) aoConnectTimeout aoConnectTimeout_update),
      (''idle_timeout'', field_of (into_duration (feDur fe)) aoIdleTimeout aoIdleTimeout_update),
      (''model'', field_of into_string aoModel aoModel_update),
      (''language'', field_of into_string aoLanguage aoLanguage_update),
      (''finalize_timeout'', field_of (into_duration (feDur fe)) aoFinalizeTimeout aoFinalizeTimeout_update),
      (''audio_queue_frames'', field_of into_int aoAudioQueueFrames aoAudioQueueFrames_update),
      (''keepalive_interval'', field_of (into_duration (feDur fe)) aoKeepAliveInterval aoKeepAliveInterval_update)]"

definition qwen_tts_fields :: "factory_env \<Rightarrow> qwen_tts_options fields" where
  "qwen_tts_fields fe =
     [(''url'', field_of into_string qtURL qtURL_update),
      (''connect_timeout'', field_of (into_duration (feDur fe)) qtConnectTimeout qtConnectTimeout_update),
      (''idle_timeout'', field_of (into_duration (feDur fe)) qtIdleTimeout qtIdleTimeout_update),
      (''model'', field_of into_string qtModel qtModel_update),
      (''voice'', field_of into_string qtVoice qtVoice_update),
      (''no_flush_nudge'', field_of into_bool qtNoFlushNudge qtNoFlushNudge_update)]"

definition deepgram_fields :: "factory_env \<Rightarrow> dg_options fields" where
  "deepgram_fields fe =
     [(''base_url'', field_of into_string doBaseURL doBaseURL_update),
      (''model'', field_of into_string doModel doModel_update),
      (''language'', field_of into_string doLanguage doLanguage_update),
      (''smart_format'', field_of into_bool doSmartFormat doSmartFormat_update),
      (''endpointing_ms'', field_of into_int doEndpointingMs doEndpointingMs_update),
      (''utterance_end_ms'', field_of into_int doUtteranceEndMs doUtteranceEndMs_update),
      (''connect_timeout'', field_of (into_duration (feDur fe)) doConnectTimeout doConnectTimeout_update),
      (''finalize_timeout'', field_of (into_duration (feDur fe)) doFinalizeTimeout doFinalizeTimeout_update),
      (''keepalive_interval'', field_of (into_duration (feDur fe)) doKeepAliveInterval doKeepAliveInterval_update),
      (''audio_queue_frames'', field_of into_int doAudioQueueFrames doAudioQueueFrames_update)]"

text \<open>The mocks have a duration type of their own.\<close>

definition mock_Duration :: "factory_env \<Rightarrow> json \<Rightarrow> int \<Rightarrow> int option" where
  "mock_Duration fe j _ = (case json_string j of None \<Rightarrow> None | Some s \<Rightarrow> feDur fe s)"

definition mock_asr_fields :: "factory_env \<Rightarrow> ASRScript fields" where
  "mock_asr_fields fe =
     [(''utterances'', field_of into_strings asUtterances asUtterances_update),
      (''partial_after_ms'', field_of into_int asPartialAfterMs asPartialAfterMs_update),
      (''final_after_ms'', field_of into_int asFinalAfterMs asFinalAfterMs_update),
      (''end_of_turn_after_final'', field_of into_bool asEndOfTurnAfterFinal asEndOfTurnAfterFinal_update),
      (''final_delay'', field_of (mock_Duration fe) asFinalDelay asFinalDelay_update)]"

definition mock_llm_fields :: "factory_env \<Rightarrow> LLMScript fields" where
  "mock_llm_fields fe =
     [(''tokens'', field_of into_strings lsTokens lsTokens_update),
      (''finish_reason'', field_of into_string lsFinishReason lsFinishReason_update),
      (''token_delay'', field_of (mock_Duration fe) lsTokenDelay lsTokenDelay_update),
      (''block'', field_of into_bool lsBlock lsBlock_update),
      (''block_after'', field_of into_int lsBlockAfter lsBlockAfter_update)]"

definition mock_tts_fields :: "factory_env \<Rightarrow> TTSScript fields" where
  "mock_tts_fields fe =
     [(''incremental_text'', field_of into_bool tsIncrementalText tsIncrementalText_update),
      (''alignment'', field_of into_bool tsAlignment tsAlignment_update),
      (''ms_per_rune'', field_of into_int tsMsPerRune tsMsPerRune_update),
      (''chunk_ms'', field_of into_int tsChunkMs tsChunkMs_update),
      (''first_chunk_delay'', field_of (mock_Duration fe) tsFirstChunkDelay tsFirstChunkDelay_update)]"

section \<open>Factories\<close>

datatype provider_handle =
    DeepgramASR string dg_options | MockASR ASRScript | QwenASR string asr_options
  | MockLLM mock_llm | OpenaiLLM string httpOptions LLMOptions | QwenLLM string qwen_llm_options
  | MockTTS TTSScript | OpenaiTTS string httpOptions string | QwenTTS string qwen_tts_options

text \<open>The \<open>Kind\<close> methods.\<close>

fun handle_kind :: "provider_handle \<Rightarrow> string" where
  "handle_kind (DeepgramASR _ _) = ''asr''"
| "handle_kind (MockASR _) = ''asr''"
| "handle_kind (QwenASR _ _) = ''asr''"
| "handle_kind (MockLLM _) = ''llm''"
| "handle_kind (OpenaiLLM _ _ _) = ''llm''"
| "handle_kind (QwenLLM _ _) = ''llm''"
| "handle_kind (MockTTS _) = ''tts''"
| "handle_kind (OpenaiTTS _ _ _) = ''tts''"
| "handle_kind (QwenTTS _ _) = ''tts''"

text \<open>Which of the three interfaces the type of a provider implements.\<close>

definition as_built :: "provider_handle \<Rightarrow> provider_handle built" where
  "as_built h =
     \<lparr>bKind = handle_kind h,
      bASR = (case h of DeepgramASR _ _ \<Rightarrow> True | MockASR _ \<Rightarrow> True | QwenASR _ _ \<Rightarrow> True | _ \<Rightarrow> False),
      bLLM = (case h of MockLLM _ \<Rightarrow> True | OpenaiLLM _ _ _ \<Rightarrow> True | QwenLLM _ _ \<Rightarrow> True | _ \<Rightarrow> False),
      bTTS = (case h of MockTTS _ \<Rightarrow> True | OpenaiTTS _ _ _ \<Rightarrow> True | QwenTTS _ _ \<Rightarrow> True | _ \<Rightarrow> False),
      bHandle = h\<rparr>"

text \<open>The \<open>Capabilities\<close> of a synthesizer: incremental text, and alignment.\<close>

fun TTSCaps_of :: "provider_handle \<Rightarrow> bool \<times> bool" where
  "TTSCaps_of (MockTTS sc) = (tsIncrementalText sc, tsAlignment sc)"
| "TTSCaps_of (OpenaiTTS _ _ model) = (isRealtimeModel model, False)"
| "TTSCaps_of (QwenTTS _ _) = (True, False)"
| "TTSCaps_of _ = (False, False)"

text \<open>\<open>json.Unmarshal\<close> of the options into a zero value, when there are any.\<close>

definition read_options :: "factory_env \<Rightarrow> string \<Rightarrow> 'r fields \<Rightarrow> 'r \<Rightarrow> json option \<Rightarrow> string + 'r" where
  "read_options fe label fs zero raw =
     (case raw of
        None \<Rightarrow> Inr zero
      | Some j \<Rightarrow> (case lax_struct fs j zero of None \<Rightarrow> Inl (label @ feJsonErr fe j) | Some r \<Rightarrow> Inr r))"

definition zero_http :: httpOptions where
  "zero_http = \<lparr>hoBaseURL = [], hoRequestTimeout = 0, hoStreamIdleTimeout = 0\<rparr>"

definition make_from :: "string + 'r \<Rightarrow> ('r \<Rightarrow> string + provider_handle) \<Rightarrow> string + provider_handle built" where
  "make_from opts new = (case opts of Inl e \<Rightarrow> Inl e | Inr opts \<Rightarrow> (case new opts of Inl e \<Rightarrow> Inl e | Inr h \<Rightarrow> Inr (as_built h)))"

definition deepgram_asr_factory :: "factory_env \<Rightarrow> provider_handle factory" where
  "deepgram_asr_factory fe apiKey raw =
     make_from (read_options fe ''deepgram options: '' (deepgram_fields fe)
         \<lparr>doBaseURL = [], doModel = [], doLanguage = [], doSmartFormat = False, doEndpointingMs = 0, doUtteranceEndMs = 0,
          doConnectTimeout = 0, doFinalizeTimeout = 0, doKeepAliveInterval = 0, doAudioQueueFrames = 0\<rparr> raw)
       (\<lambda>opts. Inr (DeepgramASR apiKey (dg_applyDefaults opts)))"

definition qwen_asr_factory :: "factory_env \<Rightarrow> provider_handle factory" where
  "qwen_asr_factory fe apiKey raw =
     make_from (read_options fe ''qwen asr options: '' (qwen_asr_fields fe)
         \<lparr>aoURL = [], aoConnectTimeout = 0, aoIdleTimeout = 0, aoModel = [], aoLanguage = [], aoFinalizeTimeout = 0,
          aoAudioQueueFrames = 0, aoKeepAliveInterval = 0\<rparr> raw)
       (\<lambda>opts. case newASR opts of
          None \<Rightarrow> Inl ''qwen asr options: keepalive_interval must be positive and below 23s''
        | Some opts \<Rightarrow> Inr (QwenASR apiKey opts))"

definition openai_llm_factory :: "factory_env \<Rightarrow> provider_handle factory" where
  "openai_llm_factory fe apiKey raw =
     make_from (read_options fe ''openai llm options: '' (openai_llm_fields fe)
         (httpOptions.extend zero_http \<lparr>olModel = [], olReasoningEffort = []\<rparr>) raw)
       (\<lambda>opts. Inr (OpenaiLLM apiKey (http_applyDefaults (httpOptions.truncate opts))
                   (NewLLM \<lparr>loModel = olModel opts, loReasoningEffort = olReasoningEffort opts\<rparr>)))"

definition openai_tts_factory :: "factory_env \<Rightarrow> provider_handle factory" where
  "openai_tts_factory fe apiKey raw =
     make_from (read_options fe ''openai tts options: '' (openai_tts_fields fe) (httpOptions.extend zero_http \<lparr>otModel = []\<rparr>) raw)
       (\<lambda>opts. Inr (OpenaiTTS apiKey (http_applyDefaults (httpOptions.truncate opts)) (NewTTS (otModel opts))))"

definition qwen_llm_factory :: "factory_env \<Rightarrow> provider_handle factory" where
  "qwen_llm_factory fe apiKey raw =
     make_from (read_options fe ''qwen llm options: '' (qwen_llm_fields fe) (httpOptions.extend zero_http \<lparr>qlModel = []\<rparr>) raw)
       (\<lambda>opts. Inr (QwenLLM apiKey (qwen_applyDefaults opts)))"

definition qwen_tts_factory :: "factory_env \<Rightarrow> provider_handle factory" where
  "qwen_tts_factory fe apiKey raw =
     make_from (read_options fe ''qwen tts options: '' (qwen_tts_fields fe)
         \<lparr>qtURL = [], qtConnectTimeout = 0, qtIdleTimeout = 0, qtModel = [], qtVoice = [], qtNoFlushNudge = False\<rparr> raw)
       (\<lambda>opts. Inr (QwenTTS apiKey (qwen_tts_applyDefaults opts)))"

text \<open>The mocks: \<open>parse\<close> adds nothing to the error, and the key is not used.\<close>

definition mock_asr_factory :: "factory_env \<Rightarrow> provider_handle factory" where
  "mock_asr_factory fe _ raw =
     make_from (read_options fe [] (mock_asr_fields fe)
         \<lparr>asUtterances = [], asPartialAfterMs = 0, asFinalAfterMs = 0, asEndOfTurnAfterFinal = False, asFinalDelay = 0,
          asOpenErr = None, asStreamErr = None\<rparr> raw)
       (\<lambda>sc. Inr (MockASR sc))"

definition mock_llm_factory :: "factory_env \<Rightarrow> provider_handle factory" where
  "mock_llm_factory fe _ raw =
     make_from (read_options fe [] (mock_llm_fields fe)
         \<lparr>lsTokens = [], lsFinishReason = [], lsUsage = zero_usage, lsTokenDelay = 0, lsBlock = False, lsBlockAfter = 0,
          lsErr = None, lsChatErr = None, lsToolCall = None, lsBlockAfterToolCall = False\<rparr> raw)
       (\<lambda>sc. Inr (MockLLM (mock_NewLLM sc)))"

definition mock_tts_factory :: "factory_env \<Rightarrow> provider_handle factory" where
  "mock_tts_factory fe _ raw =
     make_from (read_options fe [] (mock_tts_fields fe)
         \<lparr>tsIncrementalText = False, tsAlignment = False, tsMsPerRune = 0, tsChunkMs = 0, tsFirstChunkDelay = 0, tsSynthErr = None\<rparr> raw)
       (\<lambda>sc. Inr (MockTTS (mock_NewTTS sc)))"

section \<open>The registry\<close>

text \<open>The registrations in the order in which the packages of the binary are initialized. A second one for the
  same kind and name would panic.\<close>

definition registrations :: "factory_env \<Rightarrow> (string \<times> string \<times> provider_handle factory) list" where
  "registrations fe =
     [(''asr'', ''deepgram'', deepgram_asr_factory fe),
      (''asr'', ''mock'', mock_asr_factory fe), (''llm'', ''mock'', mock_llm_factory fe), (''tts'', ''mock'', mock_tts_factory fe),
      (''llm'', ''openai'', openai_llm_factory fe), (''tts'', ''openai'', openai_tts_factory fe),
      (''asr'', ''qwen'', qwen_asr_factory fe), (''llm'', ''qwen'', qwen_llm_factory fe), (''tts'', ''qwen'', qwen_tts_factory fe)]"

fun register_each :: "(string \<times> string \<times> 'h factory) list \<Rightarrow> 'h registry \<Rightarrow> 'h registry option" where
  "register_each [] reg = Some reg"
| "register_each ((kind, name, f) # rs) reg = (case Register kind name f reg of None \<Rightarrow> None | Some reg \<Rightarrow> register_each rs reg)"

definition init_registry :: "factory_env \<Rightarrow> provider_handle registry option" where
  "init_registry fe = register_each (registrations fe) (\<lambda>_ _. None)"

definition keyed :: "(string \<times> string \<times> 'f) list \<Rightarrow> ((string \<times> string) \<times> 'f) list" where
  "keyed rs = map (\<lambda>r. ((fst r, fst (snd r)), snd (snd r))) rs"

lemma register_each_eq:
  "distinct (map fst (keyed rs)) \<Longrightarrow> \<forall>r \<in> set rs. reg (fst r) (fst (snd r)) = None
   \<Longrightarrow> register_each rs reg = Some (\<lambda>k n. case map_of (keyed rs) (k, n) of None \<Rightarrow> reg k n | Some f \<Rightarrow> Some f)"
proof (induction rs arbitrary: reg)
  case (Cons r rs)
  obtain k n f where r: "r = (k, n, f)" by (cases r)
  let ?reg = "reg(k := (reg k)(n \<mapsto> f))"
  have fresh: "(k, n) \<notin> set (map fst (keyed rs))" using Cons.prems(1) r by (simp add: keyed_def)
  have "?reg (fst q) (fst (snd q)) = None" if "q \<in> set rs" for q
  proof -
    have "(fst q, fst (snd q)) \<noteq> (k, n)" using fresh that by (force simp: keyed_def)
    then show ?thesis using Cons.prems(2) that by auto
  qed
  then have free: "\<forall>q \<in> set rs. ?reg (fst q) (fst (snd q)) = None" by blast
  have "distinct (map fst (keyed rs))" using Cons.prems(1) by (simp add: keyed_def)
  from Cons.IH [OF this free]
  have IH: "register_each rs ?reg = Some (\<lambda>k n. case map_of (keyed rs) (k, n) of None \<Rightarrow> ?reg k n | Some f \<Rightarrow> Some f)" .
  have "map_of (keyed rs) (k, n) = None" using fresh by (simp add: map_of_eq_None_iff)
  then have "(\<lambda>k n. case map_of (keyed rs) (k, n) of None \<Rightarrow> ?reg k n | Some f \<Rightarrow> Some f)
      = (\<lambda>k n. case map_of (keyed (r # rs)) (k, n) of None \<Rightarrow> reg k n | Some f \<Rightarrow> Some f)"
    by (intro ext) (auto simp: keyed_def r split: option.split)
  with IH show ?case using Cons.prems(2) r by (simp add: Register_def)
qed (simp add: keyed_def)

definition shipped :: "factory_env \<Rightarrow> provider_handle registry" where
  "shipped fe k n = map_of (keyed (registrations fe)) (k, n)"

lemma registrations_distinct: "distinct (map fst (keyed (registrations fe)))"
  by (simp add: registrations_def keyed_def)

lemma init_registry_eq: "init_registry fe = Some (shipped fe)"
proof -
  have "(\<lambda>k n. case map_of (keyed (registrations fe)) (k, n) of None \<Rightarrow> None | Some f \<Rightarrow> Some f) = shipped fe"
    by (intro ext) (simp add: shipped_def split: option.split)
  then show ?thesis using register_each_eq [OF registrations_distinct [of fe], where reg = "\<lambda>_ _. None"]
    by (simp add: init_registry_def)
qed

lemma shipped_mem: "shipped fe k n = Some f \<longleftrightarrow> (k, n, f) \<in> set (registrations fe)"
proof -
  have "shipped fe k n = Some f \<longleftrightarrow> ((k, n), f) \<in> set (keyed (registrations fe))"
    unfolding shipped_def by (rule map_of_eq_Some_iff [OF registrations_distinct])
  then show ?thesis by (force simp: keyed_def)
qed

section \<open>What the factories build\<close>

lemma make_from_Inr: "make_from opts new = Inr p \<longleftrightarrow> (\<exists>r h. opts = Inr r \<and> new r = Inr h \<and> p = as_built h)"
  by (auto simp: make_from_def split: sum.splits)

lemmas factory_defs = deepgram_asr_factory_def qwen_asr_factory_def openai_llm_factory_def openai_tts_factory_def
  qwen_llm_factory_def qwen_tts_factory_def mock_asr_factory_def mock_llm_factory_def mock_tts_factory_def

lemma factory_kind: "(kind, name, f) \<in> set (registrations fe) \<Longrightarrow> f key raw = Inr p \<Longrightarrow> p = as_built (bHandle p) \<and> bKind p = kind"
  by (auto simp: registrations_def factory_defs make_from_Inr as_built_def split: option.splits)

lemma as_built_implements: "implements (as_built h)"
  by (cases h) (simp_all add: implements_def as_built_def)

lemma shipped_honest: "enRegistry env = shipped fe \<Longrightarrow> honest env"
  unfolding honest_def by (metis shipped_mem factory_kind as_built_implements)

section \<open>Properties\<close>

definition shipped_types :: "(string \<times> string) set" where
  "shipped_types = {(''asr'', ''deepgram''), (''asr'', ''mock''), (''llm'', ''mock''), (''tts'', ''mock''), (''llm'', ''openai''), (''tts'', ''openai''),
     (''asr'', ''qwen''), (''llm'', ''qwen''), (''tts'', ''qwen'')}"

text \<open>The gateway as shipped can serve: registering the providers does not panic, the store accepts exactly
  the shipped types for each role, and with these factories every reachable store with a default profile resolves a new
  connection to three providers that implement transcription, generation and synthesis, with valid session defaults.\<close>

theorem shipped_providers_resolve:
  assumes "init_registry fe = Some (enRegistry env)" "store_reach env s" "rcDefaultProfile (store_Config s) \<noteq> []"
  shows "(\<forall>kind name. Known (enRegistry env) kind name \<longleftrightarrow>
        (kind, name) \<in> shipped_types)
    \<and> (\<exists>rt. Resolve s = Inr rt \<and> rtProfile rt = rcDefaultProfile (store_Config s) \<and> session_ok (rtSession rt)
        \<and> bASR (rtASR rt) \<and> bLLM (rtLLM rt) \<and> bTTS (rtTTS rt))"
proof
  have reg: "enRegistry env = shipped fe" using assms(1) by (simp add: init_registry_eq)
  show "\<exists>rt. Resolve s = Inr rt \<and> rtProfile rt = rcDefaultProfile (store_Config s) \<and> session_ok (rtSession rt)
        \<and> bASR (rtASR rt) \<and> bLLM (rtLLM rt) \<and> bTTS (rtTTS rt)"
    using resolve_default [OF assms(2) shipped_honest [OF reg]] assms(3) by simp
  show "\<forall>kind name. Known (enRegistry env) kind name \<longleftrightarrow>
        (kind, name) \<in> shipped_types"
    by (simp add: reg Known_def shipped_def map_of_eq_None_iff registrations_def keyed_def shipped_types_def)
qed

text \<open>An instance: the mocks in all three roles.\<close>

definition demo_factories :: factory_env where
  "demo_factories = \<lparr>feDur = (\<lambda>_. None), feJsonErr = (\<lambda>_. [])\<rparr>"

definition mock_env :: "provider_handle env" where
  "mock_env = \<lparr>enPath = ''cascade-state.json'', enKnown = Some (Known (shipped demo_factories)),
     enLookupEnv = (\<lambda>v. if v = ''KEY'' then Some ''s3cret'' else None), enFmt = demo_fmt, enRegistry = shipped demo_factories\<rparr>"

lemma mock_runtime_ok: "runtime_ok (enKnown mock_env) demo_config"
  unfolding runtime_validate_None [symmetric, where prefix = "[]"] by code_simp

lemma mock_build: "\<exists>b. build mock_env demo_config = Inr b"
proof -
  have "(case build mock_env demo_config of Inl _ \<Rightarrow> False | Inr _ \<Rightarrow> True) = True" by code_simp
  then show ?thesis by (auto split: sum.splits)
qed

lemma mock_store_reach: "\<exists>s. store_reach mock_env s \<and> store_Config s = demo_config"
proof -
  obtain b where b: "build mock_env demo_config = Inr b" using mock_build by blast
  define snap where "snap = \<lparr>snCfg = demo_config, snBuilt = b\<rparr>"
  have io: "io_ok mock_env demo_io (\<lambda>_. None)" by (simp add: io_ok_def mock_env_def demo_io_def)
  obtain ds ok where p: "persist mock_env (ioTmp demo_io) (ioFails demo_io) demo_config (\<lambda>_. None) = (ds, ok)" by fastforce
  have ok: "ok" using persist_last [OF _ _ p] io by (auto simp: io_ok_def demo_io_def)
  have "DecodeRuntimeConfig (document_of mock_env demo_config) bootstrapKey = Inr demo_config"
    using decode_marshal [OF demo_config_ok demo_config_storable] by (simp add: demo_normal mock_env_def)
  moreover have "compile mock_env demo_config = Inr snap" by (simp add: compile_Inr mock_runtime_ok b snap_def)
  ultimately have "Open mock_env (Some (document_of mock_env demo_config)) True demo_io (\<lambda>_. None) = Inr \<lparr>stCur = snap, stDisk = last ds\<rparr>"
    using p ok by (simp add: Open_def prepare_def snap_def)
  from store_reach.opened [OF this io] show ?thesis by (intro exI conjI) (auto simp: store_Config_def snap_def)
qed

theorem shipped_providers_resolve_witness:
  "\<exists>s rt. store_reach mock_env s \<and> Resolve s = Inr rt \<and> rtProfile rt = ''support'' \<and> bASR (rtASR rt) \<and> bLLM (rtLLM rt) \<and> bTTS (rtTTS rt)"
proof -
  obtain s where s: "store_reach mock_env s" "store_Config s = demo_config" using mock_store_reach by blast
  have "init_registry demo_factories = Some (enRegistry mock_env)" by (simp add: init_registry_eq mock_env_def)
  from shipped_providers_resolve [OF this s(1)] s show ?thesis by (auto simp: demo_config_def)
qed

text \<open>The Qwen transcriber refuses a keep-alive interval its service would not survive, the Deepgram one accepts any:
  \<open>time.NewTicker\<close> panics on a negative interval, in the goroutine of the writer, and \<open>make\<close> on a negative queue
  length.\<close>

definition dg_writer_starts :: "dg_options \<Rightarrow> bool" where
  "dg_writer_starts opts \<longleftrightarrow> 0 < doKeepAliveInterval opts"

definition dg_stream_made :: "dg_options \<Rightarrow> bool" where
  "dg_stream_made opts \<longleftrightarrow> 0 \<le> doAudioQueueFrames opts"

lemma qwen_keepalive_ok: "qwen_asr_factory fe key raw = Inr p \<Longrightarrow>
    \<exists>opts. bHandle p = QwenASR key opts \<and> 0 < aoKeepAliveInterval opts \<and> aoKeepAliveInterval opts < seconds 23"
  using newASR_keepalive by (fastforce simp: qwen_asr_factory_def make_from_Inr as_built_def split: option.splits)

lemma Atoi_minus_one: "Atoi ''-1'' = Some (- 1)"
  by code_simp

theorem deepgram_options_unchecked:
  assumes "feDur fe ''-1s'' = Some (- seconds 1)"
  shows "\<exists>opts. deepgram_asr_factory fe key (Some (JObj [(''keepalive_interval'', JStr ''-1s''), (''audio_queue_frames'', JNum ''-1'')]))
      = Inr (as_built (DeepgramASR key opts)) \<and> \<not> dg_writer_starts opts \<and> \<not> dg_stream_made opts"
  using assms
  by (simp add: deepgram_asr_factory_def read_options_def lax_struct_def find_field_def deepgram_fields_def field_of_def
      into_duration_def json_string_def make_from_def dg_writer_starts_def dg_stream_made_def dg_applyDefaults_def or_zero_def seconds_def
      into_int_def Atoi_minus_one) (rule exI, rule conjI [OF refl], simp)

end
