(* ===== verification/SessionGrow.thy ===== *)
theory SessionGrow
  imports SessionLog
begin

text \<open>
  What holds of the outbound log of a session whatever its handlers do. Handlers touch the log only by
  sending, so a predicate of the log that survives a send and the closing of the session survives every
  handler. The instance used here: events are only ever appended.
\<close>

locale log_predicate =
  fixes P :: "session \<Rightarrow> bool" and w :: world
  assumes P_emit: "P s \<Longrightarrow> P (emit w ev s)"
    and P_cancel: "P s \<Longrightarrow> P (cancel_ctx reason s)"
    and P_cong: "P s \<Longrightarrow> ssEvents s' = ssEvents s \<Longrightarrow> ssTried s' = ssTried s \<Longrightarrow> ssClosed s' = ssClosed s \<Longrightarrow> P s'"
begin

lemma P_same: "ssEvents s' = ssEvents s \<Longrightarrow> ssTried s' = ssTried s \<Longrightarrow> ssClosed s' = ssClosed s \<Longrightarrow> P s' = P s"
  using P_cong [of s s'] P_cong [of s' s] by metis

lemma P_frame [simp]:
  "P (s\<lparr>ssEot := e\<rparr>) = P s" "P (s\<lparr>ssBuffer := b\<rparr>) = P s" "P (s\<lparr>ssDetector := d\<rparr>) = P s"
  "P (s\<lparr>ssPartial := t\<rparr>) = P s" "P (s\<lparr>ssTranscriptAcc := t\<rparr>) = P s" "P (s\<lparr>ssAsrLog := l\<rparr>) = P s"
  "P (s\<lparr>ssAudioEmitted := a\<rparr>) = P s" "P (s\<lparr>ssConv := c'\<rparr>) = P s" "P (s\<lparr>ssTurns := tm\<rparr>) = P s"
  "P (s\<lparr>ssCfg := cfg\<rparr>) = P s" "P (s\<lparr>ssSpeechItem := i\<rparr>) = P s" "P (s\<lparr>ssPendingItem := p\<rparr>) = P s"
  "P (s\<lparr>ssAsrWait := b1\<rparr>) = P s" "P (s\<lparr>ssDeferWait := b2\<rparr>) = P s" "P (s\<lparr>ssDeferItem := di\<rparr>) = P s"
  "P (s\<lparr>ssPipes := ps\<rparr>) = P s" "P (s\<lparr>ssActiveGen := g\<rparr>) = P s" "P (s\<lparr>ssCancelled := cs\<rparr>) = P s"
  "P (s\<lparr>ssActive := r\<rparr>) = P s" "P (s\<lparr>ssNextResp := n\<rparr>) = P s"
  by (rule P_same; simp)+

lemma P_ops [simp]:
  "P (conv_write r f s) = P s" "P (set_turns g s) = P s" "P (stopASRWait s) = P s" "P (disarmEndOfTurn s) = P s"
  "P (armEndOfTurn d s) = P s" "P (dropDeferredTrigger s) = P s" "P (fst (asr_call w call s)) = P s"
  "P (upd_active h s) = P s" "P (applyTurnDetection s) = P s" "P (noteFirstText s) = P s" "P (deferTrigger s) = P s"
  by (simp_all add: conv_write_def set_turns_def stopASRWait_def disarmEndOfTurn_def armEndOfTurn_def
      dropDeferredTrigger_def asr_call_def upd_active_def applyTurnDetection_def noteFirstText_def deferTrigger_def Let_def
      split: option.split)

lemma P_startPipeline [simp]: "P (startPipeline s) = P s"
  by (simp add: startPipeline_def Let_def split: option.split)

lemma P_errors:
  "P s \<Longrightarrow> P (emitError w tag code s)" "P s \<Longrightarrow> P (emitParamError w tag code p s)" "P s \<Longrightarrow> P (fatal w code reason s)"
  by (simp_all add: emitError_def emitParamError_def fatal_def P_emit P_cancel)

lemmas sends = P_emit P_cancel P_errors

lemma P_newClientItem: "P s \<Longrightarrow> newClientItem w spec tag s = (s', it) \<Longrightarrow> P s'"
  by (auto simp: newClientItem_def newToolOutputItem_def sends split: if_splits option.splits)

lemma P_createItem: "P s \<Longrightarrow> P (createItem w spec previous atRoot tag s)"
  by (auto simp: createItem_def intro!: sends dest: P_newClientItem split: prod.split option.split)

lemma P_deleteItem: "P s \<Longrightarrow> deleteItem w ref tag s = Some s' \<Longrightarrow> P s'"
  by (auto simp: deleteItem_def bind_eq_Some_conv Let_def intro!: sends split: if_splits)

lemma P_truncateItem: "P s \<Longrightarrow> truncateItem w ref ci ms tag s = Some s' \<Longrightarrow> P s'"
  by (auto simp: truncateItem_def bind_eq_Some_conv Let_def intro!: sends split: if_splits option.splits)

lemma P_createResponseAt: "P s \<Longrightarrow> P (createResponseAt w ov tag s)"
  by (simp add: createResponseAt_def begin_response_def sends Let_def split: option.split)

lemma P_finish: "P s \<Longrightarrow> P (finish w status reason err s)"
  by (auto simp: finish_def finish_item_def finish_stop_def finish_close_def Let_def intro!: sends split: option.split prod.split)

lemma P_interrupt: "P s \<Longrightarrow> P (interrupt w reason s)"
  by (simp add: interrupt_def P_finish)

lemma P_failResponse: "P s \<Longrightarrow> P (failResponse w code err s)"
  by (auto simp: failResponse_def intro!: P_finish sends split: option.split)

lemma P_maybeComplete: "P s \<Longrightarrow> P (maybeComplete w s)"
  by (auto simp: maybeComplete_def intro!: P_finish split: option.split)

lemma P_ensureOutputItem: "P s \<Longrightarrow> ensureOutputItem w r s = (s', ref) \<Longrightarrow> P s'"
  by (auto simp: ensureOutputItem_def Let_def intro!: sends split: option.splits prod.splits)

lemma P_pipe_event: "P s \<Longrightarrow> P (pipe_event w r ev s)"
  by (cases ev) (auto simp: deliverToolCall_def Let_def intro!: sends P_maybeComplete P_failResponse dest: P_ensureOutputItem
      split: prod.split)

lemma P_handleResponseEvent: "P s \<Longrightarrow> P (handleResponseEvent w ev s)"
  by (simp add: handleResponseEvent_def P_pipe_event split: option.split)

lemma P_add_user_item: "P s \<Longrightarrow> P (add_user_item w ms s)"
  by (auto simp: add_user_item_def Let_def intro!: sends split: prod.split)

lemma P_commit: "P s \<Longrightarrow> commit w tag s = Some (s', ok) \<Longrightarrow> P s'"
  by (cases "buf_commit (ssBuffer s)")
     (auto simp: commit_def asr_call_def Let_def intro!: sends P_add_user_item split: option.split_asm prod.split_asm)

lemma P_apply_decision: "P s \<Longrightarrow> apply_decision w d tag s = Some s' \<Longrightarrow> P s'"
  by (auto simp: apply_decision_def bind_eq_Some_conv createResponse_def Let_def intro!: P_createResponseAt
      dest: P_commit [rotated] split: if_splits)

lemma P_step_and_apply: "P s \<Longrightarrow> step_and_apply w i tag s = Some s' \<Longrightarrow> P s'"
  by (auto simp: step_and_apply_def dest: P_apply_decision [rotated] split: prod.split_asm)

lemma P_speech_start: "P s \<Longrightarrow> speech_start w off s = Some s' \<Longrightarrow> P s'"
  unfolding speech_start_def Let_def
  by (auto simp: sends P_interrupt elim!: P_apply_decision [rotated] split: prod.split_asm)

lemma P_speech_end: "P s \<Longrightarrow> speech_end w off s = Some s' \<Longrightarrow> P s'"
  unfolding speech_end_def Let_def
  by (auto simp: sends elim!: P_apply_decision [rotated] split: prod.split_asm)

lemma P_vad_events: "P s \<Longrightarrow> vad_events w evs s = Some s' \<Longrightarrow> P s'"
proof (induction evs arbitrary: s)
  case (Cons ev evs)
  then show ?case
    by (cases "veKind ev") (auto simp: bind_eq_Some_conv dest: P_speech_start [rotated] P_speech_end [rotated])
qed simp

lemma P_handleAudio: "P s \<Longrightarrow> handleAudio w p s = Some s' \<Longrightarrow> P s'"
proof (cases "buf_append (ssBuffer s) p")
  case (Inr b)
  assume "P s" "handleAudio w p s = Some s'"
  then show ?thesis using Inr
    by (cases "ssDetector s"; cases "wAsr w (length (ssAsrLog s))")
       (auto simp: handleAudio_def asr_call_def Let_def bind_eq_Some_conv sends dest: P_vad_events [rotated] split: prod.split_asm)
qed (auto simp: handleAudio_def sends)

lemma P_completePendingItem: "P s \<Longrightarrow> P (completePendingItem w ref t delta s)"
  by (auto simp: completePendingItem_def resolveDeferredTrigger_def Let_def intro!: P_createResponseAt sends split: option.split)

lemma P_handleASR: "P s \<Longrightarrow> handleASR w ev s = Some s' \<Longrightarrow> P s'"
  by (cases ev)
     (auto simp: handleASR_def Let_def sends P_completePendingItem elim!: P_step_and_apply [rotated] split: option.split)

lemma P_handleTranscriptTimeout: "P s \<Longrightarrow> P (handleTranscriptTimeout w s)"
  by (auto simp: handleTranscriptTimeout_def Let_def intro!: P_failResponse split: option.split)

lemma P_handleDeferredTimeout: "P s \<Longrightarrow> P (handleDeferredTimeout w s)"
  by (auto simp: handleDeferredTimeout_def Let_def P_createResponseAt split: option.split)

lemma P_handleCommand: "P s \<Longrightarrow> handleCommand w c s = Some s' \<Longrightarrow> P s'"
  by (cases c)
     (auto simp: updateSession_def clear_audio_def createResponse_def Let_def intro!: sends P_createItem P_createResponseAt P_interrupt
       dest: P_deleteItem [rotated] P_truncateItem [rotated] P_step_and_apply [rotated]
       split: if_split_asm option.split_asm option.split prod.split_asm)

theorem P_handle: "P s \<Longrightarrow> handle w i s = Some s' \<Longrightarrow> P s'"
  by (cases i)
     (auto simp: handle_def intro!: P_handleResponseEvent P_handleTranscriptTimeout P_handleDeferredTimeout
       dest: P_handleCommand [rotated] P_handleAudio [rotated] P_handleASR [rotated] elim!: P_step_and_apply [rotated])

theorem P_cleanup_finish: "P s \<Longrightarrow> P (fst (asr_call w CloseStream (stopTimers (if ssActive s \<noteq> None then finish w st re er s else s))))"
  by (simp add: stopTimers_def P_finish)

end

section \<open>Events are only appended\<close>

interpretation appended: log_predicate "\<lambda>s. prefix e (ssEvents s)" w for e w
  by unfold_locales (auto simp: emit_def cancel_ctx_def Let_def split: option.splits)

lemma handle_appends: "handle w i s = Some s' \<Longrightarrow> prefix (ssEvents s) (ssEvents s')"
  by (rule appended.P_handle) simp_all

lemma cleanup_appends: "prefix (ssEvents s) (ssEvents (cleanup w s))"
  using appended.P_cleanup_finish [of "ssEvents s" s w ResponseCancelled ReasonNone None]
  by (auto simp: cleanup_def Let_def)

section \<open>Closing is final\<close>

interpretation closed: log_predicate "\<lambda>s. ssClosed s \<noteq> None" w for w
  by unfold_locales (auto simp: emit_def cancel_ctx_def Let_def split: option.splits)

lemma handle_opens_not: "handle w i s = Some s' \<Longrightarrow> ssClosed s' = None \<Longrightarrow> ssClosed s = None"
  using closed.P_handle by blast

end
