(* ===== verification/Server.thy ===== *)
theory Server
  imports AdapterTables SessionGrow "HOL-Library.Multiset"
begin

text \<open>
  \<^verbatim>\<open>internal/server/server.go\<close>: one connection as a step machine. Its goroutines are the actor (the
  session), the reader of the socket, the pump that projects session events, and the writer; they share
  the adapter, whose calls are atomic, and the bounded queue of outgoing messages. The posts of the
  reader are one queue here: \<open>Queues\<close> shows that the actor handles them in the order they were posted.
  A handler of the actor that panics ends the process, so it has no step. Every message remembers which
  goroutine sent it, for the properties to speak about.
\<close>

section \<open>State\<close>

datatype origin = FromPump | FromReader

datatype outMsg = OutFrame origin frame | OutClose nat string

datatype pump_pc = PHello | PSend "frame list" | PLast | PDone | PPanic
datatype reader_pc = RRead | RSend "frame list" | RLeft | RPanic

record conn =
  cnSess :: session
  cnEnded :: bool
  cnAdapter :: adapter
  cnPosts :: "post list"
  cnTaken :: nat
  cnPump :: pump_pc
  cnClose :: "nat \<times> string"
  cnReader :: reader_pc
  cnOut :: "outMsg list"
  cnOutClosed :: bool
  cnWriterDone :: bool
  cnWritten :: "(origin \<times> frame) list"
  cnSent :: "(nat \<times> string) option"

definition StatusNormalClosure :: nat where "StatusNormalClosure = 1000"
definition StatusGoingAway :: nat where "StatusGoingAway = 1001"
definition StatusInternalError :: nat where "StatusInternalError = 1011"

fun reason_text :: "CloseReason \<Rightarrow> string" where
  "reason_text CloseClient = ''client_close''"
| "reason_text CloseInputOverflow = ''input_queue_overflow''"
| "reason_text CloseBufferOverflow = ''input_audio_buffer_overflow''"
| "reason_text CloseProviderError = ''provider_error''"
| "reason_text CloseSessionTimeout = ''session_timeout''"
| "reason_text CloseContextCancelled = ''context_cancelled''"

text \<open>A connection as \<open>serve\<close> builds it once the session has started.\<close>

definition serve :: "(nat \<Rightarrow> 8 word list) \<Rightarrow> string \<Rightarrow> string \<Rightarrow> Options \<Rightarrow> conn" where
  "serve rnd sid model opts =
     \<lparr>cnSess = New opts, cnEnded = False, cnAdapter = adapter_New rnd sid model (opSession opts), cnPosts = [], cnTaken = 0,
      cnPump = PHello, cnClose = (StatusNormalClosure, []), cnReader = RRead, cnOut = [], cnOutClosed = False,
      cnWriterDone = False, cnWritten = [], cnSent = None\<rparr>"

text \<open>The pump's choice of close code, event by event.\<close>

fun note_close :: "Event \<Rightarrow> nat \<times> string \<Rightarrow> nat \<times> string" where
  "note_close (EvError tag code param fat) c = (if fat then (StatusInternalError, code_str code) else c)"
| "note_close (EvSessionClosed reason) c =
     (if reason = CloseContextCancelled then (StatusGoingAway, ''shutting_down'')
      else if reason = CloseSessionTimeout then (StatusNormalClosure, reason_text reason)
      else if reason \<in> {CloseInputOverflow, CloseBufferOverflow, CloseProviderError}
      then (StatusInternalError, reason_text reason) else c)"
| "note_close _ c = c"

fun input_of :: "post \<Rightarrow> Input" where
  "input_of (PostCommand c) = InCommand c"
| "input_of (PostPcm p) = InAudio p"

definition cancel_sess :: "CloseReason \<Rightarrow> conn \<Rightarrow> conn" where
  "cancel_sess reason c = c\<lparr>cnSess := cancel_ctx reason (cnSess c)\<rparr>"

text \<open>Posting to a session that has closed does nothing.\<close>

definition post_all :: "post list \<Rightarrow> conn \<Rightarrow> conn" where
  "post_all ps c = (if ssClosed (cnSess c) = None then c\<lparr>cnPosts := cnPosts c @ ps\<rparr> else c)"

section \<open>Steps\<close>

text \<open>\<open>room\<close>: a send on the queue can proceed.\<close>

definition room :: "conn \<Rightarrow> bool" where
  "room c \<longleftrightarrow> int (length (cnOut c)) < limOutputEventQueue (ssLimits (cnSess c)) \<and> \<not> cnOutClosed c"

inductive cstep :: "world \<Rightarrow> (nat \<Rightarrow> 8 word list) \<Rightarrow> (f64 \<Rightarrow> string) \<Rightarrow> (f64 \<Rightarrow> int) \<Rightarrow> conn \<Rightarrow> conn \<Rightarrow> bool" for w rnd fmt oor where
  actor_post: "cnPosts c = p # ps \<Longrightarrow> offered (cnSess c) (input_of p) \<Longrightarrow> handle w (input_of p) (cnSess c) = Some s \<Longrightarrow>
     cstep w rnd fmt oor c (c\<lparr>cnSess := s, cnPosts := ps\<rparr>)"
| actor_other: "(\<forall>p. i \<noteq> input_of p) \<Longrightarrow> offered (cnSess c) i \<Longrightarrow> handle w i (cnSess c) = Some s \<Longrightarrow>
     cstep w rnd fmt oor c (c\<lparr>cnSess := s\<rparr>)"
| ctx_done: "cstep w rnd fmt oor c (cancel_sess reason c)"
| actor_exit: "ssClosed (cnSess c) \<noteq> None \<Longrightarrow> \<not> cnEnded c \<Longrightarrow>
     cstep w rnd fmt oor c (c\<lparr>cnSess := cleanup w (cnSess c), cnEnded := True\<rparr>)"
| pump_hello: "cnPump c = PHello \<Longrightarrow> Hello fmt (cnAdapter c) = (a, fs) \<Longrightarrow>
     cstep w rnd fmt oor c (c\<lparr>cnAdapter := a, cnPump := PSend fs\<rparr>)"
| pump_event: "cnPump c = PSend [] \<Longrightarrow> cnTaken c < length (ssEvents (cnSess c)) \<Longrightarrow> ev = ssEvents (cnSess c) ! cnTaken c \<Longrightarrow>
     Outbound rnd fmt ev (cnAdapter c) = Some (a, fs) \<Longrightarrow>
     cstep w rnd fmt oor c (c\<lparr>cnAdapter := a, cnPump := PSend fs, cnTaken := Suc (cnTaken c), cnClose := note_close ev (cnClose c)\<rparr>)"
| pump_panic: "cnPump c = PSend [] \<Longrightarrow> cnTaken c < length (ssEvents (cnSess c)) \<Longrightarrow>
     Outbound rnd fmt (ssEvents (cnSess c) ! cnTaken c) (cnAdapter c) = None \<Longrightarrow>
     cstep w rnd fmt oor c (c\<lparr>cnPump := PPanic\<rparr>)"
| pump_send: "cnPump c = PSend (f # fs) \<Longrightarrow> room c \<Longrightarrow>
     cstep w rnd fmt oor c (c\<lparr>cnOut := cnOut c @ [OutFrame FromPump f], cnPump := PSend fs\<rparr>)"
| pump_drop: "cnPump c = PSend (f # fs) \<Longrightarrow> cnWriterDone c \<Longrightarrow> cstep w rnd fmt oor c (c\<lparr>cnPump := PSend fs\<rparr>)"
| pump_last: "cnPump c = PSend [] \<Longrightarrow> cnEnded c \<Longrightarrow> cnTaken c = length (ssEvents (cnSess c)) \<Longrightarrow> room c \<Longrightarrow>
     cstep w rnd fmt oor c (c\<lparr>cnOut := cnOut c @ [OutClose (fst (cnClose c)) (snd (cnClose c))], cnPump := PLast\<rparr>)"
| pump_last_drop: "cnPump c = PSend [] \<Longrightarrow> cnEnded c \<Longrightarrow> cnTaken c = length (ssEvents (cnSess c)) \<Longrightarrow> cnWriterDone c \<Longrightarrow>
     cstep w rnd fmt oor c (c\<lparr>cnPump := PLast\<rparr>)"
| pump_close: "cnPump c = PLast \<Longrightarrow> cstep w rnd fmt oor c (c\<lparr>cnOutClosed := True, cnPump := PDone\<rparr>)"
| read_text: "cnReader c = RRead \<Longrightarrow> Inbound oor msg (cnAdapter c) = (a, fs, ps) \<Longrightarrow>
     cstep w rnd fmt oor c (post_all ps (c\<lparr>cnAdapter := a, cnReader := RSend fs\<rparr>))"
| read_overflow: "cnReader c = RRead \<Longrightarrow> Inbound oor msg (cnAdapter c) = (a, fs, [PostPcm p]) \<Longrightarrow>
     cstep w rnd fmt oor c (cancel_sess CloseInputOverflow (c\<lparr>cnAdapter := a, cnReader := RSend fs\<rparr>))"
| read_binary: "cnReader c = RRead \<Longrightarrow> Reject (cnAdapter c) = (a, fs) \<Longrightarrow>
     cstep w rnd fmt oor c (c\<lparr>cnAdapter := a, cnReader := RSend fs\<rparr>)"
| read_send: "cnReader c = RSend (f # fs) \<Longrightarrow> room c \<Longrightarrow>
     cstep w rnd fmt oor c (c\<lparr>cnOut := cnOut c @ [OutFrame FromReader f], cnReader := RSend fs\<rparr>)"
| read_drop: "cnReader c = RSend (f # fs) \<Longrightarrow> cnWriterDone c \<Longrightarrow> cstep w rnd fmt oor c (c\<lparr>cnReader := RSend fs\<rparr>)"
| read_panic: "cnReader c = RSend (f # fs) \<Longrightarrow> cnOutClosed c \<Longrightarrow> cstep w rnd fmt oor c (c\<lparr>cnReader := RPanic\<rparr>)"
| read_next: "cnReader c = RSend [] \<Longrightarrow> cstep w rnd fmt oor c (c\<lparr>cnReader := RRead\<rparr>)"
| read_error: "cnReader c = RRead \<Longrightarrow> cstep w rnd fmt oor c (cancel_sess CloseClient (c\<lparr>cnReader := RLeft\<rparr>))"
| write_frame: "\<not> cnWriterDone c \<Longrightarrow> cnOut c = OutFrame g f # q \<Longrightarrow>
     cstep w rnd fmt oor c (c\<lparr>cnOut := q, cnWritten := cnWritten c @ [(g, f)]\<rparr>)"
| write_error: "\<not> cnWriterDone c \<Longrightarrow> cnOut c = OutFrame g f # q \<Longrightarrow>
     cstep w rnd fmt oor c (cancel_sess CloseClient (c\<lparr>cnOut := q, cnWriterDone := True\<rparr>))"
| write_close: "\<not> cnWriterDone c \<Longrightarrow> cnOut c = OutClose code reason # q \<Longrightarrow>
     cstep w rnd fmt oor c (c\<lparr>cnOut := q, cnWriterDone := True, cnSent := Some (code, reason)\<rparr>)"
| write_end: "\<not> cnWriterDone c \<Longrightarrow> cnOut c = [] \<Longrightarrow> cnOutClosed c \<Longrightarrow>
     cstep w rnd fmt oor c (c\<lparr>cnWriterDone := True\<rparr>)"

inductive creach :: "world \<Rightarrow> (nat \<Rightarrow> 8 word list) \<Rightarrow> (f64 \<Rightarrow> string) \<Rightarrow> (f64 \<Rightarrow> int) \<Rightarrow> conn \<Rightarrow> conn \<Rightarrow> bool"
  for w rnd fmt oor c0 where
  creach_refl: "creach w rnd fmt oor c0 c0"
| creach_step: "creach w rnd fmt oor c0 c \<Longrightarrow> cstep w rnd fmt oor c c' \<Longrightarrow> creach w rnd fmt oor c0 c'"

end
