(* ===== verification/ServerProps.thy ===== *)
theory ServerProps
  imports Server
begin

text \<open>
  What a connection guarantees to its client, over every interleaving of its goroutines.
\<close>

section \<open>The session behind a connection\<close>

lemma cancel_events [simp]: "ssEvents (cancel_ctx r s) = ssEvents s" "ssLimits (cancel_ctx r s) = ssLimits s"
  by (simp_all add: cancel_ctx_def split: option.split)

lemma cancel_closed [simp]: "ssClosed (cancel_ctx r s) \<noteq> None"
  by (simp add: cancel_ctx_def split: option.split)

lemma cancel_sess_sel [simp]:
  "cnSess (cancel_sess r c) = cancel_ctx r (cnSess c)" "cnEnded (cancel_sess r c) = cnEnded c"
  "cnAdapter (cancel_sess r c) = cnAdapter c" "cnTaken (cancel_sess r c) = cnTaken c" "cnPump (cancel_sess r c) = cnPump c"
  "cnClose (cancel_sess r c) = cnClose c" "cnReader (cancel_sess r c) = cnReader c" "cnOut (cancel_sess r c) = cnOut c"
  "cnOutClosed (cancel_sess r c) = cnOutClosed c" "cnWriterDone (cancel_sess r c) = cnWriterDone c"
  "cnWritten (cancel_sess r c) = cnWritten c" "cnSent (cancel_sess r c) = cnSent c"
  by (simp_all add: cancel_sess_def)

lemma post_all_sel [simp]:
  "cnSess (post_all ps c) = cnSess c" "cnEnded (post_all ps c) = cnEnded c" "cnAdapter (post_all ps c) = cnAdapter c"
  "cnTaken (post_all ps c) = cnTaken c" "cnPump (post_all ps c) = cnPump c" "cnClose (post_all ps c) = cnClose c"
  "cnReader (post_all ps c) = cnReader c" "cnOut (post_all ps c) = cnOut c" "cnOutClosed (post_all ps c) = cnOutClosed c"
  "cnWriterDone (post_all ps c) = cnWriterDone c" "cnWritten (post_all ps c) = cnWritten c" "cnSent (post_all ps c) = cnSent c"
  by (simp_all add: post_all_def)

text \<open>Until its actor exits the session is consistent; the pump has taken a prefix of its events.\<close>

definition sess_part :: "conn \<Rightarrow> bool" where
  "sess_part c \<longleftrightarrow> (\<not> cnEnded c \<longrightarrow> sess_inv (cnSess c) \<and> logged (cnSess c)) \<and> (cnEnded c \<longrightarrow> ssClosed (cnSess c) \<noteq> None) \<and>
     cnTaken c \<le> length (ssEvents (cnSess c))"

definition seen :: "conn \<Rightarrow> Event list" where
  "seen c = take (cnTaken c) (ssEvents (cnSess c))"

lemma cancel_ctx_inv: "sess_inv s \<Longrightarrow> sess_inv (cancel_ctx r s)"
  by (auto simp: cancel_ctx_def sess_inv_def active_ok_def split: option.splits)

lemma cleanup_closed: "ssClosed s \<noteq> None \<Longrightarrow> ssClosed (cleanup w s) \<noteq> None"
  using closed.P_cleanup_finish [of s w ResponseCancelled ReasonNone None] by (simp add: cleanup_def Let_def)

lemma cstep_events: "cstep w rnd fmt oor c c' \<Longrightarrow> prefix (ssEvents (cnSess c)) (ssEvents (cnSess c'))"
  by (induction rule: cstep.induct) (simp_all add: handle_appends cleanup_appends)

lemma cstep_sess: "cstep w rnd fmt oor c c' \<Longrightarrow> sess_part c \<Longrightarrow> sess_part c'"
proof (induction rule: cstep.induct)
  case (actor_post c p ps s)
  then have "\<not> cnEnded c" by (auto simp: sess_part_def offered_def)
  then show ?case using actor_post handle_appends [OF actor_post(3)]
    by (auto simp: sess_part_def handle_inv handle_logged dest: prefix_length_le)
next
  case (actor_other i c s)
  then have "\<not> cnEnded c" by (auto simp: sess_part_def offered_def)
  then show ?case using actor_other handle_appends [OF actor_other(3)]
    by (auto simp: sess_part_def handle_inv handle_logged dest: prefix_length_le)
next
  case (actor_exit c)
  then show ?case using cleanup_appends [of "cnSess c" w] cleanup_closed [of "cnSess c" w]
    by (auto simp: sess_part_def dest: prefix_length_le)
qed (auto simp: sess_part_def cancel_ctx_inv logged_cancel)

lemma seen_prefix:
  "cstep w rnd fmt oor c c' \<Longrightarrow> sess_part c \<Longrightarrow> cnTaken c' = cnTaken c \<Longrightarrow> seen c' = seen c"
  using cstep_events [of w rnd fmt oor c c'] by (auto simp: seen_def sess_part_def prefix_def)

lemma taken_step:
  "cstep w rnd fmt oor c c' \<Longrightarrow> cnTaken c' = cnTaken c \<or> 
   (\<exists>ev a fs. cnPump c = PSend [] \<and> cnTaken c < length (ssEvents (cnSess c)) \<and> ev = ssEvents (cnSess c) ! cnTaken c \<and>
     Outbound rnd fmt ev (cnAdapter c) = Some (a, fs) \<and>
     c' = c\<lparr>cnAdapter := a, cnPump := PSend fs, cnTaken := Suc (cnTaken c), cnClose := note_close ev (cnClose c)\<rparr>)"
  by (induction rule: cstep.induct) auto

section \<open>The pump does not panic while the session is open\<close>

definition pump_part :: "conn \<Rightarrow> bool" where
  "pump_part c \<longleftrightarrow> ssClosed (cnSess c) = None \<longrightarrow>
     cnPump c \<noteq> PPanic \<and> (\<exists>l. run_life (LIdle 0) (seen c) = Some l \<and> known l (cnAdapter c))"

lemma cstep_open: "cstep w rnd fmt oor c c' \<Longrightarrow> ssClosed (cnSess c') = None \<Longrightarrow> ssClosed (cnSess c) = None"
proof (induction rule: cstep.induct)
  case (actor_exit c)
  then show ?case using cleanup_closed [of "cnSess c" w] by simp
qed (auto dest: handle_opens_not)

lemma known_same: "adResps b = adResps a \<Longrightarrow> known l b = known l a"
  by (simp add: known_def)

lemma adapter_step:
  "cstep w rnd fmt oor c c' \<Longrightarrow> cnTaken c' = cnTaken c \<Longrightarrow> adResps (cnAdapter c') = adResps (cnAdapter c)"
proof (induction rule: cstep.induct)
  case (pump_hello c a fs)
  then show ?case using frames_untouched by (auto simp: Hello_def untouched_def) (metis fst_conv)
next
  case (read_text c msg a fs ps)
  then show ?case using Inbound_cases [of "cnAdapter c" msg oor] by (simp add: untouched_def)
next
  case (read_overflow c msg a fs p)
  then show ?case using Inbound_cases [of "cnAdapter c" msg oor] by (simp add: untouched_def)
next
  case (read_binary c a fs)
  then show ?case using frames_untouched by (auto simp: Reject_def reject_def untouched_def) (metis fst_conv)
qed auto

lemma pump_panics:
  "cstep w rnd fmt oor c c' \<Longrightarrow> cnPump c' = PPanic \<Longrightarrow> cnPump c = PPanic \<or>
   (cnTaken c < length (ssEvents (cnSess c)) \<and> Outbound rnd fmt (ssEvents (cnSess c) ! cnTaken c) (cnAdapter c) = None)"
  by (induction rule: cstep.induct) auto

text \<open>While the session is open, the next event of the session is one the automaton of responses accepts.\<close>

lemma next_life:
  assumes "sess_part c" "ssClosed (cnSess c) = None" "run_life (LIdle 0) (seen c) = Some l"
    "cnTaken c < length (ssEvents (cnSess c))"
  shows "\<exists>l'. life_step l (ssEvents (cnSess c) ! cnTaken c) = Some l' \<and>
           run_life (LIdle 0) (take (Suc (cnTaken c)) (ssEvents (cnSess c))) = Some l'"
proof -
  define ev where "ev = ssEvents (cnSess c) ! cnTaken c"
  have "\<not> cnEnded c" using assms(1,2) by (auto simp: sess_part_def)
  then have "logged (cnSess c)" using assms(1) by (simp add: sess_part_def)
  then have r: "run_life (LIdle 0) (ssEvents (cnSess c)) = Some (life_of (cnSess c))"
    using assms(2) by (simp add: logged_def life_at_def delivered_def)
  have t: "take (Suc (cnTaken c)) (ssEvents (cnSess c)) = seen c @ [ev]"
    using assms(4) by (simp add: seen_def ev_def take_Suc_conv_app_nth)
  then have "ssEvents (cnSess c) = (seen c @ [ev]) @ drop (Suc (cnTaken c)) (ssEvents (cnSess c))"
    by (metis append_take_drop_id)
  then have "run_life (LIdle 0) (seen c @ [ev]) \<noteq> None" using r by (metis run_life_append bind.bind_lunit option.distinct(1) Option.bind.simps(1))
  then show ?thesis using assms(3) t by (auto simp: run_life_append ev_def bind_eq_Some_conv)
qed

lemma cstep_pump:
  assumes "cstep w rnd fmt oor c c'" "sess_part c" "pump_part c"
  shows "pump_part c'"
proof (unfold pump_part_def, rule impI)
  assume "ssClosed (cnSess c') = None"
  then have cl: "ssClosed (cnSess c) = None" using cstep_open assms(1) by blast
  then obtain l where l: "run_life (LIdle 0) (seen c) = Some l" "known l (cnAdapter c)" "cnPump c \<noteq> PPanic"
    using assms(3) by (auto simp: pump_part_def)
  have no: "cnPump c' \<noteq> PPanic"
    using pump_panics [OF assms(1)] next_life [OF assms(2) cl l(1)] Outbound_defined [OF _ l(2)] l(3) by blast
  show "cnPump c' \<noteq> PPanic \<and> (\<exists>l. run_life (LIdle 0) (seen c') = Some l \<and> known l (cnAdapter c'))"
  proof (cases "cnTaken c' = cnTaken c")
    case True
    then show ?thesis
      using no l known_same [OF adapter_step [OF assms(1) True], of l] seen_prefix [OF assms(1,2) True] by auto
  next
    case False
    then obtain a fs where e: "cnTaken c < length (ssEvents (cnSess c))" "Outbound rnd fmt (ssEvents (cnSess c) ! cnTaken c) (cnAdapter c) = Some (a, fs)"
        "cnAdapter c' = a" "seen c' = take (Suc (cnTaken c)) (ssEvents (cnSess c))"
      using taken_step [OF assms(1)] by (auto simp: seen_def)
    obtain l' where "life_step l (ssEvents (cnSess c) ! cnTaken c) = Some l'" "run_life (LIdle 0) (seen c') = Some l'"
      using next_life [OF assms(2) cl l(1) e(1)] e(4) by auto
    then show ?thesis using no Outbound_follows_life [OF _ l(2), of _ l' rnd fmt] e(2,3) by fastforce
  qed
qed

section \<open>What is written\<close>

fun frames_in :: "outMsg list \<Rightarrow> (origin \<times> frame) list" where
  "frames_in [] = []"
| "frames_in (OutFrame g f # q) = (g, f) # frames_in q"
| "frames_in (OutClose code reason # q) = frames_in q"

lemma frames_in_append [simp]: "frames_in (p @ q) = frames_in p @ frames_in q"
  by (induction p rule: frames_in.induct) simp_all

definition pump_left :: "conn \<Rightarrow> frame list" where
  "pump_left c = (case cnPump c of PSend fs \<Rightarrow> fs | _ \<Rightarrow> [])"

definition reader_left :: "conn \<Rightarrow> frame list" where
  "reader_left c = (case cnReader c of RSend fs \<Rightarrow> fs | _ \<Rightarrow> [])"

text \<open>What was written or is queued; the frames of one goroutine among it.\<close>

definition passed :: "conn \<Rightarrow> (origin \<times> frame) list" where
  "passed c = cnWritten c @ frames_in (cnOut c)"

definition sent_by :: "origin \<Rightarrow> (origin \<times> frame) list \<Rightarrow> frame list" where
  "sent_by g xs = map snd (filter (\<lambda>x. fst x = g) xs)"

lemma sent_by_simps [simp]:
  "sent_by g [] = []" "sent_by g (x # xs) = (if fst x = g then [snd x] else []) @ sent_by g xs"
  "sent_by g (xs @ ys) = sent_by g xs @ sent_by g ys"
  by (simp_all add: sent_by_def)

text \<open>The types of the frames the pump has built so far.\<close>

definition pump_types :: "conn \<Rightarrow> string list" where
  "pump_types c = (if cnPump c = PHello then [] else [''session.created'', ''conversation.created'']) @
     concat (map wire_types (seen c))"

definition order_part :: "conn \<Rightarrow> bool" where
  "order_part c \<longleftrightarrow>
     (\<not> cnWriterDone c \<longrightarrow> map frType (sent_by FromPump (passed c) @ pump_left c) = pump_types c) \<and>
     prefix (map frType (sent_by FromPump (cnWritten c))) (pump_types c) \<and>
     (cnPump c = PHello \<longrightarrow> cnTaken c = 0)"

definition reader_part :: "conn \<Rightarrow> bool" where
  "reader_part c \<longleftrightarrow> (\<forall>f \<in> set (sent_by FromReader (passed c) @ reader_left c). frType f = ''error'')"

lemma Hello_types: "Hello fmt a = (b, fs) \<Longrightarrow> map frType fs = [''session.created'', ''conversation.created'']"
  using frames_counted by (fastforce simp: Hello_def)

lemma Inbound_types: "Inbound oor msg a = (b, fs, ps) \<Longrightarrow> \<forall>f \<in> set fs. frType f = ''error''"
  using Inbound_cases [of a msg oor] by (auto simp: refused_def accepted_def)

lemma Reject_types: "Reject a = (b, fs) \<Longrightarrow> \<forall>f \<in> set fs. frType f = ''error''"
  using frames_counted [of "[_]" a b fs] by (fastforce simp: Reject_def reject_def)

lemmas conn_parts = passed_def pump_left_def reader_left_def

lemma cstep_reader: "cstep w rnd fmt oor c c' \<Longrightarrow> reader_part c \<Longrightarrow> reader_part c'"
  by (induction rule: cstep.induct)
     (auto simp: reader_part_def conn_parts dest!: Inbound_types Reject_types split: reader_pc.splits)

lemma types_same:
  "cstep w rnd fmt oor c c' \<Longrightarrow> sess_part c \<Longrightarrow> cnTaken c' = cnTaken c \<Longrightarrow> (cnPump c' = PHello) = (cnPump c = PHello) \<Longrightarrow>
   pump_types c' = pump_types c"
  using seen_prefix [of w rnd fmt oor c c'] by (simp add: pump_types_def)

text \<open>A step that leaves the pump's frames where they are, or moves them along the queue.\<close>

definition moves :: "conn \<Rightarrow> conn \<Rightarrow> bool" where
  "moves c c' \<longleftrightarrow> pump_types c' = pump_types c \<and> (cnWriterDone c \<longrightarrow> cnWriterDone c') \<and>
     (cnPump c' = PHello \<longrightarrow> cnPump c = PHello) \<and> cnTaken c' = cnTaken c \<and>
     (\<not> cnWriterDone c' \<longrightarrow> sent_by FromPump (passed c') @ pump_left c' = sent_by FromPump (passed c) @ pump_left c) \<and>
     (cnWriterDone c \<longrightarrow> cnWritten c' = cnWritten c) \<and>
     (cnWritten c' = cnWritten c \<or> (\<exists>f q. \<not> cnWriterDone c \<and> cnOut c = f # q \<and> cnWritten c' = cnWritten c @ frames_in [f]))"

lemma moves_order:
  assumes "moves c c'" "order_part c"
  shows "order_part c'"
proof -
  have "prefix (map frType (sent_by FromPump (cnWritten c'))) (pump_types c)"
  proof (cases "cnWritten c' = cnWritten c")
    case False
    then obtain f q where q: "\<not> cnWriterDone c" "cnOut c = f # q" "cnWritten c' = cnWritten c @ frames_in [f]"
      using assms(1) by (auto simp: moves_def)
    have "frames_in (f # q) = frames_in [f] @ frames_in q" by (cases f) simp_all
    then have "map frType (sent_by FromPump (cnWritten c') @ sent_by FromPump (frames_in q) @ pump_left c) = pump_types c"
      using assms(2) q by (simp add: order_part_def passed_def)
    then show ?thesis unfolding prefix_def by (metis map_append)
  qed (use assms(2) in \<open>simp add: order_part_def\<close>)
  then show ?thesis using assms by (auto simp: moves_def order_part_def)
qed

lemma cstep_moves:
  assumes "cstep w rnd fmt oor c c'" "sess_part c" "cnTaken c' = cnTaken c" "cnPump c \<noteq> PHello \<or> cnPump c' = PHello"
  shows "moves c c'"
proof -
  have p: "(cnPump c' = PHello) = (cnPump c = PHello)" using assms(1,4) by cases auto
  have t: "pump_types c' = pump_types c" by (rule types_same [OF assms(1,2,3) p])
  from assms(1) have "(cnWriterDone c \<longrightarrow> cnWriterDone c') \<and>
      (\<not> cnWriterDone c' \<longrightarrow> sent_by FromPump (passed c') @ pump_left c' = sent_by FromPump (passed c) @ pump_left c) \<and>
      (cnWriterDone c \<longrightarrow> cnWritten c' = cnWritten c) \<and>
      (cnWritten c' = cnWritten c \<or> (\<exists>f q. \<not> cnWriterDone c \<and> cnOut c = f # q \<and> cnWritten c' = cnWritten c @ frames_in [f]))"
    using assms(3,4) by cases (auto simp: conn_parts)
  then show ?thesis using t p assms(3) by (simp add: moves_def)
qed

lemma cstep_order:
  assumes "cstep w rnd fmt oor c c'" "sess_part c" "order_part c"
  shows "order_part c'"
proof (cases "cnTaken c' = cnTaken c \<and> (cnPump c \<noteq> PHello \<or> cnPump c' = PHello)")
  case True
  then show ?thesis using moves_order [OF cstep_moves [OF assms(1,2)] assms(3)] by blast
next
  case False
  show ?thesis
  proof (cases "cnTaken c' = cnTaken c")
    case True
    then have h: "cnPump c = PHello" "cnPump c' \<noteq> PHello" using False by auto
    with assms(1) obtain a fs where c': "c' = c\<lparr>cnAdapter := a, cnPump := PSend fs\<rparr>" "Hello fmt (cnAdapter c) = (a, fs)"
      by cases auto
    then show ?thesis using h(1) assms(3) Hello_types [OF c'(2)]
      by (auto simp: order_part_def pump_types_def seen_def conn_parts)
  next
    case False
    then obtain ev a fs where e: "cnPump c = PSend []" "cnTaken c < length (ssEvents (cnSess c))" "ev = ssEvents (cnSess c) ! cnTaken c"
        "Outbound rnd fmt ev (cnAdapter c) = Some (a, fs)"
        "c' = c\<lparr>cnAdapter := a, cnPump := PSend fs, cnTaken := Suc (cnTaken c), cnClose := note_close ev (cnClose c)\<rparr>"
      using taken_step [OF assms(1)] by auto
    have "pump_types c' = pump_types c @ wire_types ev"
      using e by (simp add: pump_types_def seen_def take_Suc_conv_app_nth)
    moreover have "map frType fs = wire_types ev" using Outbound_projected [OF e(4)] by (simp add: projected_def)
    ultimately show ?thesis using assms(3) e(1,5) by (auto simp: order_part_def conn_parts)
  qed
qed

section \<open>Event ids\<close>

lemma reject_counted: "reject i e a = (b, fs) \<Longrightarrow> counted a b fs"
  using frames_counted by (fastforce simp: reject_def)

lemma Inbound_counted:
  assumes "Inbound oor msg a = (b, fs, ps)"
  shows "counted a b fs"
proof -
  obtain i r where e: "decodeEnvelope msg = (i, r)" by fastforce
  show ?thesis
  proof (cases r)
    case (Inl err)
    then show ?thesis using assms e by (auto simp: Inbound_def dest: reject_counted split: prod.split_asm)
  next
    case (Inr env)
    obtain m where "fst (dispatch oor env a) = a\<lparr>adModel := m\<rparr>" using dispatch_frame by blast
    then obtain d where d: "dispatch oor env a = (a\<lparr>adModel := m\<rparr>, d)" by (cases "dispatch oor env a") auto
    then show ?thesis using assms e Inr
      by (cases d) (auto simp: Inbound_def counted_def next_ids_def dest!: reject_counted split: prod.split_asm)
  qed
qed

definition all_ids :: "conn \<Rightarrow> string multiset" where
  "all_ids c = mset (map frID (map snd (passed c) @ pump_left c @ reader_left c))"

lemma cstep_ids: "cstep w rnd fmt oor c c' \<Longrightarrow>
   \<exists>fs. counted (cnAdapter c) (cnAdapter c') fs \<and> all_ids c' \<subseteq># all_ids c + mset (map frID fs)"
proof (induction rule: cstep.induct)
  case (pump_hello c a fs)
  then show ?case using frames_counted by (intro exI [of _ fs]) (fastforce simp: all_ids_def conn_parts Hello_def)
next
  case (pump_event c ev a fs)
  then show ?case using Outbound_projected [OF pump_event(4)]
    by (intro exI [of _ fs]) (simp add: projected_def all_ids_def conn_parts)
next
  case (read_text c msg a fs ps)
  then show ?case using Inbound_counted [OF read_text(2)] by (intro exI [of _ fs]) (simp add: all_ids_def conn_parts)
next
  case (read_overflow c msg a fs p)
  then show ?case using Inbound_counted [OF read_overflow(2)] by (intro exI [of _ fs]) (simp add: all_ids_def conn_parts)
next
  case (read_binary c a fs)
  then show ?case using reject_counted [OF read_binary(2) [unfolded Reject_def]]
    by (intro exI [of _ fs]) (simp add: all_ids_def conn_parts)
next
  case (pump_send c f fs)
  then show ?case by (intro exI [of _ "[]"]) (simp add: all_ids_def conn_parts)
next
  case (read_panic c f fs)
  then show ?case by (intro exI [of _ "[]"]) (simp add: all_ids_def conn_parts)
qed (intro exI [of _ "[]"], simp add: all_ids_def conn_parts)+

text \<open>Every id handed out so far belongs to at most one frame.\<close>

definition ids_part :: "adapter \<Rightarrow> conn \<Rightarrow> bool" where
  "ids_part a0 c \<longleftrightarrow> (\<exists>n. adEventPrefix (cnAdapter c) = adEventPrefix a0 \<and> adEventSeq (cnAdapter c) = adEventSeq a0 + n \<and>
     all_ids c \<subseteq># mset (next_ids a0 n))"

lemma cstep_ids_part:
  assumes "cstep w rnd fmt oor c c'" "ids_part a0 c"
  shows "ids_part a0 c'"
proof -
  obtain fs where fs: "counted (cnAdapter c) (cnAdapter c') fs" "all_ids c' \<subseteq># all_ids c + mset (map frID fs)"
    using cstep_ids [OF assms(1)] by blast
  obtain n where n: "adEventPrefix (cnAdapter c) = adEventPrefix a0" "adEventSeq (cnAdapter c) = adEventSeq a0 + n"
      "all_ids c \<subseteq># mset (next_ids a0 n)"
    using assms(2) by (auto simp: ids_part_def)
  have "mset (next_ids a0 (n + length fs)) = mset (next_ids a0 n) + mset (map frID fs)"
    using fs(1) next_ids_add [OF n(1,2), of "length fs"] by (simp add: counted_def)
  then have "all_ids c' \<subseteq># mset (next_ids a0 (n + length fs))"
    using fs(2) n(3) by (metis subset_mset.add_mono subset_mset.order_refl subset_mset.order_trans)
  then show ?thesis using fs(1) n by (auto simp: ids_part_def counted_def)
qed

lemma submset_distinct: "mset xs \<subseteq># mset ys \<Longrightarrow> distinct ys \<Longrightarrow> distinct xs"
proof -
  assume s: "mset xs \<subseteq># mset ys" and d: "distinct ys"
  have "count (mset xs) a = (if a \<in> set xs then 1 else 0)" for a
  proof -
    have "count (mset xs) a \<le> count (mset ys) a" using s by (rule mset_subset_eq_count)
    also have "\<dots> \<le> 1" using d by (simp add: distinct_count_atmost_1)
    finally have "count (mset xs) a \<le> 1" .
    moreover have "count (mset xs) a = 0 \<longleftrightarrow> a \<notin> set xs" by (simp add: count_eq_zero_iff)
    ultimately show ?thesis by (auto simp: le_Suc_eq)
  qed
  then show "distinct xs" by (simp add: distinct_count_atmost_1)
qed

lemma ids_distinct: "ids_part a0 c \<Longrightarrow> distinct (map (frID \<circ> snd) (cnWritten c))"
proof -
  assume "ids_part a0 c"
  then obtain n where "all_ids c \<subseteq># mset (next_ids a0 n)" by (auto simp: ids_part_def)
  moreover have "mset (map (frID \<circ> snd) (cnWritten c)) \<subseteq># all_ids c"
    by (simp add: all_ids_def conn_parts)
  ultimately show ?thesis using submset_distinct next_ids_distinct subset_mset.order_trans by metis
qed

section \<open>The close frame\<close>

definition close_part :: "conn \<Rightarrow> bool" where
  "close_part c \<longleftrightarrow> cnClose c = fold note_close (seen c) (StatusNormalClosure, []) \<and>
     (\<forall>code reason. OutClose code reason \<in> set (cnOut c) \<or> cnSent c = Some (code, reason) \<longrightarrow>
        (code, reason) = cnClose c \<and> cnEnded c \<and> cnTaken c = length (ssEvents (cnSess c)) \<and> cnPump c \<in> {PLast, PDone})"

lemma cstep_ended: "cstep w rnd fmt oor c c' \<Longrightarrow> sess_part c \<Longrightarrow> cnEnded c \<Longrightarrow>
   cnEnded c' \<and> ssEvents (cnSess c') = ssEvents (cnSess c)"
  by (induction rule: cstep.induct) (auto simp: sess_part_def offered_def)

lemma cstep_close:
  assumes "cstep w rnd fmt oor c c'" "sess_part c" "close_part c"
  shows "close_part c'"
proof (cases "cnTaken c' = cnTaken c")
  case True
  have s: "seen c' = seen c" by (rule seen_prefix [OF assms(1,2) True])
  have e: "cnEnded c \<Longrightarrow> cnEnded c' \<and> ssEvents (cnSess c') = ssEvents (cnSess c)" by (rule cstep_ended [OF assms(1,2)])
  have cl: "cnClose c' = cnClose c" using assms(1) True by cases auto
  have p: "cnPump c \<in> {PLast, PDone} \<Longrightarrow> cnPump c' \<in> {PLast, PDone}" using assms(1) by cases auto
  have "OutClose code reason \<in> set (cnOut c') \<or> cnSent c' = Some (code, reason) \<Longrightarrow>
      OutClose code reason \<in> set (cnOut c) \<or> cnSent c = Some (code, reason) \<or>
      ((code, reason) = cnClose c \<and> cnEnded c \<and> cnTaken c = length (ssEvents (cnSess c)) \<and> cnPump c' = PLast)" for code reason
    using assms(1) by cases auto
  then show ?thesis using assms(3) s e cl p True unfolding close_part_def by (metis insertCI)
next
  case False
  then obtain ev a fs where e: "cnPump c = PSend []" "cnTaken c < length (ssEvents (cnSess c))" "ev = ssEvents (cnSess c) ! cnTaken c"
      "c' = c\<lparr>cnAdapter := a, cnPump := PSend fs, cnTaken := Suc (cnTaken c), cnClose := note_close ev (cnClose c)\<rparr>"
    using taken_step [OF assms(1)] by auto
  then show ?thesis using assms(3) by (auto simp: close_part_def seen_def take_Suc_conv_app_nth)
qed

section \<open>Properties\<close>

definition conn_inv :: "adapter \<Rightarrow> conn \<Rightarrow> bool" where
  "conn_inv a0 c \<longleftrightarrow> sess_part c \<and> pump_part c \<and> order_part c \<and> reader_part c \<and> ids_part a0 c \<and> close_part c"

lemma creach_inv: "creach w rnd fmt oor c0 c \<Longrightarrow> conn_inv a0 c0 \<Longrightarrow> conn_inv a0 c"
  by (induction rule: creach.induct)
     (auto simp: conn_inv_def intro: cstep_sess cstep_pump cstep_order cstep_reader cstep_ids_part cstep_close)

lemma serve_inv: "session_ok (ssCfg (New opts)) \<Longrightarrow> conn_inv (adapter_New rnd sid model (opSession opts)) (serve rnd sid model opts)"
  by (auto simp: conn_inv_def serve_def sess_part_def pump_part_def order_part_def reader_part_def ids_part_def close_part_def
      New_inv New_logged seen_def known_def pump_types_def conn_parts all_ids_def)

lemmas connection_inv = creach_inv [OF _ serve_inv, unfolded conn_inv_def]

lemma connection_frames:
  assumes "session_ok (ssCfg (New opts))" "creach w rnd fmt oor (serve rnd sid model opts) c"
  shows "prefix (map frType (sent_by FromPump (cnWritten c)))
           ([''session.created'', ''conversation.created''] @ concat (map wire_types (ssEvents (cnSess c)))) \<and>
         list_all (\<lambda>f. frType f = ''error'') (sent_by FromReader (cnWritten c)) \<and>
         distinct (map (frID \<circ> snd) (cnWritten c))"
proof -
  note i = connection_inv [OF assms(2,1)]
  have "prefix (pump_types c) ([''session.created'', ''conversation.created''] @ concat (map wire_types (ssEvents (cnSess c))))"
  proof (cases "cnPump c = PHello")
    case True
    then show ?thesis using i by (auto simp: pump_types_def order_part_def seen_def)
  next
    case False
    have "concat (map wire_types (ssEvents (cnSess c))) =
        concat (map wire_types (seen c)) @ concat (map wire_types (drop (cnTaken c) (ssEvents (cnSess c))))"
      unfolding seen_def by (metis append_take_drop_id concat_append map_append)
    then show ?thesis using False by (simp add: pump_types_def)
  qed
  then show ?thesis using i ids_distinct
    by (auto simp: order_part_def reader_part_def list_all_iff conn_parts intro: prefix_order.trans)
qed

text \<open>What a client reads, however the goroutines of its connection interleave. The frames the
  gateway writes on behalf of the session are, in order and without gaps, the greeting followed by the
  projection of the session's events; the only other frames are errors that answer the client's own
  messages; and no event id is used twice.\<close>

theorem client_sees:
  assumes "session_ok (ssCfg (New opts))" "creach w rnd fmt oor (serve rnd sid model opts) c"
  shows "prefix (map frType (sent_by FromPump (cnWritten c)))
           ([''session.created'', ''conversation.created''] @ concat (map wire_types (ssEvents (cnSess c)))) \<and>
         list_all (\<lambda>f. frType f = ''error'') (sent_by FromReader (cnWritten c)) \<and>
         distinct (map (frID \<circ> snd) (cnWritten c))"
  using assms by (rule connection_frames)

text \<open>The goroutine that projects the session's events, whose panic would end the process, does not
  panic as long as the session is open.\<close>

theorem pump_safe_while_open:
  assumes "session_ok (ssCfg (New opts))" "creach w rnd fmt oor (serve rnd sid model opts) c" "ssClosed (cnSess c) = None"
  shows "cnPump c \<noteq> PPanic"
  using connection_inv [OF assms(2,1)] assms(3) by (simp add: pump_part_def)

text \<open>A close frame is the last thing written, it is written after the session has ended and all its
  events were projected, and its code is the one the events call for: internal error for a fatal error
  or an overflow, going away on shutdown, normal otherwise.\<close>

theorem close_frame:
  assumes "session_ok (ssCfg (New opts))" "creach w rnd fmt oor (serve rnd sid model opts) c" "cnSent c = Some cr"
  shows "cr = fold note_close (ssEvents (cnSess c)) (StatusNormalClosure, []) \<and> cnEnded c \<and>
         (\<forall>c'. cstep w rnd fmt oor c c' \<longrightarrow> cnWritten c' = cnWritten c)"
proof -
  note i = connection_inv [OF assms(2,1)]
  have d: "cnSent c \<noteq> None \<longrightarrow> cnWriterDone c" using assms(2)
  proof (induction rule: creach.induct)
    case (creach_step c c')
    from creach_step(2,3) show ?case by cases auto
  qed (simp add: serve_def)
  have "cnWritten c' = cnWritten c" if "cstep w rnd fmt oor c c'" for c'
    using that d assms(3) by cases auto
  then show ?thesis using i assms(3) by (cases cr) (auto simp: close_part_def seen_def)
qed

section \<open>Two runs\<close>

text \<open>A connection whose greeting is built, but not yet sent, when the client's first message arrives, a
  binary one; its answer overtakes the greeting.\<close>

abbreviation no_fmt :: "f64 \<Rightarrow> string" where "no_fmt \<equiv> \<lambda>_. []"
abbreviation no_oor :: "f64 \<Rightarrow> int" where "no_oor \<equiv> \<lambda>_. 0"

definition conn0 :: conn where "conn0 = serve unary ''sess_1'' [] plain_options"

definition greeted :: adapter where "greeted = fst (Hello no_fmt fresh_adapter)"
definition greeting :: "frame list" where "greeting = snd (Hello no_fmt fresh_adapter)"
definition answered_adapter :: adapter where "answered_adapter = fst (Reject greeted)"
definition answer :: "frame list" where "answer = snd (Reject greeted)"

lemma conn0_fields [simp]:
  "cnSess conn0 = New plain_options" "cnAdapter conn0 = fresh_adapter" "cnPump conn0 = PHello" "cnReader conn0 = RRead"
  "cnOut conn0 = []" "cnOutClosed conn0 = False" "cnWriterDone conn0 = False" "cnWritten conn0 = []" "cnTaken conn0 = 0"
  "cnEnded conn0 = False" "cnClose conn0 = (1000, [])" "cnSent conn0 = None" "cnPosts conn0 = []"
  by (simp_all add: conn0_def serve_def fresh_adapter_def plain_options_def StatusNormalClosure_def)

lemma plain_queue [simp]: "limOutputEventQueue (ssLimits (New plain_options)) = 64"
  by (simp add: New_def plain_options_def plain_limits_def Let_def applyTurnDetection_def disarmEndOfTurn_def)

lemma six_values: "six (Suc 0) = ''000001''" "six 2 = ''000002''" "six 3 = ''000003''" "six (Suc (Suc (Suc 0))) = ''000003''"
  by code_simp+

lemma fresh_counter: "adEventPrefix fresh_adapter = ''a''" "adEventSeq fresh_adapter = 0"
  by (simp_all add: fresh_adapter_def adapter_New_def newID_def unary_def idAlphabet_def Let_def)

lemma greeting_built: "Hello no_fmt fresh_adapter = (greeted, greeting)" "Reject greeted = (answered_adapter, answer)"
  by (simp_all add: greeted_def greeting_def answered_adapter_def answer_def)

lemma greeting_frames:
  "map frType greeting = [''session.created'', ''conversation.created'']"
  "map frID greeting = [''event_a000001'', ''event_a000002'']" "adEventPrefix greeted = ''a''" "adEventSeq greeted = 2"
proof -
  show t: "map frType greeting = [''session.created'', ''conversation.created'']" by (rule Hello_types [OF greeting_built(1)])
  have "counted fresh_adapter greeted greeting"
    using frames_counted greeting_built(1) by (fastforce simp: Hello_def)
  moreover have "length greeting = 2" using arg_cong [OF t, of length] by simp
  ultimately show "map frID greeting = [''event_a000001'', ''event_a000002'']" "adEventPrefix greeted = ''a''" "adEventSeq greeted = 2"
    by (simp_all add: counted_def next_ids_def fresh_counter six_values numeral_2_eq_2 del: One_nat_def) (simp_all add: six_values numeral_2_eq_2 [symmetric])
qed

lemma answer_frames: "map frType answer = [''error'']" "map frID answer = [''event_a000003'']"
proof -
  have f: "counted greeted answered_adapter answer \<and> map frType answer = [''error'']"
    using frames_counted [of _ greeted answered_adapter answer] greeting_built(2) by (fastforce simp: Reject_def reject_def)
  then show "map frType answer = [''error'']" by simp
  have "length answer = 1" using arg_cong [OF conjunct2 [OF f], of length] by simp
  then show "map frID answer = [''event_a000003'']"
    using f by (simp add: counted_def next_ids_def greeting_frames six_values)
qed

definition overtaken :: conn where
  "overtaken = conn0\<lparr>cnAdapter := answered_adapter, cnPump := PSend (tl greeting), cnReader := RSend [], cnOut := [],
     cnWritten := [(FromReader, hd answer), (FromPump, hd greeting)]\<rparr>"

lemma creach_then: "creach w rnd fmt oor c0 c \<Longrightarrow> cstep w rnd fmt oor c c1 \<Longrightarrow> c1 = c' \<Longrightarrow> creach w rnd fmt oor c0 c'"
  using creach_step by blast

lemma overtaken_reach: "creach calm unary no_fmt no_oor conn0 overtaken"
proof -
  let ?R = "creach calm unary no_fmt no_oor conn0"
  obtain g1 g2 where g: "greeting = [g1, g2]" using arg_cong [OF greeting_frames(1), of length] by (auto simp: length_Suc_conv)
  obtain e where e: "answer = [e]" using arg_cong [OF answer_frames(1), of length] by (auto simp: length_Suc_conv)
  let ?c = "conn0\<lparr>cnAdapter := greeted, cnPump := PSend greeting\<rparr>"
  let ?d = "?c\<lparr>cnAdapter := answered_adapter, cnReader := RSend [e]\<rparr>"
  let ?f = "?d\<lparr>cnOut := [OutFrame FromReader e], cnReader := RSend []\<rparr>"
  let ?h = "?f\<lparr>cnOut := [], cnWritten := [(FromReader, e)]\<rparr>"
  let ?i = "?h\<lparr>cnOut := [OutFrame FromPump g1], cnPump := PSend [g2]\<rparr>"
  have 1: "?R ?c"
    by (rule creach_then [OF creach_refl pump_hello]) (simp_all add: greeting_built)
  have 2: "?R ?d"
    by (rule creach_then [OF 1 read_binary]) (simp_all add: greeting_built(2) e)
  have 3: "?R ?f"
    by (rule creach_then [OF 2 read_send]) (simp_all add: room_def)
  have 4: "?R ?h"
    by (rule creach_then [OF 3 write_frame]) simp_all
  have 5: "?R ?i"
    by (rule creach_then [OF 4 pump_send]) (simp_all add: g room_def)
  show ?thesis
    by (rule creach_then [OF 5 write_frame]) (auto simp: overtaken_def g e intro!: conn.equality)
qed

text \<open>The greeting need not come first and event ids need not increase. The reader starts before the
  greeting is sent, and a frame's id is drawn before the frame is queued, so an answer to a client's
  first message can be written before \<open>session.created\<close>, and with a larger id.\<close>

theorem answer_before_greeting:
  "creach calm unary no_fmt no_oor (serve unary ''sess_1'' [] plain_options) overtaken \<and>
   map (frType \<circ> snd) (cnWritten overtaken) = [''error'', ''session.created''] \<and>
   map (frID \<circ> snd) (cnWritten overtaken) = [''event_a000003'', ''event_a000001'']"
proof -
  obtain g1 g2 where g: "greeting = [g1, g2]" using arg_cong [OF greeting_frames(1), of length] by (auto simp: length_Suc_conv)
  obtain e where e: "answer = [e]" using arg_cong [OF answer_frames(1), of length] by (auto simp: length_Suc_conv)
  show ?thesis using overtaken_reach greeting_frames(1,2) answer_frames
    by (simp add: overtaken_def g e conn0_def)
qed

theorem client_sees_witness:
  "prefix (map frType (sent_by FromPump (cnWritten overtaken)))
     ([''session.created'', ''conversation.created''] @ concat (map wire_types (ssEvents (cnSess overtaken)))) \<and>
   distinct (map (frID \<circ> snd) (cnWritten overtaken))"
  using client_sees [OF plain_ok overtaken_reach [unfolded conn0_def]] by blast

theorem pump_safe_while_open_witness: "cnPump overtaken \<noteq> PPanic"
  by (rule pump_safe_while_open [OF plain_ok overtaken_reach [unfolded conn0_def]]) (simp add: overtaken_def)

text \<open>A connection whose session timed out: its pump has queued the close frame and closed the queue; the
  writer has not yet caught up.\<close>

definition timed_out :: session where
  "timed_out = cleanup calm (cancel_ctx CloseSessionTimeout (New plain_options))"

lemma timed_out_fields:
  "ssEvents timed_out = [EvSessionClosed CloseSessionTimeout]" "limOutputEventQueue (ssLimits timed_out) = 64"
proof -
  have "ssLimits (cancel_ctx r (New plain_options)) = ssLimits (New plain_options)" for r by simp
  then show "ssEvents timed_out = [EvSessionClosed CloseSessionTimeout]" "limOutputEventQueue (ssLimits timed_out) = 64"
    by (simp_all add: timed_out_def cleanup_def cancel_ctx_def asr_call_def stopTimers_def stopASRWait_def disarmEndOfTurn_def
        dropDeferredTrigger_def calm_def Let_def)
qed

definition closing_queue :: "outMsg list" where
  "closing_queue = map (OutFrame FromPump) greeting @ [OutClose 1000 ''session_timeout'']"

definition shut :: conn where
  "shut = conn0\<lparr>cnSess := timed_out, cnEnded := True, cnAdapter := greeted, cnPump := PDone, cnTaken := 1,
     cnClose := (1000, ''session_timeout''), cnOut := closing_queue, cnOutClosed := True\<rparr>"

lemma shut_reach: "creach calm unary no_fmt no_oor conn0 shut"
proof -
  let ?R = "creach calm unary no_fmt no_oor conn0"
  obtain g1 g2 where g: "greeting = [g1, g2]" using arg_cong [OF greeting_frames(1), of length] by (auto simp: length_Suc_conv)
  let ?a = "conn0\<lparr>cnSess := cancel_ctx CloseSessionTimeout (New plain_options)\<rparr>"
  let ?b = "conn0\<lparr>cnSess := timed_out, cnEnded := True\<rparr>"
  let ?c = "?b\<lparr>cnAdapter := greeted, cnPump := PSend [g1, g2]\<rparr>"
  let ?d = "?c\<lparr>cnOut := [OutFrame FromPump g1], cnPump := PSend [g2]\<rparr>"
  let ?e = "?d\<lparr>cnOut := [OutFrame FromPump g1, OutFrame FromPump g2], cnPump := PSend []\<rparr>"
  let ?f = "?e\<lparr>cnTaken := 1, cnClose := (1000, ''session_timeout'')\<rparr>"
  let ?g = "?f\<lparr>cnOut := closing_queue, cnPump := PLast\<rparr>"
  note room = room_def timed_out_fields
  have 1: "?R ?a"
    by (rule creach_then [OF creach_refl ctx_done [where reason = CloseSessionTimeout]]) (simp add: cancel_sess_def)
  have 2: "?R ?b" by (rule creach_then [OF 1 actor_exit]) (simp_all add: timed_out_def)
  have 3: "?R ?c" by (rule creach_then [OF 2 pump_hello]) (simp_all add: greeting_built g)
  have 4: "?R ?d" by (rule creach_then [OF 3 pump_send]) (simp_all add: room)
  have 5: "?R ?e" by (rule creach_then [OF 4 pump_send]) (simp_all add: room)
  have 6: "?R ?f" by (rule creach_then [OF 5 pump_event [where a = greeted and fs = "[]" and ev = "EvSessionClosed CloseSessionTimeout"]])
       (auto simp: timed_out_fields StatusNormalClosure_def intro!: conn.equality)
  have 7: "?R ?g" by (rule creach_then [OF 6 pump_last]) (simp_all add: room closing_queue_def g)
  show ?thesis by (rule creach_then [OF 7 pump_close]) (simp_all add: shut_def)
qed

text \<open>\<^bold>\<open>C40\<close>: the reader can send on a closed channel. Once the session has ended the pump closes the queue of
  outgoing messages while the reader still reads; a message that must be answered with an error at that
  moment panics the goroutine that serves the connection, with frames still queued for the client.\<close>

theorem reader_sends_on_closed_channel:
  "\<exists>c. creach calm unary no_fmt no_oor (serve unary ''sess_1'' [] plain_options) c \<and>
     cnReader c = RPanic \<and> \<not> cnWriterDone c \<and> cnOut c = closing_queue \<and> cnWritten c = []"
proof -
  obtain f where f: "Reject greeted = (answered_adapter, [f])"
    using greeting_built(2) arg_cong [OF answer_frames(1), of length] by (auto simp: length_Suc_conv)
  have 1: "creach calm unary no_fmt no_oor conn0 (shut\<lparr>cnAdapter := answered_adapter, cnReader := RSend [f]\<rparr>)"
    by (rule creach_then [OF shut_reach read_binary]) (simp_all add: shut_def f)
  have "creach calm unary no_fmt no_oor conn0 (shut\<lparr>cnAdapter := answered_adapter, cnReader := RPanic\<rparr>)"
    by (rule creach_then [OF 1 read_panic]) (simp_all add: shut_def)
  then show ?thesis unfolding conn0_def 
    by (intro exI [of _ "shut\<lparr>cnAdapter := answered_adapter, cnReader := RPanic\<rparr>"]) (simp add: shut_def)
qed

definition finished :: conn where
  "finished = shut\<lparr>cnOut := [], cnWritten := map (Pair FromPump) greeting, cnWriterDone := True, cnSent := Some (1000, ''session_timeout'')\<rparr>"

lemma finished_reach: "creach calm unary no_fmt no_oor conn0 finished"
proof -
  let ?R = "creach calm unary no_fmt no_oor conn0"
  obtain g1 g2 where g: "greeting = [g1, g2]" using arg_cong [OF greeting_frames(1), of length] by (auto simp: length_Suc_conv)
  let ?a = "shut\<lparr>cnOut := [OutFrame FromPump g2, OutClose 1000 ''session_timeout''], cnWritten := [(FromPump, g1)]\<rparr>"
  let ?b = "?a\<lparr>cnOut := [OutClose 1000 ''session_timeout''], cnWritten := [(FromPump, g1), (FromPump, g2)]\<rparr>"
  have 1: "?R ?a" by (rule creach_then [OF shut_reach write_frame]) (simp_all add: shut_def closing_queue_def g)
  have 2: "?R ?b" by (rule creach_then [OF 1 write_frame]) (simp_all add: shut_def)
  show ?thesis by (rule creach_then [OF 2 write_close]) (auto simp: shut_def finished_def g intro!: conn.equality)
qed

theorem close_frame_witness:
  "(1000, ''session_timeout'') = fold note_close (ssEvents (cnSess finished)) (StatusNormalClosure, []) \<and> cnEnded finished"
  using close_frame [OF plain_ok finished_reach [unfolded conn0_def], of "(1000, ''session_timeout'')"]
  by (simp add: finished_def)

end
