(* ===== verification/Gateway.thy ===== *)
theory Gateway
  imports ServerProps AdminUse StaticConfig
begin

text \<open>
  \<^verbatim>\<open>internal/server/server.go\<close> around the connections: authentication, the checks before the upgrade, the
  limit on concurrent sessions and the connections it admits, over any \<open>Resolver\<close>. Requests are handled
  concurrently: a handler that was resolved, one that holds a slot, one that must give its slot back and
  one that serves a connection are states of their own, and the atomic counter is changed by one of them
  at a time. The resolver changes on its own, as the Admin API does while connections run.
\<close>

section \<open>The HTTP side\<close>

record upgrade_request =
  urMethod :: string
  urAuthorization :: string
  urModel :: string

record 's server =
  svKey :: string
  svLimits :: Limits
  svRes :: 's
  svShut :: bool

definition authorized :: "'s server \<Rightarrow> upgrade_request \<Rightarrow> bool" where
  "authorized sv r \<longleftrightarrow> take 7 (urAuthorization r) = ''Bearer '' \<and> trim_space (drop 7 (urAuthorization r)) = svKey sv"

text \<open>What \<open>handleRealtime\<close> checks before it reserves a slot: the status and error type of a refusal, or the
  resolved configuration.\<close>

definition admit :: "('s \<Rightarrow> resolve_error + 'h AdminRuntime) \<Rightarrow> 's server \<Rightarrow> upgrade_request \<Rightarrow> (nat \<times> string) + 'h AdminRuntime" where
  "admit resolve sv r =
     (if urMethod r \<noteq> ''GET'' then Inl (405, ''invalid_request_error'')
      else if \<not> authorized sv r then Inl (401, ''invalid_request_error'')
      else if svShut sv then Inl (503, ''server_error'')
      else case resolve (svRes sv) of Inl e \<Rightarrow> Inl (503, ''server_error'') | Inr rt \<Rightarrow> Inr rt)"

definition max_sessions_reached :: "nat \<times> string" where "max_sessions_reached = (503, ''server_error'')"

definition session_options :: "Limits \<Rightarrow> 'h AdminRuntime \<Rightarrow> Options" where
  "session_options limits rt = \<lparr>opSession = rtSession rt, opLimits = limits, opASRLanguage = rtASRLanguage rt, opASRModel = rtASRModel rt,
     opTemperature = rtTemperature rt\<rparr>"

section \<open>The process\<close>

text \<open>\<open>gwResolved\<close>: handlers between \<open>Resolve\<close> and the reservation; \<open>gwOver\<close>: handlers that took the counter over
  the limit and have yet to give it back; \<open>gwAccepting\<close>: handlers with a slot whose WebSocket is not yet open;
  \<open>gwConns\<close>: the connections being served.\<close>

record ('s, 'h) gateway =
  gwServer :: "'s server"
  gwActive :: int
  gwResolved :: "('h AdminRuntime \<times> string) list"
  gwOver :: nat
  gwAccepting :: "('h AdminRuntime \<times> string) list"
  gwConns :: "conn list"
  gwRefused :: "(nat \<times> string) list"

definition new_server :: "StaticConfig \<Rightarrow> 's \<Rightarrow> 's server" where
  "new_server cfg res = \<lparr>svKey = auAPIKey (scAuth cfg), svLimits = scLimits cfg, svRes = res, svShut = False\<rparr>"

definition new_gateway :: "StaticConfig \<Rightarrow> 's \<Rightarrow> ('s, 'h) gateway" where
  "new_gateway cfg res = \<lparr>gwServer = new_server cfg res, gwActive = 0, gwResolved = [], gwOver = 0, gwAccepting = [], gwConns = [], gwRefused = []\<rparr>"

definition drop_nth :: "nat \<Rightarrow> 'a list \<Rightarrow> 'a list" where
  "drop_nth i xs = take i xs @ drop (Suc i) xs"

text \<open>A connection whose handler returns: the reader has left, the session has ended, pump and writer are done.\<close>

definition conn_over :: "conn \<Rightarrow> bool" where
  "conn_over c \<longleftrightarrow> cnReader c = RLeft \<and> cnEnded c \<and> cnPump c = PDone \<and> cnWriterDone c"

inductive gstep :: "('s \<Rightarrow> resolve_error + 'h AdminRuntime) \<Rightarrow> ('s \<Rightarrow> 's \<Rightarrow> bool) \<Rightarrow> world \<Rightarrow> (nat \<Rightarrow> 8 word list) \<Rightarrow> (f64 \<Rightarrow> string) \<Rightarrow> (f64 \<Rightarrow> int) \<Rightarrow>
    ('s, 'h) gateway \<Rightarrow> ('s, 'h) gateway \<Rightarrow> bool" for resolve act w rnd fmt oor where
  resolver_changes: "act (svRes (gwServer g)) res \<Longrightarrow> gstep resolve act w rnd fmt oor g (g\<lparr>gwServer := (gwServer g)\<lparr>svRes := res\<rparr>\<rparr>)"
| refused: "admit resolve (gwServer g) r = Inl e \<Longrightarrow> gstep resolve act w rnd fmt oor g (g\<lparr>gwRefused := e # gwRefused g\<rparr>)"
| resolved: "admit resolve (gwServer g) r = Inr rt \<Longrightarrow>
     gstep resolve act w rnd fmt oor g (g\<lparr>gwResolved := gwResolved g @ [(rt, urModel r)]\<rparr>)"
| reserve: "i < length (gwResolved g) \<Longrightarrow> gwActive g + 1 \<le> limMaxSessions (svLimits (gwServer g)) \<Longrightarrow>
     gstep resolve act w rnd fmt oor g (g\<lparr>gwActive := gwActive g + 1, gwResolved := drop_nth i (gwResolved g),
       gwAccepting := gwAccepting g @ [gwResolved g ! i]\<rparr>)"
| overshoot: "i < length (gwResolved g) \<Longrightarrow> limMaxSessions (svLimits (gwServer g)) < gwActive g + 1 \<Longrightarrow>
     gstep resolve act w rnd fmt oor g (g\<lparr>gwActive := gwActive g + 1, gwResolved := drop_nth i (gwResolved g), gwOver := Suc (gwOver g)\<rparr>)"
| give_back: "gwOver g = Suc n \<Longrightarrow>
     gstep resolve act w rnd fmt oor g (g\<lparr>gwActive := gwActive g - 1, gwOver := n, gwRefused := max_sessions_reached # gwRefused g\<rparr>)"
| not_opened: "i < length (gwAccepting g) \<Longrightarrow>
     gstep resolve act w rnd fmt oor g (g\<lparr>gwActive := gwActive g - 1, gwAccepting := drop_nth i (gwAccepting g)\<rparr>)"
| opened: "i < length (gwAccepting g) \<Longrightarrow> gwAccepting g ! i = (rt, model) \<Longrightarrow>
     gstep resolve act w rnd fmt oor g (g\<lparr>gwAccepting := drop_nth i (gwAccepting g),
       gwConns := gwConns g @ [serve rnd sid model (session_options (svLimits (gwServer g)) rt)]\<rparr>)"
| served: "i < length (gwConns g) \<Longrightarrow> cstep w rnd fmt oor (gwConns g ! i) c \<Longrightarrow>
     gstep resolve act w rnd fmt oor g (g\<lparr>gwConns := (gwConns g)[i := c]\<rparr>)"
| left: "i < length (gwConns g) \<Longrightarrow> conn_over (gwConns g ! i) \<Longrightarrow>
     gstep resolve act w rnd fmt oor g (g\<lparr>gwActive := gwActive g - 1, gwConns := drop_nth i (gwConns g)\<rparr>)"
| shutdown: "gstep resolve act w rnd fmt oor g (g\<lparr>gwServer := (gwServer g)\<lparr>svShut := True\<rparr>\<rparr>)"

inductive greach :: "('s \<Rightarrow> resolve_error + 'h AdminRuntime) \<Rightarrow> ('s \<Rightarrow> 's \<Rightarrow> bool) \<Rightarrow> world \<Rightarrow> (nat \<Rightarrow> 8 word list) \<Rightarrow> (f64 \<Rightarrow> string) \<Rightarrow> (f64 \<Rightarrow> int) \<Rightarrow>
    ('s, 'h) gateway \<Rightarrow> ('s, 'h) gateway \<Rightarrow> bool" for resolve act w rnd fmt oor g0 where
  greach_refl: "greach resolve act w rnd fmt oor g0 g0"
| greach_step: "greach resolve act w rnd fmt oor g0 g \<Longrightarrow> gstep resolve act w rnd fmt oor g g' \<Longrightarrow> greach resolve act w rnd fmt oor g0 g'"

section \<open>Slots\<close>

text \<open>The counter counts the handlers that hold it, and the slots handed out never exceed the limit.\<close>

definition slots_ok :: "('s, 'h) gateway \<Rightarrow> bool" where
  "slots_ok g \<longleftrightarrow> gwActive g = int (gwOver g) + int (length (gwAccepting g)) + int (length (gwConns g)) \<and>
     int (length (gwAccepting g)) + int (length (gwConns g)) \<le> max 0 (limMaxSessions (svLimits (gwServer g)))"

lemma drop_nth_length [simp]: "i < length xs \<Longrightarrow> length (drop_nth i xs) = length xs - 1"
  by (simp add: drop_nth_def)

lemma drop_nth_set: "x \<in> set (drop_nth i xs) \<Longrightarrow> x \<in> set xs"
  by (auto simp: drop_nth_def dest: in_set_takeD in_set_dropD)

lemma gstep_slots: "gstep resolve act w rnd fmt oor g g' \<Longrightarrow> slots_ok g \<Longrightarrow> slots_ok g'"
  by (induction rule: gstep.induct) (auto simp: slots_ok_def)

lemma gstep_limits: "gstep resolve act w rnd fmt oor g g' \<Longrightarrow> svLimits (gwServer g') = svLimits (gwServer g)"
  by (induction rule: gstep.induct) simp_all

lemma greach_slots:
  "greach resolve act w rnd fmt oor (new_gateway cfg res) g \<Longrightarrow> slots_ok g \<and> svLimits (gwServer g) = scLimits cfg"
proof (induction rule: greach.induct)
  case greach_refl
  show ?case by (simp add: slots_ok_def new_gateway_def new_server_def)
next
  case (greach_step g g')
  then show ?case by (simp add: gstep_limits gstep_slots)
qed

text \<open>\<^bold>\<open>C10\<close>: the gateway never serves more sessions than \<open>max_sessions\<close>, whatever the interleaving of the
  handlers: the connections and the handlers about to open one stay within the limit, and the counter is
  exactly the number of handlers that hold it.\<close>

theorem max_sessions_kept:
  assumes "static_ok lookup cfg" "greach resolve act w rnd fmt oor (new_gateway cfg res) g"
  shows "int (length (gwConns g) + length (gwAccepting g)) \<le> limMaxSessions (scLimits cfg) \<and>
    gwActive g = int (gwOver g + length (gwAccepting g) + length (gwConns g))"
proof -
  have "0 < limMaxSessions (scLimits cfg)" using assms(1) by (simp add: static_ok_def limits_validate_iff)
  then show ?thesis using greach_slots [OF assms(2)] by (auto simp: slots_ok_def)
qed

section \<open>Over any resolver\<close>

text \<open>What the server relies on: a good resolver hands out valid session configurations and stays good.\<close>

locale resolver =
  fixes resolve :: "'s \<Rightarrow> resolve_error + 'h AdminRuntime"
    and act :: "'s \<Rightarrow> 's \<Rightarrow> bool"
    and good :: "'s \<Rightarrow> bool"
  assumes valid: "good s \<Longrightarrow> resolve s = Inr rt \<Longrightarrow> session_ok (rtSession rt)"
    and kept: "good s \<Longrightarrow> act s s' \<Longrightarrow> good s'"

definition started_well :: "world \<Rightarrow> (nat \<Rightarrow> 8 word list) \<Rightarrow> (f64 \<Rightarrow> string) \<Rightarrow> (f64 \<Rightarrow> int) \<Rightarrow> conn \<Rightarrow> bool" where
  "started_well w rnd fmt oor c \<longleftrightarrow>
     (\<exists>sid model opts. session_ok (ssCfg (New opts)) \<and> creach w rnd fmt oor (serve rnd sid model opts) c)"

definition runtimes_ok :: "('h AdminRuntime \<times> string) list \<Rightarrow> bool" where
  "runtimes_ok rts \<longleftrightarrow> (\<forall>rt \<in> fst ` set rts. session_ok (rtSession rt))"

lemma runtimes_ok_simps:
  "runtimes_ok []" "runtimes_ok (rts @ [(rt, m)]) \<longleftrightarrow> runtimes_ok rts \<and> session_ok (rtSession rt)"
  "runtimes_ok rts \<Longrightarrow> runtimes_ok (drop_nth i rts)"
  "runtimes_ok rts \<Longrightarrow> i < length rts \<Longrightarrow> session_ok (rtSession (fst (rts ! i)))"
  by (auto simp: runtimes_ok_def dest: drop_nth_set)

lemma apply_defaults_valid: "turn_detection_ok td \<Longrightarrow> ApplyDefaults td = td"
  by (auto simp: turn_detection_ok_def ApplyDefaults_def or_default_def split: option.split_asm)

lemma New_valid: "session_ok (opSession opts) \<Longrightarrow> session_ok (ssCfg (New opts))"
proof -
  assume ok: "session_ok (opSession opts)"
  have "map_option ApplyDefaults (aiTurnDetection (sdAudioInput (opSession opts))) = aiTurnDetection (sdAudioInput (opSession opts))"
    using ok by (cases "aiTurnDetection (sdAudioInput (opSession opts))") (simp_all add: session_ok_def apply_defaults_valid)
  then have "ssCfg (New opts) = opSession opts"
    by (simp add: New_def Let_def applyTurnDetection_def disarmEndOfTurn_def split: option.split)
  then show ?thesis using ok by simp
qed

definition gateway_ok :: "('s \<Rightarrow> bool) \<Rightarrow> world \<Rightarrow> (nat \<Rightarrow> 8 word list) \<Rightarrow> (f64 \<Rightarrow> string) \<Rightarrow> (f64 \<Rightarrow> int) \<Rightarrow> ('s, 'h) gateway \<Rightarrow> bool" where
  "gateway_ok good w rnd fmt oor g \<longleftrightarrow> good (svRes (gwServer g)) \<and> runtimes_ok (gwResolved g) \<and> runtimes_ok (gwAccepting g) \<and>
     list_all (started_well w rnd fmt oor) (gwConns g)"

context resolver
begin

lemma admit_valid: "admit resolve sv r = Inr rt \<Longrightarrow> good (svRes sv) \<Longrightarrow> session_ok (rtSession rt)"
  by (auto simp: admit_def valid split: if_split_asm sum.split_asm)

lemma gstep_ok: "gstep resolve act w rnd fmt oor g g' \<Longrightarrow> gateway_ok good w rnd fmt oor g \<Longrightarrow> gateway_ok good w rnd fmt oor g'"
proof (induction rule: gstep.induct)
  case (reserve i g)
  obtain rt m where "gwResolved g ! i = (rt, m)" by fastforce
  then show ?case using reserve runtimes_ok_simps(4) [of "gwResolved g" i] by (simp add: gateway_ok_def runtimes_ok_simps)
next
  case (opened i g rt model sid)
  have "session_ok (rtSession rt)" using opened runtimes_ok_simps(4) [of "gwAccepting g" i] by (simp add: gateway_ok_def)
  then have "started_well w rnd fmt oor (serve rnd sid model (session_options (svLimits (gwServer g)) rt))"
    unfolding started_well_def
    using New_valid [of "session_options (svLimits (gwServer g)) rt"] creach_refl by (fastforce simp: session_options_def)
  then show ?case using opened by (simp add: gateway_ok_def runtimes_ok_simps)
next
  case (served i g c)
  have "started_well w rnd fmt oor (gwConns g ! i)" using served by (simp add: gateway_ok_def list_all_length)
  then have "started_well w rnd fmt oor c" using served(2) by (auto simp: started_well_def intro: creach_step)
  then show ?case using served by (auto simp: gateway_ok_def list_all_iff dest!: set_update_subset_insert [THEN subsetD])
next
  case (left i g)
  then show ?case by (auto simp: gateway_ok_def list_all_iff dest: drop_nth_set)
qed (auto simp: gateway_ok_def runtimes_ok_simps kept admit_valid)

lemma gateway_connections:
  "greach resolve act w rnd fmt oor (new_gateway cfg res) g \<Longrightarrow> good res \<Longrightarrow> gateway_ok good w rnd fmt oor g"
proof (induction rule: greach.induct)
  case greach_refl
  then show ?case by (simp add: gateway_ok_def new_gateway_def new_server_def runtimes_ok_simps)
next
  case (greach_step g g')
  then show ?case using gstep_ok by blast
qed

lemma frames_seen:
  assumes "greach resolve act w rnd fmt oor (new_gateway cfg res) g" "good res" "c \<in> set (gwConns g)"
  shows "prefix (map frType (sent_by FromPump (cnWritten c)))
           ([''session.created'', ''conversation.created''] @ concat (map wire_types (ssEvents (cnSess c)))) \<and>
         list_all (\<lambda>f. frType f = ''error'') (sent_by FromReader (cnWritten c)) \<and>
         distinct (map (frID \<circ> snd) (cnWritten c))"
proof -
  have "started_well w rnd fmt oor c" using gateway_connections [OF assms(1,2)] assms(3) by (auto simp: gateway_ok_def list_all_iff)
  then obtain sid model opts where "session_ok (ssCfg (New opts))" "creach w rnd fmt oor (serve rnd sid model opts) c"
    by (auto simp: started_well_def)
  then show ?thesis by (rule connection_frames)
qed

end

section \<open>Over the admin store\<close>

definition admin_act :: "'h env \<Rightarrow> 'h store \<Rightarrow> 'h store \<Rightarrow> bool" where
  "admin_act env s s' \<longleftrightarrow> (\<exists>key io r resp. io_ok env io (stDisk s) \<and> authenticate env key io r s = (s', resp))"

lemma resolve_valid:
  assumes "store_reach env s" "Resolve s = Inr rt"
  shows "session_ok (rtSession rt)"
proof -
  obtain p where p: "map_of (rcProfiles (store_Config s)) (rcDefaultProfile (store_Config s)) = Some p" "rtSession rt = Profile_SessionDefaults p"
    using assms(2) by (auto simp: Resolve_def Let_def store_Config_def split: if_split_asm option.split_asm sum.split_asm)
  then show ?thesis using reach_ok [OF assms(1)] profile_session_ok by (fastforce simp: store_ok_def runtime_ok_def)
qed

interpretation admin_resolver: resolver Resolve "admin_act env" "store_reach env" for env
  by unfold_locales (auto simp: admin_act_def intro: resolve_valid store_reach.request)

text \<open>The whole gateway: whatever the operator does to the configuration while calls are served, every
  connection the gateway admits sees a correct stream - the greeting, then the projection of its session's
  events in order and without gaps, interleaved only with errors that answer its own messages, and no event
  id twice.\<close>

theorem gateway_serves:
  assumes "store_reach env s0" "greach Resolve (admin_act env) w rnd fmt oor (new_gateway cfg s0) g" "c \<in> set (gwConns g)"
  shows "prefix (map frType (sent_by FromPump (cnWritten c)))
           ([''session.created'', ''conversation.created''] @ concat (map wire_types (ssEvents (cnSess c)))) \<and>
         list_all (\<lambda>f. frType f = ''error'') (sent_by FromReader (cnWritten c)) \<and>
         distinct (map (frID \<circ> snd) (cnWritten c))"
  by (rule admin_resolver.frames_seen [OF assms(2,1,3)])

section \<open>An instance\<close>

text \<open>A client connects to a gateway over \<^const>\<open>demo_store\<close>: it is resolved, gets a slot and is served.\<close>

lemma demo_connects:
  obtains g c where "greach Resolve (admin_act demo_env) w rnd fmt oor (new_gateway demo_static demo_store) g" "gwConns g = [c]"
proof -
  let ?step = "gstep Resolve (admin_act demo_env) w rnd fmt oor"
  let ?g0 = "new_gateway demo_static demo_store"
  let ?r = "\<lparr>urMethod = ''GET'', urAuthorization = ''Bearer key'', urModel = ''m''\<rparr>"
  obtain rt where "Resolve demo_store = Inr rt"
    using resolve_default [OF demo_reach demo_honest] by (auto simp: demo_store_Config demo_config_def)
  moreover have "trim_space ''key'' = ''key''" by code_simp
  ultimately have "admit Resolve (gwServer ?g0) ?r = Inr rt"
    by (simp add: admit_def authorized_def new_gateway_def new_server_def demo_static_def)
  note s1 = gstep.resolved [OF this, of "admin_act demo_env" w rnd fmt oor]
  let ?g1 = "?g0\<lparr>gwResolved := [(rt, ''m'')]\<rparr>"
  let ?g2 = "?g1\<lparr>gwActive := 1, gwResolved := [], gwAccepting := [(rt, ''m'')]\<rparr>"
  have "?step ?g0 ?g1" using s1 by (simp add: new_gateway_def)
  moreover have "?step ?g1 ?g2"
    using gstep.reserve [of 0 ?g1 Resolve "admin_act demo_env" w rnd fmt oor]
    by (simp add: new_gateway_def new_server_def demo_static_def DefaultConfig_def drop_nth_def)
  moreover have "?step ?g2 (?g2\<lparr>gwAccepting := [], gwConns := [serve rnd ''s'' ''m'' (session_options (scLimits demo_static) rt)]\<rparr>)"
    using gstep.opened [of 0 ?g2 rt "''m''" Resolve "admin_act demo_env" w rnd fmt oor "''s''"]
    by (simp add: new_gateway_def new_server_def drop_nth_def)
  ultimately have "greach Resolve (admin_act demo_env) w rnd fmt oor ?g0
      (?g2\<lparr>gwAccepting := [], gwConns := [serve rnd ''s'' ''m'' (session_options (scLimits demo_static) rt)]\<rparr>)"
    by (blast intro: greach_refl greach_step)
  then show thesis by (rule that) simp
qed

theorem max_sessions_kept_witness:
  "\<exists>g c. gwConns g = [c] \<and> greach Resolve (admin_act demo_env) calm (\<lambda>_. []) demo_fmt (\<lambda>_. 0) (new_gateway demo_static demo_store) g \<and>
     int (length (gwConns g) + length (gwAccepting g)) \<le> limMaxSessions (scLimits demo_static) \<and>
     gwActive g = int (gwOver g + length (gwAccepting g) + length (gwConns g))"
proof -
  obtain g c where g: "greach Resolve (admin_act demo_env) calm (\<lambda>_. []) demo_fmt (\<lambda>_. 0) (new_gateway demo_static demo_store) g" "gwConns g = [c]"
    by (rule demo_connects)
  then show ?thesis using max_sessions_kept [OF demo_static_ok g(1)] by blast
qed

theorem gateway_serves_witness:
  "\<exists>g c. greach Resolve (admin_act demo_env) calm (\<lambda>_. []) demo_fmt (\<lambda>_. 0) (new_gateway demo_static demo_store) g \<and> c \<in> set (gwConns g) \<and>
     distinct (map (frID \<circ> snd) (cnWritten c))"
proof -
  obtain g c where g: "greach Resolve (admin_act demo_env) calm (\<lambda>_. []) demo_fmt (\<lambda>_. 0) (new_gateway demo_static demo_store) g" "gwConns g = [c]"
    by (rule demo_connects)
  then have "distinct (map (frID \<circ> snd) (cnWritten c))" using gateway_serves [OF demo_reach g(1), of c] by simp
  then show ?thesis using g by auto
qed

end
