(* ===== verification/Telemetry.thy ===== *)
theory Telemetry
  imports ProviderCommon
begin

text \<open>
  \<^verbatim>\<open>internal/observability\<close> and \<^verbatim>\<open>internal/recorder\<close>: log levels, the redaction of secret attributes as the JSON
  handler of \<^verbatim>\<open>log/slog\<close> applies it, the summary of an ended session, and the set-up and shutdown of the
  telemetry exporters, whose constructors and shutdown functions are parameters.
\<close>

section \<open>logging.go\<close>

datatype log_level = LevelDebug | LevelInfo | LevelWarn | LevelError

fun level_num :: "log_level \<Rightarrow> int" where
  "level_num LevelDebug = - 4"
| "level_num LevelInfo = 0"
| "level_num LevelWarn = 4"
| "level_num LevelError = 8"

definition ParseLevel :: "string \<Rightarrow> log_level option" where
  "ParseLevel s =
     (let l = to_lower s in
      if l = ''debug'' then Some LevelDebug
      else if l = ''info'' then Some LevelInfo
      else if l = ''warn'' then Some LevelWarn
      else if l = ''error'' then Some LevelError
      else None)"

definition Redacted :: string where "Redacted = ''[REDACTED]''"

definition secretKeyFragments :: "string list" where
  "secretKeyFragments = [''api_key'', ''apikey'', ''authorization'', ''token'', ''secret'', ''password'']"

definition IsSecretKey :: "string \<Rightarrow> bool" where
  "IsSecretKey key \<longleftrightarrow> list_ex (contains_str (to_lower key)) secretKeyFragments"

datatype log_value = LogStr string | LogInt int | LogBool bool | LogGroup "(string \<times> log_value) list"

definition redactAttr :: "string \<times> log_value \<Rightarrow> string \<times> log_value" where
  "redactAttr a =
     (case snd a of
        LogGroup _ \<Rightarrow> a
      | _ \<Rightarrow> if IsSecretKey (fst a) then (fst a, LogStr Redacted) else a)"

text \<open>How the handler writes an attribute: a group is not passed to the replacement function, its members are; a
  group without a name is written inline and one without members not at all.\<close>

primrec write_value :: "log_value \<Rightarrow> string \<Rightarrow> (string \<times> log_value) list" where
  "write_value (LogStr s) key = [redactAttr (key, LogStr s)]"
| "write_value (LogInt n) key = [redactAttr (key, LogInt n)]"
| "write_value (LogBool b) key = [redactAttr (key, LogBool b)]"
| "write_value (LogGroup as) key =
     (let ms = concat (map (\<lambda>(k, f). f k) (map (map_prod id write_value) as))
      in if key = [] then ms else if as = [] then [] else [(key, LogGroup ms)])"

definition write_attr :: "string \<times> log_value \<Rightarrow> (string \<times> log_value) list" where
  "write_attr a = write_value (snd a) (fst a)"

definition write_attrs :: "(string \<times> log_value) list \<Rightarrow> (string \<times> log_value) list" where
  "write_attrs as = concat (map write_attr as)"

text \<open>A record below the level of the logger is not written.\<close>

definition log_line :: "log_level \<Rightarrow> log_level \<Rightarrow> string \<Rightarrow> (string \<times> log_value) list \<Rightarrow> (string \<times> (string \<times> log_value) list) option" where
  "log_line level l msg as = (if level_num l < level_num level then None else Some (msg, write_attrs as))"

section \<open>recorder.go\<close>

record Summary =
  smSessionID :: string
  smStartedAt :: int
  smEndedAt :: int
  smEndReason :: string
  smItems :: int
  smResponses :: int

text \<open>Times are nanoseconds.\<close>

definition SessionEnded :: "log_level \<Rightarrow> Summary \<Rightarrow> (string \<times> (string \<times> log_value) list) option" where
  "SessionEnded level s = log_line level LevelInfo ''session ended''
     [(''session_id'', LogStr (smSessionID s)),
      (''duration_ms'', LogInt (go_div (smEndedAt s - smStartedAt s) 1000000)),
      (''end_reason'', LogStr (smEndReason s)),
      (''items'', LogInt (smItems s)),
      (''responses'', LogInt (smResponses s))]"

section \<open>otel.go\<close>

text \<open>A shutdown function gives its error, if any; all of them run, one after the other.\<close>

fun run_shutdowns :: "('ctx \<Rightarrow> string option) list \<Rightarrow> 'ctx \<Rightarrow> nat \<times> string list" where
  "run_shutdowns [] ctx = (0, [])"
| "run_shutdowns (f # fs) ctx =
     (let (n, errs) = run_shutdowns fs ctx in (Suc n, (case f ctx of None \<Rightarrow> errs | Some e \<Rightarrow> e # errs)))"

text \<open>\<open>errors.Join\<close>: no error when there are none, otherwise their texts on lines of their own.\<close>

fun join_lines :: "string list \<Rightarrow> string" where
  "join_lines [] = []"
| "join_lines [e] = e"
| "join_lines (e # es) = e @ [CHR 0x0A] @ join_lines es"

definition Telemetry_Shutdown :: "('ctx \<Rightarrow> string option) list \<Rightarrow> 'ctx \<Rightarrow> string option" where
  "Telemetry_Shutdown fs ctx =
     (case snd (run_shutdowns fs ctx) of [] \<Rightarrow> None | errs \<Rightarrow> Some (join_lines errs))"

record exporters =
  exTrace :: "string \<Rightarrow> string option"
  exMetric :: "string \<Rightarrow> string option"

text \<open>The telemetry that is set up, by whether it exports, or the error.\<close>

definition otel_Setup :: "exporters \<Rightarrow> string \<Rightarrow> string + bool" where
  "otel_Setup ex endpoint =
     (if endpoint = [] then Inr False
      else case exTrace ex endpoint of
        Some e \<Rightarrow> Inl (''otlp trace exporter: '' @ e)
      | None \<Rightarrow> (case exMetric ex endpoint of
          Some e \<Rightarrow> Inl (''otlp metric exporter: '' @ e)
        | None \<Rightarrow> Inr True))"

definition otel_instruments :: "string list" where
  "otel_instruments =
     [''cascade.asr.first_transcript_ms'', ''cascade.asr.final_transcript_ms'', ''cascade.asr.commit_to_final_ms'', ''cascade.llm.ttft_ms'',
      ''cascade.tts.first_audio_ms'', ''cascade.e2e_ms'', ''cascade.interrupt_ms'', ''cascade.provider.errors'', ''cascade.sessions.ended'',
      ''cascade.sessions.active'', ''cascade.admin.config_writes'']"

section \<open>Properties\<close>

text \<open>The leaves of a log line: key and value, wherever they are nested.\<close>

primrec value_leaves :: "log_value \<Rightarrow> string \<Rightarrow> (string \<times> log_value) list" where
  "value_leaves (LogStr s) key = [(key, LogStr s)]"
| "value_leaves (LogInt n) key = [(key, LogInt n)]"
| "value_leaves (LogBool b) key = [(key, LogBool b)]"
| "value_leaves (LogGroup as) key = concat (map (\<lambda>(k, f). f k) (map (map_prod id value_leaves) as))"

definition leaves :: "(string \<times> log_value) list \<Rightarrow> (string \<times> log_value) list" where
  "leaves as = concat (map (\<lambda>a. value_leaves (snd a) (fst a)) as)"

lemma leaves_simps [simp]: "leaves [] = []" "leaves (a # as) = value_leaves (snd a) (fst a) @ leaves as" "leaves (as @ bs) = leaves as @ leaves bs"
  by (simp_all add: leaves_def)

lemma group_members [simp]: "(\<lambda>(k, f). f k) \<circ> map_prod id h = (\<lambda>a. h (snd a) (fst a))"
  by (auto simp: fun_eq_iff)

lemma group_leaves: "value_leaves (LogGroup as) key = leaves as"
  by (simp add: leaves_def)

definition redact_leaf :: "string \<times> log_value \<Rightarrow> string \<times> log_value" where
  "redact_leaf a = (if IsSecretKey (fst a) then (fst a, LogStr Redacted) else a)"

lemma leaves_write_value: "leaves (write_value v key) = map redact_leaf (value_leaves v key)"
proof (induction v arbitrary: key)
  case (LogGroup as)
  have "leaves (concat (map (\<lambda>a. write_value (snd a) (fst a)) bs)) = map redact_leaf (concat (map (\<lambda>a. value_leaves (snd a) (fst a)) bs))"
    if "set bs \<subseteq> set as" for bs
    using that
  proof (induction bs)
    case (Cons b bs)
    have "leaves (write_value (snd b) (fst b)) = map redact_leaf (value_leaves (snd b) (fst b))"
      using LogGroup Cons.prems by (cases b) force
    with Cons show ?case by simp
  qed simp
  from this [of as] show ?case by (simp add: Let_def flip: leaves_def)
qed (simp_all add: redactAttr_def redact_leaf_def)

text \<open>No secret is logged: however attributes are grouped, the line written holds the leaves that were given, in order, with
  the value of every one whose key looks like a credential replaced and all others unchanged.\<close>

theorem log_redacts:
  "leaves (write_attrs as) = map redact_leaf (leaves as)"
  "(k, v) \<in> set (leaves (write_attrs as)) \<Longrightarrow> IsSecretKey k \<Longrightarrow> v = LogStr Redacted"
proof -
  show *: "leaves (write_attrs as) = map redact_leaf (leaves as)"
    by (induction as) (simp_all add: write_attrs_def write_attr_def leaves_write_value)
  show "(k, v) \<in> set (leaves (write_attrs as)) \<Longrightarrow> IsSecretKey k \<Longrightarrow> v = LogStr Redacted"
    unfolding * by (auto simp: redact_leaf_def split: if_splits)
qed

text \<open>The name of a group is not looked at: a secret that is grouped under its name is logged.\<close>

lemma grouped_secret_logged:
  "IsSecretKey ''token'' \<and> write_attrs [(''token'', LogGroup [(''value'', LogStr ''t0k'')])] = [(''token'', LogGroup [(''value'', LogStr ''t0k'')])]"
  by code_simp

text \<open>Every shutdown function runs, and the error joins exactly the errors they gave.\<close>

lemma shutdown_runs_all:
  "fst (run_shutdowns fs ctx) = length fs" "snd (run_shutdowns fs ctx) = List.map_filter (\<lambda>f. f ctx) fs"
  by (induction fs) (auto simp: Let_def List.map_filter_simps split: option.split prod.splits)

lemma shutdown_ok_iff: "Telemetry_Shutdown fs ctx = None \<longleftrightarrow> (\<forall>f\<in>set fs. f ctx = None)"
proof -
  have "List.map_filter (\<lambda>f. f ctx) fs = [] \<longleftrightarrow> (\<forall>f\<in>set fs. f ctx = None)" by (simp add: List.map_filter_def filter_empty_conv)
  then show ?thesis by (cases "List.map_filter (\<lambda>f. f ctx) fs") (auto simp: Telemetry_Shutdown_def shutdown_runs_all)
qed

text \<open>The level names of the configuration are those the logger knows.\<close>

lemma parse_level_known: "s \<in> {''debug'', ''info'', ''warn'', ''error''} \<Longrightarrow> ParseLevel s \<noteq> None"
proof -
  have "to_lower ''debug'' = ''debug''" "to_lower ''info'' = ''info''" "to_lower ''warn'' = ''warn''" "to_lower ''error'' = ''error''"
    by (simp_all add: to_lower_def runes.simps decode_rune_def lead_info_def lower_rune_def string_of_runes_def encode_rune_def valid_rune_def
        char_of_def bit_0)
  then have "list_all (\<lambda>s. ParseLevel s \<noteq> None) [''debug'', ''info'', ''warn'', ''error'']" by (simp add: ParseLevel_def)
  then show "s \<in> {''debug'', ''info'', ''warn'', ''error''} \<Longrightarrow> ParseLevel s \<noteq> None" by auto
qed

lemma instruments_distinct: "distinct otel_instruments"
  by (simp add: otel_instruments_def)

end
