(* ===== verification/Command.thy ===== *)
theory Command
  imports Factories Gateway Telemetry
begin

text \<open>
  \<^verbatim>\<open>cmd/cascade/main.go\<close>: the command line, the start of the process from the configuration file to the listeners, and
  its end. The file system, the environment, the exporters' constructors and what ended the process are
  arguments; a listener or a shutdown is an effect in a list. The store is the one of \<^verbatim>\<open>internal/admin\<close> over the
  registry the binary fills, and what runs while the process serves is the gateway machine.
\<close>

section \<open>Flags\<close>

text \<open>The \<^verbatim>\<open>flag\<close> package on the two flags: \<^term>\<open>None\<close> when it reports an error (\<open>-h\<close> included). Parsing stops at the first
  argument that is no flag; what follows is not looked at.\<close>

definition ParseBool :: "string \<Rightarrow> bool option" where
  "ParseBool s =
     (if s \<in> {''1'', ''t'', ''T'', ''true'', ''TRUE'', ''True''} then Some True
      else if s \<in> {''0'', ''f'', ''F'', ''false'', ''FALSE'', ''False''} then Some False
      else None)"

definition split_flag :: "string \<Rightarrow> string \<times> string option" where
  "split_flag name =
     (case name of
        [] \<Rightarrow> ([], None)
      | c # rest \<Rightarrow> (c # takeWhile (\<lambda>x. x \<noteq> CHR ''='') rest,
          case dropWhile (\<lambda>x. x \<noteq> CHR ''='') rest of [] \<Rightarrow> None | _ # v \<Rightarrow> Some v))"

fun parse_flags :: "string list \<Rightarrow> string \<times> bool \<Rightarrow> (string \<times> bool) option" where
  "parse_flags [] r = Some r"
| "parse_flags (s # args) r =
     (if length s < 2 \<or> hd s \<noteq> CHR ''-'' \<or> s = ''--'' then Some r
      else let name = drop (if s ! 1 = CHR ''-'' then 2 else 1) s in
        if hd name = CHR ''-'' \<or> hd name = CHR ''='' then None
        else let (key, val) = split_flag name in
          if key = ''check'' then
            (case val of
               None \<Rightarrow> parse_flags args (fst r, True)
             | Some v \<Rightarrow> (case ParseBool v of None \<Rightarrow> None | Some b \<Rightarrow> parse_flags args (fst r, b)))
          else if key = ''config'' then
            (case val of
               Some v \<Rightarrow> parse_flags args (v, snd r)
             | None \<Rightarrow> (case args of [] \<Rightarrow> None | v # args' \<Rightarrow> parse_flags args' (v, snd r)))
          else None)"

section \<open>Start\<close>

record command_env =
  cmFile :: "string \<Rightarrow> document option"
  cmLookupEnv :: "string \<Rightarrow> string option"
  cmFactories :: factory_env
  cmFmt :: "f64 \<Rightarrow> string"
  cmExporters :: exporters
  cmReadable :: bool
  cmIo :: io
  cmDisk :: disk

definition Load :: "command_env \<Rightarrow> string \<Rightarrow> StaticConfig option" where
  "Load cm path =
     (case cmFile cm path of
        None \<Rightarrow> None
      | Some raw \<Rightarrow> (case Parse (feDur (cmFactories cm)) raw (cmLookupEnv cm) of Inl _ \<Rightarrow> None | Inr cfg \<Rightarrow> Some cfg))"

definition store_env :: "command_env \<Rightarrow> provider_handle registry \<Rightarrow> StaticConfig \<Rightarrow> provider_handle env" where
  "store_env cm reg cfg =
     \<lparr>enPath = abStateFile (scAdmin cfg), enKnown = Some (Known reg), enLookupEnv = cmLookupEnv cm, enFmt = cmFmt cm, enRegistry = reg\<rparr>"

datatype started = Checked StaticConfig log_level | StartFailed StaticConfig log_level | Serving StaticConfig log_level "provider_handle store"

text \<open>\<open>run\<close> up to the point where it listens: an exit code when there is no valid configuration, otherwise how far it
  came. The process exits with 2 when an
  \<open>init\<close> panics.\<close>

definition startup :: "command_env \<Rightarrow> string list \<Rightarrow> nat + started" where
  "startup cm args =
     (case init_registry (cmFactories cm) of
        None \<Rightarrow> Inl 2
      | Some reg \<Rightarrow>
     (case parse_flags args (''config.json'', False) of
        None \<Rightarrow> Inl 2
      | Some (path, check) \<Rightarrow>
     (case Load cm path of
        None \<Rightarrow> Inl 1
      | Some cfg \<Rightarrow>
     (case Config_Validate (Some (Known reg)) cfg of
        Some _ \<Rightarrow> Inl 1
      | None \<Rightarrow>
     (case ParseLevel (obLogLevel (scObservability cfg)) of
        None \<Rightarrow> Inl 1
      | Some level \<Rightarrow>
          if check then Inr (Checked cfg level)
          else case otel_Setup (cmExporters cm) (obOTelEndpoint (scObservability cfg)) of
            Inl _ \<Rightarrow> Inr (StartFailed cfg level)
          | Inr _ \<Rightarrow>
              (case Open (store_env cm reg cfg) (map_option sub_document (scBootstrap cfg)) (cmReadable cm) (cmIo cm) (cmDisk cm) of
                 Inl _ \<Rightarrow> Inr (StartFailed cfg level)
               | Inr s \<Rightarrow> Inr (Serving cfg level s)))))))"

section \<open>Run\<close>

datatype wait_result = ListenFailed | ListenClosed | Signalled

datatype effect =
    Logged string "(string \<times> log_value) list"
  | ListenHTTP string | ListenAdmin string
  | StopAdmin | StopHTTP | EndSessions | FlushTelemetry

definition loaded_attrs :: "string \<Rightarrow> StaticConfig \<Rightarrow> (string \<times> log_value) list" where
  "loaded_attrs path cfg =
     [(''config'', LogStr path), (''listen'', LogStr (scListen cfg)),
      (''admin_enabled'', LogBool (auAdminAPIKey (scAuth cfg) \<noteq> [])),
      (''admin.listen'', LogStr (abListen (scAdmin cfg))), (''admin.state_file'', LogStr (abStateFile (scAdmin cfg))),
      (''bootstrap'', LogBool (scBootstrap cfg \<noteq> None)), (''max_sessions'', LogInt (limMaxSessions (scLimits cfg))),
      (''log_level'', LogStr (obLogLevel (scObservability cfg))), (''otel_enabled'', LogBool (obOTelEndpoint (scObservability cfg) \<noteq> []))]"

definition log_effect :: "log_level \<Rightarrow> string \<Rightarrow> (string \<times> log_value) list \<Rightarrow> effect list" where
  "log_effect level msg as = (case log_line level LevelInfo msg as of None \<Rightarrow> [] | Some (m, out) \<Rightarrow> [Logged m out])"

definition admin_enabled :: "StaticConfig \<Rightarrow> bool" where
  "admin_enabled cfg \<longleftrightarrow> auAdminAPIKey (scAuth cfg) \<noteq> []"

definition listen_effects :: "StaticConfig \<Rightarrow> log_level \<Rightarrow> effect list" where
  "listen_effects cfg level =
     ListenHTTP (scListen cfg) # log_effect level ''listening'' [(''addr'', LogStr (scListen cfg)), (''path'', LogStr ''/v1/realtime'')] @
     (if admin_enabled cfg
      then ListenAdmin (abListen (scAdmin cfg))
        # log_effect level ''admin listening'' [(''addr'', LogStr (abListen (scAdmin cfg))), (''path'', LogStr ''/admin/v1'')]
      else [])"

definition end_effects :: "StaticConfig \<Rightarrow> log_level \<Rightarrow> wait_result \<Rightarrow> effect list" where
  "end_effects cfg level w =
     (case w of
        ListenFailed \<Rightarrow> []
      | ListenClosed \<Rightarrow> [FlushTelemetry]
      | Signalled \<Rightarrow> log_effect level ''shutting down'' [] @ (if admin_enabled cfg then [StopAdmin] else [])
          @ [StopHTTP, EndSessions, FlushTelemetry])"

definition flag_path :: "string list \<Rightarrow> string" where
  "flag_path args = (case parse_flags args (''config.json'', False) of None \<Rightarrow> [] | Some (path, _) \<Rightarrow> path)"

text \<open>The exit code and the effects, in order.\<close>

definition run :: "command_env \<Rightarrow> wait_result \<Rightarrow> string list \<Rightarrow> nat \<times> effect list" where
  "run cm w args =
     (case startup cm args of
        Inl code \<Rightarrow> (code, [])
      | Inr (Checked cfg level) \<Rightarrow> (0, log_effect level ''configuration loaded'' (loaded_attrs (flag_path args) cfg))
      | Inr (StartFailed cfg level) \<Rightarrow> (1, log_effect level ''configuration loaded'' (loaded_attrs (flag_path args) cfg))
      | Inr (Serving cfg level s) \<Rightarrow>
          (if w = ListenFailed then 1 else 0,
           log_effect level ''configuration loaded'' (loaded_attrs (flag_path args) cfg) @ listen_effects cfg level @ end_effects cfg level w))"

section \<open>Properties\<close>

lemma startup_cases:
  "startup cm args =
     (case parse_flags args (''config.json'', False) of
        None \<Rightarrow> Inl 2
      | Some (path, check) \<Rightarrow> (case Load cm path of
          None \<Rightarrow> Inl 1
        | Some cfg \<Rightarrow>
            if static_ok (Some (Known (shipped (cmFactories cm)))) cfg
            then (let level = the (ParseLevel (obLogLevel (scObservability cfg))) in
              if check then Inr (Checked cfg level)
              else case otel_Setup (cmExporters cm) (obOTelEndpoint (scObservability cfg)) of
                Inl _ \<Rightarrow> Inr (StartFailed cfg level)
              | Inr _ \<Rightarrow> (case Open (store_env cm (shipped (cmFactories cm)) cfg) (map_option sub_document (scBootstrap cfg)) (cmReadable cm)
                    (cmIo cm) (cmDisk cm) of
                  Inl _ \<Rightarrow> Inr (StartFailed cfg level) | Inr s \<Rightarrow> Inr (Serving cfg level s)))
            else Inl 1))"
proof -
  let ?known = "Some (Known (shipped (cmFactories cm)))"
  have level: "static_ok ?known cfg \<Longrightarrow> ParseLevel (obLogLevel (scObservability cfg)) \<noteq> None" for cfg
    using parse_level_known [of "obLogLevel (scObservability cfg)"] by (simp add: static_ok_def logLevels_def)
  show ?thesis
  proof (cases "parse_flags args (''config.json'', False)")
    case (Some pc)
    obtain path check where pc: "pc = (path, check)" by fastforce
    show ?thesis
    proof (cases "Load cm path")
      case (Some cfg)
      note loaded = Some
      show ?thesis
      proof (cases "static_ok ?known cfg")
        case True
        then obtain level where "ParseLevel (obLogLevel (scObservability cfg)) = Some level" using level by blast
        with True loaded pc \<open>parse_flags _ _ = Some pc\<close> show ?thesis
          by (simp add: startup_def init_registry_eq static_validate_None [THEN iffD2])
      next
        case False
        then obtain e where "Config_Validate ?known cfg = Some e" using static_validate_None by blast
        with False loaded pc \<open>parse_flags _ _ = Some pc\<close> show ?thesis by (simp add: startup_def init_registry_eq)
      qed
    qed (use Some pc in \<open>simp add: startup_def init_registry_eq\<close>)
  qed (simp add: startup_def init_registry_eq)
qed

text \<open>What a run does: with \<open>-check\<close> it opens nothing, writes nothing and exits with 0 exactly when the file holds a valid
  configuration; the admin listener is there exactly when an admin key is configured; and a shutdown stops the
  listeners before it ends the sessions and flushes telemetry last.\<close>

lemma run_check:
  assumes "parse_flags args (''config.json'', False) = Some (path, True)"
  shows "fst (run cm w args) = (case Load cm path of None \<Rightarrow> 1
      | Some cfg \<Rightarrow> if static_ok (Some (Known (shipped (cmFactories cm)))) cfg then 0 else 1)"
    and "\<forall>e \<in> set (snd (run cm w args)). \<exists>m as. e = Logged m as"
  using assms
  by (auto simp: run_def startup_cases Let_def log_effect_def log_line_def split: option.splits)

lemma run_admin_listens:
  assumes "startup cm args = Inr (Serving cfg level s)"
  shows "(\<exists>addr. ListenAdmin addr \<in> set (snd (run cm w args))) \<longleftrightarrow> auAdminAPIKey (scAuth cfg) \<noteq> []"
  using assms
  by (auto simp: run_def listen_effects_def end_effects_def admin_enabled_def log_effect_def log_line_def split: option.splits wait_result.splits)

text \<open>The line that logs the configuration does not depend on the keys, and nothing in it has to be hidden.\<close>

lemma loaded_attrs_no_keys:
  assumes "(auAdminAPIKey a = []) = (auAdminAPIKey (scAuth cfg) = [])"
  shows "loaded_attrs path (cfg\<lparr>scAuth := a\<rparr>) = loaded_attrs path cfg"
  using assms by (simp add: loaded_attrs_def)

section \<open>The process as a whole\<close>

lemma serving_ok:
  assumes "startup cm args = Inr (Serving cfg level s)" "io_ok (store_env cm (shipped (cmFactories cm)) cfg) (cmIo cm) (cmDisk cm)"
  shows "static_ok (Some (Known (shipped (cmFactories cm)))) cfg" "store_reach (store_env cm (shipped (cmFactories cm)) cfg) s"
proof -
  from assms(1) show "static_ok (Some (Known (shipped (cmFactories cm)))) cfg"
    by (auto simp: startup_cases Let_def split: option.splits if_splits sum.splits)
  from assms(1) have "Open (store_env cm (shipped (cmFactories cm)) cfg) (map_option sub_document (scBootstrap cfg)) (cmReadable cm)
      (cmIo cm) (cmDisk cm) = Inr s"
    by (auto simp: startup_cases Let_def split: option.splits if_splits sum.splits)
  then show "store_reach (store_env cm (shipped (cmFactories cm)) cfg) s" using assms(2) by (rule store_reach.opened)
qed

text \<open>What the clients of a gateway see.\<close>

definition well_served :: "StaticConfig \<Rightarrow> ('s, 'h) gateway \<Rightarrow> bool" where
  "well_served cfg g \<longleftrightarrow>
     int (length (gwConns g) + length (gwAccepting g)) \<le> limMaxSessions (scLimits cfg)
     \<and> (\<forall>c \<in> set (gwConns g).
          prefix (map frType (sent_by FromPump (cnWritten c)))
            ([''session.created'', ''conversation.created''] @ concat (map wire_types (ssEvents (cnSess c))))
          \<and> list_all (\<lambda>f. frType f = ''error'') (sent_by FromReader (cnWritten c))
          \<and> distinct (map (frID \<circ> snd) (cnWritten c)))"

lemma gateway_well_served:
  assumes "static_ok lookup cfg" "store_reach env s" "greach Resolve (admin_act env) w rnd fmt oor (new_gateway cfg s) g"
  shows "well_served cfg g"
proof -
  have "0 < limMaxSessions (scLimits cfg)" using assms(1) by (simp add: static_ok_def limits_validate_iff)
  then show ?thesis
    using greach_slots [OF assms(3)] admin_resolver.frames_seen [OF assms(3,2)] by (auto simp: well_served_def slots_ok_def)
qed


section \<open>An instance\<close>

definition demo_file :: document where
  "demo_file = sub_document (JObj [(''auth'', JObj [(''api_key'', JStr ''key''), (''admin_api_key'', JStr ''admin'')])])"

definition demo_command :: command_env where
  "demo_command = \<lparr>cmFile = (\<lambda>path. if path = ''c.json'' then Some demo_file else None),
     cmLookupEnv = (\<lambda>v. if v = ''KEY'' then Some ''s3cret'' else None), cmFactories = demo_factories, cmFmt = demo_fmt,
     cmExporters = \<lparr>exTrace = (\<lambda>_. None), exMetric = (\<lambda>_. None)\<rparr>, cmReadable = True, cmIo = demo_io,
     cmDisk = [''cascade-state.json'' \<mapsto> MarshalRuntimeConfig demo_fmt demo_config]\<rparr>"

lemma demo_flags: "parse_flags [''-config'', ''c.json''] (''config.json'', False) = Some (''c.json'', False)"
  by code_simp

lemma demo_load: "Load demo_command ''c.json'' = Some demo_static"
  by code_simp

lemma demo_env_eq: "store_env demo_command (shipped (cmFactories demo_command)) demo_static = mock_env"
  by (simp add: store_env_def demo_command_def demo_static_def DefaultConfig_def mock_env_def)

lemma demo_static_known: "static_ok (Some (Known (shipped (cmFactories demo_command)))) demo_static"
proof -
  have "scBootstrap demo_static = None" by (simp add: demo_static_def DefaultConfig_def)
  with demo_static_ok show ?thesis unfolding static_ok_def by simp
qed

lemma demo_serving:
  "\<exists>level s. startup demo_command [''-config'', ''c.json''] = Inr (Serving demo_static level s) \<and> store_Config s = demo_config"
proof -
  obtain b where b: "build mock_env demo_config = Inr b" using mock_build by blast
  have "DecodeRuntimeConfig (MarshalRuntimeConfig demo_fmt demo_config) [] = Inr demo_config"
    using decode_marshal [OF demo_config_ok demo_config_storable, of "[]"] by (simp add: demo_normal)
  moreover have "compile mock_env demo_config = Inr \<lparr>snCfg = demo_config, snBuilt = b\<rparr>" by (simp add: compile_Inr mock_runtime_ok b)
  ultimately have "Open mock_env None True demo_io (cmDisk demo_command) = Inr \<lparr>stCur = \<lparr>snCfg = demo_config, snBuilt = b\<rparr>, stDisk = cmDisk demo_command\<rparr>"
    by (simp add: Open_def demo_command_def prepare_def mock_env_def)
  moreover have "scBootstrap demo_static = None" "obOTelEndpoint (scObservability demo_static) = []" "cmReadable demo_command"
    "cmIo demo_command = demo_io" by (simp_all add: demo_static_def DefaultConfig_def demo_command_def)
  ultimately show ?thesis
    by (simp add: startup_cases demo_flags demo_load demo_static_known demo_env_eq otel_Setup_def Let_def store_Config_def
        del: parse_flags.simps)
qed


end
